(* ===== verification/Prelude.thy ===== *)
theory Prelude
  imports Complex_Main "HOL-Library.Code_Target_Nat"
begin

text \<open>
  Shared vocabulary of the development: JavaScript values and their coercions, the string
  operations of the standard library the source uses, insertion-ordered maps and sets, the
  result of code that may throw, and state-passing computations that may throw.

  Strings are HOL strings: a JavaScript string whose UTF-16 code units are all below 256.
  Numbers that come out of parsed JSON are rationals (every finite double is one); counters,
  clocks and sizes are \<open>int\<close> or \<open>nat\<close>, as no code modelled here reaches the range where
  doubles stop being exact.
\<close>

named_theorems keeps_rules \<open>rules that show that a computation keeps a predicate of its state\<close>
named_theorems run_simps \<open>successful runs of throwing computations\<close>

section \<open>JavaScript values\<close>

datatype js =
    Undefined
  | Null
  | Bool bool
  | Num rat
  | Str string
  | Arr "js list"
  | Obj "(string \<times> js) list"

fun truthy :: "js \<Rightarrow> bool" where
  "truthy Undefined = False"
| "truthy Null = False"
| "truthy (Bool b) = b"
| "truthy (Num n) = (n \<noteq> 0)"
| "truthy (Str s) = (s \<noteq> [])"
| "truthy (Arr _) = True"
| "truthy (Obj _) = True"

fun nullish :: "js \<Rightarrow> bool" where
  "nullish Undefined = True"
| "nullish Null = True"
| "nullish _ = False"

text \<open>\<open>typeof v === 'object'\<close> holds of \<open>null\<close> and arrays as well.\<close>

fun typeof_object :: "js \<Rightarrow> bool" where
  "typeof_object Null = True"
| "typeof_object (Arr _) = True"
| "typeof_object (Obj _) = True"
| "typeof_object _ = False"

fun is_array :: "js \<Rightarrow> bool" where
  "is_array (Arr _) = True"
| "is_array _ = False"

fun as_string :: "js \<Rightarrow> string option" where
  "as_string (Str s) = Some s"
| "as_string _ = None"

text \<open>Own property of an object; a missing one reads as \<open>undefined\<close>. \<open>opt_get\<close> is \<open>v?.k\<close>.\<close>

definition obj_get :: "(string \<times> js) list \<Rightarrow> string \<Rightarrow> js" where
  "obj_get kvs k = (case map_of kvs k of None \<Rightarrow> Undefined | Some v \<Rightarrow> v)"

fun opt_get :: "js \<Rightarrow> string \<Rightarrow> js" where
  "opt_get (Obj kvs) k = obj_get kvs k"
| "opt_get _ k = Undefined"

section \<open>Errors\<close>

text \<open>
  What the source throws: \<open>Error\<close> with its message (the HTTP status is the part after the
  bar), a \<open>TypeError\<close> of the language, or a failed database constraint.
\<close>

datatype js_error = Error string | TypeError | ConstraintFailed

type_synonym 'a res = "js_error + 'a"

section \<open>Strings\<close>

definition starts_with :: "string \<Rightarrow> string \<Rightarrow> bool" where
  "starts_with s p = (take (length p) s = p)"

definition ends_with :: "string \<Rightarrow> string \<Rightarrow> bool" where
  "ends_with s p = (length p \<le> length s \<and> drop (length s - length p) s = p)"

fun includes_str :: "string \<Rightarrow> string \<Rightarrow> bool" where
  "includes_str [] p = (p = [])"
| "includes_str (c # cs) p = (starts_with (c # cs) p \<or> includes_str cs p)"

text \<open>White space of \<open>String.prototype.trim\<close> and of \<open>\s\<close> below code unit 256.\<close>

definition is_ws :: "char \<Rightarrow> bool" where
  "is_ws c = (let n = of_char c :: nat in 9 \<le> n \<and> n \<le> 13 \<or> n = 32 \<or> n = 160)"

definition trim_start :: "string \<Rightarrow> string" where
  "trim_start s = dropWhile is_ws s"

definition trim_end :: "string \<Rightarrow> string" where
  "trim_end s = rev (dropWhile is_ws (rev s))"

definition trim :: "string \<Rightarrow> string" where
  "trim s = trim_end (trim_start s)"

text \<open>\<open>s.split(c)\<close> for a one-character separator: never the empty list.\<close>

fun split_on :: "char \<Rightarrow> string \<Rightarrow> string list" where
  "split_on c [] = [[]]"
| "split_on c (x # xs) =
     (if x = c then [] # split_on c xs
      else (case split_on c xs of [] \<Rightarrow> [[x]] | w # ws \<Rightarrow> (x # w) # ws))"

fun join :: "string \<Rightarrow> string list \<Rightarrow> string" where
  "join sep [] = []"
| "join sep [w] = w"
| "join sep (w # v # ws) = w @ sep @ join sep (v # ws)"

definition is_digit :: "char \<Rightarrow> bool" where
  "is_digit c = (let n = of_char c :: nat in 48 \<le> n \<and> n \<le> 57)"

definition is_upper :: "char \<Rightarrow> bool" where
  "is_upper c = (let n = of_char c :: nat in 65 \<le> n \<and> n \<le> 90)"

definition is_lower :: "char \<Rightarrow> bool" where
  "is_lower c = (let n = of_char c :: nat in 97 \<le> n \<and> n \<le> 122)"

definition digit_val :: "char \<Rightarrow> nat" where
  "digit_val c = of_char c - 48"

text \<open>\<open>Number(s)\<close> of a string of decimal digits.\<close>

definition dec_val :: "string \<Rightarrow> nat" where
  "dec_val s = foldl (\<lambda>n c. 10 * n + digit_val c) 0 s"

text \<open>Lower case of ASCII letters; what the modelled code compares is ASCII.\<close>

definition to_lower_char :: "char \<Rightarrow> char" where
  "to_lower_char c = (if is_upper c then char_of (of_char c + 32 :: nat) else c)"

definition to_lower :: "string \<Rightarrow> string" where
  "to_lower s = map to_lower_char s"

fun nat_digits :: "nat \<Rightarrow> string" where
  "nat_digits n =
     (if n < 10 then [char_of (48 + n)] else nat_digits (n div 10) @ [char_of (48 + n mod 10)])"

declare nat_digits.simps [simp del]

definition show_nat :: "nat \<Rightarrow> string" where
  "show_nat n = nat_digits n"

definition show_int :: "int \<Rightarrow> string" where
  "show_int i = (if i < 0 then ''-'' @ nat_digits (nat (- i)) else nat_digits (nat i))"

text \<open>\<open>/^[A-Za-z0-9_-]{1,64}$/\<close> of \<open>utils/validation.ts\<close>: ulids, uuids and prefixed ulids.\<close>

definition id_char :: "char \<Rightarrow> bool" where
  "id_char c = (is_upper c \<or> is_lower c \<or> is_digit c \<or> c = CHR ''_'' \<or> c = CHR ''-'')"

lemma starts_with_append [simp]: "starts_with (p @ s) p"
  by (simp add: starts_with_def)

lemma starts_with_Nil [simp]: "starts_with s []"
  by (simp add: starts_with_def)

lemma starts_with_iff: "starts_with s p \<longleftrightarrow> (\<exists>r. s = p @ r)"
proof
  assume "starts_with s p"
  then have "s = p @ drop (length p) s"
    by (metis starts_with_def append_take_drop_id)
  then show "\<exists>r. s = p @ r" ..
qed (auto simp: starts_with_def)

lemma split_on_not_Nil [simp]: "split_on c s \<noteq> []"
  by (induction s) (auto split: list.splits)

lemma join_split_on: "join [c] (split_on c s) = s"
proof (induction s)
  case (Cons x xs)
  obtain w ws where "split_on c xs = w # ws"
    by (metis list.exhaust split_on_not_Nil)
  with Cons show ?case by (cases ws) auto
qed simp

lemma split_on_no_sep: "c \<notin> set s \<Longrightarrow> split_on c s = [s]"
  by (induction s) auto

lemma split_on_append: "c \<notin> set a \<Longrightarrow> split_on c (a @ c # b) = a # split_on c b"
  by (induction a) auto

lemma split_join:
  "ws \<noteq> [] \<Longrightarrow> \<forall>w \<in> set ws. c \<notin> set w \<Longrightarrow> split_on c (join [c] ws) = ws"
  by (induction "[c]" ws rule: join.induct) (auto simp: split_on_no_sep split_on_append)

lemma digit_not_ws: "is_digit c \<Longrightarrow> \<not> is_ws c"
  by (simp add: is_digit_def is_ws_def Let_def)

lemma split_on_parts: "p \<in> set (split_on c s) \<Longrightarrow> c \<notin> set p"
proof (induction s arbitrary: p)
  case (Cons x xs)
  then show ?case by (cases "split_on c xs") (auto split: if_splits)
qed simp

lemma nat_digits_not_Nil [simp]: "nat_digits n \<noteq> []"
  by (subst nat_digits.simps) auto

lemma dec_val_append: "dec_val (s @ [c]) = 10 * dec_val s + digit_val c"
  by (simp add: dec_val_def)

lemma digit_val_char_of: "d < 10 \<Longrightarrow> digit_val (char_of (48 + d)) = d"
  by (simp add: digit_val_def)

lemma dec_val_nat_digits: "dec_val (nat_digits n) = n"
proof (induction n rule: nat_digits.induct)
  case (1 n)
  show ?case
  proof (cases "n < 10")
    case True
    then show ?thesis
      by (subst nat_digits.simps) (simp add: dec_val_def digit_val_char_of)
  next
    case False
    then have "dec_val (nat_digits (n div 10)) = n div 10" using 1 by simp
    with False show ?thesis
      by (subst nat_digits.simps) (simp add: dec_val_append digit_val_char_of)
  qed
qed

lemma nat_digits_is_digit: "c \<in> set (nat_digits n) \<Longrightarrow> is_digit c"
proof (induction n rule: nat_digits.induct)
  case (1 n)
  then show ?case
    by (subst (asm) (2) nat_digits.simps) (auto simp: is_digit_def split: if_splits)
qed

section \<open>Insertion-ordered maps and sets\<close>

text \<open>
  A JavaScript \<open>Map\<close> iterates in insertion order, and \<open>set\<close> on a key it holds keeps the key's
  place: an association list with at most one entry per key. A \<open>Set\<close> is the list of its members.
\<close>

type_synonym 'v jmap = "(string \<times> 'v) list"

fun jset :: "'k \<Rightarrow> 'v \<Rightarrow> ('k \<times> 'v) list \<Rightarrow> ('k \<times> 'v) list" where
  "jset k v [] = [(k, v)]"
| "jset k v ((k', v') # m) = (if k' = k then (k, v) # m else (k', v') # jset k v m)"

definition jdel :: "'k \<Rightarrow> ('k \<times> 'v) list \<Rightarrow> ('k \<times> 'v) list" where
  "jdel k m = filter (\<lambda>e. fst e \<noteq> k) m"

definition jkeys :: "('k \<times> 'v) list \<Rightarrow> 'k list" where
  "jkeys m = map fst m"

definition jwf :: "('k \<times> 'v) list \<Rightarrow> bool" where
  "jwf m = distinct (map fst m)"

definition sadd :: "'a \<Rightarrow> 'a list \<Rightarrow> 'a list" where
  "sadd x xs = (if x \<in> set xs then xs else xs @ [x])"

definition sdel :: "'a \<Rightarrow> 'a list \<Rightarrow> 'a list" where
  "sdel x xs = filter (\<lambda>y. y \<noteq> x) xs"

text \<open>\<open>[...new Set(xs)]\<close>: first occurrences, in order.\<close>

definition uniq :: "'a list \<Rightarrow> 'a list" where
  "uniq xs = foldl (\<lambda>s x. sadd x s) [] xs"

lemma map_of_jset [simp]: "map_of (jset k v m) = (map_of m)(k \<mapsto> v)"
  by (induction m) auto

lemma map_of_jdel [simp]: "map_of (jdel k m) = (map_of m)(k := None)"
  by (induction m) (auto simp: jdel_def)

lemma jwf_Nil [simp]: "jwf []"
  by (simp add: jwf_def)

lemma keys_jset: "fst ` set (jset k v m) = insert k (fst ` set m)"
  by (simp flip: dom_map_of_conv_image_fst)

lemma jwf_jset [simp]: "jwf m \<Longrightarrow> jwf (jset k v m)"
proof (induction m)
  case (Cons e m)
  then show ?case
    by (cases e) (auto simp: jwf_def keys_jset simp flip: image_set)
qed (simp add: jwf_def)

lemma jwf_jdel [simp]: "jwf m \<Longrightarrow> jwf (jdel k m)"
  by (induction m) (auto simp: jwf_def jdel_def)

lemma set_jkeys: "set (jkeys m) = dom (map_of m)"
  by (simp add: jkeys_def dom_map_of_conv_image_fst)

lemma length_jset_le: "length (jset k v m) \<le> Suc (length m)"
  by (induction m) auto

lemma set_sadd [simp]: "set (sadd x xs) = insert x (set xs)"
  by (auto simp: sadd_def)

lemma distinct_sadd [simp]: "distinct xs \<Longrightarrow> distinct (sadd x xs)"
  by (simp add: sadd_def)

lemma set_sdel [simp]: "set (sdel x xs) = set xs - {x}"
  by (auto simp: sdel_def)

lemma distinct_sdel [simp]: "distinct xs \<Longrightarrow> distinct (sdel x xs)"
  by (simp add: sdel_def)

lemma length_sadd_le: "length (sadd x xs) \<le> Suc (length xs)"
  by (simp add: sadd_def)

lemma length_sdel_le [simp]: "length (sdel x xs) \<le> length xs"
  by (simp add: sdel_def)

lemma foldl_sadd: "set (foldl (\<lambda>s x. sadd x s) acc xs) = set acc \<union> set xs"
  "distinct acc \<Longrightarrow> distinct (foldl (\<lambda>s x. sadd x s) acc xs)"
  by (induction xs arbitrary: acc) auto

lemma set_uniq [simp]: "set (uniq xs) = set xs"
  by (simp add: uniq_def foldl_sadd)

lemma distinct_uniq [simp]: "distinct (uniq xs)"
  by (simp add: uniq_def foldl_sadd)

section \<open>State-passing computations that may throw\<close>

text \<open>
  An operation of a service takes the state and gives the value it returns or the error it
  throws, together with the state it leaves: what it wrote before it threw stays written.
\<close>

type_synonym ('s, 'a) comp = "'s \<Rightarrow> 'a res \<times> 's"

definition ret :: "'a \<Rightarrow> ('s, 'a) comp" where
  "ret x = (\<lambda>s. (Inr x, s))"

definition throw :: "js_error \<Rightarrow> ('s, 'a) comp" where
  "throw e = (\<lambda>s. (Inl e, s))"

definition reads :: "('s \<Rightarrow> 'a) \<Rightarrow> ('s, 'a) comp" where
  "reads f = (\<lambda>s. (Inr (f s), s))"

definition writes :: "('s \<Rightarrow> 's) \<Rightarrow> ('s, unit) comp" where
  "writes f = (\<lambda>s. (Inr (), f s))"

definition bind_comp :: "('s, 'a) comp \<Rightarrow> ('a \<Rightarrow> ('s, 'b) comp) \<Rightarrow> ('s, 'b) comp" where
  "bind_comp m f = (\<lambda>s. case m s of (Inl e, s1) \<Rightarrow> (Inl e, s1) | (Inr x, s1) \<Rightarrow> f x s1)"

text \<open>\<open>if (bad) throw new Error(msg)\<close>.\<close>

definition refuse_if :: "bool \<Rightarrow> string \<Rightarrow> ('s, unit) comp" where
  "refuse_if bad msg = (if bad then throw (Error msg) else ret ())"

text \<open>\<open>for (const x of xs) await f(x)\<close>, collecting the results.\<close>

fun each_comp :: "('a \<Rightarrow> ('s, 'b) comp) \<Rightarrow> 'a list \<Rightarrow> ('s, 'b list) comp" where
  "each_comp f [] = ret []"
| "each_comp f (x # xs) =
     bind_comp (f x) (\<lambda>y. bind_comp (each_comp f xs) (\<lambda>ys. ret (y # ys)))"

definition keeps :: "('s \<Rightarrow> bool) \<Rightarrow> ('s, 'a) comp \<Rightarrow> bool" where
  "keeps P m = (\<forall>s. P s \<longrightarrow> P (snd (m s)))"

lemma ret_run [run_simps]: "ret x s = (Inr y, s') \<longleftrightarrow> y = x \<and> s' = s"
  by (auto simp: ret_def)

lemma throw_run [run_simps]: "\<not> throw e s = (Inr y, s')"
  by (simp add: throw_def)

lemma reads_run [run_simps]: "reads f s = (Inr y, s') \<longleftrightarrow> y = f s \<and> s' = s"
  by (auto simp: reads_def)

lemma writes_run [run_simps]: "writes f s = (Inr y, s') \<longleftrightarrow> s' = f s"
  by (auto simp: writes_def)

lemma bind_run [run_simps]:
  "bind_comp m f s = (Inr y, s') \<longleftrightarrow> (\<exists>x s1. m s = (Inr x, s1) \<and> f x s1 = (Inr y, s'))"
  by (auto simp: bind_comp_def split: prod.splits sum.splits)

lemma bind_ret_left [simp]: "bind_comp (ret x) f = f x"
  by (simp add: bind_comp_def ret_def)

lemma bind_reads: "bind_comp (reads g) f s = f (g s) s"
  by (simp add: bind_comp_def reads_def)

lemma refuse_run [run_simps]: "refuse_if b msg s = (Inr y, s') \<longleftrightarrow> \<not> b \<and> s' = s"
  by (auto simp: refuse_if_def throw_def ret_def)

lemma if_run [run_simps]:
  "(if b then m else m') s = (Inr y, s') \<longleftrightarrow> (if b then m s = (Inr y, s') else m' s = (Inr y, s'))"
  by simp

lemma keeps_ret [keeps_rules]: "keeps P (ret x)"
  by (simp add: keeps_def ret_def)

lemma keeps_throw [keeps_rules]: "keeps P (throw e)"
  by (simp add: keeps_def throw_def)

lemma keeps_reads [keeps_rules]: "keeps P (reads f)"
  by (simp add: keeps_def reads_def)

lemma keeps_writes: "(\<And>s. P s \<Longrightarrow> P (f s)) \<Longrightarrow> keeps P (writes f)"
  by (simp add: keeps_def writes_def)

lemma keeps_bind [keeps_rules]:
  assumes "keeps P m" and "\<And>x. keeps P (f x)"
  shows "keeps P (bind_comp m f)"
  using assms by (fastforce simp: keeps_def bind_comp_def split: prod.splits sum.splits)

lemma keeps_refuse [keeps_rules]: "keeps P (refuse_if b msg)"
  by (simp add: keeps_def refuse_if_def throw_def ret_def)

lemma keeps_if [keeps_rules]: "keeps P m \<Longrightarrow> keeps P m' \<Longrightarrow> keeps P (if b then m else m')"
  by simp

lemma keeps_case_option [keeps_rules]:
  "keeps P m \<Longrightarrow> (\<And>x. keeps P (f x)) \<Longrightarrow> keeps P (case ox of None \<Rightarrow> m | Some x \<Rightarrow> f x)"
  by (cases ox) auto

lemma keepsD: "keeps P m \<Longrightarrow> P s \<Longrightarrow> m s = (r, s') \<Longrightarrow> P s'"
  by (auto simp: keeps_def dest: spec [of _ s])

lemma keeps_snd: "keeps P m \<Longrightarrow> P s \<Longrightarrow> P (snd (m s))"
  by (simp add: keeps_def)

lemma map_of_fold_jdel: "map_of (fold (\<lambda>u m. jdel (f u) m) us m) k = (if k \<in> f ` set us then None else map_of m k)"
  by (induction us arbitrary: m) auto

lemma find_Some: "find P xs = Some x \<Longrightarrow> x \<in> set xs \<and> P x"
  by (auto simp: find_Some_iff)

end
