(* ===== verification/Rbac_Config.thy ===== *)
theory Rbac_Config
  imports Prelude
begin

text \<open>
  \<open>config/rbac.ts\<close> (the permission keys, the built-in roles and the reserved role ids) and
  the id pattern of \<open>utils/validation.ts\<close> that every repository method guards with.
\<close>

section \<open>Ids\<close>

definition isValidId :: "string \<Rightarrow> bool" where
  "isValidId v = (1 \<le> length v \<and> length v \<le> 64 \<and> list_all id_char v)"

section \<open>Permissions and built-in roles\<close>

definition PERMISSIONS :: "(string \<times> string) list" where
  "PERMISSIONS = [
    (''get:/api/projects/:id'', ''View project details''),
    (''patch:/api/projects/:id'', ''Edit project settings''),
    (''delete:/api/projects/:id'', ''Delete project''),
    (''get:/api/projects/:id/config'', ''View scan configuration''),
    (''post:/api/projects/:id/config'', ''Edit scan configuration''),
    (''get:/api/projects/:id/members'', ''View project members''),
    (''post:/api/projects/:id/invitations'', ''Invite new members''),
    (''delete:/api/projects/:id/members/:user_id'', ''Remove project members''),
    (''put:/api/projects/:id/members/:user_id'', ''Edit member roles''),
    (''post:/api/projects/:id/members/create'', ''Create user and service account profiles''),
    (''get:/api/projects/:id/roles'', ''View project roles''),
    (''post:/api/projects/:id/roles'', ''Create custom roles''),
    (''put:/api/projects/:id/roles/:role_id'', ''Edit custom roles''),
    (''delete:/api/projects/:id/roles/:role_id'', ''Delete custom roles''),
    (''post:/api/projects/:id/scans'', ''Start new scans''),
    (''get:/api/projects/:id/scans'', ''View scan history''),
    (''post:/api/projects/:id/schedule'', ''Configure scan schedule''),
    (''get:/api/projects/:id/members/:user_id/login-history'', ''View member login history''),
    (''get:/api/projects/:id/audit-logs'', ''View project audit trail''),
    (''get:/api/projects/:id/webhooks'', ''View project webhooks''),
    (''post:/api/projects/:id/webhooks'', ''Create project webhooks''),
    (''put:/api/projects/:id/webhooks/:webhook_id'', ''Edit project webhooks''),
    (''delete:/api/projects/:id/webhooks/:webhook_id'', ''Delete project webhooks''),
    (''post:/api/projects/:id/webhooks/:webhook_id/test'', ''Test project webhooks'')]"

definition permission_keys :: "string list" where
  "permission_keys = map fst PERMISSIONS"

definition editor_permissions :: "string list" where
  "editor_permissions = [
    ''get:/api/projects/:id'',
    ''patch:/api/projects/:id'',
    ''get:/api/projects/:id/config'',
    ''post:/api/projects/:id/config'',
    ''post:/api/projects/:id/schedule'',
    ''get:/api/projects/:id/members'',
    ''post:/api/projects/:id/invitations'',
    ''delete:/api/projects/:id/members/:user_id'',
    ''put:/api/projects/:id/members/:user_id'',
    ''post:/api/projects/:id/members/create'',
    ''get:/api/projects/:id/roles'',
    ''post:/api/projects/:id/roles'',
    ''put:/api/projects/:id/roles/:role_id'',
    ''delete:/api/projects/:id/roles/:role_id'',
    ''post:/api/projects/:id/scans'',
    ''get:/api/projects/:id/scans'',
    ''get:/api/projects/:id/members/:user_id/login-history'',
    ''get:/api/projects/:id/audit-logs'',
    ''get:/api/projects/:id/webhooks'',
    ''post:/api/projects/:id/webhooks'',
    ''put:/api/projects/:id/webhooks/:webhook_id'',
    ''delete:/api/projects/:id/webhooks/:webhook_id'',
    ''post:/api/projects/:id/webhooks/:webhook_id/test'']"

definition viewer_permissions :: "string list" where
  "viewer_permissions = [
    ''get:/api/projects/:id'',
    ''get:/api/projects/:id/config'',
    ''get:/api/projects/:id/members'',
    ''get:/api/projects/:id/roles'',
    ''get:/api/projects/:id/scans'']"

text \<open>The built-in roles, each with its display name and its permissions.\<close>

definition DEFAULT_ROLES :: "(string \<times> string \<times> string list) list" where
  "DEFAULT_ROLES = [
    (''owner'', ''Owner'', permission_keys),
    (''editor'', ''Editor'', editor_permissions),
    (''viewer'', ''Viewer'', viewer_permissions)]"

definition isBuiltInRole :: "string \<Rightarrow> bool" where
  "isBuiltInRole roleId = (map_of DEFAULT_ROLES roleId \<noteq> None)"

definition isReservedRoleId :: "string \<Rightarrow> bool" where
  "isReservedRoleId roleId = (isBuiltInRole roleId \<or> roleId = ''runner'')"

definition default_role_permissions :: "string \<Rightarrow> string list" where
  "default_role_permissions rid =
     (case map_of DEFAULT_ROLES rid of None \<Rightarrow> [] | Some (_, ps) \<Rightarrow> ps)"

lemma isBuiltInRole_iff: "isBuiltInRole r \<longleftrightarrow> r \<in> {''owner'', ''editor'', ''viewer''}"
  by (auto simp: isBuiltInRole_def DEFAULT_ROLES_def)

lemma default_role_permissions_custom [simp]:
  "\<not> isBuiltInRole r \<Longrightarrow> default_role_permissions r = []"
  by (simp add: default_role_permissions_def isBuiltInRole_def split: option.splits)

lemma owner_permissions [simp]: "default_role_permissions ''owner'' = permission_keys"
  by (simp add: default_role_permissions_def DEFAULT_ROLES_def)

lemma reserved_if_built_in: "isBuiltInRole r \<Longrightarrow> isReservedRoleId r"
  by (simp add: isReservedRoleId_def)

lemma editor_subset: "set editor_permissions \<subseteq> set permission_keys"
  by (simp add: editor_permissions_def permission_keys_def PERMISSIONS_def)

lemma viewer_subset: "set viewer_permissions \<subseteq> set editor_permissions"
  by (simp add: editor_permissions_def viewer_permissions_def)

lemma default_role_permissions_known:
  "set (default_role_permissions r) \<subseteq> set permission_keys"
proof (cases "isBuiltInRole r")
  case True
  then show ?thesis
    using editor_subset viewer_subset
    by (auto simp: isBuiltInRole_iff default_role_permissions_def DEFAULT_ROLES_def)
qed simp

end
