(* ===== verification/Rbac_Repo.thy ===== *)
theory Rbac_Repo
  imports Rbac_Config
begin

text \<open>
  \<open>repositories/rbac.ts\<close>: the tables behind project roles (migration 0018), the statements the
  repository runs on them, and the two caches of a user's permissions: the KV session cache,
  shared by all isolates, and the negative cache in the memory of one.

  A table is the list of its rows; a batch of statements is one transaction, so a statement
  that breaks a constraint undoes the batch. A stored JSON array of role ids is the list.
\<close>

section \<open>Tables and caches\<close>

record user_row =
  u_id :: string
  u_username :: string
  u_email :: "string option"
  u_verified :: bool
  u_guest :: bool
  u_two_factor :: bool
  u_github :: "string option"
  u_gitlab :: "string option"

record project_row =
  p_id :: string
  p_name :: string
  p_timeout :: "int option"

record role_row =
  r_id :: string
  r_project :: string
  r_name :: string

datatype invite_status = Pending | Accepted | Expired | Revoked

record invite_row =
  i_id :: string
  i_project :: string
  i_email :: "string option"
  i_username :: "string option"
  i_roles :: "string list"
  i_status :: invite_status
  i_token :: string
  i_expires :: int

text \<open>\<open>clock\<close> is \<open>Date.now()\<close>, in milliseconds; \<open>kv\<close> holds the cached permissions and when they expire.\<close>

record rbac =
  users :: "user_row list"
  projects :: "project_row list"
  members :: "(string \<times> string \<times> string) list"
  member_roles :: "(string \<times> string \<times> string) list"
  custom_roles :: "role_row list"
  role_perms :: "(string \<times> string) list"
  inheritance :: "(string \<times> string) list"
  invitations :: "invite_row list"
  kv_bound :: bool
  kv :: "(string \<times> string list \<times> int) list"
  neg :: "(string \<times> int) list"
  clock :: int

section \<open>Statements and batches\<close>

type_synonym stmt = "rbac \<Rightarrow> js_error + rbac"

fun run_batch :: "stmt list \<Rightarrow> stmt" where
  "run_batch [] db = Inr db"
| "run_batch (st # sts) db = (case st db of Inl e \<Rightarrow> Inl e | Inr db' \<Rightarrow> run_batch sts db')"

definition batch :: "stmt list \<Rightarrow> (rbac, unit) comp" where
  "batch sts = (\<lambda>db. case run_batch sts db of Inl e \<Rightarrow> (Inl e, db) | Inr db' \<Rightarrow> (Inr (), db'))"

definition insert_member_role :: "string \<Rightarrow> string \<Rightarrow> string \<Rightarrow> stmt" where
  "insert_member_role p u r db = (if (p, u, r) \<in> set (member_roles db) then Inl ConstraintFailed
     else Inr (db\<lparr>member_roles := member_roles db @ [(p, u, r)]\<rparr>))"

definition insert_or_ignore_member_role :: "string \<Rightarrow> string \<Rightarrow> string \<Rightarrow> stmt" where
  "insert_or_ignore_member_role p u r db = (Inr (db\<lparr>member_roles := sadd (p, u, r) (member_roles db)\<rparr>))"

definition insert_or_ignore_member :: "string \<Rightarrow> string \<Rightarrow> string \<Rightarrow> stmt" where
  "insert_or_ignore_member p u r db = (Inr (db\<lparr>members :=
     (if \<exists>(p', u', r') \<in> set (members db). p' = p \<and> u' = u then members db
      else members db @ [(p, u, r)])\<rparr>))"

definition delete_member_roles :: "string \<Rightarrow> string \<Rightarrow> stmt" where
  "delete_member_roles p u db = (Inr (db\<lparr>member_roles := filter (\<lambda>(p', u', _). \<not> (p' = p \<and> u' = u)) (member_roles db)\<rparr>))"

definition delete_member :: "string \<Rightarrow> string \<Rightarrow> stmt" where
  "delete_member p u db = (Inr (db\<lparr>members := filter (\<lambda>(p', u', _). \<not> (p' = p \<and> u' = u)) (members db)\<rparr>))"

definition set_legacy_role :: "string \<Rightarrow> string \<Rightarrow> string \<Rightarrow> stmt" where
  "set_legacy_role r p u db = (Inr (db\<lparr>members :=
     map (\<lambda>(p', u', r'). if p' = p \<and> u' = u then (p', u', r) else (p', u', r')) (members db)\<rparr>))"

definition insert_role_perm :: "string \<Rightarrow> string \<Rightarrow> stmt" where
  "insert_role_perm rid perm db = (if (rid, perm) \<in> set (role_perms db) then Inl ConstraintFailed
     else Inr (db\<lparr>role_perms := role_perms db @ [(rid, perm)]\<rparr>))"

definition insert_inheritance :: "string \<Rightarrow> string \<Rightarrow> stmt" where
  "insert_inheritance par child db = (if (par, child) \<in> set (inheritance db) then Inl ConstraintFailed
     else Inr (db\<lparr>inheritance := inheritance db @ [(par, child)]\<rparr>))"

text \<open>The primary key of a role is its id; its name is unique in its project.\<close>

definition insert_custom_role :: "string \<Rightarrow> string \<Rightarrow> string \<Rightarrow> stmt" where
  "insert_custom_role rid p name db =
     (if \<exists>r \<in> set (custom_roles db). r_id r = rid \<or> (r_project r = p \<and> r_name r = name)
     then Inl ConstraintFailed
     else Inr (db\<lparr>custom_roles := custom_roles db @ [\<lparr>r_id = rid, r_project = p, r_name = name\<rparr>]\<rparr>))"

text \<open>\<open>EXISTS (SELECT 1 FROM project_custom_roles WHERE id = ? AND project_id = ?)\<close>\<close>

definition owned :: "rbac \<Rightarrow> string \<Rightarrow> string \<Rightarrow> bool" where
  "owned db p rid = (\<exists>r \<in> set (custom_roles db). r_id r = rid \<and> r_project r = p)"

definition rename_role :: "string \<Rightarrow> string \<Rightarrow> string \<Rightarrow> stmt" where
  "rename_role name rid p db =
     (if owned db p rid \<and> (\<exists>r \<in> set (custom_roles db). r_id r \<noteq> rid \<and> r_project r = p \<and> r_name r = name)
     then Inl ConstraintFailed
     else Inr (db\<lparr>custom_roles :=
       map (\<lambda>r. if r_id r = rid \<and> r_project r = p then r\<lparr>r_name := name\<rparr> else r) (custom_roles db)\<rparr>))"

definition if_owned :: "string \<Rightarrow> string \<Rightarrow> stmt \<Rightarrow> stmt" where
  "if_owned p rid st db = (if owned db p rid then st db else Inr db)"

definition delete_role_perms :: "string \<Rightarrow> stmt" where
  "delete_role_perms rid db = (Inr (db\<lparr>role_perms := filter (\<lambda>(r, _). r \<noteq> rid) (role_perms db)\<rparr>))"

definition delete_inheritance_of_parent :: "string \<Rightarrow> stmt" where
  "delete_inheritance_of_parent rid db = (Inr (db\<lparr>inheritance := filter (\<lambda>(par, _). par \<noteq> rid) (inheritance db)\<rparr>))"

definition delete_inheritance_of :: "string \<Rightarrow> stmt" where
  "delete_inheritance_of rid db = (Inr (db\<lparr>inheritance := filter (\<lambda>(par, child). par \<noteq> rid \<and> child \<noteq> rid) (inheritance db)\<rparr>))"

definition delete_role_assignments :: "string \<Rightarrow> string \<Rightarrow> stmt" where
  "delete_role_assignments rid p db = (Inr (db\<lparr>member_roles := filter (\<lambda>(p', _, r). \<not> (r = rid \<and> p' = p)) (member_roles db)\<rparr>))"

definition delete_custom_role_row :: "string \<Rightarrow> string \<Rightarrow> stmt" where
  "delete_custom_role_row rid p db = (Inr (db\<lparr>custom_roles := filter (\<lambda>r. \<not> (r_id r = rid \<and> r_project r = p)) (custom_roles db)\<rparr>))"

section \<open>The permission caches\<close>

definition rbacCacheKey :: "string \<Rightarrow> string \<Rightarrow> string" where
  "rbacCacheKey projectId userId = ''rbac:v2:'' @ projectId @ '':'' @ userId"

definition rbacKeyPrefix :: "string \<Rightarrow> string" where
  "rbacKeyPrefix projectId = ''rbac:v2:'' @ projectId @ '':''"

definition clearNegativeProjectRbac :: "string \<Rightarrow> rbac \<Rightarrow> rbac" where
  "clearNegativeProjectRbac projectId db =
     db\<lparr>neg := filter (\<lambda>e. \<not> starts_with (fst e) (rbacKeyPrefix projectId)) (neg db)\<rparr>"

definition NEGATIVE_RBAC_TTL_MS :: int where "NEGATIVE_RBAC_TTL_MS = 60000"

definition MAX_NEGATIVE_RBAC_ENTRIES :: nat where "MAX_NEGATIVE_RBAC_ENTRIES = 1000"

text \<open>An entry past its time to live (24 hours, in seconds in the source) reads as absent.\<close>

definition kv_get :: "rbac \<Rightarrow> string \<Rightarrow> string list option" where
  "kv_get db k = (case map_of (kv db) k of None \<Rightarrow> None
     | Some (ps, expiry) \<Rightarrow> if clock db < expiry then Some ps else None)"

definition kv_put :: "string \<Rightarrow> string list \<Rightarrow> rbac \<Rightarrow> rbac" where
  "kv_put k ps db = db\<lparr>kv := jset k (ps, clock db + 86400000) (kv db)\<rparr>"

definition project_user_ids :: "rbac \<Rightarrow> string \<Rightarrow> string list" where
  "project_user_ids db p = remdups
     (map (\<lambda>(_, u, _). u) (filter (\<lambda>(p', _, _). p' = p) (member_roles db)) @
      map (\<lambda>(_, u, _). u) (filter (\<lambda>(p', _, _). p' = p) (members db)))"

definition invalidateProjectRBAC :: "string \<Rightarrow> (rbac, unit) comp" where
  "invalidateProjectRBAC projectId = writes (\<lambda>db.
     if \<not> isValidId projectId then db
     else let db1 = clearNegativeProjectRbac projectId db
          in if \<not> kv_bound db1 then db1
             else db1\<lparr>kv := fold (\<lambda>u m. jdel (rbacCacheKey projectId u) m)
                    (project_user_ids db1 projectId) (kv db1)\<rparr>)"

definition invalidateUserRBAC :: "string \<Rightarrow> string \<Rightarrow> (rbac, unit) comp" where
  "invalidateUserRBAC projectId userId = writes (\<lambda>db.
     if \<not> isValidId projectId \<or> \<not> isValidId userId then db
     else let db1 = db\<lparr>neg := jdel (rbacCacheKey projectId userId) (neg db)\<rparr>
          in if \<not> kv_bound db1 then db1
             else db1\<lparr>kv := jdel (rbacCacheKey projectId userId) (kv db1)\<rparr>)"

section \<open>Permissions from the tables\<close>

text \<open>One step of the recursive query: only a custom role of the project has included roles.\<close>

definition included_roles :: "rbac \<Rightarrow> string \<Rightarrow> string \<Rightarrow> string list" where
  "included_roles db p r =
     (if owned db p r then map snd (filter (\<lambda>(par, _). par = r) (inheritance db)) else [])"

text \<open>\<open>role_hierarchy\<close>: the starting roles at depth 0, then included roles while \<open>depth < 3\<close>.\<close>

fun role_levels :: "rbac \<Rightarrow> string \<Rightarrow> nat \<Rightarrow> string list \<Rightarrow> string list" where
  "role_levels db p 0 rs = rs"
| "role_levels db p (Suc n) rs = rs @ role_levels db p n (concat (map (included_roles db p) rs))"

definition role_hierarchy :: "rbac \<Rightarrow> string \<Rightarrow> string list \<Rightarrow> string list" where
  "role_hierarchy db p rs = remdups (role_levels db p 3 rs)"

definition custom_permissions :: "rbac \<Rightarrow> string \<Rightarrow> string list \<Rightarrow> string list" where
  "custom_permissions db p rids =
     map snd (filter (\<lambda>(rid, _). owned db p rid \<and> rid \<in> set rids) (role_perms db))"

text \<open>
  \<open>DEFAULT_ROLES[rid]\<close> reads an own property here. (The source's lookup would also find the
  inherited ones of \<open>Object.prototype\<close>; no such role id passes the callers' existence checks.)
\<close>

definition permissionsForRoleIds :: "rbac \<Rightarrow> string \<Rightarrow> string list \<Rightarrow> string list" where
  "permissionsForRoleIds db projectId roleIds =
     uniq (concat (map default_role_permissions roleIds) @
           custom_permissions db projectId (filter (\<lambda>r. \<not> isBuiltInRole r) roleIds))"

definition user_roles :: "rbac \<Rightarrow> string \<Rightarrow> string \<Rightarrow> string list" where
  "user_roles db p u = map (\<lambda>(_, _, r). r) (filter (\<lambda>(p', u', _). p' = p \<and> u' = u) (member_roles db))"

definition remember_no_roles :: "string \<Rightarrow> rbac \<Rightarrow> rbac" where
  "remember_no_roles key db =
     (let n = (if length (neg db) \<ge> MAX_NEGATIVE_RBAC_ENTRIES then tl (neg db) else neg db)
      in db\<lparr>neg := jset key (clock db + NEGATIVE_RBAC_TTL_MS) n\<rparr>)"

text \<open>What a miss of both caches does: query, remember, return.\<close>

definition load_permissions :: "string \<Rightarrow> string \<Rightarrow> (rbac, string list) comp" where
  "load_permissions userId projectId = (\<lambda>db.
     let key = rbacCacheKey projectId userId;
         roleResults = role_hierarchy db projectId (user_roles db projectId userId)
     in if roleResults = [] then (Inr [], remember_no_roles key db)
        else let permsArray = permissionsForRoleIds db projectId roleResults;
                 db1 = db\<lparr>neg := jdel key (neg db)\<rparr>
             in (Inr permsArray, if kv_bound db1 then kv_put key permsArray db1 else db1))"

definition kv_or_load :: "string \<Rightarrow> string \<Rightarrow> (rbac, string list) comp" where
  "kv_or_load userId projectId = (\<lambda>db.
     case (if kv_bound db then kv_get db (rbacCacheKey projectId userId) else None) of
       Some ps \<Rightarrow> (Inr ps, db)
     | None \<Rightarrow> load_permissions userId projectId db)"

definition getEffectivePermissions :: "string \<Rightarrow> string \<Rightarrow> (rbac, string list) comp" where
  "getEffectivePermissions userId projectId = (\<lambda>db.
     if \<not> isValidId projectId \<or> \<not> isValidId userId then (Inr [], db)
     else let key = rbacCacheKey projectId userId
          in case map_of (neg db) key of
               None \<Rightarrow> kv_or_load userId projectId db
             | Some negExpiry \<Rightarrow>
                 if clock db < negExpiry then (Inr [], db)
                 else kv_or_load userId projectId (db\<lparr>neg := jdel key (neg db)\<rparr>))"

definition checkPermission :: "string \<Rightarrow> string \<Rightarrow> string \<Rightarrow> (rbac, bool) comp" where
  "checkPermission userId projectId requiredPermission =
     (if \<not> isValidId projectId \<or> \<not> isValidId userId then ret False
      else bind_comp (getEffectivePermissions userId projectId) (\<lambda>permissions.
           ret (requiredPermission \<in> set permissions)))"

definition resolveRolePermissions :: "string \<Rightarrow> string list \<Rightarrow> (rbac, string list) comp" where
  "resolveRolePermissions projectId roleIds = reads (\<lambda>db.
     if \<not> isValidId projectId \<or> roleIds = [] then []
     else permissionsForRoleIds db projectId (role_hierarchy db projectId roleIds))"

section \<open>Reads\<close>

definition getProjectSessionTimeout :: "string \<Rightarrow> (rbac, int option) comp" where
  "getProjectSessionTimeout projectId = reads (\<lambda>db.
     if \<not> isValidId projectId then None
     else case find (\<lambda>p. p_id p = projectId) (projects db) of None \<Rightarrow> None | Some p \<Rightarrow> p_timeout p)"

definition isProjectMember :: "string \<Rightarrow> string \<Rightarrow> (rbac, bool) comp" where
  "isProjectMember projectId userId = reads (\<lambda>db. user_roles db projectId userId \<noteq> [])"

definition isGuestUser :: "string \<Rightarrow> (rbac, bool) comp" where
  "isGuestUser userId = reads (\<lambda>db.
     case find (\<lambda>u. u_id u = userId) (users db) of None \<Rightarrow> False | Some u \<Rightarrow> u_guest u)"

definition getCustomRoles :: "string \<Rightarrow> (rbac, role_row list) comp" where
  "getCustomRoles projectId = reads (\<lambda>db. filter (\<lambda>r. r_project r = projectId) (custom_roles db))"

definition getCustomRolePermissions :: "string list \<Rightarrow> (rbac, (string \<times> string) list) comp" where
  "getCustomRolePermissions roleIds = reads (\<lambda>db. filter (\<lambda>(r, _). r \<in> set roleIds) (role_perms db))"

definition getCustomRoleInheritance :: "string list \<Rightarrow> (rbac, (string \<times> string) list) comp" where
  "getCustomRoleInheritance roleIds = reads (\<lambda>db. filter (\<lambda>(r, _). r \<in> set roleIds) (inheritance db))"

definition checkCustomRolesExist :: "string \<Rightarrow> string list \<Rightarrow> (rbac, string list) comp" where
  "checkCustomRolesExist projectId roleIds = reads (\<lambda>db.
     map r_id (filter (\<lambda>r. r_project r = projectId \<and> r_id r \<in> set roleIds) (custom_roles db)))"

definition checkRoleNameExists :: "string \<Rightarrow> string \<Rightarrow> string option \<Rightarrow> (rbac, bool) comp" where
  "checkRoleNameExists projectId name excludeRoleId = reads (\<lambda>db.
     case excludeRoleId of
       Some ex \<Rightarrow> (\<exists>r \<in> set (custom_roles db). r_project r = projectId \<and> r_name r = name \<and> r_id r \<noteq> ex)
     | None \<Rightarrow> (\<exists>r \<in> set (custom_roles db). r_project r = projectId \<and> r_name r = name))"

definition getMemberRoles :: "string \<Rightarrow> string \<Rightarrow> (rbac, string list) comp" where
  "getMemberRoles projectId userId = reads (\<lambda>db. user_roles db projectId userId)"

definition project_owners :: "rbac \<Rightarrow> string \<Rightarrow> string list" where
  "project_owners db p = remdups (map (\<lambda>(_, u, _). u)
     (filter (\<lambda>(p', _, r). p' = p \<and> r = ''owner'') (member_roles db)))"

definition getProjectOwnersCount :: "string \<Rightarrow> (rbac, nat) comp" where
  "getProjectOwnersCount projectId = reads (\<lambda>db. length (project_owners db projectId))"

definition role_holders :: "rbac \<Rightarrow> string \<Rightarrow> string \<Rightarrow> string list" where
  "role_holders db p rid = remdups (map (\<lambda>(_, u, _). u)
     (filter (\<lambda>(p', _, r). p' = p \<and> r = rid) (member_roles db)))"

definition getRoleHolders :: "string \<Rightarrow> string \<Rightarrow> (rbac, string list) comp" where
  "getRoleHolders projectId roleId = reads (\<lambda>db. role_holders db projectId roleId)"

definition checkInvitationExists :: "string \<Rightarrow> string \<Rightarrow> (rbac, bool) comp" where
  "checkInvitationExists iid projectId = reads (\<lambda>db.
     \<exists>i \<in> set (invitations db). i_id i = iid \<and> i_project i = projectId)"

definition getInvitationRoles :: "string \<Rightarrow> string \<Rightarrow> (rbac, string list) comp" where
  "getInvitationRoles iid projectId = reads (\<lambda>db.
     case find (\<lambda>i. i_id i = iid \<and> i_project i = projectId) (invitations db) of
       None \<Rightarrow> [] | Some i \<Rightarrow> i_roles i)"

definition getUserDetails :: "string \<Rightarrow> (rbac, user_row option) comp" where
  "getUserDetails userId = reads (\<lambda>db. find (\<lambda>u. u_id u = userId) (users db))"

definition not_expired :: "rbac \<Rightarrow> invite_row \<Rightarrow> bool" where
  "not_expired db i = (i_expires i > clock db div 1000)"

definition getPendingInvitations :: "string \<Rightarrow> (rbac, invite_row list) comp" where
  "getPendingInvitations projectId = reads (\<lambda>db.
     filter (\<lambda>i. i_project i = projectId \<and> i_status i = Pending \<and> not_expired db i) (invitations db))"

text \<open>\<open>email IS NOT NULL AND verified AND lower(email) = lower(?)\<close>: an unknown address matches nothing.\<close>

definition email_matches :: "string \<Rightarrow> string option \<Rightarrow> bool" where
  "email_matches addr email = (case email of None \<Rightarrow> False | Some e \<Rightarrow> to_lower addr = to_lower e)"

definition getUserInvitations :: "string option \<Rightarrow> string \<Rightarrow> bool \<Rightarrow> (rbac, invite_row list) comp" where
  "getUserInvitations email username emailVerified = reads (\<lambda>db.
     filter (\<lambda>i. (\<exists>p \<in> set (projects db). p_id p = i_project i) \<and> i_status i = Pending \<and> not_expired db i \<and>
       ((case i_email i of None \<Rightarrow> False | Some a \<Rightarrow> emailVerified \<and> email_matches a email) \<or>
        i_username i = Some username)) (invitations db))"

definition getInvitationByToken :: "string \<Rightarrow> (rbac, invite_row option) comp" where
  "getInvitationByToken token = reads (\<lambda>db.
     find (\<lambda>i. i_token i = token \<and> i_status i = Pending) (invitations db))"

definition getProjectName :: "string \<Rightarrow> (rbac, string option) comp" where
  "getProjectName projectId = reads (\<lambda>db.
     case find (\<lambda>p. p_id p = projectId) (projects db) of None \<Rightarrow> None
     | Some p \<Rightarrow> if p_name p = [] then None else Some (p_name p))"

text \<open>One row per role of a member who is a user.\<close>

definition getProjectMembers :: "string \<Rightarrow> (rbac, (user_row \<times> string) list) comp" where
  "getProjectMembers projectId = reads (\<lambda>db.
     concat (map (\<lambda>(p, uid, r). if p = projectId
        then map (\<lambda>u. (u, r)) (filter (\<lambda>u. u_id u = uid) (users db)) else []) (member_roles db)))"

section \<open>Writes\<close>

definition createCustomRole_repo ::
    "string \<Rightarrow> string \<Rightarrow> string \<Rightarrow> string list \<Rightarrow> string list \<Rightarrow> (rbac, unit) comp" where
  "createCustomRole_repo roleId projectId name permissions includedRoles = batch
     (insert_custom_role roleId projectId name #
      map (insert_role_perm roleId) permissions @
      map (insert_inheritance roleId) includedRoles)"

definition updateInvitationRoles :: "string \<Rightarrow> string list \<Rightarrow> (rbac, unit) comp" where
  "updateInvitationRoles iid roles = (\<lambda>db.
     if roles = [] \<and> (\<exists>i \<in> set (invitations db). i_id i = iid) then (Inl ConstraintFailed, db)
     else (Inr (), db\<lparr>invitations :=
       map (\<lambda>i. if i_id i = iid then i\<lparr>i_roles := roles\<rparr> else i) (invitations db)\<rparr>))"

definition forget_no_roles :: "string \<Rightarrow> string \<Rightarrow> (rbac, unit) comp" where
  "forget_no_roles projectId userId =
     writes (\<lambda>db. db\<lparr>neg := jdel (rbacCacheKey projectId userId) (neg db)\<rparr>)"

definition legacy_role :: "string list \<Rightarrow> string" where
  "legacy_role roles = (if ''owner'' \<in> set roles then ''owner''
     else if ''editor'' \<in> set roles then ''editor'' else ''viewer'')"

definition updateMemberRoles_repo :: "string \<Rightarrow> string \<Rightarrow> string list \<Rightarrow> (rbac, unit) comp" where
  "updateMemberRoles_repo projectId userId roles =
     bind_comp (batch (delete_member_roles projectId userId #
                       map (insert_member_role projectId userId) roles @
                       [set_legacy_role (legacy_role roles) projectId userId]))
     (\<lambda>_. forget_no_roles projectId userId)"

definition revokeInvitation :: "string \<Rightarrow> (rbac, unit) comp" where
  "revokeInvitation iid = writes (\<lambda>db. db\<lparr>invitations :=
     map (\<lambda>i. if i_id i = iid then i\<lparr>i_status := Revoked\<rparr> else i) (invitations db)\<rparr>)"

definition removeProjectMember :: "string \<Rightarrow> string \<Rightarrow> (rbac, unit) comp" where
  "removeProjectMember projectId userId =
     bind_comp (batch [delete_member_roles projectId userId, delete_member projectId userId])
     (\<lambda>_. forget_no_roles projectId userId)"

definition updateCustomRole_repo ::
    "string \<Rightarrow> string \<Rightarrow> string \<Rightarrow> string list \<Rightarrow> string list \<Rightarrow> (rbac, bool) comp" where
  "updateCustomRole_repo projectId roleId name permissions includedRoles =
     bind_comp (reads (\<lambda>db. owned db projectId roleId)) (\<lambda>changed.
     bind_comp (batch
       ([rename_role name roleId projectId,
         if_owned projectId roleId (delete_role_perms roleId),
         if_owned projectId roleId (delete_inheritance_of_parent roleId)] @
        map (\<lambda>p. if_owned projectId roleId (insert_role_perm roleId p)) permissions @
        map (\<lambda>c. if_owned projectId roleId (insert_inheritance roleId c)) includedRoles))
     (\<lambda>_. ret changed))"

definition deleteCustomRole_repo :: "string \<Rightarrow> string \<Rightarrow> (rbac, bool) comp" where
  "deleteCustomRole_repo projectId roleId =
     bind_comp (reads (\<lambda>db. owned db projectId roleId)) (\<lambda>changed.
     bind_comp (batch
       [if_owned projectId roleId (delete_role_perms roleId),
        if_owned projectId roleId (delete_inheritance_of roleId),
        delete_role_assignments roleId projectId,
        delete_custom_role_row roleId projectId])
     (\<lambda>_. ret changed))"

definition createInvitation_repo ::
    "string \<Rightarrow> string \<Rightarrow> string option \<Rightarrow> string option \<Rightarrow> string list \<Rightarrow> string \<Rightarrow> int \<Rightarrow> (rbac, unit) comp" where
  "createInvitation_repo iid projectId email username roles token expiresAt = (\<lambda>db.
     if roles = [] \<or> (email = None \<and> username = None) \<or> (\<exists>i \<in> set (invitations db). i_id i = iid)
     then (Inl ConstraintFailed, db)
     else (Inr (), db\<lparr>invitations := invitations db @
       [\<lparr>i_id = iid, i_project = projectId, i_email = email, i_username = username, i_roles = roles,
         i_status = Pending, i_token = token, i_expires = expiresAt\<rparr>]\<rparr>))"

text \<open>Who may act on an invitation: it names the username, or a verified address of the user.\<close>

definition addressed_to :: "string \<Rightarrow> string option \<Rightarrow> bool \<Rightarrow> invite_row \<Rightarrow> bool" where
  "addressed_to username email emailVerified i =
     ((case i_username i of None \<Rightarrow> True | Some n \<Rightarrow> n = username) \<and>
      (case i_email i of None \<Rightarrow> True | Some a \<Rightarrow> emailVerified \<and> email_matches a email))"

definition acceptable :: "rbac \<Rightarrow> string \<Rightarrow> string \<Rightarrow> string option \<Rightarrow> bool \<Rightarrow> invite_row \<Rightarrow> bool" where
  "acceptable db token username email emailVerified i =
     (i_token i = token \<and> i_status i = Pending \<and> not_expired db i \<and> addressed_to username email emailVerified i)"

text \<open>
  The update marks every matching row; \<open>first()\<close> returns the first of them. The roles it carries
  are then inserted for the user in one batch.
\<close>

definition acceptInvitation_repo ::
    "string \<Rightarrow> string \<Rightarrow> string option \<Rightarrow> bool \<Rightarrow> string \<Rightarrow> (rbac, invite_row option) comp" where
  "acceptInvitation_repo token username email emailVerified userId = (\<lambda>db.
     case find (acceptable db token username email emailVerified) (invitations db) of
       None \<Rightarrow> (Inr None, db)
     | Some invite \<Rightarrow>
         bind_comp (writes (\<lambda>db. db\<lparr>invitations :=
             map (\<lambda>i. if acceptable db token username email emailVerified i then i\<lparr>i_status := Accepted\<rparr> else i)
               (invitations db)\<rparr>)) (\<lambda>_.
         bind_comp (batch (map (insert_or_ignore_member_role (i_project invite) userId) (i_roles invite) @
                           [insert_or_ignore_member (i_project invite) userId ''viewer''])) (\<lambda>_.
         bind_comp (forget_no_roles (i_project invite) userId) (\<lambda>_.
         ret (Some (invite\<lparr>i_status := Accepted\<rparr>))))) db)"

definition declineInvitation_repo ::
    "string \<Rightarrow> string \<Rightarrow> string option \<Rightarrow> bool \<Rightarrow> (rbac, bool) comp" where
  "declineInvitation_repo token username email emailVerified = (\<lambda>db.
     let hit = (\<lambda>i. i_token i = token \<and> i_status i = Pending \<and> addressed_to username email emailVerified i)
     in (Inr (list_ex hit (invitations db)),
         db\<lparr>invitations := map (\<lambda>i. if hit i then i\<lparr>i_status := Revoked\<rparr> else i) (invitations db)\<rparr>))"

end
