(* ===== verification/Caller_Covers.thy ===== *)
theory Caller_Covers
  imports Prelude
begin

text \<open>
  \<open>assertCallerCovers\<close> of \<open>services/rbac.ts\<close> and its two callers, over the two queries of
  \<open>IRbacRepository\<close> they use, and the contract of those queries, as the locale
  \<open>permission_source\<close>: under it the check refuses exactly the changes it is meant to refuse.
\<close>

section \<open>The check behind every role change\<close>

type_synonym 's effective_query = "string \<Rightarrow> string \<Rightarrow> ('s, string list) comp"
type_synonym 's resolve_query = "string \<Rightarrow> string list \<Rightarrow> ('s, string list) comp"

record scope =
  g_roles :: "string list"
  g_permissions :: "string list"
  s_members :: "string list"

definition absent :: "string option \<Rightarrow> bool" where
  "absent v = (v = None \<or> v = Some [])"

definition unauthorized :: string where "unauthorized = ''Unauthorized|401''"

definition cannot_grant :: string where
  "cannot_grant = ''Forbidden: You cannot grant permissions you do not hold|403''"

definition cannot_change :: string where
  "cannot_change = ''Forbidden: You cannot change a member who holds permissions you do not|403''"

text \<open>The queries of \<open>Promise.all\<close> only fill caches; here they run in the order they are listed.\<close>

definition assertCallerCovers ::
    "'s effective_query \<Rightarrow> 's resolve_query \<Rightarrow> string \<Rightarrow> string option \<Rightarrow> scope \<Rightarrow> ('s, unit) comp" where
  "assertCallerCovers eff res projectId callerId sc =
     (if absent callerId then throw (Error unauthorized)
      else let caller = the callerId; others = filter (\<lambda>m. m \<noteq> caller) (s_members sc) in
        bind_comp (eff caller projectId) (\<lambda>callerPermissions.
        bind_comp (res projectId (g_roles sc)) (\<lambda>rolePermissions.
        bind_comp (each_comp (\<lambda>m. eff m projectId) others) (\<lambda>memberPermissions.
        bind_comp (refuse_if (\<exists>p \<in> set (rolePermissions @ g_permissions sc). p \<notin> set callerPermissions)
          cannot_grant) (\<lambda>_.
        refuse_if (\<exists>perms \<in> set memberPermissions. \<exists>p \<in> set perms. p \<notin> set callerPermissions)
          cannot_change)))))"

definition assertCanGrant ::
    "'s effective_query \<Rightarrow> 's resolve_query \<Rightarrow> string \<Rightarrow> string option \<Rightarrow> string list \<Rightarrow> string list \<Rightarrow> ('s, unit) comp" where
  "assertCanGrant eff res projectId callerId roles permissions =
     assertCallerCovers eff res projectId callerId \<lparr>g_roles = roles, g_permissions = permissions, s_members = []\<rparr>"

definition assertOutranks ::
    "'s effective_query \<Rightarrow> 's resolve_query \<Rightarrow> string \<Rightarrow> string option \<Rightarrow> string \<Rightarrow> ('s, unit) comp" where
  "assertOutranks eff res projectId callerId targetUserId =
     assertCallerCovers eff res projectId callerId \<lparr>g_roles = [], g_permissions = [], s_members = [targetUserId]\<rparr>"

text \<open>What the check decides, of the permissions the parties hold.\<close>

definition verdict ::
    "(string \<Rightarrow> string set) \<Rightarrow> string set \<Rightarrow> string option \<Rightarrow> string list \<Rightarrow> unit res" where
  "verdict holds granted callerId ms =
     (if absent callerId then Inl (Error unauthorized)
      else if \<not> granted \<subseteq> holds (the callerId) then Inl (Error cannot_grant)
      else if \<exists>m \<in> set ms. m \<noteq> the callerId \<and> \<not> holds m \<subseteq> holds (the callerId) then Inl (Error cannot_change)
      else Inr ())"

lemma verdict_ok:
  "verdict holds granted callerId ms = Inr () \<longleftrightarrow>
     (\<exists>c. callerId = Some c \<and> c \<noteq> [] \<and> granted \<subseteq> holds c \<and> (\<forall>m \<in> set ms. holds m \<subseteq> holds c))"
  by (cases callerId) (auto simp: verdict_def absent_def)

section \<open>The contract of the queries\<close>

text \<open>
  In a state that is \<open>ok\<close>, the two queries return what \<open>perms\<close> and \<open>carried\<close> say of it, and leave
  a state that is \<open>ok\<close> and the \<open>same\<close> to both.
\<close>

locale permission_source =
  fixes eff :: "'s effective_query" and res :: "'s resolve_query"
    and ok :: "'s \<Rightarrow> bool" and same :: "'s \<Rightarrow> 's \<Rightarrow> bool"
    and perms :: "'s \<Rightarrow> string \<Rightarrow> string \<Rightarrow> string set"
    and carried :: "'s \<Rightarrow> string \<Rightarrow> string list \<Rightarrow> string set"
  assumes eff_law: "\<lbrakk>ok s; eff u p s = (r, s')\<rbrakk>
      \<Longrightarrow> (\<exists>ps. r = Inr ps \<and> set ps = perms s p u) \<and> ok s' \<and> same s' s"
    and res_law: "\<lbrakk>ok s; res p rs s = (r, s')\<rbrakk>
      \<Longrightarrow> (\<exists>ps. r = Inr ps \<and> set ps = carried s p rs) \<and> ok s' \<and> same s' s"
    and same_refl: "same s s"
    and same_trans: "\<lbrakk>same s'' s'; same s' s\<rbrakk> \<Longrightarrow> same s'' s"
    and same_perms: "same s' s \<Longrightarrow> perms s' p u = perms s p u"
    and same_carried: "same s' s \<Longrightarrow> carried s' p rs = carried s p rs"
begin

lemma each_eff:
  assumes "ok s" "each_comp (\<lambda>m. eff m p) ms s = (r, s')"
  shows "(\<exists>pss. r = Inr pss \<and> map set pss = map (perms s p) ms) \<and> ok s' \<and> same s' s"
  using assms
proof (induction ms arbitrary: s r s')
  case Nil
  then show ?case by (simp add: ret_def same_refl)
next
  case (Cons m ms)
  obtain r1 s1 where e1: "eff m p s = (r1, s1)" by fastforce
  with eff_law [OF Cons.prems(1)] obtain ps
    where ps: "r1 = Inr ps" "set ps = perms s p m" and s1: "ok s1" "same s1 s" by metis
  obtain r2 s2 where e2: "each_comp (\<lambda>m. eff m p) ms s1 = (r2, s2)" by fastforce
  with Cons.IH [OF s1(1) e2] obtain pss
    where pss: "r2 = Inr pss" "map set pss = map (perms s1 p) ms" and s2: "ok s2" "same s2 s1" by metis
  have "perms s1 p = perms s p" using same_perms [OF s1(2)] by (simp add: fun_eq_iff)
  then have "map set (ps # pss) = map (perms s p) (m # ms)" using ps(2) pss(2) by simp
  moreover have "each_comp (\<lambda>m. eff m p) (m # ms) s = (Inr (ps # pss), s2)"
    using e1 e2 by (simp add: bind_comp_def ret_def ps(1) pss(1))
  moreover have "same s2 s" by (rule same_trans [OF s2(2) s1(2)])
  ultimately show ?case
    using Cons.prems(2) s2(1) by (metis Pair_inject)
qed

lemma covers_decides:
  assumes "ok s" "assertCallerCovers eff res p c sc s = (r, s')"
  shows "r = verdict (perms s p) (carried s p (g_roles sc) \<union> set (g_permissions sc)) c (s_members sc)"
    and "ok s'" and "same s' s"
proof -
  have "r = verdict (perms s p) (carried s p (g_roles sc) \<union> set (g_permissions sc)) c (s_members sc)
      \<and> ok s' \<and> same s' s"
  proof (cases "absent c")
    case True
    with assms show ?thesis by (auto simp: assertCallerCovers_def throw_def verdict_def same_refl)
  next
    case False
    define others where "others = filter (\<lambda>m. m \<noteq> the c) (s_members sc)"
    obtain r1 s1 where e1: "eff (the c) p s = (r1, s1)" by fastforce
    with eff_law [OF assms(1)] obtain cp
      where cp: "r1 = Inr cp" "set cp = perms s p (the c)" and s1: "ok s1" "same s1 s" by metis
    obtain r2 s2 where e2: "res p (g_roles sc) s1 = (r2, s2)" by fastforce
    with res_law [OF s1(1)] obtain rp
      where rp: "r2 = Inr rp" "set rp = carried s1 p (g_roles sc)" and s2: "ok s2" "same s2 s1" by metis
    obtain r3 s3 where e3: "each_comp (\<lambda>m. eff m p) others s2 = (r3, s3)" by fastforce
    with each_eff [OF s2(1)] obtain mp
      where mp: "r3 = Inr mp" "map set mp = map (perms s2 p) others" and s3: "ok s3" "same s3 s2" by metis
    from s1(2) s2(2) s3(2) have same: "same s2 s" "same s3 s" by (blast intro: same_trans)+
    have "set ` set mp = perms s p ` set others"
      using mp(2) same_perms [OF same(1)] by (metis (no_types, lifting) image_cong list.set_map)
    then have members: "(\<exists>ps \<in> set mp. \<not> set ps \<subseteq> X) \<longleftrightarrow> (\<exists>m \<in> set others. \<not> perms s p m \<subseteq> X)" for X
      by (metis (no_types, lifting) imageE imageI)
    have granted: "set (rp @ g_permissions sc) = carried s p (g_roles sc) \<union> set (g_permissions sc)"
      using rp(2) same_carried [OF s1(2)] by simp
    have outside: "(\<exists>x \<in> set xs. x \<notin> set cp) \<longleftrightarrow> \<not> set xs \<subseteq> set cp" for xs by blast
    have "assertCallerCovers eff res p c sc s =
        ((if \<not> set (rp @ g_permissions sc) \<subseteq> set cp then Inl (Error cannot_grant)
          else if \<exists>ps \<in> set mp. \<not> set ps \<subseteq> set cp then Inl (Error cannot_change) else Inr ()), s3)"
      using False e1 e2 e3 cp(1) rp(1) mp(1)
      by (simp add: assertCallerCovers_def others_def bind_comp_def refuse_if_def throw_def ret_def
          Let_def outside del: set_append Un_subset_iff)
    then show ?thesis
      using assms(2) False cp(2) granted members s3(1) same(2)
      by (auto simp: verdict_def others_def split: if_splits)
  qed
  then show "r = verdict (perms s p) (carried s p (g_roles sc) \<union> set (g_permissions sc)) c (s_members sc)"
    and "ok s'" and "same s' s" by blast+
qed

lemma can_grant_decides:
  assumes "ok s" "assertCanGrant eff res p c rs ps s = (r, s')"
  shows "r = verdict (perms s p) (carried s p rs \<union> set ps) c []" and "ok s'" and "same s' s"
  using covers_decides [OF assms(1) assms(2) [unfolded assertCanGrant_def]] by simp_all

lemma outranks_decides:
  assumes "ok s" "assertOutranks eff res p c m s = (r, s')"
  shows "r = verdict (perms s p) (carried s p []) c [m]" and "ok s'" and "same s' s"
  using covers_decides [OF assms(1) assms(2) [unfolded assertOutranks_def]] by simp_all

end

end
