(* ===== verification/Rbac_Perms.thy ===== *)
theory Rbac_Perms
  imports Rbac_Repo Caller_Covers
begin

text \<open>
  What the permission queries of \<open>repositories/rbac.ts\<close> compute, as a set, and when the caches
  in front of them tell the truth. \<open>held\<close> is the abstract view of the tables the properties speak
  of; \<open>coherent\<close> is the invariant of the caches. The repository's queries are shown to be a
  \<open>permission_source\<close>: what they return is \<open>held\<close>, whatever the caches hold.
\<close>

section \<open>The roles a role includes, the permissions a role carries\<close>

definition inc :: "rbac \<Rightarrow> string \<Rightarrow> (string \<times> string) set" where
  "inc db p = {(r, c). owned db p r \<and> (r, c) \<in> set (inheritance db)}"

definition own_perms :: "rbac \<Rightarrow> string \<Rightarrow> string \<Rightarrow> string set" where
  "own_perms db p r = set (default_role_permissions r) \<union>
     {perm. \<not> isBuiltInRole r \<and> owned db p r \<and> (r, perm) \<in> set (role_perms db)}"

definition carries :: "rbac \<Rightarrow> string \<Rightarrow> string \<Rightarrow> string set" where
  "carries db p r = {perm. \<exists>k r'. k \<le> 3 \<and> (r, r') \<in> inc db p ^^ k \<and> perm \<in> own_perms db p r'}"

definition roles_of :: "rbac \<Rightarrow> string \<Rightarrow> string \<Rightarrow> string set" where
  "roles_of db p u = {r. (p, u, r) \<in> set (member_roles db)}"

text \<open>The permissions a user holds in a project, by the tables alone.\<close>

definition held :: "rbac \<Rightarrow> string \<Rightarrow> string \<Rightarrow> string set" where
  "held db p u = (\<Union>r \<in> roles_of db p u. carries db p r)"

lemma set_user_roles: "set (user_roles db p u) = roles_of db p u"
  by (force simp: user_roles_def roles_of_def)

lemma set_included_roles: "set (included_roles db p r) = {c. (r, c) \<in> inc db p}"
  by (force simp: included_roles_def inc_def)

lemma set_role_levels:
  "set (role_levels db p n rs) = {r'. \<exists>r \<in> set rs. \<exists>k \<le> n. (r, r') \<in> inc db p ^^ k}"
proof (induction n arbitrary: rs)
  case (Suc n)
  let ?next = "concat (map (included_roles db p) rs)"
  have step: "(\<exists>r \<in> set ?next. \<exists>k \<le> n. (r, r') \<in> inc db p ^^ k) \<longleftrightarrow>
      (\<exists>r \<in> set rs. \<exists>k \<le> n. (r, r') \<in> inc db p ^^ Suc k)" for r'
    by (fastforce simp: set_included_roles relpow_commute simp del: relpow.simps
        intro: relpow_Suc_I2 dest: relpow_Suc_D2)
  have "(\<exists>r \<in> set rs. \<exists>k \<le> Suc n. (r, r') \<in> inc db p ^^ k) \<longleftrightarrow>
      r' \<in> set rs \<or> (\<exists>r \<in> set rs. \<exists>k \<le> n. (r, r') \<in> inc db p ^^ Suc k)" for r'
    by (metis (no_types, lifting) Suc_le_mono le0 not0_implies_Suc pair_in_Id_conv relpow.simps(1))
  with step Suc.IH show ?case by auto
qed auto

lemma own_perms_eq:
  "perm \<in> set (permissionsForRoleIds db p rids) \<longleftrightarrow> (\<exists>r \<in> set rids. perm \<in> own_perms db p r)"
  unfolding permissionsForRoleIds_def custom_permissions_def own_perms_def
  by (simp add: image_iff Bex_def) blast

lemma set_permissions_of_roles:
  "set (permissionsForRoleIds db p (role_hierarchy db p rs)) = (\<Union>r \<in> set rs. carries db p r)"
proof (rule set_eqI)
  fix perm
  have "set (role_hierarchy db p rs) = {r'. \<exists>r \<in> set rs. \<exists>k \<le> 3. (r, r') \<in> inc db p ^^ k}"
    by (simp only: role_hierarchy_def set_remdups set_role_levels)
  then show "perm \<in> set (permissionsForRoleIds db p (role_hierarchy db p rs)) \<longleftrightarrow>
      perm \<in> (\<Union>r \<in> set rs. carries db p r)"
    unfolding own_perms_eq carries_def by blast
qed

lemma role_hierarchy_empty: "role_hierarchy db p rs = [] \<longleftrightarrow> rs = []"
proof -
  have "set rs \<subseteq> set (role_hierarchy db p rs)"
    by (auto simp: role_hierarchy_def set_role_levels intro!: exI [of _ 0])
  moreover have "role_hierarchy db p [] = []"
    by (simp add: role_hierarchy_def numeral_3_eq_3)
  ultimately show ?thesis by (metis set_empty subset_empty)
qed

lemma carries_self: "own_perms db p r \<subseteq> carries db p r"
  by (force simp: carries_def)

lemma held_cong:
  assumes "member_roles db' = member_roles db" "custom_roles db' = custom_roles db"
    and "role_perms db' = role_perms db" "inheritance db' = inheritance db"
  shows "held db' p u = held db p u"
proof -
  from assms have "inc db' = inc db" by (auto simp: inc_def owned_def fun_eq_iff)
  moreover from assms have "own_perms db' = own_perms db" by (auto simp: own_perms_def owned_def fun_eq_iff)
  ultimately show ?thesis using assms(1) by (simp add: held_def carries_def roles_of_def)
qed

lemma carries_cong:
  assumes "\<And>r. owned db' p r = owned db p r"
    and "role_perms db' = role_perms db" "inheritance db' = inheritance db"
  shows "carries db' p r = carries db p r"
proof -
  from assms have "inc db' p = inc db p" by (auto simp: inc_def)
  moreover from assms have "own_perms db' p = own_perms db p" by (auto simp: own_perms_def fun_eq_iff)
  ultimately show ?thesis by (simp add: carries_def)
qed

section \<open>Caches that tell the truth\<close>

text \<open>What the schema and the writers guarantee of the tables.\<close>

definition role_ids :: "rbac \<Rightarrow> string set" where
  "role_ids db = r_id ` set (custom_roles db)"

definition wf_tables :: "rbac \<Rightarrow> bool" where
  "wf_tables db = (distinct (map r_id (custom_roles db)) \<and>
     (\<forall>(p, u, r) \<in> set (member_roles db). \<exists>r'. (p, u, r') \<in> set (members db)) \<and>
     fst ` set (role_perms db) \<subseteq> role_ids db \<and> fst ` set (inheritance db) \<subseteq> role_ids db)"

definition coherent :: "rbac \<Rightarrow> bool" where
  "coherent db = (\<forall>p u. isValidId p \<longrightarrow> isValidId u \<longrightarrow>
     (kv_bound db \<longrightarrow> (\<forall>ps e. map_of (kv db) (rbacCacheKey p u) = Some (ps, e) \<longrightarrow> set ps = held db p u)) \<and>
     (map_of (neg db) (rbacCacheKey p u) \<noteq> None \<longrightarrow> roles_of db p u = {}))"

definition sound :: "rbac \<Rightarrow> bool" where
  "sound db = (wf_tables db \<and> coherent db)"

text \<open>The part of the state the permission checks never change: all but the caches.\<close>

definition tables :: "rbac \<Rightarrow> rbac" where
  "tables db = db\<lparr>kv := [], neg := []\<rparr>"

lemma valid_id_no_colon: "isValidId v \<Longrightarrow> CHR '':'' \<notin> set v"
proof
  assume "isValidId v" "CHR '':'' \<in> set v"
  then have "id_char (CHR '':'')" by (auto simp: isValidId_def list_all_iff)
  then show False by (simp add: id_char_def is_upper_def is_lower_def is_digit_def Let_def)
qed

lemma split_prefix: "c \<notin> set a \<Longrightarrow> c \<notin> set a' \<Longrightarrow> a @ c # b = a' @ c # b' \<longleftrightarrow> a = a' \<and> b = b'"
proof (induction a arbitrary: a')
  case Nil
  then show ?case by (cases a') auto
next
  case (Cons x a)
  then show ?case by (cases a') auto
qed

lemma rbacCacheKey_inject:
  assumes "isValidId p" "isValidId p'"
  shows "rbacCacheKey p u = rbacCacheKey p' u' \<longleftrightarrow> p = p' \<and> u = u'"
  using split_prefix [OF valid_id_no_colon [OF assms(1)] valid_id_no_colon [OF assms(2)]]
  by (simp add: rbacCacheKey_def)

lemma cache_key_prefix:
  assumes "isValidId p" "isValidId p'"
  shows "starts_with (rbacCacheKey p' u) (rbacKeyPrefix p) \<longleftrightarrow> p' = p"
proof -
  have "starts_with (rbacCacheKey p' u) (rbacKeyPrefix p) \<longleftrightarrow>
      (\<exists>r. p' @ CHR '':'' # u = p @ CHR '':'' # r)"
    by (simp add: rbacCacheKey_def rbacKeyPrefix_def starts_with_iff)
  with split_prefix [OF valid_id_no_colon [OF assms(2)] valid_id_no_colon [OF assms(1)]]
  show ?thesis by simp
qed

lemma tables_held [simp]: "held (tables db) p u = held db p u"
  by (rule held_cong) (simp_all add: tables_def)

lemma tables_eq_held: "tables db' = tables db \<Longrightarrow> held db' p u = held db p u"
  by (metis tables_held)

lemma tables_eqD:
  assumes "tables db' = tables db"
  shows "member_roles db' = member_roles db" "members db' = members db"
    "custom_roles db' = custom_roles db" "role_perms db' = role_perms db"
    "inheritance db' = inheritance db" "invitations db' = invitations db"
    "users db' = users db" "kv_bound db' = kv_bound db" "clock db' = clock db"
    "projects db' = projects db"
  using arg_cong [OF assms, of member_roles] arg_cong [OF assms, of members]
    arg_cong [OF assms, of custom_roles] arg_cong [OF assms, of role_perms]
    arg_cong [OF assms, of inheritance] arg_cong [OF assms, of invitations]
    arg_cong [OF assms, of users] arg_cong [OF assms, of kv_bound]
    arg_cong [OF assms, of clock] arg_cong [OF assms, of projects]
  by (simp_all add: tables_def)

lemma roles_of_tables: "tables db' = tables db \<Longrightarrow> roles_of db' p u = roles_of db p u"
  by (drule tables_eqD(1)) (simp add: roles_of_def)

lemma coherentI:
  assumes "\<And>p u ps e. \<lbrakk>isValidId p; isValidId u; kv_bound db; map_of (kv db) (rbacCacheKey p u) = Some (ps, e)\<rbrakk>
      \<Longrightarrow> set ps = held db p u"
    and "\<And>p u e. \<lbrakk>isValidId p; isValidId u; map_of (neg db) (rbacCacheKey p u) = Some e\<rbrakk> \<Longrightarrow> roles_of db p u = {}"
  shows "coherent db"
  using assms by (force simp: coherent_def)

lemma coherent_kv:
  "\<lbrakk>coherent db; isValidId p; isValidId u; kv_bound db; map_of (kv db) (rbacCacheKey p u) = Some (ps, e)\<rbrakk>
   \<Longrightarrow> set ps = held db p u"
  by (auto simp: coherent_def)

lemma coherent_neg:
  "\<lbrakk>coherent db; isValidId p; isValidId u; map_of (neg db) (rbacCacheKey p u) = Some e\<rbrakk> \<Longrightarrow> roles_of db p u = {}"
  by (auto simp: coherent_def)

text \<open>Entries may be dropped, and anything the caches do not speak of may change.\<close>

lemma coherent_shrink:
  assumes "coherent db" "kv_bound db' = kv_bound db"
    and "\<And>p u. held db' p u = held db p u" "\<And>p u. roles_of db' p u = roles_of db p u"
    and "\<And>k v. map_of (kv db') k = Some v \<Longrightarrow> map_of (kv db) k = Some v"
    and "\<And>k v. map_of (neg db') k = Some v \<Longrightarrow> map_of (neg db) k \<noteq> None"
  shows "coherent db'"
proof (rule coherentI)
  fix p u ps e
  assume "isValidId p" "isValidId u" "kv_bound db'" "map_of (kv db') (rbacCacheKey p u) = Some (ps, e)"
  with assms show "set ps = held db' p u" by (metis coherent_kv)
next
  fix p u e
  assume "isValidId p" "isValidId u" "map_of (neg db') (rbacCacheKey p u) = Some e"
  with assms show "roles_of db' p u = {}" by (metis coherent_neg option.exhaust)
qed

lemma tables_caches [simp]:
  "tables (db\<lparr>neg := n\<rparr>) = tables db" "tables (db\<lparr>kv := k\<rparr>) = tables db"
  by (simp_all add: tables_def)

lemma held_caches [simp]:
  "held (db\<lparr>neg := n\<rparr>) p u = held db p u" "held (db\<lparr>kv := k\<rparr>) p u = held db p u"
  by (rule held_cong; simp)+

lemma carries_caches [simp]:
  "carries (db\<lparr>neg := n\<rparr>) p r = carries db p r" "carries (db\<lparr>kv := k\<rparr>) p r = carries db p r"
  by (rule carries_cong; simp add: owned_def)+

lemma roles_of_caches [simp]:
  "roles_of (db\<lparr>neg := n\<rparr>) p u = roles_of db p u" "roles_of (db\<lparr>kv := k\<rparr>) p u = roles_of db p u"
  by (simp_all add: roles_of_def)

lemma coherent_neg_jdel: "coherent db \<Longrightarrow> coherent (db\<lparr>neg := jdel k (neg db)\<rparr>)"
  by (rule coherent_shrink) (auto split: if_splits)

lemma map_of_tl: "map_of (tl m) k = Some v \<Longrightarrow> map_of m k \<noteq> None"
  by (cases m) (auto split: if_splits)

section \<open>What the permission queries return\<close>

text \<open>
  The abstract view the checks answer by: an id the repository refuses to look up holds nothing.
\<close>

definition effective :: "rbac \<Rightarrow> string \<Rightarrow> string \<Rightarrow> string set" where
  "effective db p u = (if isValidId p \<and> isValidId u then held db p u else {})"

definition grants :: "rbac \<Rightarrow> string \<Rightarrow> string list \<Rightarrow> string set" where
  "grants db p rs = (if isValidId p then \<Union>r \<in> set rs. carries db p r else {})"

lemma coherent_remember:
  assumes "coherent db" "isValidId p" "isValidId u" "roles_of db p u = {}"
  shows "coherent (remember_no_roles (rbacCacheKey p u) db)"
proof (rule coherentI)
  let ?db = "remember_no_roles (rbacCacheKey p u) db"
  fix p' u' e
  assume v: "isValidId p'" "isValidId u'" and m: "map_of (neg ?db) (rbacCacheKey p' u') = Some e"
  show "roles_of ?db p' u' = {}"
  proof (cases "rbacCacheKey p' u' = rbacCacheKey p u")
    case True
    with v assms have "p' = p \<and> u' = u" by (simp add: rbacCacheKey_inject)
    with assms(4) show ?thesis by (simp add: remember_no_roles_def Let_def)
  next
    case False
    with m have "map_of (neg db) (rbacCacheKey p' u') \<noteq> None"
      by (auto simp: remember_no_roles_def Let_def split: if_splits dest: map_of_tl)
    with assms(1) v show ?thesis
      by (auto simp: remember_no_roles_def Let_def dest: coherent_neg)
  qed
qed (use assms in \<open>auto simp: remember_no_roles_def Let_def dest: coherent_kv\<close>)

lemma coherent_kv_put:
  assumes "coherent db" "isValidId p" "isValidId u" "set ps = held db p u"
  shows "coherent (kv_put (rbacCacheKey p u) ps db)"
proof (rule coherentI)
  let ?db = "kv_put (rbacCacheKey p u) ps db"
  fix p' u' ps' e
  assume v: "isValidId p'" "isValidId u'" "kv_bound ?db"
    and m: "map_of (kv ?db) (rbacCacheKey p' u') = Some (ps', e)"
  show "set ps' = held ?db p' u'"
  proof (cases "rbacCacheKey p' u' = rbacCacheKey p u")
    case True
    with v assms have "p' = p \<and> u' = u" by (simp add: rbacCacheKey_inject)
    with True m assms(4) show ?thesis by (simp add: kv_put_def)
  next
    case False
    with m v assms(1) show ?thesis by (simp add: kv_put_def) (metis coherent_kv)
  qed
qed (use assms in \<open>auto simp: kv_put_def dest: coherent_neg\<close>)

lemma load_permissions_spec:
  assumes "coherent db" "isValidId p" "isValidId u" "load_permissions u p db = (r, db')"
  shows "\<exists>ps. r = Inr ps \<and> set ps = held db p u \<and> coherent db' \<and> tables db' = tables db"
proof (cases "role_hierarchy db p (user_roles db p u) = []")
  case True
  then have "roles_of db p u = {}"
    by (metis role_hierarchy_empty set_user_roles list.set(1))
  with True assms show ?thesis
    by (auto simp: load_permissions_def held_def coherent_remember remember_no_roles_def Let_def
        intro: coherent_remember [unfolded remember_no_roles_def Let_def])
next
  case False
  let ?ps = "permissionsForRoleIds db p (role_hierarchy db p (user_roles db p u))"
  let ?db = "db\<lparr>neg := jdel (rbacCacheKey p u) (neg db)\<rparr>"
  have "set ?ps = held db p u"
    by (simp add: set_permissions_of_roles set_user_roles held_def)
  moreover from this assms have "coherent (kv_put (rbacCacheKey p u) ?ps ?db)"
    by (intro coherent_kv_put) (simp_all add: coherent_neg_jdel)
  moreover have "tables (kv_put (rbacCacheKey p u) ?ps ?db) = tables db"
    by (simp add: kv_put_def)
  ultimately show ?thesis using False assms
    by (auto simp: load_permissions_def Let_def coherent_neg_jdel split: if_splits)
qed

lemma kv_or_load_spec:
  assumes "coherent db" "isValidId p" "isValidId u" "kv_or_load u p db = (r, db')"
  shows "\<exists>ps. r = Inr ps \<and> set ps = held db p u \<and> coherent db' \<and> tables db' = tables db"
proof (cases "if kv_bound db then kv_get db (rbacCacheKey p u) else None")
  case None
  with assms show ?thesis using load_permissions_spec by (simp add: kv_or_load_def)
next
  case (Some ps)
  then obtain e where "kv_bound db" "map_of (kv db) (rbacCacheKey p u) = Some (ps, e)"
    by (auto simp: kv_get_def split: if_splits option.splits)
  with assms have "set ps = held db p u" by (metis coherent_kv)
  with Some assms show ?thesis by (auto simp: kv_or_load_def)
qed

lemma eff_spec:
  assumes "coherent db" "getEffectivePermissions u p db = (r, db')"
  shows "\<exists>ps. r = Inr ps \<and> set ps = effective db p u \<and> coherent db' \<and> tables db' = tables db"
proof (cases "isValidId p \<and> isValidId u")
  case False
  with assms show ?thesis by (auto simp: getEffectivePermissions_def effective_def)
next
  case True
  then have v: "isValidId p" "isValidId u" by auto
  show ?thesis
  proof (cases "map_of (neg db) (rbacCacheKey p u)")
    case None
    with assms v kv_or_load_spec [OF assms(1) v] show ?thesis
      by (simp add: getEffectivePermissions_def effective_def Let_def)
  next
    case (Some e)
    with assms(1) v have "held db p u = {}" by (simp add: held_def coherent_neg)
    with Some assms v kv_or_load_spec [OF coherent_neg_jdel [OF assms(1)] v]
    show ?thesis
      by (fastforce simp: getEffectivePermissions_def effective_def Let_def split: if_splits)
  qed
qed

lemma resolve_spec:
  "\<exists>ps. resolveRolePermissions p rs db = (Inr ps, db) \<and> set ps = grants db p rs"
  by (auto simp: resolveRolePermissions_def reads_def grants_def set_permissions_of_roles)

lemma effective_same: "tables db' = tables db \<Longrightarrow> effective db' p u = effective db p u"
  unfolding effective_def by (metis tables_eq_held)

lemma grants_same:
  assumes "tables db' = tables db"
  shows "grants db' p rs = grants db p rs"
proof -
  have "carries db' p r = carries db p r" for r
    by (rule carries_cong)
      (simp_all add: owned_def tables_eqD(3) [OF assms] tables_eqD(4) [OF assms] tables_eqD(5) [OF assms])
  then show ?thesis by (simp add: grants_def)
qed

interpretation repo: permission_source getEffectivePermissions resolveRolePermissions coherent
    "\<lambda>db' db. tables db' = tables db" effective grants
proof
  fix u p s r s'
  assume "coherent s" "getEffectivePermissions u p s = (r, s')"
  then show "(\<exists>ps. r = Inr ps \<and> set ps = effective s p u) \<and> coherent s' \<and> tables s' = tables s"
    using eff_spec by blast
next
  fix p rs s r s'
  assume "coherent s" "resolveRolePermissions p rs s = (r, s')"
  then show "(\<exists>ps. r = Inr ps \<and> set ps = grants s p rs) \<and> coherent s' \<and> tables s' = tables s"
    using resolve_spec [of p rs s] by auto
qed (rule refl, simp, erule effective_same, erule grants_same)

end
