(* ===== verification/Rbac_Service.thy ===== *)
theory Rbac_Service
  imports Rbac_Perms
begin

text \<open>
  \<open>services/rbac.ts\<close>: the operations on roles, members and invitations, over the repository of
  \<open>Rbac_Repo\<close>. A field of a request body is what the routes' \<open>optString\<close> and \<open>optStringArray\<close>
  let through: absent (\<open>undefined\<close> or \<open>null\<close>), or a string, or an array of strings. The ulids an
  operation draws are its arguments.
\<close>

section \<open>The check behind every role change\<close>

text \<open>The repository as the service's permission source.\<close>

definition covers :: "string \<Rightarrow> string option \<Rightarrow> scope \<Rightarrow> (rbac, unit) comp" where
  "covers = assertCallerCovers getEffectivePermissions resolveRolePermissions"

definition can_grant :: "string \<Rightarrow> string option \<Rightarrow> string list \<Rightarrow> string list \<Rightarrow> (rbac, unit) comp" where
  "can_grant = assertCanGrant getEffectivePermissions resolveRolePermissions"

definition outranks :: "string \<Rightarrow> string option \<Rightarrow> string \<Rightarrow> (rbac, unit) comp" where
  "outranks = assertOutranks getEffectivePermissions resolveRolePermissions"

section \<open>Guards\<close>

definition blank :: "string \<Rightarrow> bool" where
  "blank s = (trim s = [])"

definition blank_opt :: "string option \<Rightarrow> bool" where
  "blank_opt v = (case v of None \<Rightarrow> True | Some s \<Rightarrow> blank s)"

definition or_empty :: "string list option \<Rightarrow> string list" where
  "or_empty v = (case v of None \<Rightarrow> [] | Some xs \<Rightarrow> xs)"

definition assertNotGuest :: "string option \<Rightarrow> (rbac, unit) comp" where
  "assertNotGuest userId =
     (if absent userId then ret ()
      else bind_comp (isGuestUser (the userId)) (\<lambda>guest.
        refuse_if guest ''Forbidden: Guest accounts cannot modify members or roles.|403''))"

definition assertCustomRoleInProject :: "string \<Rightarrow> string \<Rightarrow> (rbac, unit) comp" where
  "assertCustomRoleInProject projectId roleId =
     bind_comp (checkCustomRolesExist projectId [roleId]) (\<lambda>found.
     refuse_if (roleId \<notin> set found) ''Role not found|404'')"

definition assertRolesExist :: "string \<Rightarrow> string list \<Rightarrow> (rbac, unit) comp" where
  "assertRolesExist projectId roles =
     (let customRoles = filter (\<lambda>r. \<not> isBuiltInRole r) roles in
      if customRoles = [] then ret ()
      else bind_comp (checkCustomRolesExist projectId customRoles) (\<lambda>foundIds.
        let missing = filter (\<lambda>r. r \<notin> set foundIds) customRoles
        in refuse_if (missing \<noteq> []) (''Invalid role(s): '' @ join '', '' missing @ ''|400'')))"

text \<open>What both role editors check of the permissions and the roles to include.\<close>

definition assertKnownPermissions :: "string list \<Rightarrow> (rbac, unit) comp" where
  "assertKnownPermissions permissions =
     (let invalidPerms = filter (\<lambda>p. p \<notin> set permission_keys) permissions
      in refuse_if (invalidPerms \<noteq> []) (''Unknown permission keys: '' @ join '', '' invalidPerms @ ''|400''))"

definition assertIncludable :: "string \<Rightarrow> string \<Rightarrow> string list \<Rightarrow> (rbac, unit) comp" where
  "assertIncludable projectId roleId includedRoles =
     (if includedRoles = [] then ret ()
      else let customCandidates = filter (\<lambda>r. \<not> isBuiltInRole r) includedRoles in
        bind_comp
          (if customCandidates = [] then ret ()
           else bind_comp (checkCustomRolesExist projectId customCandidates) (\<lambda>foundIds.
             let missing = filter (\<lambda>r. r \<notin> set foundIds) customCandidates
             in refuse_if (missing \<noteq> []) (''Unknown role IDs: '' @ join '', '' missing @ ''|400'')))
          (\<lambda>_. refuse_if (roleId \<in> set includedRoles) ''A role cannot include itself|400''))"

section \<open>Roles\<close>

record role_body =
  b_name :: "string option"
  b_permissions :: "string list option"
  b_included :: "string list option"

record role_view =
  v_id :: string
  v_name :: string
  v_default :: bool
  v_permissions :: "string list"
  v_included :: "string list"

definition getRoles :: "string \<Rightarrow> (rbac, role_view list) comp" where
  "getRoles projectId =
     bind_comp (refuse_if (blank projectId) ''Invalid project ID|400'') (\<lambda>_.
     bind_comp (getCustomRoles projectId) (\<lambda>customRoles.
     bind_comp (if customRoles = [] then ret [] else getCustomRolePermissions (map r_id customRoles)) (\<lambda>perms.
     bind_comp (if customRoles = [] then ret [] else getCustomRoleInheritance (map r_id customRoles)) (\<lambda>inh.
     ret (map (\<lambda>(rid, name, ps). \<lparr>v_id = rid, v_name = name, v_default = True,
                 v_permissions = ps, v_included = []\<rparr>) DEFAULT_ROLES @
          map (\<lambda>r. \<lparr>v_id = r_id r, v_name = r_name r, v_default = False,
                 v_permissions = map snd (filter (\<lambda>(rid, _). rid = r_id r) perms),
                 v_included = map snd (filter (\<lambda>(rid, _). rid = r_id r) inh)\<rparr>) customRoles)))))"

text \<open>\<open>freshId\<close> is the ulid the call draws; the role is \<open>'c_' + ulid()\<close>.\<close>

definition createCustomRole :: "string \<Rightarrow> string option \<Rightarrow> role_body \<Rightarrow> string \<Rightarrow> (rbac, string) comp" where
  "createCustomRole projectId userId body freshId =
     bind_comp (refuse_if (blank projectId) ''Invalid project ID|400'') (\<lambda>_.
     bind_comp (assertNotGuest userId) (\<lambda>_.
     let roleId = ''c_'' @ freshId;
         permissions = or_empty (b_permissions body);
         includedRoles = or_empty (b_included body) in
     bind_comp (refuse_if (blank_opt (b_name body)) ''Role name is required and must be a non-empty string|400'') (\<lambda>_.
     let roleName = trim (the (b_name body)) in
     bind_comp (assertKnownPermissions permissions) (\<lambda>_.
     bind_comp (assertIncludable projectId roleId includedRoles) (\<lambda>_.
     bind_comp (can_grant projectId userId includedRoles permissions) (\<lambda>_.
     bind_comp (checkRoleNameExists projectId roleName None) (\<lambda>nameExists.
     bind_comp (refuse_if nameExists ''A role with this name already exists|400'') (\<lambda>_.
     bind_comp (createCustomRole_repo roleId projectId roleName permissions includedRoles) (\<lambda>_.
     bind_comp (invalidateProjectRBAC projectId) (\<lambda>_.
     ret roleId))))))))))"

definition updateCustomRole :: "string \<Rightarrow> string option \<Rightarrow> string \<Rightarrow> role_body \<Rightarrow> (rbac, unit) comp" where
  "updateCustomRole projectId userId roleId body =
     bind_comp (refuse_if (blank projectId) ''Invalid project ID|400'') (\<lambda>_.
     bind_comp (refuse_if (blank roleId) ''Invalid role ID|400'') (\<lambda>_.
     bind_comp (assertNotGuest userId) (\<lambda>_.
     bind_comp (refuse_if (isReservedRoleId roleId) ''Default roles cannot be edited|400'') (\<lambda>_.
     bind_comp (assertCustomRoleInProject projectId roleId) (\<lambda>_.
     bind_comp (refuse_if (blank_opt (b_name body)) ''Role name is required and must be a non-empty string|400'') (\<lambda>_.
     let roleName = trim (the (b_name body)) in
     bind_comp (checkRoleNameExists projectId roleName (Some roleId)) (\<lambda>nameExists.
     bind_comp (refuse_if nameExists ''A role with this name already exists|400'') (\<lambda>_.
     let permissions = or_empty (b_permissions body);
         includedRoles = or_empty (b_included body) in
     bind_comp (assertKnownPermissions permissions) (\<lambda>_.
     bind_comp (assertIncludable projectId roleId includedRoles) (\<lambda>_.
     bind_comp (getRoleHolders projectId roleId) (\<lambda>holders.
     bind_comp (covers projectId userId
       \<lparr>g_roles = includedRoles, g_permissions = permissions, s_members = holders\<rparr>) (\<lambda>_.
     bind_comp (updateCustomRole_repo projectId roleId roleName permissions includedRoles) (\<lambda>changed.
     bind_comp (refuse_if (\<not> changed) ''Role not found|404'') (\<lambda>_.
     invalidateProjectRBAC projectId))))))))))))))"

definition deleteCustomRole :: "string \<Rightarrow> string option \<Rightarrow> string \<Rightarrow> (rbac, unit) comp" where
  "deleteCustomRole projectId userId roleId =
     bind_comp (refuse_if (blank projectId) ''Invalid project ID|400'') (\<lambda>_.
     bind_comp (refuse_if (blank roleId) ''Invalid role ID|400'') (\<lambda>_.
     bind_comp (assertNotGuest userId) (\<lambda>_.
     bind_comp (refuse_if (isReservedRoleId roleId) ''Default roles cannot be deleted|400'') (\<lambda>_.
     bind_comp (assertCustomRoleInProject projectId roleId) (\<lambda>_.
     bind_comp (getRoleHolders projectId roleId) (\<lambda>holders.
     bind_comp (covers projectId userId \<lparr>g_roles = [], g_permissions = [], s_members = holders\<rparr>) (\<lambda>_.
     bind_comp (deleteCustomRole_repo projectId roleId) (\<lambda>changed.
     bind_comp (refuse_if (\<not> changed) ''Role not found|404'') (\<lambda>_.
     invalidateProjectRBAC projectId)))))))))"

section \<open>Members\<close>

datatype auth_method = Github | Gitlab | Password

record member_view =
  m_id :: string
  m_username :: string
  m_email :: "string option"
  m_two_factor :: bool
  m_method :: auth_method
  m_roles :: "string list"

record pending_view =
  n_id :: string
  n_username :: string
  n_email :: string
  n_roles :: "string list"

definition str_truthy :: "string option \<Rightarrow> bool" where
  "str_truthy v = (\<not> absent v)"

text \<open>One pass over the rows: the first row of a user makes the entry, every row adds its role.\<close>

definition add_member_row :: "member_view jmap \<Rightarrow> user_row \<times> string \<Rightarrow> member_view jmap" where
  "add_member_row m row = (case row of (u, role) \<Rightarrow>
     let entry = (case map_of m (u_id u) of Some v \<Rightarrow> v | None \<Rightarrow>
       \<lparr>m_id = u_id u, m_username = u_username u, m_email = u_email u, m_two_factor = u_two_factor u,
        m_method = (if str_truthy (u_github u) then Github else if str_truthy (u_gitlab u) then Gitlab else Password),
        m_roles = []\<rparr>)
     in jset (u_id u) (entry\<lparr>m_roles := m_roles entry @ [role]\<rparr>) m)"

definition getMembers :: "string \<Rightarrow> (rbac, member_view list \<times> pending_view list) comp" where
  "getMembers projectId =
     bind_comp (refuse_if (blank projectId) ''Invalid project ID|400'') (\<lambda>_.
     bind_comp (getProjectMembers projectId) (\<lambda>results.
     bind_comp (getPendingInvitations projectId) (\<lambda>invites.
     ret (map snd (foldl add_member_row [] results),
          map (\<lambda>i. \<lparr>n_id = i_id i, n_username = (case i_username i of None \<Rightarrow> [] | Some n \<Rightarrow> n),
                     n_email = (case i_email i of None \<Rightarrow> [] | Some e \<Rightarrow> e), n_roles = i_roles i\<rparr>) invites))))"

definition updateMemberRoles ::
    "string \<Rightarrow> string option \<Rightarrow> string \<Rightarrow> string list option \<Rightarrow> (rbac, string) comp" where
  "updateMemberRoles projectId userId memberId roles_field =
     bind_comp (refuse_if (blank projectId) ''Invalid project ID|400'') (\<lambda>_.
     bind_comp (refuse_if (blank memberId) ''Invalid member ID|400'') (\<lambda>_.
     bind_comp (assertNotGuest userId) (\<lambda>_.
     bind_comp (refuse_if (Some memberId = userId) ''You cannot modify your own roles|400'') (\<lambda>_.
     bind_comp (refuse_if (or_empty roles_field = []) ''At least one role must be specified|400'') (\<lambda>_.
     let roles = or_empty roles_field in
     bind_comp (assertRolesExist projectId roles) (\<lambda>_.
     bind_comp (checkInvitationExists memberId projectId) (\<lambda>isInvite.
     if isInvite then
       bind_comp (getInvitationRoles memberId projectId) (\<lambda>currentRoles.
       bind_comp (can_grant projectId userId (currentRoles @ roles) []) (\<lambda>_.
       bind_comp (updateInvitationRoles memberId roles) (\<lambda>_.
       ret ''updated'')))
     else
       bind_comp (isProjectMember projectId memberId) (\<lambda>isMember.
       bind_comp (refuse_if (\<not> isMember) ''Member not found|404'') (\<lambda>_.
       bind_comp (covers projectId userId \<lparr>g_roles = roles, g_permissions = [], s_members = [memberId]\<rparr>) (\<lambda>_.
       bind_comp (getMemberRoles projectId memberId) (\<lambda>currentRoles.
       bind_comp
         (if ''owner'' \<in> set currentRoles \<and> ''owner'' \<notin> set roles
          then bind_comp (getProjectOwnersCount projectId) (\<lambda>count.
            refuse_if (count \<le> 1) ''Cannot remove the owner role from the last owner|400'')
          else ret ()) (\<lambda>_.
       bind_comp (updateMemberRoles_repo projectId memberId roles) (\<lambda>_.
       bind_comp (invalidateUserRBAC projectId memberId) (\<lambda>_.
       ret ''updated''))))))))))))))"

definition removeMember :: "string \<Rightarrow> string option \<Rightarrow> string \<Rightarrow> (rbac, string) comp" where
  "removeMember projectId userId memberId =
     bind_comp (refuse_if (blank projectId) ''Invalid project ID|400'') (\<lambda>_.
     bind_comp (refuse_if (blank memberId) ''Invalid member ID|400'') (\<lambda>_.
     bind_comp (assertNotGuest userId) (\<lambda>_.
     bind_comp (refuse_if (Some memberId = userId) ''You cannot remove yourself from the project|400'') (\<lambda>_.
     bind_comp (checkInvitationExists memberId projectId) (\<lambda>isInvite.
     if isInvite then
       bind_comp (getInvitationRoles memberId projectId) (\<lambda>invitedRoles.
       bind_comp (can_grant projectId userId invitedRoles []) (\<lambda>_.
       bind_comp (revokeInvitation memberId) (\<lambda>_.
       ret ''revoked'')))
     else
       bind_comp (outranks projectId userId memberId) (\<lambda>_.
       bind_comp (getMemberRoles projectId memberId) (\<lambda>currentRoles.
       bind_comp
         (if ''owner'' \<in> set currentRoles
          then bind_comp (getProjectOwnersCount projectId) (\<lambda>count.
            refuse_if (count \<le> 1) ''Cannot remove the last owner of the project|400'')
          else ret ()) (\<lambda>_.
       bind_comp (removeProjectMember projectId memberId) (\<lambda>_.
       bind_comp (invalidateUserRBAC projectId memberId) (\<lambda>_.
       ret ''removed''))))))))))"

section \<open>Invitations\<close>

record invite_body =
  v_email :: "string option"
  v_username :: "string option"
  v_roles :: "string list option"

text \<open>
  \<open>TURNSTILE_SECRET\<close> and \<open>JWT_SECRET\<close> of the environment, \<open>verifyTurnstile\<close> (a call to
  Cloudflare) and the cooldown keys the KV store holds.
\<close>

record invite_env =
  turnstile_secret :: "string option"
  jwt_secret :: "string option"
  verifyTurnstile :: "string \<Rightarrow> string \<Rightarrow> string option \<Rightarrow> bool"
  active_cooldowns :: "string list"

record invite_mail =
  mail_to :: string
  mail_project :: string
  mail_inviter :: string
  mail_url :: string
  mail_roles :: "string list"

definition getInvitations :: "string option \<Rightarrow> (rbac, invite_row list) comp" where
  "getInvitations userId =
     bind_comp (refuse_if (absent userId) unauthorized) (\<lambda>_.
     bind_comp (getUserDetails (the userId)) (\<lambda>user.
     case user of None \<Rightarrow> throw (Error ''User not found|404'')
     | Some u \<Rightarrow> getUserInvitations (u_email u) (u_username u) (u_verified u)))"

text \<open>
  The mail is returned instead of sent: sending it is a best effort whose failure changes nothing.
  The token is two ulids, and the invitation lives for seven days.
\<close>

definition createInvitation ::
    "invite_env \<Rightarrow> string \<Rightarrow> string option \<Rightarrow> invite_body \<Rightarrow> string option \<Rightarrow> string option \<Rightarrow>
     string \<Rightarrow> string \<Rightarrow> (rbac, string \<times> invite_mail option) comp" where
  "createInvitation env projectId userId body turnstileToken remoteIp freshId freshToken =
     bind_comp (refuse_if (blank projectId) ''Invalid project ID|400'') (\<lambda>_.
     bind_comp (assertNotGuest userId) (\<lambda>_.
     bind_comp (refuse_if (blank_opt (v_email body) \<and> blank_opt (v_username body))
       ''Either email or username must be specified|400'') (\<lambda>_.
     bind_comp (refuse_if (or_empty (v_roles body) = []) ''At least one role must be specified|400'') (\<lambda>_.
     bind_comp
       (if str_truthy (v_email body) \<and> str_truthy (turnstile_secret env) \<and> jwt_secret env \<noteq> Some ''test-secret''
        then bind_comp (refuse_if (absent turnstileToken) ''Missing Turnstile token|403'') (\<lambda>_.
             refuse_if (\<not> verifyTurnstile env (the turnstileToken) (the (turnstile_secret env)) remoteIp)
               ''Turnstile verification failed|403'')
        else ret ()) (\<lambda>_.
     bind_comp
       (if str_truthy (v_email body)
        then bind_comp (reads kv_bound) (\<lambda>bound.
             refuse_if (bound \<and> ''ratelimit:email:invitation:'' @ trim (to_lower (the (v_email body)))
                 \<in> set (active_cooldowns env))
               ''An invitation was recently sent to this email address. Please try again later.|429'')
        else ret ()) (\<lambda>_.
     let roles = or_empty (v_roles body) in
     bind_comp (assertRolesExist projectId roles) (\<lambda>_.
     bind_comp (can_grant projectId userId roles []) (\<lambda>_.
     bind_comp (reads clock) (\<lambda>now.
     bind_comp (createInvitation_repo freshId projectId
       (if str_truthy (v_email body) then v_email body else None)
       (if str_truthy (v_username body) then v_username body else None)
       roles freshToken ((now + 7 * 24 * 60 * 60 * 1000) div 1000)) (\<lambda>_.
     if str_truthy (v_email body)
     then bind_comp (getProjectName projectId) (\<lambda>name.
          bind_comp (if absent userId then ret None else getUserDetails (the userId)) (\<lambda>inviter.
          ret (freshToken, Some \<lparr>mail_to = the (v_email body),
            mail_project = (case name of None \<Rightarrow> ''Project'' | Some n \<Rightarrow> n),
            mail_inviter = (case inviter of None \<Rightarrow> ''A team member''
               | Some u \<Rightarrow> if u_username u = [] then ''A team member'' else u_username u),
            mail_url = ''https://swazz.secmy.app/accept-invite?token='' @ freshToken,
            mail_roles = roles\<rparr>)))
     else ret (freshToken, None)))))))))))"

text \<open>Why an invitation that exists could not be accepted, when the row tells.\<close>

definition accept_refusal :: "user_row \<Rightarrow> invite_row option \<Rightarrow> string" where
  "accept_refusal user existing =
     (case existing of None \<Rightarrow> ''Invalid or expired invitation|400''
      | Some i \<Rightarrow>
          if str_truthy (i_username i) \<and> i_username i \<noteq> Some (u_username user)
          then ''Invitation is for a different username|403''
          else if str_truthy (i_email i) \<and>
              to_lower (the (i_email i)) \<noteq> to_lower (case u_email user of None \<Rightarrow> [] | Some e \<Rightarrow> e)
          then ''Invitation is for a different email|403''
          else if str_truthy (i_email i) \<and> \<not> u_verified user
          then ''Verify your email address to accept this invitation|403''
          else ''Invalid or expired invitation|400'')"

definition acceptInvitation :: "string option \<Rightarrow> string option \<Rightarrow> (rbac, string) comp" where
  "acceptInvitation userId token_field =
     (case token_field of None \<Rightarrow> throw TypeError | Some token \<Rightarrow>
      bind_comp (refuse_if (blank token) ''Invalid invitation token|400'') (\<lambda>_.
      bind_comp (refuse_if (absent userId) unauthorized) (\<lambda>_.
      bind_comp (getUserDetails (the userId)) (\<lambda>found.
      case found of None \<Rightarrow> throw (Error ''User not found|404'')
      | Some user \<Rightarrow>
          bind_comp (acceptInvitation_repo token (u_username user) (u_email user) (u_verified user) (the userId)) (\<lambda>accepted.
          case accepted of
            None \<Rightarrow> bind_comp (getInvitationByToken token) (\<lambda>existing.
                      throw (Error (accept_refusal user existing)))
          | Some i \<Rightarrow> bind_comp (invalidateUserRBAC (i_project i) (the userId)) (\<lambda>_.
                      ret (i_project i)))))))"

definition declineInvitation :: "string option \<Rightarrow> string option \<Rightarrow> (rbac, string) comp" where
  "declineInvitation userId token_field =
     (case token_field of None \<Rightarrow> throw TypeError | Some token \<Rightarrow>
      bind_comp (refuse_if (blank token) ''Invalid invitation token|400'') (\<lambda>_.
      bind_comp (refuse_if (absent userId) unauthorized) (\<lambda>_.
      bind_comp (getUserDetails (the userId)) (\<lambda>found.
      case found of None \<Rightarrow> throw (Error ''User not found|404'')
      | Some user \<Rightarrow>
          bind_comp (declineInvitation_repo token (u_username user) (u_email user) (u_verified user)) (\<lambda>success.
          bind_comp (refuse_if (\<not> success) ''Invalid or expired invitation|400'') (\<lambda>_.
          ret ''declined''))))))"

section \<open>The middleware in front of the project routes\<close>

datatype reply = Next | Reply nat string

text \<open>
  \<open>requirePermission\<close> of \<open>middleware/rbac.ts\<close>: the user and the issue time (in seconds) of the
  session come from the request. A failing read of the timeout is logged and skipped.
\<close>

definition requirePermission ::
    "string \<Rightarrow> string option \<Rightarrow> string option \<Rightarrow> int option \<Rightarrow> bool \<Rightarrow> (rbac, reply) comp" where
  "requirePermission permission project_param userId iat timeout_read_fails =
     (if absent project_param then ret (Reply 400 ''Project ID is required in the path'')
      else let projectId = the project_param in
      if \<not> isValidId projectId then ret (Reply 404 ''Project not found'')
      else if absent userId then ret (Reply 401 ''Unauthorized'')
      else bind_comp (if timeout_read_fails then ret None else getProjectSessionTimeout projectId) (\<lambda>timeout.
           bind_comp (reads clock) (\<lambda>now.
           if (case (timeout, iat) of (Some t, Some i) \<Rightarrow> t > 0 \<and> i \<noteq> 0 \<and> now div 1000 - i > t | _ \<Rightarrow> False)
           then ret (Reply 401 ''Session expired: Project requires re-authentication'')
           else bind_comp (checkPermission (the userId) projectId permission) (\<lambda>hasAccess.
                ret (if hasAccess then Next else Reply 403 (''Forbidden: Missing permission '' @ permission))))))"

end
