(* ===== verification/Rbac_Writes.thy ===== *)
theory Rbac_Writes
  imports Rbac_Service
begin

text \<open>
  What the writes of \<open>repositories/rbac.ts\<close> do to the tables, in closed form, and why the
  invalidation that follows each of them leaves the caches telling the truth. \<open>checks\<close> and
  \<open>changes\<close> describe an operation of the service: a run of checks that leaves the tables alone,
  then at most one change.
\<close>

section \<open>Checks, then a change\<close>

definition as_in :: "rbac \<Rightarrow> rbac \<Rightarrow> bool" where
  "as_in db s = (coherent s \<and> tables s = tables db)"

definition checks :: "rbac \<Rightarrow> (rbac, 'a) comp \<Rightarrow> ('a \<Rightarrow> bool) \<Rightarrow> bool" where
  "checks db m F = (\<forall>s. as_in db s \<longrightarrow>
     (case m s of (Inl _, s') \<Rightarrow> as_in db s' | (Inr x, s') \<Rightarrow> as_in db s' \<and> F x))"

definition changes :: "rbac \<Rightarrow> (rbac, 'a) comp \<Rightarrow> ('a \<Rightarrow> rbac \<Rightarrow> bool) \<Rightarrow> bool" where
  "changes db m G = (\<forall>s. as_in db s \<longrightarrow>
     (case m s of (Inl _, s') \<Rightarrow> as_in db s' | (Inr x, s') \<Rightarrow> G x s'))"

named_theorems checks_rules \<open>what the checks of the service establish\<close>

lemma checks_ret [checks_rules]: "checks db (ret x) (\<lambda>y. y = x)"
  by (simp add: checks_def ret_def)

lemma checks_refuse [checks_rules]: "checks db (refuse_if b msg) (\<lambda>_. \<not> b)"
  by (simp add: checks_def refuse_if_def throw_def ret_def)

lemma checks_throw: "checks db (throw e) F"
  by (simp add: checks_def throw_def)

lemma checks_reads:
  assumes "\<And>s. tables s = tables db \<Longrightarrow> f s = f db"
  shows "checks db (reads f) (\<lambda>x. x = f db)"
  unfolding checks_def reads_def as_in_def by (simp, blast intro: assms)

lemma checks_bind:
  assumes "checks db m F" and "\<And>x. F x \<Longrightarrow> checks db (f x) G"
  shows "checks db (bind_comp m f) G"
  unfolding checks_def
proof (intro allI impI)
  fix s
  assume "as_in db s"
  with assms(1) have m: "case m s of (Inl _, s') \<Rightarrow> as_in db s' | (Inr x, s') \<Rightarrow> as_in db s' \<and> F x"
    by (simp add: checks_def)
  show "case bind_comp m f s of (Inl _, s') \<Rightarrow> as_in db s' | (Inr x, s') \<Rightarrow> as_in db s' \<and> G x"
  proof (cases "m s")
    case (Pair r s1)
    with m assms(2) show ?thesis
      by (cases r) (simp_all add: bind_comp_def checks_def)
  qed
qed

lemma changes_bind:
  assumes "checks db m F" and "\<And>x. F x \<Longrightarrow> changes db (f x) G"
  shows "changes db (bind_comp m f) G"
  unfolding changes_def
proof (intro allI impI)
  fix s
  assume "as_in db s"
  with assms(1) have m: "case m s of (Inl _, s') \<Rightarrow> as_in db s' | (Inr x, s') \<Rightarrow> as_in db s' \<and> F x"
    by (simp add: checks_def)
  show "case bind_comp m f s of (Inl _, s') \<Rightarrow> as_in db s' | (Inr x, s') \<Rightarrow> G x s'"
  proof (cases "m s")
    case (Pair r s1)
    with m assms(2) show ?thesis
      by (cases r) (simp_all add: bind_comp_def changes_def)
  qed
qed

lemma checks_weaken: "checks db m F \<Longrightarrow> (\<And>x. F x \<Longrightarrow> G x) \<Longrightarrow> checks db m G"
  by (fastforce simp: checks_def split: prod.splits sum.splits)

lemma checks_if: "(b \<Longrightarrow> checks db m F) \<Longrightarrow> (\<not> b \<Longrightarrow> checks db m' F) \<Longrightarrow> checks db (if b then m else m') F"
  by simp

lemma changes_if: "(b \<Longrightarrow> changes db m G) \<Longrightarrow> (\<not> b \<Longrightarrow> changes db m' G) \<Longrightarrow> changes db (if b then m else m') G"
  by simp

lemma changes_ret: "changes db (ret x) (\<lambda>y s. y = x \<and> as_in db s)"
  by (simp add: changes_def ret_def)

lemma changes_run:
  assumes "changes db m G" "coherent db" "m db = (r, s')"
  obtains (refused) e where "r = Inl e" "coherent s'" "tables s' = tables db"
  | (ended) x where "r = Inr x" "G x s'"
  using assms by (cases r) (auto simp: changes_def as_in_def)

lemma changes_cong: "changes db m G \<Longrightarrow> (\<And>x s. G x s \<Longrightarrow> H x s) \<Longrightarrow> changes db m H"
  by (fastforce simp: changes_def split: prod.splits sum.splits)

lemma checks_covers [checks_rules]:
  "checks db (covers p c sc) (\<lambda>_. verdict (effective db p)
     (grants db p (g_roles sc) \<union> set (g_permissions sc)) c (s_members sc) = Inr ())"
proof -
  have "case covers p c sc s of (Inl _, s') \<Rightarrow> as_in db s'
      | (Inr x, s') \<Rightarrow> as_in db s' \<and> verdict (effective db p)
         (grants db p (g_roles sc) \<union> set (g_permissions sc)) c (s_members sc) = Inr ()"
    if "as_in db s" for s
  proof -
    obtain r s' where run: "assertCallerCovers getEffectivePermissions resolveRolePermissions p c sc s = (r, s')"
      by fastforce
    from that have s: "coherent s" "tables s = tables db" by (simp_all add: as_in_def)
    have "effective s p = effective db p"
      using effective_same [OF s(2)] by (simp add: fun_eq_iff)
    with repo.covers_decides [OF s(1) run] grants_same [OF s(2)] s(2) run
    show ?thesis by (cases r) (simp_all add: covers_def as_in_def split: sum.split)
  qed
  then show ?thesis by (simp add: checks_def)
qed

lemma checks_can_grant [checks_rules]:
  "checks db (can_grant p c rs ps) (\<lambda>_. verdict (effective db p) (grants db p rs \<union> set ps) c [] = Inr ())"
  using checks_covers [of db p c "\<lparr>g_roles = rs, g_permissions = ps, s_members = []\<rparr>"]
  by (simp add: can_grant_def assertCanGrant_def covers_def)

lemma checks_outranks [checks_rules]:
  "checks db (outranks p c m) (\<lambda>_. verdict (effective db p) (grants db p []) c [m] = Inr ())"
  using checks_covers [of db p c "\<lparr>g_roles = [], g_permissions = [], s_members = [m]\<rparr>"]
  by (simp add: outranks_def assertOutranks_def covers_def)

text \<open>A read that looks at no cache sees the tables it started from.\<close>

lemma checks_tables:
  assumes "\<And>s. f (tables s) = f s"
  shows "checks db (reads f) (\<lambda>x. x = f db)"
  by (rule checks_reads) (metis assms)

named_theorems table_reads \<open>functions of the tables alone\<close>

lemma owned_tables [table_reads]: "owned (tables s) p r = owned s p r"
  by (simp add: owned_def tables_def)

lemma user_roles_tables [table_reads]: "user_roles (tables s) p u = user_roles s p u"
  by (simp add: user_roles_def tables_def)

lemma owners_tables [table_reads]: "project_owners (tables s) p = project_owners s p"
  by (simp add: project_owners_def tables_def)

lemma holders_tables [table_reads]: "role_holders (tables s) p r = role_holders s p r"
  by (simp add: role_holders_def tables_def)

lemma fields_tables [table_reads]:
  "users (tables s) = users s" "projects (tables s) = projects s" "members (tables s) = members s"
  "member_roles (tables s) = member_roles s" "custom_roles (tables s) = custom_roles s"
  "role_perms (tables s) = role_perms s" "inheritance (tables s) = inheritance s"
  "invitations (tables s) = invitations s" "clock (tables s) = clock s" "kv_bound (tables s) = kv_bound s"
  by (simp_all add: tables_def)

lemma checks_repo_reads [checks_rules]:
  "checks db (isGuestUser u) (\<lambda>x. x = (case find (\<lambda>r. u_id r = u) (users db) of None \<Rightarrow> False | Some r \<Rightarrow> u_guest r))"
  "checks db (isProjectMember p u) (\<lambda>x. x = (user_roles db p u \<noteq> []))"
  "checks db (checkCustomRolesExist p rs) (\<lambda>x. x = map r_id (filter (\<lambda>r. r_project r = p \<and> r_id r \<in> set rs) (custom_roles db)))"
  "checks db (getMemberRoles p u) (\<lambda>x. x = user_roles db p u)"
  "checks db (getProjectOwnersCount p) (\<lambda>x. x = length (project_owners db p))"
  "checks db (getRoleHolders p r) (\<lambda>x. x = role_holders db p r)"
  "checks db (checkInvitationExists i p) (\<lambda>x. x = (\<exists>v \<in> set (invitations db). i_id v = i \<and> i_project v = p))"
  "checks db (getInvitationRoles i p) (\<lambda>x. x = (case find (\<lambda>v. i_id v = i \<and> i_project v = p) (invitations db) of
       None \<Rightarrow> [] | Some v \<Rightarrow> i_roles v))"
  "checks db (getUserDetails u) (\<lambda>x. x = find (\<lambda>r. u_id r = u) (users db))"
  "checks db (reads clock) (\<lambda>x. x = clock db)"
  "checks db (reads kv_bound) (\<lambda>x. x = kv_bound db)"
  "checks db (reads (\<lambda>db. owned db p r)) (\<lambda>x. x = owned db p r)"
  unfolding isGuestUser_def isProjectMember_def checkCustomRolesExist_def getMemberRoles_def
    getProjectOwnersCount_def getRoleHolders_def checkInvitationExists_def getInvitationRoles_def getUserDetails_def
  by (rule checks_tables, simp add: table_reads)+

definition name_taken :: "rbac \<Rightarrow> string \<Rightarrow> string \<Rightarrow> string option \<Rightarrow> bool" where
  "name_taken db p n ex =
     (\<exists>r \<in> set (custom_roles db). r_project r = p \<and> r_name r = n \<and> Some (r_id r) \<noteq> ex)"

lemma checks_name_exists [checks_rules]:
  "checks db (checkRoleNameExists p n ex) (\<lambda>x. x = name_taken db p n ex)"
proof -
  have "checkRoleNameExists p n ex = reads (\<lambda>db. name_taken db p n ex)"
    by (cases ex) (auto simp: checkRoleNameExists_def name_taken_def fun_eq_iff reads_def)
  then show ?thesis by (simp only:) (rule checks_tables, simp add: name_taken_def table_reads)
qed

section \<open>The guards of the service\<close>

definition is_guest :: "rbac \<Rightarrow> string option \<Rightarrow> bool" where
  "is_guest db userId = (\<not> absent userId \<and>
     (case find (\<lambda>r. u_id r = the userId) (users db) of None \<Rightarrow> False | Some r \<Rightarrow> u_guest r))"

lemma checks_not_guest [checks_rules]: "checks db (assertNotGuest c) (\<lambda>_. \<not> is_guest db c)"
  unfolding assertNotGuest_def
  by (rule checks_if, rule checks_weaken [OF checks_ret], simp add: is_guest_def,
      rule checks_bind [OF checks_repo_reads(1)], rule checks_weaken [OF checks_refuse], simp add: is_guest_def)

lemma checks_custom_role [checks_rules]: "checks db (assertCustomRoleInProject p r) (\<lambda>_. owned db p r)"
  unfolding assertCustomRoleInProject_def
  by (rule checks_bind [OF checks_repo_reads(3)], rule checks_weaken [OF checks_refuse]) (auto simp: owned_def)

definition known_role :: "rbac \<Rightarrow> string \<Rightarrow> string \<Rightarrow> bool" where
  "known_role db p r = (isBuiltInRole r \<or> owned db p r)"

lemma none_missing:
  "filter (\<lambda>r. r \<notin> set (map r_id (filter (\<lambda>q. r_project q = p \<and> r_id q \<in> set (filter (\<lambda>r. \<not> isBuiltInRole r) rs)) cs)))
     (filter (\<lambda>r. \<not> isBuiltInRole r) rs) = [] \<Longrightarrow> r \<in> set rs \<Longrightarrow> isBuiltInRole r \<or> (\<exists>q \<in> set cs. r_id q = r \<and> r_project q = p)"
  by (auto simp: filter_empty_conv)

lemma checks_roles_exist [checks_rules]: "checks db (assertRolesExist p rs) (\<lambda>_. \<forall>r \<in> set rs. known_role db p r)"
  unfolding assertRolesExist_def Let_def
  by (rule checks_if, rule checks_weaken [OF checks_ret], simp add: filter_empty_conv known_role_def,
      rule checks_bind [OF checks_repo_reads(3)], rule checks_weaken [OF checks_refuse])
    (use none_missing [of p rs "custom_roles db"] in \<open>force simp: known_role_def owned_def\<close>)

lemma checks_permissions [checks_rules]:
  "checks db (assertKnownPermissions ps) (\<lambda>_. set ps \<subseteq> set permission_keys)"
  unfolding assertKnownPermissions_def Let_def
  by (rule checks_weaken [OF checks_refuse]) (auto simp: filter_empty_conv)

lemma checks_includable [checks_rules]:
  "checks db (assertIncludable p x rs) (\<lambda>_. (\<forall>r \<in> set rs. known_role db p r) \<and> x \<notin> set rs)"
proof (cases "rs = []")
  case True
  then show ?thesis by (auto simp: assertIncludable_def checks_def ret_def)
next
  case False
  have "checks db (if filter (\<lambda>r. \<not> isBuiltInRole r) rs = [] then ret ()
      else bind_comp (checkCustomRolesExist p (filter (\<lambda>r. \<not> isBuiltInRole r) rs)) (\<lambda>foundIds.
        refuse_if (filter (\<lambda>r. r \<notin> set foundIds) (filter (\<lambda>r. \<not> isBuiltInRole r) rs) \<noteq> [])
         (''Unknown role IDs: '' @ join '', '' (filter (\<lambda>r. r \<notin> set foundIds) (filter (\<lambda>r. \<not> isBuiltInRole r) rs)) @ ''|400'')))
     (\<lambda>_. \<forall>r \<in> set rs. known_role db p r)"
    by (rule checks_if, rule checks_weaken [OF checks_ret], simp add: filter_empty_conv known_role_def,
        rule checks_bind [OF checks_repo_reads(3)], rule checks_weaken [OF checks_refuse])
      (use none_missing [of p rs "custom_roles db"] in \<open>force simp: known_role_def owned_def\<close>)
  then show ?thesis
    unfolding assertIncludable_def Let_def if_not_P [OF False]
    by (rule checks_bind) (rule checks_weaken [OF checks_refuse], simp)
qed

section \<open>Batches in closed form\<close>

lemma run_batch_append: "run_batch (as @ bs) db = (case run_batch as db of Inl e \<Rightarrow> Inl e | Inr db' \<Rightarrow> run_batch bs db')"
  by (induction as arbitrary: db) (auto split: sum.splits)

lemma batch_insert_member_roles:
  "run_batch (map (insert_member_role p u) rs) db = Inr db' \<Longrightarrow>
     db' = db\<lparr>member_roles := member_roles db @ map (\<lambda>r. (p, u, r)) rs\<rparr>"
proof (induction rs arbitrary: db)
  case (Cons a rs)
  then have "run_batch (map (insert_member_role p u) rs) (db\<lparr>member_roles := member_roles db @ [(p, u, a)]\<rparr>) = Inr db'"
    by (simp add: insert_member_role_def [of p u a db] split: if_splits)
  from Cons.IH [OF this] show ?case by simp
qed simp

lemma batch_insert_perms:
  "run_batch (map (insert_role_perm x) ps) db = Inr db' \<Longrightarrow>
     db' = db\<lparr>role_perms := role_perms db @ map (\<lambda>q. (x, q)) ps\<rparr>"
proof (induction ps arbitrary: db)
  case (Cons a ps)
  then have "run_batch (map (insert_role_perm x) ps) (db\<lparr>role_perms := role_perms db @ [(x, a)]\<rparr>) = Inr db'"
    by (simp add: insert_role_perm_def [of x a db] split: if_splits)
  from Cons.IH [OF this] show ?case by simp
qed simp

lemma batch_insert_inheritance:
  "run_batch (map (insert_inheritance x) cs) db = Inr db' \<Longrightarrow>
     db' = db\<lparr>inheritance := inheritance db @ map (\<lambda>c. (x, c)) cs\<rparr>"
proof (induction cs arbitrary: db)
  case (Cons a cs)
  then have "run_batch (map (insert_inheritance x) cs) (db\<lparr>inheritance := inheritance db @ [(x, a)]\<rparr>) = Inr db'"
    by (simp add: insert_inheritance_def [of x a db] split: if_splits)
  from Cons.IH [OF this] show ?case by simp
qed simp

lemma batch_insert_owned:
  "owned db p x \<Longrightarrow> run_batch (map (\<lambda>q. if_owned p x (insert_role_perm x q)) ps) db =
     run_batch (map (insert_role_perm x) ps) db"
  "owned db p x \<Longrightarrow> run_batch (map (\<lambda>c. if_owned p x (insert_inheritance x c)) cs) db =
     run_batch (map (insert_inheritance x) cs) db"
  by (induction ps arbitrary: db; auto simp: if_owned_def insert_role_perm_def owned_def)
     (induction cs arbitrary: db; auto simp: if_owned_def insert_inheritance_def owned_def)

lemma batch_result: "batch sts db = (r, db') \<Longrightarrow> (\<exists>e. r = Inl e \<and> db' = db) \<or> (r = Inr () \<and> run_batch sts db = Inr db')"
  by (auto simp: batch_def split: sum.splits)

text \<open>The tables after each write that goes through.\<close>

definition member_roles_set :: "string \<Rightarrow> string \<Rightarrow> string list \<Rightarrow> rbac \<Rightarrow> rbac" where
  "member_roles_set p u rs db = db\<lparr>
     member_roles := filter (\<lambda>(p', u', _). \<not> (p' = p \<and> u' = u)) (member_roles db) @ map (\<lambda>r. (p, u, r)) rs,
     members := map (\<lambda>(p', u', r'). if p' = p \<and> u' = u then (p', u', legacy_role rs) else (p', u', r')) (members db)\<rparr>"

definition member_removed :: "string \<Rightarrow> string \<Rightarrow> rbac \<Rightarrow> rbac" where
  "member_removed p u db = db\<lparr>
     member_roles := filter (\<lambda>(p', u', _). \<not> (p' = p \<and> u' = u)) (member_roles db),
     members := filter (\<lambda>(p', u', _). \<not> (p' = p \<and> u' = u)) (members db)\<rparr>"

definition role_created :: "string \<Rightarrow> string \<Rightarrow> string \<Rightarrow> string list \<Rightarrow> string list \<Rightarrow> rbac \<Rightarrow> rbac" where
  "role_created x p n ps cs db = db\<lparr>
     custom_roles := custom_roles db @ [\<lparr>r_id = x, r_project = p, r_name = n\<rparr>],
     role_perms := role_perms db @ map (\<lambda>q. (x, q)) ps,
     inheritance := inheritance db @ map (\<lambda>c. (x, c)) cs\<rparr>"

definition role_rewritten :: "string \<Rightarrow> string \<Rightarrow> string \<Rightarrow> string list \<Rightarrow> string list \<Rightarrow> rbac \<Rightarrow> rbac" where
  "role_rewritten p x n ps cs db = db\<lparr>
     custom_roles := map (\<lambda>r. if r_id r = x \<and> r_project r = p then r\<lparr>r_name := n\<rparr> else r) (custom_roles db),
     role_perms := filter (\<lambda>(r, _). r \<noteq> x) (role_perms db) @ map (\<lambda>q. (x, q)) ps,
     inheritance := filter (\<lambda>(par, _). par \<noteq> x) (inheritance db) @ map (\<lambda>c. (x, c)) cs\<rparr>"

definition role_deleted :: "string \<Rightarrow> string \<Rightarrow> rbac \<Rightarrow> rbac" where
  "role_deleted p x db = db\<lparr>
     role_perms := filter (\<lambda>(r, _). r \<noteq> x) (role_perms db),
     inheritance := filter (\<lambda>(par, child). par \<noteq> x \<and> child \<noteq> x) (inheritance db),
     member_roles := filter (\<lambda>(p', _, r). \<not> (r = x \<and> p' = p)) (member_roles db),
     custom_roles := filter (\<lambda>r. \<not> (r_id r = x \<and> r_project r = p)) (custom_roles db)\<rparr>"

lemma updateMemberRoles_repo_run:
  assumes "updateMemberRoles_repo p u rs s = (r, s')"
  shows "(\<exists>e. r = Inl e \<and> s' = s) \<or> (r = Inr () \<and> s' =
    (member_roles_set p u rs s)\<lparr>neg := jdel (rbacCacheKey p u) (neg s)\<rparr>)"
proof -
  let ?sts = "delete_member_roles p u # map (insert_member_role p u) rs @ [set_legacy_role (legacy_role rs) p u]"
  obtain r1 s1 where b: "batch ?sts s = (r1, s1)" by fastforce
  from batch_result [OF b] show ?thesis
  proof (elim disjE exE conjE)
    fix e
    assume "r1 = Inl e" "s1 = s"
    with assms b show ?thesis by (auto simp: updateMemberRoles_repo_def bind_comp_def)
  next
    assume ok: "r1 = Inr ()" and run: "run_batch ?sts s = Inr s1"
    from run have "s1 = member_roles_set p u rs s"
      by (auto simp: delete_member_roles_def run_batch_append set_legacy_role_def member_roles_set_def
          dest!: batch_insert_member_roles split: sum.splits)
    with ok assms b show ?thesis
      by (simp add: updateMemberRoles_repo_def bind_comp_def forget_no_roles_def writes_def member_roles_set_def)
  qed
qed

lemma removeProjectMember_run:
  assumes "removeProjectMember p u s = (r, s')"
  shows "r = Inr () \<and> s' = (member_removed p u s)\<lparr>neg := jdel (rbacCacheKey p u) (neg s)\<rparr>"
  using assms
  by (simp add: removeProjectMember_def bind_comp_def batch_def delete_member_roles_def delete_member_def
      forget_no_roles_def writes_def member_removed_def)

lemma createCustomRole_repo_run:
  assumes "createCustomRole_repo x p n ps cs s = (r, s')"
  shows "(\<exists>e. r = Inl e \<and> s' = s) \<or> (r = Inr () \<and> x \<notin> role_ids s \<and> s' = role_created x p n ps cs s)"
  using batch_result [OF assms [unfolded createCustomRole_repo_def]]
  by (auto simp: insert_custom_role_def run_batch_append role_created_def role_ids_def
      dest!: batch_insert_perms batch_insert_inheritance split: if_splits sum.splits)

lemma if_owned_noop: "\<not> owned db p x \<Longrightarrow> run_batch (map (\<lambda>q. if_owned p x (f q)) qs) db = Inr db"
  by (induction qs) (auto simp: if_owned_def)

lemma owned_rewrite:
  "owned (db\<lparr>custom_roles := map (\<lambda>r. if r_id r = x \<and> r_project r = p then r\<lparr>r_name := n\<rparr> else r) (custom_roles db)\<rparr>) q y
     = owned db q y"
  by (simp add: owned_def del: if_image_distrib) (metis role_row.select_convs role_row.simps)

lemma owned_other_tables [simp]:
  "owned (db\<lparr>role_perms := a\<rparr>) p x = owned db p x" "owned (db\<lparr>inheritance := b\<rparr>) p x = owned db p x"
  "owned (db\<lparr>member_roles := c\<rparr>) p x = owned db p x" "owned (db\<lparr>neg := d\<rparr>) p x = owned db p x"
  "owned (db\<lparr>kv := e\<rparr>) p x = owned db p x" "owned (db\<lparr>members := f\<rparr>) p x = owned db p x"
  "owned (db\<lparr>invitations := g\<rparr>) p x = owned db p x"
  by (simp_all add: owned_def)

lemma updateCustomRole_repo_run:
  assumes "updateCustomRole_repo p x n ps cs s = (r, s')" and own: "owned s p x"
  shows "(\<exists>e. r = Inl e \<and> s' = s) \<or> (r = Inr True \<and> s' = role_rewritten p x n ps cs s)"
proof -
  let ?sts = "[rename_role n x p, if_owned p x (delete_role_perms x), if_owned p x (delete_inheritance_of_parent x)] @
        map (\<lambda>q. if_owned p x (insert_role_perm x q)) ps @ map (\<lambda>c. if_owned p x (insert_inheritance x c)) cs"
  obtain r1 s1 where b: "batch ?sts s = (r1, s1)" by fastforce
  from batch_result [OF b] show ?thesis
  proof (elim disjE exE conjE)
    fix e
    assume "r1 = Inl e" "s1 = s"
    with assms b show ?thesis by (auto simp: updateCustomRole_repo_def bind_comp_def reads_def)
  next
    assume ok: "r1 = Inr ()" and run: "run_batch ?sts s = Inr s1"
    define d where "d = s\<lparr>custom_roles := custom_roles (role_rewritten p x n ps cs s),
      role_perms := filter (\<lambda>(r, _). r \<noteq> x) (role_perms s),
      inheritance := filter (\<lambda>(par, _). par \<noteq> x) (inheritance s)\<rparr>"
    have d_own: "owned d p x" using own owned_rewrite [where db = s and x = x and p = p and n = n] by (simp add: d_def owned_def role_rewritten_def)
    have "run_batch (map (\<lambda>q. if_owned p x (insert_role_perm x q)) ps @
        map (\<lambda>c. if_owned p x (insert_inheritance x c)) cs) d = Inr s1"
      using run own
      by (auto simp: rename_role_def if_owned_def delete_role_perms_def
          delete_inheritance_of_parent_def owned_rewrite d_def role_rewritten_def split: if_splits)
    then obtain d1 where "run_batch (map (insert_role_perm x) ps) d = Inr d1"
      and i: "run_batch (map (\<lambda>c. if_owned p x (insert_inheritance x c)) cs) d1 = Inr s1"
      using d_own by (auto simp: run_batch_append batch_insert_owned split: sum.splits)
    from this(1) have d1: "d1 = d\<lparr>role_perms := role_perms d @ map (\<lambda>q. (x, q)) ps\<rparr>"
      by (rule batch_insert_perms)
    with d_own i have "run_batch (map (insert_inheritance x) cs) d1 = Inr s1"
      by (simp add: batch_insert_owned)
    then have "s1 = d1\<lparr>inheritance := inheritance d1 @ map (\<lambda>c. (x, c)) cs\<rparr>"
      by (rule batch_insert_inheritance)
    with d1 have "s1 = role_rewritten p x n ps cs s" by (simp add: d_def role_rewritten_def)
    with ok assms b show ?thesis by (simp add: updateCustomRole_repo_def bind_comp_def reads_def ret_def)
  qed
qed

lemma deleteCustomRole_repo_run:
  assumes "deleteCustomRole_repo p x s = (r, s')" and "owned s p x"
  shows "r = Inr True \<and> s' = role_deleted p x s"
  using assms
  by (auto simp: deleteCustomRole_repo_def bind_comp_def reads_def batch_def ret_def if_owned_def
      delete_role_perms_def delete_inheritance_of_def
      delete_role_assignments_def delete_custom_role_row_def role_deleted_def)

section \<open>Invalidation restores the caches\<close>

text \<open>The caches tell the truth but for the pairs of \<open>X\<close>.\<close>

lemma caches_kept:
  assumes "coherent s" "kv_bound s' = kv_bound s"
    and "\<And>p u. (p, u) \<notin> X \<Longrightarrow> held s' p u = held s p u \<and> roles_of s' p u = roles_of s p u"
    and "\<And>p u v. \<lbrakk>isValidId p; isValidId u; kv_bound s; map_of (kv s') (rbacCacheKey p u) = Some v\<rbrakk>
        \<Longrightarrow> map_of (kv s) (rbacCacheKey p u) = Some v \<and> (p, u) \<notin> X"
    and "\<And>p u v. \<lbrakk>isValidId p; isValidId u; map_of (neg s') (rbacCacheKey p u) = Some v\<rbrakk>
        \<Longrightarrow> map_of (neg s) (rbacCacheKey p u) \<noteq> None \<and> (p, u) \<notin> X"
  shows "coherent s'"
proof (rule coherentI)
  fix p u ps e
  assume a: "isValidId p" "isValidId u" "kv_bound s'" "map_of (kv s') (rbacCacheKey p u) = Some (ps, e)"
  with assms(2) have b: "kv_bound s" by simp
  from assms(4) [OF a(1,2) b a(4)] have "map_of (kv s) (rbacCacheKey p u) = Some (ps, e)" "(p, u) \<notin> X" by simp_all
  with coherent_kv [OF assms(1) a(1,2) b] assms(3) show "set ps = held s' p u" by simp
next
  fix p u e
  assume a: "isValidId p" "isValidId u" "map_of (neg s') (rbacCacheKey p u) = Some e"
  from assms(5) [OF this] obtain e' where "map_of (neg s) (rbacCacheKey p u) = Some e'" "(p, u) \<notin> X" by auto
  with coherent_neg [OF assms(1) a(1,2)] assms(3) show "roles_of s' p u = {}" by simp
qed

lemma invalidateUser_coherent:
  assumes "coherent s" and run: "invalidateUserRBAC p u s1 = (r, s')"
    and "kv_bound s1 = kv_bound s" "kv s1 = kv s" "neg s1 = jdel (rbacCacheKey p u) (neg s)"
    and "\<And>p' u'. (p', u') \<noteq> (p, u) \<Longrightarrow> held s1 p' u' = held s p' u' \<and> roles_of s1 p' u' = roles_of s p' u'"
  shows "r = Inr () \<and> coherent s' \<and> tables s' = tables s1"
proof -
  have t: "tables s' = tables s1" and r: "r = Inr ()"
    using run by (auto simp: invalidateUserRBAC_def writes_def Let_def split: if_splits)
  have "coherent s'"
  proof (rule caches_kept [where X = "{(p, u)}", OF assms(1)])
    show "kv_bound s' = kv_bound s" using tables_eqD(8) [OF t] assms(3) by simp
    show "held s' p' u' = held s p' u' \<and> roles_of s' p' u' = roles_of s p' u'"
      if "(p', u') \<notin> {(p, u)}" for p' u'
      using that assms(6) tables_eq_held [OF t] roles_of_tables [OF t] by simp
    show "map_of (kv s) (rbacCacheKey p' u') = Some v \<and> (p', u') \<notin> {(p, u)}"
      if "isValidId p'" "isValidId u'" "kv_bound s" "map_of (kv s') (rbacCacheKey p' u') = Some v" for p' u' v
      using that run assms(3,4)
      by (auto simp: invalidateUserRBAC_def writes_def Let_def split: if_splits)
    show "map_of (neg s) (rbacCacheKey p' u') \<noteq> None \<and> (p', u') \<notin> {(p, u)}"
      if "isValidId p'" "isValidId u'" "map_of (neg s') (rbacCacheKey p' u') = Some v" for p' u' v
      using that run assms(5)
      by (auto simp: invalidateUserRBAC_def writes_def Let_def split: if_splits)
  qed
  with t r show ?thesis by simp
qed

lemma map_of_filter_neg: "map_of (filter (\<lambda>e. P (fst e)) m) k = (if P k then map_of m k else None)"
  by (induction m) auto

lemma set_project_user_ids:
  "u \<in> set (project_user_ids db p) \<longleftrightarrow> roles_of db p u \<noteq> {} \<or> (\<exists>r. (p, u, r) \<in> set (members db))"
proof -
  have "(\<exists>t \<in> set ts. fst t = p \<and> fst (snd t) = u) \<longleftrightarrow> (\<exists>r. (p, u, r) \<in> set ts)" for ts :: "(string \<times> string \<times> string) list"
    by force
  moreover have "u \<in> set (map (\<lambda>(_, u, _). u) (filter (\<lambda>(p', _, _). p' = p) ts)) \<longleftrightarrow>
      (\<exists>t \<in> set ts. fst t = p \<and> fst (snd t) = u)" for ts :: "(string \<times> string \<times> string) list"
    by (induction ts) auto
  ultimately show ?thesis
    by (simp only: project_user_ids_def set_remdups set_append Un_iff roles_of_def) blast
qed

lemma project_user_ids_neg [simp]: "project_user_ids (db\<lparr>neg := n\<rparr>) p = project_user_ids db p"
  by (simp add: project_user_ids_def)

lemma invalidateProject_coherent:
  assumes "coherent s" "wf_tables s" and run: "invalidateProjectRBAC p s1 = (r, s')"
    and "kv_bound s1 = kv_bound s" "kv s1 = kv s" "neg s1 = neg s" "members s1 = members s"
    and other: "\<And>p' u. p' \<noteq> p \<Longrightarrow> held s1 p' u = held s p' u \<and> roles_of s1 p' u = roles_of s p' u"
    and less: "\<And>u. roles_of s1 p u \<subseteq> roles_of s p u"
  shows "r = Inr () \<and> coherent s' \<and> tables s' = tables s1"
proof -
  have t: "tables s' = tables s1" and r: "r = Inr ()"
    using run by (auto simp: invalidateProjectRBAC_def writes_def Let_def clearNegativeProjectRbac_def split: if_splits)
  let ?X = "{(p, u) | u. \<exists>r. (p, u, r) \<in> set (members s)}"
  have none: "roles_of s p u = {}" if "(p, u) \<notin> ?X" for u
  proof (rule ccontr)
    assume "roles_of s p u \<noteq> {}"
    then obtain r where "(p, u, r) \<in> set (member_roles s)" by (auto simp: roles_of_def)
    with assms(2) have "\<exists>r'. (p, u, r') \<in> set (members s)" by (auto simp: wf_tables_def)
    with that show False by simp
  qed
  have "coherent s'"
  proof (rule caches_kept [where X = ?X, OF assms(1)])
    show "kv_bound s' = kv_bound s" using tables_eqD(8) [OF t] assms(4) by simp
    show "held s' p' u' = held s p' u' \<and> roles_of s' p' u' = roles_of s p' u'" if "(p', u') \<notin> ?X" for p' u'
    proof (cases "p' = p")
      case True
      with that none have "roles_of s p u' = {}" by simp
      with less [of u'] True tables_eq_held [OF t] roles_of_tables [OF t] show ?thesis by (simp add: held_def)
    qed (use other tables_eq_held [OF t] roles_of_tables [OF t] in simp)
    show "map_of (kv s) (rbacCacheKey p' u') = Some v \<and> (p', u') \<notin> ?X"
      if v: "isValidId p'" "isValidId u'" "kv_bound s" "map_of (kv s') (rbacCacheKey p' u') = Some v" for p' u' v
    proof (cases "isValidId p")
      case True
      with run v assms(4,5) have "map_of (fold (\<lambda>u m. jdel (rbacCacheKey p u) m) (project_user_ids s1 p) (kv s))
          (rbacCacheKey p' u') = Some v"
        by (auto simp: invalidateProjectRBAC_def writes_def Let_def clearNegativeProjectRbac_def)
      then have m: "map_of (kv s) (rbacCacheKey p' u') = Some v"
        and k: "rbacCacheKey p' u' \<notin> rbacCacheKey p ` set (project_user_ids s1 p)"
        by (auto simp: map_of_fold_jdel simp del: image_iff split: if_split_asm)
      from k have "p' = p \<Longrightarrow> u' \<notin> set (project_user_ids s1 p)" by blast
      with m show ?thesis by (auto simp: set_project_user_ids assms(7))
    qed (use run v assms(5) in \<open>auto simp: invalidateProjectRBAC_def writes_def\<close>)
    show "map_of (neg s) (rbacCacheKey p' u') \<noteq> None \<and> (p', u') \<notin> ?X"
      if "isValidId p'" "isValidId u'" "map_of (neg s') (rbacCacheKey p' u') = Some v" for p' u' v
      using that run assms(6)
      by (auto simp: invalidateProjectRBAC_def writes_def Let_def clearNegativeProjectRbac_def
          map_of_filter_neg [of "\<lambda>k. \<not> starts_with k _"] cache_key_prefix split: if_splits)
  qed
  with t r show ?thesis by simp
qed

end
