(* ===== verification/Rbac_Ops.thy ===== *)
theory Rbac_Ops
  imports Rbac_Writes
begin

text \<open>
  What each operation of \<open>services/rbac.ts\<close> does: it refuses and leaves the tables as they were,
  or every guard of the code held and the tables change in the one way stated here. In both
  cases the caches still tell the truth afterwards.
\<close>

section \<open>Writes with their invalidation\<close>

lemma tables_idem [simp]: "tables (tables db) = tables db"
  by (simp add: tables_def)

lemma written_tables:
  "tables (member_roles_set p u rs s) = member_roles_set p u rs (tables s)"
  "tables (member_removed p u s) = member_removed p u (tables s)"
  "tables (role_created x p n ps cs s) = role_created x p n ps cs (tables s)"
  "tables (role_rewritten p x n ps cs s) = role_rewritten p x n ps cs (tables s)"
  "tables (role_deleted p x s) = role_deleted p x (tables s)"
  "tables (s\<lparr>invitations := iv\<rparr>) = (tables s)\<lparr>invitations := iv\<rparr>"
  by (simp_all add: tables_def member_roles_set_def member_removed_def role_created_def
      role_rewritten_def role_deleted_def)

lemma held_same:
  "\<lbrakk>roles_of db' p u = roles_of db p u; \<And>r. carries db' p r = carries db p r\<rbrakk> \<Longrightarrow> held db' p u = held db p u"
  by (simp add: held_def)

lemma carries_member_writes [simp]:
  "carries (member_roles_set p u rs s) q r = carries s q r"
  "carries (member_removed p u s) q r = carries s q r"
  "carries (s\<lparr>invitations := iv\<rparr>) q r = carries s q r"
  by (rule carries_cong; simp add: owned_def member_roles_set_def member_removed_def)+

lemma roles_of_member_roles_set:
  "roles_of (member_roles_set p u rs s) p' u' = (if (p', u') = (p, u) then set rs else roles_of s p' u')"
  by (auto simp: roles_of_def member_roles_set_def)

lemma roles_of_member_removed:
  "roles_of (member_removed p u s) p' u' = (if (p', u') = (p, u) then {} else roles_of s p' u')"
  by (auto simp: roles_of_def member_removed_def)

lemma changes_member_write:
  assumes run: "\<And>s r s1. w s = (r, s1) \<Longrightarrow> (\<exists>e. r = Inl e \<and> s1 = s) \<or>
      (\<exists>x. r = Inr x \<and> s1 = (f s)\<lparr>neg := jdel (rbacCacheKey p u) (neg s)\<rparr>)"
    and tab: "\<And>s. tables (f s) = f (tables s)"
    and fld: "\<And>s. kv_bound (f s) = kv_bound s" "\<And>s. kv (f s) = kv s"
    and rol: "\<And>s p' u'. (p', u') \<noteq> (p, u) \<Longrightarrow> roles_of (f s) p' u' = roles_of s p' u'"
    and car: "\<And>s q r. carries (f s) q r = carries s q r"
  shows "changes db (bind_comp w (\<lambda>_. bind_comp (invalidateUserRBAC p u) (\<lambda>_. ret y)))
    (\<lambda>x s'. x = y \<and> coherent s' \<and> tables s' = tables (f db))"
  unfolding changes_def
proof (intro allI impI)
  fix s
  assume as_in: "as_in db s"
  then have s: "coherent s" "tables s = tables db" by (simp_all add: as_in_def)
  obtain r s1 where w: "w s = (r, s1)" by fastforce
  from run [OF w]
  show "case bind_comp w (\<lambda>_. bind_comp (invalidateUserRBAC p u) (\<lambda>_. ret y)) s of
      (Inl _, s') \<Rightarrow> as_in db s' | (Inr x, s') \<Rightarrow> x = y \<and> coherent s' \<and> tables s' = tables (f db)"
  proof (elim disjE exE conjE)
    fix e
    assume "r = Inl e" "s1 = s"
    with w as_in show ?thesis by (simp add: bind_comp_def)
  next
    fix x
    assume r: "r = Inr x" and s1: "s1 = (f s)\<lparr>neg := jdel (rbacCacheKey p u) (neg s)\<rparr>"
    obtain r2 s2 where i: "invalidateUserRBAC p u s1 = (r2, s2)" by fastforce
    have "r2 = Inr () \<and> coherent s2 \<and> tables s2 = tables s1"
    proof (rule invalidateUser_coherent [OF s(1) i])
      fix p' u'
      assume ne: "(p', u') \<noteq> (p, u)"
      have "roles_of s1 p' u' = roles_of s p' u'" using rol [OF ne] by (simp add: s1)
      moreover have "held s1 p' u' = held s p' u'"
        unfolding s1 by (simp add: held_def rol [OF ne] car)
      ultimately show "held s1 p' u' = held s p' u' \<and> roles_of s1 p' u' = roles_of s p' u'" by simp
    qed (simp_all add: s1 fld)
    moreover have "tables s1 = tables (f db)" using s(2) tab by (simp add: s1)
    ultimately show ?thesis using w r i by (simp add: bind_comp_def ret_def)
  qed
qed

lemma cache_fields [simp]:
  "kv_bound (member_roles_set p u rs s) = kv_bound s" "kv (member_roles_set p u rs s) = kv s"
  "kv_bound (member_removed p u s) = kv_bound s" "kv (member_removed p u s) = kv s"
  by (simp_all add: member_roles_set_def member_removed_def)

lemma changes_set_roles:
  "changes db (bind_comp (updateMemberRoles_repo p m rs) (\<lambda>_. bind_comp (invalidateUserRBAC p m) (\<lambda>_. ret y)))
    (\<lambda>x s'. x = y \<and> coherent s' \<and> tables s' = tables (member_roles_set p m rs db))"
  by (rule changes_member_write [where f = "member_roles_set p m rs"])
    (auto simp: written_tables roles_of_member_roles_set dest: updateMemberRoles_repo_run)

lemma changes_remove:
  "changes db (bind_comp (removeProjectMember p m) (\<lambda>_. bind_comp (invalidateUserRBAC p m) (\<lambda>_. ret y)))
    (\<lambda>x s'. x = y \<and> coherent s' \<and> tables s' = tables (member_removed p m db))"
  by (rule changes_member_write [where f = "member_removed p m"])
    (auto simp: written_tables roles_of_member_removed dest: removeProjectMember_run)

section \<open>Members\<close>

text \<open>The roles an invitation grants, by the tables.\<close>

definition invited_roles :: "rbac \<Rightarrow> string \<Rightarrow> string \<Rightarrow> string list" where
  "invited_roles db i p = (case find (\<lambda>v. i_id v = i \<and> i_project v = p) (invitations db) of
     None \<Rightarrow> [] | Some v \<Rightarrow> i_roles v)"

definition invitation_exists :: "rbac \<Rightarrow> string \<Rightarrow> string \<Rightarrow> bool" where
  "invitation_exists db i p = (\<exists>v \<in> set (invitations db). i_id v = i \<and> i_project v = p)"

definition others_own :: "rbac \<Rightarrow> string \<Rightarrow> string \<Rightarrow> bool" where
  "others_own db p u = (\<exists>v. v \<noteq> u \<and> ''owner'' \<in> roles_of db p v)"

lemma set_project_owners: "set (project_owners db p) = {u. ''owner'' \<in> roles_of db p u}"
  by (force simp: project_owners_def roles_of_def)

lemma owner_count: "\<not> length (project_owners db p) \<le> 1 \<Longrightarrow> others_own db p u"
proof -
  assume "\<not> length (project_owners db p) \<le> 1"
  moreover have "distinct (project_owners db p)" by (simp add: project_owners_def)
  ultimately obtain v where "v \<in> set (project_owners db p)" "v \<noteq> u"
    by (metis One_nat_def card_le_Suc0_iff_eq distinct_card finite_set)
  then show ?thesis by (auto simp: others_own_def set_project_owners)
qed

lemma checks_owner_left [checks_rules]:
  "checks db (if b then bind_comp (getProjectOwnersCount p) (\<lambda>count. refuse_if (count \<le> 1) msg) else ret ())
    (\<lambda>_. b \<longrightarrow> others_own db p u)"
proof (rule checks_if)
  assume b
  have "checks db (bind_comp (getProjectOwnersCount p) (\<lambda>count. refuse_if (count \<le> 1) msg))
      (\<lambda>_. \<not> length (project_owners db p) \<le> 1)"
    by (rule checks_bind [OF checks_repo_reads(5)]) (simp add: checks_refuse)
  then show "checks db (bind_comp (getProjectOwnersCount p) (\<lambda>count. refuse_if (count \<le> 1) msg))
      (\<lambda>_. b \<longrightarrow> others_own db p u)"
    by (rule checks_weaken) (blast intro: owner_count)
qed (simp add: checks_def ret_def)

lemma changes_plain:
  assumes "\<And>s. as_in db s \<Longrightarrow> (\<exists>e. w s = (Inl e, s)) \<or> (\<exists>x. w s = (Inr x, f s))"
    and "\<And>s. tables (f s) = f (tables s)" "\<And>s. coherent s \<Longrightarrow> coherent (f s)"
  shows "changes db (bind_comp w (\<lambda>_. ret y)) (\<lambda>x s'. x = y \<and> coherent s' \<and> tables s' = tables (f db))"
  unfolding changes_def
proof (intro allI impI)
  fix s
  assume "as_in db s"
  with assms(1) [OF this] assms(3) [of s] assms(2) [of s] assms(2) [of db]
  show "case bind_comp w (\<lambda>_. ret y) s of (Inl _, s') \<Rightarrow> as_in db s'
      | (Inr x, s') \<Rightarrow> x = y \<and> coherent s' \<and> tables s' = tables (f db)"
    by (auto simp: bind_comp_def ret_def as_in_def)
qed

definition with_invites :: "(invite_row \<Rightarrow> invite_row) \<Rightarrow> rbac \<Rightarrow> rbac" where
  "with_invites g db = db\<lparr>invitations := map g (invitations db)\<rparr>"

lemma tables_with_invites: "tables (with_invites g s) = with_invites g (tables s)"
  by (simp add: with_invites_def tables_def)

lemma roles_of_invites [simp]:
  "roles_of (with_invites g s) p u = roles_of s p u" "roles_of (s\<lparr>invitations := iv\<rparr>) p u = roles_of s p u"
  by (simp_all add: with_invites_def roles_of_def)

lemma held_invites [simp]:
  "held (with_invites g s) p u = held s p u" "held (s\<lparr>invitations := iv\<rparr>) p u = held s p u"
  by (rule held_cong; simp add: with_invites_def)+

lemma coherent_invites:
  "coherent s \<Longrightarrow> coherent (with_invites g s)" "coherent s \<Longrightarrow> coherent (s\<lparr>invitations := iv\<rparr>)"
  by (rule coherent_shrink; force simp: with_invites_def)+

definition invite_roles_set :: "string \<Rightarrow> string list \<Rightarrow> rbac \<Rightarrow> rbac" where
  "invite_roles_set i rs = with_invites (\<lambda>v. if i_id v = i then v\<lparr>i_roles := rs\<rparr> else v)"

definition invite_revoked :: "string \<Rightarrow> rbac \<Rightarrow> rbac" where
  "invite_revoked i = with_invites (\<lambda>v. if i_id v = i then v\<lparr>i_status := Revoked\<rparr> else v)"

lemma updateInvitationRoles_run:
  "(\<exists>e. updateInvitationRoles i rs s = (Inl e, s)) \<or> updateInvitationRoles i rs s = (Inr (), invite_roles_set i rs s)"
  by (simp add: updateInvitationRoles_def invite_roles_set_def with_invites_def)

lemma changes_invite_roles:
  "changes db (bind_comp (updateInvitationRoles i rs) (\<lambda>_. ret y))
    (\<lambda>x s'. x = y \<and> coherent s' \<and> tables s' = tables (invite_roles_set i rs db))"
  by (rule changes_plain [where f = "invite_roles_set i rs"])
    (use updateInvitationRoles_run in \<open>auto simp: invite_roles_set_def tables_with_invites coherent_invites\<close>)

lemma changes_revoke:
  "changes db (bind_comp (revokeInvitation i) (\<lambda>_. ret y))
    (\<lambda>x s'. x = y \<and> coherent s' \<and> tables s' = tables (invite_revoked i db))"
  by (rule changes_plain [where f = "invite_revoked i"])
    (simp_all add: revokeInvitation_def writes_def invite_revoked_def tables_with_invites coherent_invites,
     simp add: with_invites_def)

text \<open>What a member edit that goes through has established, and what it changes.\<close>

definition member_edit :: "rbac \<Rightarrow> string \<Rightarrow> string option \<Rightarrow> string \<Rightarrow> string list \<Rightarrow> rbac \<Rightarrow> bool" where
  "member_edit db p c m rs s' =
     (\<not> is_guest db c \<and> c \<noteq> Some m \<and> rs \<noteq> [] \<and> (\<forall>r \<in> set rs. known_role db p r) \<and> coherent s' \<and>
      (if invitation_exists db m p
       then verdict (effective db p) (grants db p (invited_roles db m p @ rs)) c [] = Inr () \<and>
            tables s' = tables (invite_roles_set m rs db)
       else roles_of db p m \<noteq> {} \<and>
            verdict (effective db p) (grants db p rs) c [m] = Inr () \<and>
            (''owner'' \<in> roles_of db p m \<longrightarrow> ''owner'' \<in> set rs \<or> others_own db p m) \<and>
            tables s' = tables (member_roles_set p m rs db)))"

text \<open>One guard at a time, in the order of the code.\<close>

lemmas guard = changes_bind [OF checks_refuse] changes_bind [OF checks_not_guest]
  changes_bind [OF checks_roles_exist] changes_bind [OF checks_can_grant] changes_bind [OF checks_covers]
  changes_bind [OF checks_outranks] changes_bind [OF checks_custom_role] changes_bind [OF checks_permissions]
  changes_bind [OF checks_includable] changes_bind [OF checks_name_exists] changes_bind [OF checks_repo_reads(2)]
  changes_bind [OF checks_repo_reads(4)] changes_bind [OF checks_repo_reads(6)] changes_bind [OF checks_repo_reads(7)]
  changes_bind [OF checks_repo_reads(8)] changes_bind [OF checks_repo_reads(9)] changes_bind [OF checks_repo_reads(10)]

lemma no_roles: "roles_of db p u = {} \<longleftrightarrow> user_roles db p u = []"
  by (metis set_user_roles set_empty)

lemma updateMemberRoles_changes:
  "changes db (updateMemberRoles p c m rf) (\<lambda>x s'. member_edit db p c m (or_empty rf) s')"
  unfolding updateMemberRoles_def Let_def
  apply (rule guard)+
  apply (rule changes_if)
   apply (rule guard)+
   apply (rule changes_cong [OF changes_invite_roles])
   apply (auto simp: member_edit_def invitation_exists_def invited_roles_def)[1]
  apply (rule guard)+
  apply (rule changes_bind [OF checks_owner_left [where u = m]])
  apply (rule changes_cong [OF changes_set_roles])
  apply (auto simp: member_edit_def invitation_exists_def no_roles set_user_roles)
  done

text \<open>What a removal that goes through has established, and what it changes.\<close>

definition member_removal :: "rbac \<Rightarrow> string \<Rightarrow> string option \<Rightarrow> string \<Rightarrow> rbac \<Rightarrow> bool" where
  "member_removal db p c m s' =
     (\<not> is_guest db c \<and> c \<noteq> Some m \<and> coherent s' \<and>
      (if invitation_exists db m p
       then verdict (effective db p) (grants db p (invited_roles db m p)) c [] = Inr () \<and>
            tables s' = tables (invite_revoked m db)
       else verdict (effective db p) (grants db p []) c [m] = Inr () \<and>
            (''owner'' \<in> roles_of db p m \<longrightarrow> others_own db p m) \<and>
            tables s' = tables (member_removed p m db)))"

lemma removeMember_changes:
  "changes db (removeMember p c m) (\<lambda>x s'. member_removal db p c m s' \<and>
     x = (if invitation_exists db m p then ''revoked'' else ''removed''))"
  unfolding removeMember_def Let_def
  apply (rule guard)+
  apply (rule changes_if)
   apply (rule guard)+
   apply (rule changes_cong [OF changes_revoke])
   apply (auto simp: member_removal_def invitation_exists_def invited_roles_def)[1]
  apply (rule guard)+
  apply (rule changes_bind [OF checks_owner_left [where u = m]])
  apply (rule changes_cong [OF changes_remove])
  apply (auto simp: member_removal_def invitation_exists_def set_user_roles)
  done

section \<open>Custom roles\<close>

lemma owned_unique: "wf_tables db \<Longrightarrow> owned db p x \<Longrightarrow> owned db q x \<Longrightarrow> q = p"
  by (auto simp: wf_tables_def owned_def distinct_map inj_on_def)

lemma owned_id: "owned db p x \<Longrightarrow> x \<in> role_ids db"
  by (auto simp: owned_def role_ids_def)

lemma wf_rows:
  assumes "wf_tables db"
  shows "(r, q) \<in> set (role_perms db) \<Longrightarrow> r \<in> role_ids db"
    and "(r, c) \<in> set (inheritance db) \<Longrightarrow> r \<in> role_ids db"
  using assms unfolding wf_tables_def by (metis fst_conv image_eqI subsetD)+

lemma carries_eqI:
  "\<lbrakk>inc db' p = inc db p; \<And>r. own_perms db' p r = own_perms db p r\<rbrakk> \<Longrightarrow> carries db' p r = carries db p r"
  by (simp add: carries_def)

text \<open>
  Giving one role \<open>x\<close> new permissions \<open>P\<close> and new included roles \<open>I\<close> adds nothing to any role but
  \<open>P\<close> and what the roles of \<open>I\<close> carried before.
\<close>

lemma carries_grow:
  assumes edge: "\<And>r c. (r, c) \<in> inc db' p \<Longrightarrow> (r, c) \<in> inc db p \<or> (r = x \<and> c \<in> I)"
    and own: "\<And>r. own_perms db' p r \<subseteq> own_perms db p r \<union> (if r = x then P else {})"
  shows "carries db' p r \<subseteq> carries db p r \<union> P \<union> (\<Union>c \<in> I. carries db p c)"
proof -
  let ?new = "P \<union> (\<Union>c \<in> I. carries db p c)"
  have path: "perm \<in> ?new \<or> ((r, r') \<in> inc db p ^^ k \<and> perm \<in> own_perms db p r')"
    if "k \<le> 3" "(r, r') \<in> inc db' p ^^ k" "perm \<in> own_perms db' p r'" for k r r' perm
    using that
  proof (induction k arbitrary: r)
    case 0
    then show ?case using own [of r'] by (auto split: if_splits)
  next
    case (Suc k)
    then obtain c where c: "(r, c) \<in> inc db' p" "(c, r') \<in> inc db' p ^^ k" by (meson relpow_Suc_D2)
    with Suc have "perm \<in> ?new \<or> ((c, r') \<in> inc db p ^^ k \<and> perm \<in> own_perms db p r')" by simp
    then show ?case
    proof
      assume rest: "(c, r') \<in> inc db p ^^ k \<and> perm \<in> own_perms db p r'"
      from edge [OF c(1)] show ?thesis
      proof
        assume "(r, c) \<in> inc db p"
        with rest show ?thesis by (blast intro: relpow_Suc_I2)
      next
        assume "r = x \<and> c \<in> I"
        moreover have "perm \<in> carries db p c" using rest Suc.prems(1)
          by (auto simp: carries_def intro!: exI [of _ k])
        ultimately show ?thesis by blast
      qed
    qed blast
  qed
  show ?thesis
  proof
    fix perm
    assume "perm \<in> carries db' p r"
    then obtain k r' where "k \<le> 3" "(r, r') \<in> inc db' p ^^ k" "perm \<in> own_perms db' p r'"
      by (auto simp: carries_def)
    with path [OF this] show "perm \<in> carries db p r \<union> P \<union> (\<Union>c \<in> I. carries db p c)"
      by (auto simp: carries_def)
  qed
qed

text \<open>A role that carries nothing can be dropped from the roles it is included in.\<close>

lemma carries_dead_end:
  assumes edges: "\<And>r c. (r, c) \<in> inc db' p \<longleftrightarrow> (r, c) \<in> inc db p \<and> c \<noteq> x"
    and own: "\<And>r. own_perms db' p r = own_perms db p r"
    and dead: "own_perms db p x = {}" "\<And>c. (x, c) \<notin> inc db p"
  shows "carries db' p r = carries db p r"
proof -
  have "(r, r') \<in> inc db' p ^^ k" if "(r, r') \<in> inc db p ^^ k" "perm \<in> own_perms db p r'" for k r r' perm
    using that
  proof (induction k arbitrary: r)
    case (Suc k)
    then obtain c where c: "(r, c) \<in> inc db p" "(c, r') \<in> inc db p ^^ k" by (meson relpow_Suc_D2)
    have "c \<noteq> x"
    proof
      assume "c = x"
      with c(2) dead Suc.prems(2) show False by (cases k) (auto simp del: relpow.simps(2) dest!: relpow_Suc_D2)
    qed
    with c Suc edges show ?case by (blast intro: relpow_Suc_I2)
  qed simp
  moreover have "(r, r') \<in> inc db p ^^ k" if "(r, r') \<in> inc db' p ^^ k" for k r r'
    using that by (induction k arbitrary: r') (auto simp: edges relcomp_unfold)
  ultimately show ?thesis unfolding carries_def own by blast
qed

lemma owned_created:
  "owned (role_created x p n ps cs s) q r \<longleftrightarrow> owned s q r \<or> (q = p \<and> r = x)"
  by (auto simp: owned_def role_created_def)

lemma owned_rewritten [simp]: "owned (role_rewritten p x n ps cs s) q r = owned s q r"
  using owned_rewrite [where db = s and x = x and p = p and n = n] by (simp add: owned_def role_rewritten_def)

lemma owned_deleted:
  "owned (role_deleted p x s) q r \<longleftrightarrow> owned s q r \<and> \<not> (q = p \<and> r = x)"
  by (auto simp: owned_def role_deleted_def)

lemma carries_created_other:
  assumes "q \<noteq> p" "x \<notin> role_ids s"
  shows "carries (role_created x p n ps cs s) q r = carries s q r"
proof (rule carries_eqI)
  have "\<not> owned s q x" using assms(2) owned_id by blast
  with assms(1) show "inc (role_created x p n ps cs s) q = inc s q"
    and "own_perms (role_created x p n ps cs s) q r = own_perms s q r" for r
    by (auto simp: inc_def own_perms_def owned_created) (auto simp: role_created_def)
qed

lemma carries_rewritten_other:
  assumes "q \<noteq> p" "owned s p x" "wf_tables s"
  shows "carries (role_rewritten p x n ps cs s) q r = carries s q r"
proof (rule carries_eqI)
  have "\<not> owned s q x" using assms owned_unique by blast
  then show "inc (role_rewritten p x n ps cs s) q = inc s q"
    and "own_perms (role_rewritten p x n ps cs s) q r = own_perms s q r" for r
    by (auto simp: inc_def own_perms_def) (auto simp: role_rewritten_def)
qed

lemma carries_deleted_other:
  assumes "q \<noteq> p" "owned s p x" "wf_tables s" "\<not> isBuiltInRole x"
  shows "carries (role_deleted p x s) q r = carries s q r"
proof (rule carries_dead_end [where x = x])
  have no: "\<not> owned s q x" using assms owned_unique by blast
  with assms(1) show "(r, c) \<in> inc (role_deleted p x s) q \<longleftrightarrow> (r, c) \<in> inc s q \<and> c \<noteq> x" for r c
    by (auto simp: inc_def owned_deleted) (auto simp: role_deleted_def)
  from no assms(1) show "own_perms (role_deleted p x s) q r = own_perms s q r" for r
    by (auto simp: own_perms_def owned_deleted) (auto simp: role_deleted_def)
  from no assms(4) show "own_perms s q x = {}" by (simp add: own_perms_def)
  from no show "(x, c) \<notin> inc s q" for c by (simp add: inc_def)
qed

lemma carries_created:
  assumes "wf_tables s" "x \<notin> role_ids s"
  shows "carries (role_created x p n ps cs s) p r \<subseteq> carries s p r \<union> set ps \<union> (\<Union>c \<in> set cs. carries s p c)"
proof (rule carries_grow)
  show "(r, c) \<in> inc s p \<or> (r = x \<and> c \<in> set cs)" if "(r, c) \<in> inc (role_created x p n ps cs s) p" for r c
    using that wf_rows(2) [OF assms(1)] assms(2) by (auto simp: inc_def owned_created) (auto simp: role_created_def)
  show "own_perms (role_created x p n ps cs s) p r \<subseteq> own_perms s p r \<union> (if r = x then set ps else {})" for r
    using wf_rows(1) [OF assms(1)] assms(2) by (auto simp: own_perms_def owned_created) (auto simp: role_created_def)
qed

lemma carries_rewritten:
  "carries (role_rewritten p x n ps cs s) p r \<subseteq> carries s p r \<union> set ps \<union> (\<Union>c \<in> set cs. carries s p c)"
proof (rule carries_grow)
  show "(r, c) \<in> inc s p \<or> (r = x \<and> c \<in> set cs)" if "(r, c) \<in> inc (role_rewritten p x n ps cs s) p" for r c
    using that by (auto simp: inc_def) (auto simp: role_rewritten_def)
  show "own_perms (role_rewritten p x n ps cs s) p r \<subseteq> own_perms s p r \<union> (if r = x then set ps else {})" for r
    by (auto simp: own_perms_def) (auto simp: role_rewritten_def)
qed

lemma carries_deleted: "carries (role_deleted p x s) p r \<subseteq> carries s p r"
proof -
  have "carries (role_deleted p x s) p r \<subseteq> carries s p r \<union> {} \<union> (\<Union>c \<in> {}. carries s p c)"
  proof (rule carries_grow)
    show "(r, c) \<in> inc s p \<or> (r = x \<and> c \<in> {})" if "(r, c) \<in> inc (role_deleted p x s) p" for r c
      using that by (auto simp: inc_def owned_deleted) (auto simp: role_deleted_def)
    show "own_perms (role_deleted p x s) p r \<subseteq> own_perms s p r \<union> (if r = x then {} else {})" for r
      by (auto simp: own_perms_def owned_deleted) (auto simp: role_deleted_def)
  qed
  then show ?thesis by simp
qed

lemma wf_same: "tables s' = tables s \<Longrightarrow> wf_tables s' = wf_tables s"
  using tables_eqD [of s' s] by (simp add: wf_tables_def role_ids_def)

lemma role_write_fields [simp]:
  "kv_bound (role_created x p n ps cs s) = kv_bound s" "kv (role_created x p n ps cs s) = kv s"
  "neg (role_created x p n ps cs s) = neg s" "members (role_created x p n ps cs s) = members s"
  "kv_bound (role_rewritten p x n ps cs s) = kv_bound s" "kv (role_rewritten p x n ps cs s) = kv s"
  "neg (role_rewritten p x n ps cs s) = neg s" "members (role_rewritten p x n ps cs s) = members s"
  "kv_bound (role_deleted p x s) = kv_bound s" "kv (role_deleted p x s) = kv s"
  "neg (role_deleted p x s) = neg s" "members (role_deleted p x s) = members s"
  by (simp_all add: role_created_def role_rewritten_def role_deleted_def)

lemma changes_role_write:
  assumes wf: "wf_tables db"
    and run: "\<And>s r s1. \<lbrakk>as_in db s; wf_tables s; w s = (r, s1)\<rbrakk> \<Longrightarrow>
        (\<exists>e. r = Inl e \<and> s1 = s) \<or> (r = Inr v \<and> s1 = f s \<and> ok s)"
    and cont: "\<And>s. k v s = bind_comp (invalidateProjectRBAC p) (\<lambda>_. ret y) s"
    and tab: "\<And>s. tables (f s) = f (tables s)"
    and fld: "\<And>s. kv_bound (f s) = kv_bound s \<and> kv (f s) = kv s \<and> neg (f s) = neg s \<and> members (f s) = members s"
    and okt: "\<And>s. ok (tables s) = ok s"
    and other: "\<And>s q r. \<lbrakk>as_in db s; wf_tables s; ok s; q \<noteq> p\<rbrakk> \<Longrightarrow> carries (f s) q r = carries s q r"
    and less: "\<And>s q u. roles_of (f s) q u \<subseteq> roles_of s q u"
    and same: "\<And>s q u. q \<noteq> p \<Longrightarrow> roles_of (f s) q u = roles_of s q u"
  shows "changes db (bind_comp w k) (\<lambda>x s'. x = y \<and> coherent s' \<and> tables s' = tables (f db) \<and> ok db)"
  unfolding changes_def
proof (intro allI impI)
  fix s
  assume as_in: "as_in db s"
  then have s: "coherent s" "tables s = tables db" by (simp_all add: as_in_def)
  have wfs: "wf_tables s" using wf wf_same [OF s(2)] by simp
  obtain r s1 where w: "w s = (r, s1)" by fastforce
  from run [OF as_in wfs w]
  show "case bind_comp w k s of (Inl _, s') \<Rightarrow> as_in db s'
      | (Inr x, s') \<Rightarrow> x = y \<and> coherent s' \<and> tables s' = tables (f db) \<and> ok db"
  proof (elim disjE exE conjE)
    fix e
    assume "r = Inl e" "s1 = s"
    with w as_in show ?thesis by (simp add: bind_comp_def)
  next
    assume r: "r = Inr v" and s1: "s1 = f s" and ok: "ok s"
    obtain r2 s2 where i: "invalidateProjectRBAC p s1 = (r2, s2)" by fastforce
    have "r2 = Inr () \<and> coherent s2 \<and> tables s2 = tables s1"
    proof (rule invalidateProject_coherent [OF s(1) wfs i])
      fix q u
      assume ne: "q \<noteq> p"
      show "held s1 q u = held s q u \<and> roles_of s1 q u = roles_of s q u"
        using other [OF as_in wfs ok ne] same [OF ne] by (simp add: s1 held_def)
    qed (use fld less in \<open>simp_all add: s1\<close>)
    moreover have "tables s1 = tables (f db)" using s(2) tab by (simp add: s1)
    moreover have "ok db" using ok okt s(2) by metis
    ultimately show ?thesis using w r i cont by (simp add: bind_comp_def ret_def)
  qed
qed

lemma roles_of_role_writes:
  "roles_of (role_created x p n ps cs s) q u = roles_of s q u"
  "roles_of (role_rewritten p x n ps cs s) q u = roles_of s q u"
  "roles_of (role_deleted p x s) q u = (if q = p then roles_of s q u - {x} else roles_of s q u)"
  by (auto simp: roles_of_def role_created_def role_rewritten_def role_deleted_def)

lemma role_ids_tables: "role_ids (tables s) = role_ids s"
  by (simp add: role_ids_def table_reads)

lemma changes_create_role:
  assumes "wf_tables db"
  shows "changes db (bind_comp (createCustomRole_repo x p n ps cs) (\<lambda>_. bind_comp (invalidateProjectRBAC p) (\<lambda>_. ret y)))
    (\<lambda>z s'. z = y \<and> coherent s' \<and> tables s' = tables (role_created x p n ps cs db) \<and> x \<notin> role_ids db)"
  by (rule changes_role_write [OF assms, where f = "role_created x p n ps cs" and v = "()"])
    (auto simp: written_tables role_ids_tables roles_of_role_writes carries_created_other
      dest: createCustomRole_repo_run)

lemma as_in_owned: "as_in db s \<Longrightarrow> owned s p x = owned db p x"
  by (metis as_in_def owned_tables)

lemma changes_rewrite_role:
  assumes "wf_tables db" "owned db p x"
  shows "changes db (bind_comp (updateCustomRole_repo p x n ps cs)
      (\<lambda>changed. bind_comp (refuse_if (\<not> changed) msg) (\<lambda>_. invalidateProjectRBAC p)))
    (\<lambda>z s'. z = () \<and> coherent s' \<and> tables s' = tables (role_rewritten p x n ps cs db) \<and> True)"
proof (rule changes_role_write [OF assms(1), where f = "role_rewritten p x n ps cs" and v = True])
  fix s r s1
  assume "as_in db s" "updateCustomRole_repo p x n ps cs s = (r, s1)"
  with updateCustomRole_repo_run show "(\<exists>e. r = Inl e \<and> s1 = s) \<or> (r = Inr True \<and> s1 = role_rewritten p x n ps cs s \<and> True)"
    using assms(2) as_in_owned by blast
next
  fix s q r
  assume "as_in db s" "wf_tables s" "q \<noteq> p"
  with assms(2) show "carries (role_rewritten p x n ps cs s) q r = carries s q r"
    by (simp add: as_in_owned carries_rewritten_other)
qed (auto simp: written_tables roles_of_role_writes bind_comp_def refuse_if_def ret_def
    split: prod.splits sum.splits)

lemma changes_delete_role:
  assumes "wf_tables db" "owned db p x" "\<not> isBuiltInRole x"
  shows "changes db (bind_comp (deleteCustomRole_repo p x)
      (\<lambda>changed. bind_comp (refuse_if (\<not> changed) msg) (\<lambda>_. invalidateProjectRBAC p)))
    (\<lambda>z s'. z = () \<and> coherent s' \<and> tables s' = tables (role_deleted p x db) \<and> True)"
proof (rule changes_role_write [OF assms(1), where f = "role_deleted p x" and v = True])
  fix s r s1
  assume "as_in db s" "deleteCustomRole_repo p x s = (r, s1)"
  with deleteCustomRole_repo_run show "(\<exists>e. r = Inl e \<and> s1 = s) \<or> (r = Inr True \<and> s1 = role_deleted p x s \<and> True)"
    using assms(2) as_in_owned by blast
next
  fix s q r
  assume "as_in db s" "wf_tables s" "q \<noteq> p"
  with assms(2,3) show "carries (role_deleted p x s) q r = carries s q r"
    by (simp add: as_in_owned carries_deleted_other)
qed (auto simp: written_tables roles_of_role_writes bind_comp_def refuse_if_def ret_def
    split: prod.splits sum.splits)

text \<open>What the role editors that go through have established, and what they change.\<close>

definition role_creation :: "rbac \<Rightarrow> string \<Rightarrow> string option \<Rightarrow> role_body \<Rightarrow> string \<Rightarrow> rbac \<Rightarrow> bool" where
  "role_creation db p c body x s' =
     (let ps = or_empty (b_permissions body); cs = or_empty (b_included body) in
      \<not> is_guest db c \<and> \<not> blank_opt (b_name body) \<and> set ps \<subseteq> set permission_keys \<and>
      (\<forall>r \<in> set cs. known_role db p r) \<and> x \<notin> role_ids db \<and>
      verdict (effective db p) (grants db p cs \<union> set ps) c [] = Inr () \<and> coherent s' \<and>
      tables s' = tables (role_created x p (trim (the (b_name body))) ps cs db))"

lemma createCustomRole_changes:
  assumes "wf_tables db"
  shows "changes db (createCustomRole p c body fresh)
    (\<lambda>x s'. x = ''c_'' @ fresh \<and> role_creation db p c body (''c_'' @ fresh) s')"
  unfolding createCustomRole_def Let_def
  apply (rule guard)+
  apply (rule changes_cong [OF changes_create_role [OF assms]])
  apply (simp add: role_creation_def Let_def)
  done

definition role_rewrite :: "rbac \<Rightarrow> string \<Rightarrow> string option \<Rightarrow> string \<Rightarrow> role_body \<Rightarrow> rbac \<Rightarrow> bool" where
  "role_rewrite db p c x body s' =
     (let ps = or_empty (b_permissions body); cs = or_empty (b_included body) in
      \<not> is_guest db c \<and> \<not> isReservedRoleId x \<and> owned db p x \<and> \<not> blank_opt (b_name body) \<and>
      set ps \<subseteq> set permission_keys \<and> (\<forall>r \<in> set cs. known_role db p r) \<and> x \<notin> set cs \<and>
      verdict (effective db p) (grants db p cs \<union> set ps) c (role_holders db p x) = Inr () \<and> coherent s' \<and>
      tables s' = tables (role_rewritten p x (trim (the (b_name body))) ps cs db))"

lemma updateCustomRole_changes:
  assumes "wf_tables db"
  shows "changes db (updateCustomRole p c x body) (\<lambda>_ s'. role_rewrite db p c x body s')"
  unfolding updateCustomRole_def Let_def
  apply (rule guard)+
  apply (rule changes_cong [OF changes_rewrite_role [OF assms]], assumption)
  apply (simp add: role_rewrite_def Let_def)
  done

definition role_deletion :: "rbac \<Rightarrow> string \<Rightarrow> string option \<Rightarrow> string \<Rightarrow> rbac \<Rightarrow> bool" where
  "role_deletion db p c x s' =
     (\<not> is_guest db c \<and> \<not> isReservedRoleId x \<and> owned db p x \<and>
      verdict (effective db p) (grants db p []) c (role_holders db p x) = Inr () \<and> coherent s' \<and>
      tables s' = tables (role_deleted p x db))"

lemma deleteCustomRole_changes:
  assumes "wf_tables db"
  shows "changes db (deleteCustomRole p c x) (\<lambda>_ s'. role_deletion db p c x s')"
  unfolding deleteCustomRole_def
  apply (rule guard)+
  apply (rule changes_cong [OF changes_delete_role [OF assms]], assumption)
   apply (simp add: isReservedRoleId_def)
  apply (simp add: role_deletion_def)
  done

section \<open>Invitations\<close>

definition invited :: "invite_row \<Rightarrow> rbac \<Rightarrow> rbac" where
  "invited i db = db\<lparr>invitations := invitations db @ [i]\<rparr>"

lemma changes_invite:
  "changes db (bind_comp (createInvitation_repo iid p em un rs tok ex) (\<lambda>_. ret y))
    (\<lambda>x s'. x = y \<and> coherent s' \<and> tables s' = tables (invited \<lparr>i_id = iid, i_project = p, i_email = em,
       i_username = un, i_roles = rs, i_status = Pending, i_token = tok, i_expires = ex\<rparr> db))"
  by (rule changes_plain [where f = "invited _"])
    (auto simp: createInvitation_repo_def invited_def coherent_invites tables_def)

text \<open>What an invitation that is sent has established, and what is stored.\<close>

definition invite_sent :: "rbac \<Rightarrow> string \<Rightarrow> string option \<Rightarrow> string list \<Rightarrow> string \<Rightarrow> string \<Rightarrow> rbac \<Rightarrow> bool" where
  "invite_sent db p c rs iid tok s' =
     (\<not> is_guest db c \<and> rs \<noteq> [] \<and> (\<forall>r \<in> set rs. known_role db p r) \<and>
      verdict (effective db p) (grants db p rs) c [] = Inr () \<and> coherent s' \<and>
      (\<exists>em un. tables s' = tables (invited \<lparr>i_id = iid, i_project = p, i_email = em, i_username = un, i_roles = rs,
         i_status = Pending, i_token = tok, i_expires = (clock db + 604800000) div 1000\<rparr> db)))"

lemma changes_then:
  assumes "changes db m G"
    and "\<And>x s s' r. \<lbrakk>G x s; k x s = (r, s')\<rbrakk> \<Longrightarrow> s' = s \<and> (\<exists>y. r = Inr y)"
    and "\<And>x s. G x s \<Longrightarrow> H s"
  shows "changes db (bind_comp m k) (\<lambda>_ s. H s)"
  unfolding changes_def
proof (intro allI impI)
  fix s
  assume "as_in db s"
  with assms(1) have m: "case m s of (Inl _, s') \<Rightarrow> as_in db s' | (Inr x, s') \<Rightarrow> G x s'"
    by (simp add: changes_def)
  show "case bind_comp m k s of (Inl _, s') \<Rightarrow> as_in db s' | (Inr x, s') \<Rightarrow> H s'"
  proof (cases "m s")
    case (Pair r s1)
    show ?thesis
    proof (cases r)
      case (Inl e)
      with Pair m show ?thesis by (simp add: bind_comp_def)
    next
      case (Inr x)
      with Pair m have "G x s1" by simp
      moreover obtain r2 s2 where k: "k x s1 = (r2, s2)" by fastforce
      ultimately show ?thesis using assms(2,3) Pair Inr by (fastforce simp: bind_comp_def)
    qed
  qed
qed

lemma bind_ret [simp]: "bind_comp m ret = m"
  by (auto simp: bind_comp_def ret_def fun_eq_iff split: prod.splits sum.splits)

lemma checks_captcha:
  "checks db (if b then bind_comp (refuse_if c m1) (\<lambda>_. refuse_if d m2) else ret ()) (\<lambda>_. True)"
  by (auto simp: checks_def refuse_if_def throw_def ret_def bind_comp_def)

lemma checks_cooldown:
  "checks db (if b then bind_comp (reads kv_bound) (\<lambda>bound. refuse_if (bound \<and> c) m) else ret ()) (\<lambda>_. True)"
  by (auto simp: checks_def refuse_if_def throw_def ret_def bind_comp_def reads_def)

lemma createInvitation_changes:
  "changes db (createInvitation env p c body tt ip iid tok)
    (\<lambda>_ s'. invite_sent db p c (or_empty (v_roles body)) iid tok s')"
  unfolding createInvitation_def Let_def
  apply (rule guard)+
  apply (rule changes_bind [OF checks_captcha])
  apply (rule changes_bind [OF checks_cooldown])
  apply (rule guard)+
  apply (rule changes_then)
    apply (rule changes_invite [of _ _ _ _ _ _ _ _ "()", simplified])
  apply (auto simp: bind_comp_def getProjectName_def reads_def getUserDetails_def ret_def split: if_splits)[1]
  apply (auto simp: invite_sent_def)
  done

text \<open>The tables once a user has joined through an invitation.\<close>

definition joined :: "(invite_row \<Rightarrow> bool) \<Rightarrow> invite_row \<Rightarrow> string \<Rightarrow> rbac \<Rightarrow> rbac" where
  "joined acc i u db = db\<lparr>
     invitations := map (\<lambda>j. if acc j then j\<lparr>i_status := Accepted\<rparr> else j) (invitations db),
     member_roles := fold (\<lambda>r. sadd (i_project i, u, r)) (i_roles i) (member_roles db),
     members := (if \<exists>(p', u', r') \<in> set (members db). p' = i_project i \<and> u' = u then members db
                 else members db @ [(i_project i, u, ''viewer'')])\<rparr>"

lemma batch_join:
  "run_batch (map (insert_or_ignore_member_role p u) rs @ [insert_or_ignore_member p u v]) db =
     Inr (db\<lparr>member_roles := fold (\<lambda>r. sadd (p, u, r)) rs (member_roles db),
       members := (if \<exists>(p', u', r') \<in> set (members db). p' = p \<and> u' = u then members db
                 else members db @ [(p, u, v)])\<rparr>)"
  by (induction rs arbitrary: db) (simp_all add: insert_or_ignore_member_role_def insert_or_ignore_member_def)

lemma set_fold_sadd: "set (fold (\<lambda>r. sadd (f r)) rs xs) = set xs \<union> f ` set rs"
  by (induction rs arbitrary: xs) auto

lemma roles_of_joined:
  "roles_of (joined acc i u s) p' u' =
     (if (p', u') = (i_project i, u) then roles_of s p' u' \<union> set (i_roles i) else roles_of s p' u')"
  by (auto simp: roles_of_def joined_def set_fold_sadd)

lemma carries_joined [simp]: "carries (joined acc i u s) q r = carries s q r"
  by (rule carries_cong) (simp_all add: owned_def joined_def)

lemma joined_fields [simp]:
  "kv_bound (joined acc i u s) = kv_bound s" "kv (joined acc i u s) = kv s" "neg (joined acc i u s) = neg s"
  by (simp_all add: joined_def)

lemma tables_joined: "tables (joined acc i u s) = joined acc i u (tables s)"
  by (simp add: joined_def tables_def)

lemma acceptInvitation_repo_run:
  "acceptInvitation_repo token un em ver u s =
     (case find (acceptable s token un em ver) (invitations s) of
        None \<Rightarrow> (Inr None, s)
      | Some i \<Rightarrow> (Inr (Some (i\<lparr>i_status := Accepted\<rparr>)),
          (joined (acceptable s token un em ver) i u s)\<lparr>neg := jdel (rbacCacheKey (i_project i) u) (neg s)\<rparr>))"
  by (auto simp: acceptInvitation_repo_def bind_comp_def writes_def batch_def batch_join forget_no_roles_def
      ret_def joined_def split: option.split)

text \<open>What an acceptance that goes through has established, and what it changes.\<close>

definition acceptance :: "rbac \<Rightarrow> string option \<Rightarrow> string \<Rightarrow> invite_row \<Rightarrow> rbac \<Rightarrow> bool" where
  "acceptance db c token i s' =
     (\<exists>user. c = Some (u_id user) \<and> user \<in> set (users db) \<and> i \<in> set (invitations db) \<and> i_token i = token \<and>
        i_status i = Pending \<and> not_expired db i \<and> addressed_to (u_username user) (u_email user) (u_verified user) i \<and>
        coherent s' \<and>
        tables s' = tables (joined (acceptable db token (u_username user) (u_email user) (u_verified user)) i (u_id user) db))"

lemma acceptable_tables: "acceptable (tables s) = acceptable s"
  by (simp add: acceptable_def not_expired_def table_reads fun_eq_iff)

lemma changes_accept:
  assumes "user \<in> set (users db)" "c = Some (u_id user)"
  shows "changes db (bind_comp (acceptInvitation_repo token (u_username user) (u_email user) (u_verified user) (u_id user)) (\<lambda>accepted.
          case accepted of
            None \<Rightarrow> bind_comp (getInvitationByToken token) (\<lambda>existing. throw (Error (accept_refusal user existing)))
          | Some i \<Rightarrow> bind_comp (invalidateUserRBAC (i_project i) (u_id user)) (\<lambda>_. ret (i_project i))))
     (\<lambda>x s'. \<exists>i. x = i_project i \<and> acceptance db c token i s')"
  (is "changes db ?m ?G")
  unfolding changes_def
proof (intro allI impI)
  fix s
  assume as_in: "as_in db s"
  then have s: "coherent s" "tables s = tables db" by (simp_all add: as_in_def)
  let ?acc = "acceptable s token (u_username user) (u_email user) (u_verified user)"
  have acc: "?acc = acceptable db token (u_username user) (u_email user) (u_verified user)"
    using acceptable_tables [of s] acceptable_tables [of db] s(2) by metis
  have inv: "invitations s = invitations db" by (rule tables_eqD(6) [OF s(2)])
  show "case ?m s of (Inl _, s') \<Rightarrow> as_in db s' | (Inr x, s') \<Rightarrow> ?G x s'"
  proof (cases "find ?acc (invitations s)")
    case None
    with as_in show ?thesis
      by (simp add: bind_comp_def acceptInvitation_repo_run getInvitationByToken_def reads_def throw_def)
  next
    case (Some i)
    then have i: "i \<in> set (invitations s)" "?acc i" by (simp_all add: find_Some)
    let ?s1 = "(joined ?acc i (u_id user) s)\<lparr>neg := jdel (rbacCacheKey (i_project i) (u_id user)) (neg s)\<rparr>"
    obtain r s' where run: "invalidateUserRBAC (i_project i) (u_id user) ?s1 = (r, s')" by fastforce
    have healed: "r = Inr () \<and> coherent s' \<and> tables s' = tables ?s1"
    proof (rule invalidateUser_coherent [OF s(1) run])
      fix p' u'
      assume ne: "(p', u') \<noteq> (i_project i, u_id user)"
      then have "roles_of ?s1 p' u' = roles_of s p' u'" by (auto simp: roles_of_joined)
      moreover from this have "held ?s1 p' u' = held s p' u'" by (rule held_same) simp
      ultimately show "held ?s1 p' u' = held s p' u' \<and> roles_of ?s1 p' u' = roles_of s p' u'" by simp
    qed simp_all
    have "tables ?s1 = tables (joined ?acc i (u_id user) db)"
      using s(2) by (simp add: tables_joined)
    moreover have "i_token i = token" "i_status i = Pending" "not_expired db i"
      "addressed_to (u_username user) (u_email user) (u_verified user) i"
      using i(2) unfolding acc by (simp_all add: acceptable_def)
    ultimately have "acceptance db c token i s'"
      using assms i(1) healed unfolding acceptance_def acc inv by metis
    moreover have "?m s = (Inr (i_project i), s')"
      using Some run healed by (simp add: bind_comp_def acceptInvitation_repo_run ret_def)
    ultimately show ?thesis by (simp only: prod.case sum.case) blast
  qed
qed

lemma acceptInvitation_changes:
  "changes db (acceptInvitation c tf) (\<lambda>x s'. \<exists>token i. tf = Some token \<and> x = i_project i \<and> acceptance db c token i s')"
proof (cases tf)
  case None
  then show ?thesis by (simp add: acceptInvitation_def changes_def throw_def)
next
  case (Some token)
  show ?thesis
    unfolding acceptInvitation_def Some option.case
    apply (rule guard)+
    subgoal for _ _ found
    proof (cases found)
      case None
      then show ?thesis by (simp add: changes_def throw_def)
    next
      case (Some user)
      assume "\<not> absent c" "found = find (\<lambda>r. u_id r = the c) (users db)"
      with Some have u: "user \<in> set (users db)" "c = Some (u_id user)"
        using find_Some [of "\<lambda>r. u_id r = the c" "users db" user] by (auto simp: absent_def)
      show ?thesis
        unfolding Some option.case u(2) option.sel
        by (rule changes_cong [OF changes_accept [OF u(1) refl]]) blast
    qed
    done
qed

definition declined :: "(invite_row \<Rightarrow> bool) \<Rightarrow> rbac \<Rightarrow> rbac" where
  "declined hit = with_invites (\<lambda>i. if hit i then i\<lparr>i_status := Revoked\<rparr> else i)"

lemma changes_decline:
  "changes db (bind_comp (declineInvitation_repo token un em ver) (\<lambda>ok. bind_comp (refuse_if (\<not> ok) msg) (\<lambda>_. ret y)))
     (\<lambda>x s'. coherent s' \<and> tables s' = tables (declined
        (\<lambda>i. i_token i = token \<and> i_status i = Pending \<and> addressed_to un em ver i) db))"
  (is "changes db ?m _")
  unfolding changes_def
proof (intro allI impI)
  fix s
  assume as_in: "as_in db s"
  let ?hit = "\<lambda>i. i_token i = token \<and> i_status i = Pending \<and> addressed_to un em ver i"
  have none: "\<not> list_ex ?hit (invitations s) \<Longrightarrow> map (\<lambda>i. if ?hit i then i\<lparr>i_status := Revoked\<rparr> else i) (invitations s) = invitations s"
    by (rule map_idI) (auto simp: list_ex_iff)
  have run: "declineInvitation_repo token un em ver s = (Inr (list_ex ?hit (invitations s)), declined ?hit s)"
    by (simp add: declineInvitation_repo_def declined_def with_invites_def Let_def)
  show "case ?m s of (Inl _, s') \<Rightarrow> as_in db s'
      | (Inr x, s') \<Rightarrow> coherent s' \<and> tables s' = tables (declined ?hit db)"
  proof (cases "list_ex ?hit (invitations s)")
    case True
    with run as_in show ?thesis
      by (simp add: bind_comp_def refuse_if_def ret_def as_in_def)
        (simp add: declined_def coherent_invites tables_with_invites)
  next
    case False
    have "declined ?hit s = s\<lparr>invitations := invitations s\<rparr>"
      unfolding declined_def with_invites_def none [OF False] ..
    with False run as_in show ?thesis by (simp add: bind_comp_def refuse_if_def throw_def)
  qed
qed

lemma declineInvitation_changes:
  "changes db (declineInvitation c tf) (\<lambda>x s'. coherent s' \<and> (\<exists>hit. tables s' = tables (declined hit db)))"
proof (cases tf)
  case None
  then show ?thesis by (simp add: declineInvitation_def changes_def throw_def)
next
  case (Some token)
  show ?thesis
    unfolding declineInvitation_def Some option.case
    apply (rule guard)+
    subgoal for _ _ found
    proof (cases found)
      case None
      then show ?thesis by (simp add: changes_def throw_def)
    next
      case (Some user)
      show ?thesis
        unfolding Some option.case by (rule changes_cong [OF changes_decline]) blast
    qed
    done
qed

end
