(* ===== verification/Permission_Check.thy ===== *)
theory Permission_Check
  imports Rbac_Perms
begin

text \<open>
  What services rely on when they ask for a permission, as the locale \<open>permission_check\<close>: the answer is
  the one the tables give, and asking changes nothing but caches. It is interpreted on
  \<open>checkPermission\<close> here, and by its callers on the same query inside their own states.
\<close>

locale permission_check =
  fixes check :: "string \<Rightarrow> string \<Rightarrow> string \<Rightarrow> ('s, bool) comp"
    and ok :: "'s \<Rightarrow> bool" and same :: "'s \<Rightarrow> 's \<Rightarrow> bool" and perms :: "'s \<Rightarrow> string \<Rightarrow> string \<Rightarrow> string set"
  assumes check_law: "\<lbrakk>ok s; check u p perm s = (r, s')\<rbrakk> \<Longrightarrow> r = Inr (perm \<in> perms s p u) \<and> ok s' \<and> same s' s"
begin

lemma answer:
  assumes "ok s"
  shows "fst (check u p perm s) = Inr (perm \<in> perms s p u)" "ok (snd (check u p perm s))" "same (snd (check u p perm s)) s"
  using check_law [OF assms, of u p perm] by (cases "check u p perm s", simp)+

text \<open>An operation behind a check runs for those who hold the permission, and for nobody else.\<close>

lemma behind_check:
  assumes "ok s"
  shows "bind_comp (check u p perm) (\<lambda>yes. if yes then f () else throw e) s =
    (if perm \<in> perms s p u then f () (snd (check u p perm s)) else (Inl e, snd (check u p perm s)))"
proof -
  obtain r s' where run: "check u p perm s = (r, s')" by fastforce
  from check_law [OF assms run] run show ?thesis by (simp add: bind_comp_def throw_def)
qed

end

text \<open>The same query inside a larger state.\<close>

locale lifted_check = permission_check check ok same perms
  for check :: "string \<Rightarrow> string \<Rightarrow> string \<Rightarrow> ('s, bool) comp" and ok same perms +
  fixes inner :: "'t \<Rightarrow> 's" and set_inner :: "'s \<Rightarrow> 't \<Rightarrow> 't" and asks :: "string \<Rightarrow> string \<Rightarrow> string \<Rightarrow> ('t, bool) comp"
  assumes inner_set: "inner (set_inner s t) = s"
    and asks_inside: "asks u p perm t = (fst (check u p perm (inner t)), set_inner (snd (check u p perm (inner t))) t)"

sublocale lifted_check \<subseteq> outer: permission_check asks "\<lambda>t. ok (inner t)" "\<lambda>t' t. same (inner t') (inner t)" "\<lambda>t. perms (inner t)"
proof unfold_locales
  fix t u p perm r t'
  assume "ok (inner t)" "asks u p perm t = (r, t')"
  then show "r = Inr (perm \<in> perms (inner t) p u) \<and> ok (inner t') \<and> same (inner t') (inner t)"
    using answer [of "inner t" u p perm] by (auto simp: asks_inside inner_set)
qed

interpretation permissions: permission_check checkPermission coherent "\<lambda>db' db. tables db' = tables db" effective
proof unfold_locales
  fix db u p perm r db'
  assume c: "coherent db" and run: "checkPermission u p perm db = (r, db')"
  show "r = Inr (perm \<in> effective db p u) \<and> coherent db' \<and> tables db' = tables db"
  proof (cases "isValidId p \<and> isValidId u")
    case True
    obtain e db1 where eff: "getEffectivePermissions u p db = (e, db1)" by fastforce
    with eff_spec [OF c eff] True run show ?thesis by (auto simp: checkPermission_def bind_comp_def ret_def)
  next
    case False
    with c run show ?thesis by (auto simp: checkPermission_def ret_def effective_def)
  qed
qed

lemmas check_exact = permissions.answer(1)

end
