(* ===== verification/Rbac_Safety.thy ===== *)
theory Rbac_Safety
  imports Rbac_Ops Permission_Check
begin

text \<open>
  The operations of \<open>services/rbac.ts\<close> as the requests of a history, with the invariant of the
  tables and caches they keep, and the security properties of role management over them.
\<close>

section \<open>Requests\<close>

datatype request =
    Create_role string "string option" role_body string
  | Update_role string "string option" string role_body
  | Delete_role string "string option" string
  | Set_roles string "string option" string "string list option"
  | Remove string "string option" string
  | Send_invite invite_env string "string option" invite_body "string option" "string option" string string
  | Accept_invite "string option" "string option"
  | Decline_invite "string option" "string option"
  | Check string string string
  | Elapse int

fun perform :: "request \<Rightarrow> rbac \<Rightarrow> rbac" where
  "perform (Create_role p c body fresh) db = snd (createCustomRole p c body fresh db)"
| "perform (Update_role p c x body) db = snd (updateCustomRole p c x body db)"
| "perform (Delete_role p c x) db = snd (deleteCustomRole p c x db)"
| "perform (Set_roles p c m rf) db = snd (updateMemberRoles p c m rf db)"
| "perform (Remove p c m) db = snd (removeMember p c m db)"
| "perform (Send_invite env p c body tt ip iid tok) db = snd (createInvitation env p c body tt ip iid tok db)"
| "perform (Accept_invite c tf) db = snd (acceptInvitation c tf db)"
| "perform (Decline_invite c tf) db = snd (declineInvitation c tf db)"
| "perform (Check u p perm) db = snd (checkPermission u p perm db)"
| "perform (Elapse ms) db = db\<lparr>clock := clock db + ms\<rparr>"

text \<open>The project a management request is about and the user it acts for.\<close>

fun managed :: "request \<Rightarrow> (string \<times> string option) option" where
  "managed (Create_role p c _ _) = Some (p, c)"
| "managed (Update_role p c _ _) = Some (p, c)"
| "managed (Delete_role p c _) = Some (p, c)"
| "managed (Set_roles p c _ _) = Some (p, c)"
| "managed (Remove p c _) = Some (p, c)"
| "managed (Send_invite _ p c _ _ _ _ _) = Some (p, c)"
| "managed _ = None"

inductive rbac_reach :: "rbac \<Rightarrow> rbac \<Rightarrow> bool" for db0 where
  start: "rbac_reach db0 db0"
| step: "rbac_reach db0 db \<Longrightarrow> rbac_reach db0 (perform req db)"

section \<open>Every request is a refusal or one of the changes\<close>

inductive change :: "rbac \<Rightarrow> request \<Rightarrow> rbac \<Rightarrow> bool" for db where
  creation: "role_creation db p c body (''c_'' @ fresh) db' \<Longrightarrow> change db (Create_role p c body fresh) db'"
| rewrite: "role_rewrite db p c x body db' \<Longrightarrow> change db (Update_role p c x body) db'"
| deletion: "role_deletion db p c x db' \<Longrightarrow> change db (Delete_role p c x) db'"
| edit: "member_edit db p c m (or_empty rf) db' \<Longrightarrow> change db (Set_roles p c m rf) db'"
| removal: "member_removal db p c m db' \<Longrightarrow> change db (Remove p c m) db'"
| sent: "invite_sent db p c (or_empty (v_roles body)) iid tok db' \<Longrightarrow> change db (Send_invite env p c body tt ip iid tok) db'"
| accepted: "acceptance db c token i db' \<Longrightarrow> change db (Accept_invite c (Some token)) db'"
| declined: "coherent db' \<Longrightarrow> tables db' = tables (declined hit db) \<Longrightarrow> change db (Decline_invite c tf) db'"
| elapsed: "db' = db\<lparr>clock := clock db + ms\<rparr> \<Longrightarrow> change db (Elapse ms) db'"

inductive_cases change_cases [elim]:
  "change db (Create_role p c body fresh) db'" "change db (Update_role p c x body) db'"
  "change db (Delete_role p c x) db'" "change db (Set_roles p c m rf) db'" "change db (Remove p c m) db'"
  "change db (Send_invite env p c body tt ip iid tok) db'" "change db (Accept_invite c tf) db'"
  "change db (Decline_invite c tf) db'" "change db (Check u p perm) db'" "change db (Elapse ms) db'"

lemma changes_snd:
  assumes "changes db m G" "coherent db"
  shows "(coherent (snd (m db)) \<and> tables (snd (m db)) = tables db) \<or> (\<exists>x. G x (snd (m db)))"
  using assms by (cases "m db"; cases "fst (m db)") (auto simp: changes_def as_in_def)

lemma perform_changes:
  assumes "sound db"
  shows "(coherent (perform req db) \<and> tables (perform req db) = tables db) \<or> change db req (perform req db)"
proof -
  from assms have s: "coherent db" "wf_tables db" by (simp_all add: sound_def)
  show ?thesis
  proof (cases req)
    case (Create_role p c body fresh)
    with changes_snd [OF createCustomRole_changes [OF s(2)] s(1), of p c body fresh]
      change.creation [of db p c body fresh] show ?thesis by auto
  next
    case (Update_role p c x body)
    with changes_snd [OF updateCustomRole_changes [OF s(2)] s(1), of p c x body] show ?thesis by (auto intro: change.rewrite)
  next
    case (Delete_role p c x)
    with changes_snd [OF deleteCustomRole_changes [OF s(2)] s(1), of p c x] show ?thesis by (auto intro: change.deletion)
  next
    case (Set_roles p c m rf)
    with changes_snd [OF updateMemberRoles_changes s(1), of p c m rf] show ?thesis by (auto intro: change.edit)
  next
    case (Remove p c m)
    with changes_snd [OF removeMember_changes s(1), of p c m] show ?thesis by (auto intro: change.removal)
  next
    case (Send_invite env p c body tt ip iid tok)
    with changes_snd [OF createInvitation_changes s(1), of env p c body tt ip iid tok] show ?thesis by (auto intro: change.sent)
  next
    case (Accept_invite c tf)
    with changes_snd [OF acceptInvitation_changes s(1), of c tf] show ?thesis by (auto intro: change.accepted)
  next
    case (Decline_invite c tf)
    with changes_snd [OF declineInvitation_changes s(1), of c tf] show ?thesis by (auto intro: change.declined)
  next
    case (Check u p perm)
    have "coherent (snd (checkPermission u p perm db)) \<and> tables (snd (checkPermission u p perm db)) = tables db"
      using eff_spec [OF s(1), of u p] s(1)
      by (cases "getEffectivePermissions u p db") (force simp: checkPermission_def bind_comp_def ret_def)
    with Check show ?thesis by simp
  next
    case (Elapse ms)
    then show ?thesis by (auto intro: change.elapsed)
  qed
qed

section \<open>The invariant\<close>

lemma wf_member_writes:
  "\<lbrakk>wf_tables s; roles_of s p u \<noteq> {}\<rbrakk> \<Longrightarrow> wf_tables (member_roles_set p u rs s)"
  "wf_tables s \<Longrightarrow> wf_tables (member_removed p u s)"
proof -
  assume wf: "wf_tables s" and "roles_of s p u \<noteq> {}"
  let ?s = "member_roles_set p u rs s"
  have rows: "\<exists>r'. (p', u', r') \<in> set (members s)" if "(p', u', r) \<in> set (member_roles s)" for p' u' r
    using wf that by (auto simp: wf_tables_def)
  have kept: "\<exists>r''. (p', u', r'') \<in> set (members ?s)" if "(p', u', r') \<in> set (members s)" for p' u' r'
    using that by (cases "p' = p \<and> u' = u") (auto simp: member_roles_set_def intro!: rev_image_eqI)
  have "(p', u') = (p, u) \<or> (p', u', r) \<in> set (member_roles s)" if "(p', u', r) \<in> set (member_roles ?s)" for p' u' r
    using that by (auto simp: member_roles_set_def)
  moreover obtain r0 where "(p, u, r0) \<in> set (member_roles s)"
    using \<open>roles_of s p u \<noteq> {}\<close> by (auto simp: roles_of_def)
  ultimately have "\<exists>r'. (p', u', r') \<in> set (members ?s)" if "(p', u', r) \<in> set (member_roles ?s)" for p' u' r
    using that rows kept by (metis prod.inject)
  with wf show "wf_tables ?s"
    by (auto simp: wf_tables_def role_ids_def) (auto simp: member_roles_set_def)
next
  assume "wf_tables s"
  then show "wf_tables (member_removed p u s)"
    by (auto simp: wf_tables_def role_ids_def member_removed_def)
qed

lemma wf_set_roles: "\<lbrakk>wf_tables s; x \<in> roles_of s p u\<rbrakk> \<Longrightarrow> wf_tables (member_roles_set p u rs s)"
  by (rule wf_member_writes(1)) auto

lemma wf_role_writes:
  "\<lbrakk>wf_tables s; x \<notin> role_ids s\<rbrakk> \<Longrightarrow> wf_tables (role_created x p n ps cs s)"
  "\<lbrakk>wf_tables s; owned s p x\<rbrakk> \<Longrightarrow> wf_tables (role_rewritten p x n ps cs s)"
  "\<lbrakk>wf_tables s; owned s p x\<rbrakk> \<Longrightarrow> wf_tables (role_deleted p x s)"
proof -
  assume "wf_tables s" "x \<notin> role_ids s"
  then show "wf_tables (role_created x p n ps cs s)"
    by (auto simp: wf_tables_def role_ids_def role_created_def)
next
  assume wf: "wf_tables s" and own: "owned s p x"
  have ids: "map r_id (custom_roles (role_rewritten p x n ps cs s)) = map r_id (custom_roles s)"
    by (simp add: role_rewritten_def)
  then have "role_ids (role_rewritten p x n ps cs s) = role_ids s"
    unfolding role_ids_def by (metis list.set_map)
  with wf owned_id [OF own] ids show "wf_tables (role_rewritten p x n ps cs s)"
    by (auto simp: wf_tables_def) (auto simp: role_rewritten_def)
next
  assume wf: "wf_tables s" and own: "owned s p x"
  let ?s = "role_deleted p x s"
  have kept: "r \<in> role_ids s \<Longrightarrow> r \<noteq> x \<Longrightarrow> r \<in> role_ids ?s" for r
    by (auto simp: role_ids_def role_deleted_def)
  have sub: "A \<subseteq> role_ids ?s" if "A \<subseteq> B - {x}" "B \<subseteq> role_ids s" for A B
    using kept that by blast
  have less: "fst ` set (role_perms ?s) \<subseteq> fst ` set (role_perms s) - {x}"
    "fst ` set (inheritance ?s) \<subseteq> fst ` set (inheritance s) - {x}"
    by (auto simp: role_deleted_def)
  have "fst ` set (role_perms ?s) \<subseteq> role_ids ?s" "fst ` set (inheritance ?s) \<subseteq> role_ids ?s"
    using sub [OF less(1)] sub [OF less(2)] wf by (simp_all add: wf_tables_def)
  moreover have "distinct (map r_id (custom_roles ?s))"
    using wf by (simp add: wf_tables_def role_deleted_def distinct_map_filter)
  moreover have "\<forall>(p, u, r) \<in> set (member_roles ?s). \<exists>r'. (p, u, r') \<in> set (members ?s)"
    using wf by (auto simp: wf_tables_def role_deleted_def)
  ultimately show "wf_tables ?s" by (simp add: wf_tables_def)
qed

lemma wf_invitation_writes:
  "wf_tables s \<Longrightarrow> wf_tables (with_invites g s)" "wf_tables s \<Longrightarrow> wf_tables (invited i s)"
  "wf_tables s \<Longrightarrow> wf_tables (joined acc i u s)"
  by (auto simp: wf_tables_def role_ids_def with_invites_def invited_def joined_def set_fold_sadd)

lemma wf_tables_tables [simp]: "wf_tables (tables s) = wf_tables s"
  by (simp add: wf_tables_def role_ids_def table_reads)

lemma wf_of_tables: "tables db' = tables db \<Longrightarrow> wf_tables db \<Longrightarrow> wf_tables db'"
  by (metis wf_tables_tables)

lemma change_wf:
  assumes "change db req db'" "wf_tables db"
  shows "wf_tables db'"
  using assms(1)
proof cases
  case creation
  then show ?thesis
    by (auto simp: role_creation_def Let_def intro: wf_of_tables wf_role_writes(1) [OF assms(2)])
next
  case rewrite
  then show ?thesis
    by (auto simp: role_rewrite_def Let_def intro: wf_of_tables wf_role_writes(2) [OF assms(2)])
next
  case deletion
  then show ?thesis
    by (auto simp: role_deletion_def intro: wf_of_tables wf_role_writes(3) [OF assms(2)])
next
  case edit
  then show ?thesis
    by (auto simp: member_edit_def invite_roles_set_def split: if_splits
        intro: wf_of_tables wf_set_roles [OF assms(2)] wf_invitation_writes(1) [OF assms(2)])
next
  case removal
  then show ?thesis
    by (auto simp: member_removal_def invite_revoked_def split: if_splits
        intro: wf_of_tables wf_member_writes(2) [OF assms(2)] wf_invitation_writes(1) [OF assms(2)])
next
  case sent
  then show ?thesis
    by (auto simp: invite_sent_def intro: wf_of_tables wf_invitation_writes(2) [OF assms(2)])
next
  case accepted
  then show ?thesis
    by (auto simp: acceptance_def intro: wf_of_tables wf_invitation_writes(3) [OF assms(2)])
next
  case declined
  then show ?thesis
    by (auto simp: Rbac_Ops.declined_def intro: wf_of_tables wf_invitation_writes(1) [OF assms(2)])
next
  case elapsed
  with assms(2) show ?thesis by (simp add: wf_tables_def role_ids_def)
qed

lemma change_coherent:
  assumes "change db req db'" "coherent db"
  shows "coherent db'"
  using assms(1)
proof cases
  case elapsed
  with assms(2) show ?thesis
    by (auto simp: coherent_def roles_of_def held_cong [of "db\<lparr>clock := _\<rparr>" db])
qed (auto simp: role_creation_def role_rewrite_def role_deletion_def member_edit_def member_removal_def
    invite_sent_def acceptance_def Let_def)

lemma perform_sound: "sound db \<Longrightarrow> sound (perform req db)"
  using perform_changes [of db req] change_wf change_coherent wf_of_tables
  by (fastforce simp: sound_def)

lemma reach_sound: "rbac_reach db0 db \<Longrightarrow> sound db0 \<Longrightarrow> sound db"
  by (induction rule: rbac_reach.induct) (auto intro: perform_sound)

section \<open>What a change does to roles and permissions\<close>

lemma verdict_covered:
  assumes "verdict (effective db p) (grants db p rs \<union> P) c ms = Inr ()"
  shows "\<exists>a. c = Some a \<and> P \<subseteq> effective db p a \<and>
    (\<forall>r \<in> set rs. isValidId p \<longrightarrow> carries db p r \<subseteq> effective db p a) \<and>
    (\<forall>m \<in> set ms. effective db p m \<subseteq> effective db p a)"
  using assms by (auto simp: verdict_ok grants_def split: if_splits)

definition caller_perms :: "rbac \<Rightarrow> string \<Rightarrow> string option \<Rightarrow> string set" where
  "caller_perms db p c = (case c of None \<Rightarrow> {} | Some a \<Rightarrow> effective db p a)"

lemma effective_of_tables: "tables db' = tables db \<Longrightarrow> effective db' q u = effective db q u"
  by (rule effective_same)

lemma effective_mono:
  assumes "roles_of db' q u \<subseteq> roles_of db q u" and "\<And>r. isValidId q \<Longrightarrow> carries db' q r \<subseteq> carries db q r \<union> N"
  shows "effective db' q u \<subseteq> effective db q u \<union> N"
  using assms by (auto simp: effective_def held_def)

lemma effective_set_roles:
  assumes "\<And>r. isValidId p \<Longrightarrow> r \<in> set rs \<Longrightarrow> carries db p r \<subseteq> N"
  shows "effective (member_roles_set p m rs db) q u \<subseteq> effective db q u \<union> (if q = p then N else {})"
  using assms by (auto simp: effective_def held_def roles_of_member_roles_set split: if_splits)

lemma change_effective:
  assumes wf: "wf_tables db" and ch: "change db req db'" and "managed req = Some (p, c)"
  shows "effective db' q u \<subseteq> effective db q u \<union> (if q = p then caller_perms db p c else {})"
  using ch
proof cases
  case (creation p' c' body fresh)
  let ?x = "''c_'' @ fresh" and ?ps = "or_empty (b_permissions body)" and ?cs = "or_empty (b_included body)"
  let ?db = "role_created ?x p (trim (the (b_name body))) ?ps ?cs db"
  from creation assms(3) have pc: "p' = p" "c' = c" by simp_all
  with creation have t: "tables db' = tables ?db" and new: "?x \<notin> role_ids db"
    and v: "verdict (effective db p) (grants db p ?cs \<union> set ?ps) c [] = Inr ()"
    by (simp_all add: role_creation_def Let_def)
  from v obtain a where a: "c = Some a" "set ?ps \<subseteq> effective db p a"
    "\<forall>r \<in> set ?cs. isValidId p \<longrightarrow> carries db p r \<subseteq> effective db p a"
    using verdict_covered by blast
  have "effective ?db q u \<subseteq> effective db q u \<union> (if q = p then effective db p a else {})"
  proof (rule effective_mono)
    fix r
    assume "isValidId q"
    with a have "q = p \<Longrightarrow> \<Union> (carries db p ` set ?cs) \<subseteq> effective db p a" by auto
    with a(2) carries_created [OF wf new, of p "trim (the (b_name body))" ?ps ?cs r]
      carries_created_other [OF _ new, of q p "trim (the (b_name body))" ?ps ?cs r]
    show "carries ?db q r \<subseteq> carries db q r \<union> (if q = p then effective db p a else {})"
      by (cases "q = p") auto
  qed (simp add: roles_of_role_writes)
  then show ?thesis by (simp only: caller_perms_def option.case a(1) effective_of_tables [OF t])
next
  case (rewrite p' c' x body)
  let ?ps = "or_empty (b_permissions body)" and ?cs = "or_empty (b_included body)"
  let ?db = "role_rewritten p x (trim (the (b_name body))) ?ps ?cs db"
  from rewrite assms(3) have pc: "p' = p" "c' = c" by simp_all
  with rewrite have t: "tables db' = tables ?db" and own: "owned db p x"
    and v: "verdict (effective db p) (grants db p ?cs \<union> set ?ps) c (role_holders db p x) = Inr ()"
    by (simp_all only: role_rewrite_def Let_def)
  from v obtain a where a: "c = Some a" "set ?ps \<subseteq> effective db p a"
    "\<forall>r \<in> set ?cs. isValidId p \<longrightarrow> carries db p r \<subseteq> effective db p a"
    using verdict_covered by blast
  have "effective ?db q u \<subseteq> effective db q u \<union> (if q = p then effective db p a else {})"
  proof (rule effective_mono)
    fix r
    assume "isValidId q"
    with a have "q = p \<Longrightarrow> \<Union> (carries db p ` set ?cs) \<subseteq> effective db p a" by auto
    with a(2) carries_rewritten [of p x "trim (the (b_name body))" ?ps ?cs db r]
      carries_rewritten_other [OF _ own wf, of q "trim (the (b_name body))" ?ps ?cs r]
    show "carries ?db q r \<subseteq> carries db q r \<union> (if q = p then effective db p a else {})"
      by (cases "q = p") auto
  qed (simp add: roles_of_role_writes)
  then show ?thesis by (simp only: caller_perms_def option.case a(1) effective_of_tables [OF t])
next
  case (deletion p' c' x)
  from deletion assms(3) have pc: "p' = p" by simp
  with deletion have t: "tables db' = tables (role_deleted p x db)" and own: "owned db p x"
    and res: "\<not> isBuiltInRole x"
    by (auto simp: role_deletion_def isReservedRoleId_def)
  have "effective (role_deleted p x db) q u \<subseteq> effective db q u \<union> {}"
    using carries_deleted [of p x db] carries_deleted_other [OF _ own wf res, of q]
    by (intro effective_mono) (auto simp: roles_of_role_writes split: if_splits)
  then show ?thesis unfolding effective_of_tables [OF t] by auto
next
  case (edit p' c' m rf)
  from edit assms(3) have pc: "p' = p" "c' = c" by simp_all
  show ?thesis
  proof (cases "invitation_exists db m p")
    case True
    with edit pc have t: "tables db' = tables (invite_roles_set m (or_empty rf) db)" by (simp add: member_edit_def)
    show ?thesis unfolding effective_of_tables [OF t] by (simp add: effective_def invite_roles_set_def)
  next
    case False
    with edit pc have t: "tables db' = tables (member_roles_set p m (or_empty rf) db)"
      and v: "verdict (effective db p) (grants db p (or_empty rf) \<union> {}) c [m] = Inr ()"
      by (simp_all add: member_edit_def)
    from v obtain a where a: "c = Some a"
      "\<forall>r \<in> set (or_empty rf). isValidId p \<longrightarrow> carries db p r \<subseteq> effective db p a"
      using verdict_covered by blast
    from a effective_set_roles [of p "or_empty rf" db "effective db p a" m q u] show ?thesis
      unfolding effective_of_tables [OF t] by (cases "q = p") (simp_all add: caller_perms_def)
  qed
next
  case (removal p' c' m)
  then consider "tables db' = tables (invite_revoked m db)" | "tables db' = tables (member_removed p' m db)"
    by (auto simp: member_removal_def split: if_splits)
  then show ?thesis
  proof cases
    case 1
    show ?thesis unfolding effective_of_tables [OF 1] by (simp add: effective_def invite_revoked_def)
  next
    case 2
    show ?thesis
      unfolding effective_of_tables [OF 2]
      by (auto simp: effective_def held_def roles_of_member_removed split: if_splits)
  qed
next
  case sent
  then obtain i where t: "tables db' = tables (invited i db)" by (auto simp: invite_sent_def)
  show ?thesis unfolding effective_of_tables [OF t] by (simp add: effective_def invited_def)
qed (use assms(3) in simp_all)

lemma perform_effective:
  assumes "sound db" "managed req = Some (p, c)"
  shows "effective (perform req db) q u \<subseteq> effective db q u \<union> (if q = p then caller_perms db p c else {})"
  using perform_changes [OF assms(1), of req]
proof (elim disjE conjE)
  assume "tables (perform req db) = tables db"
  then have "effective (perform req db) q u = effective db q u" by (rule effective_of_tables)
  then show ?thesis by simp
next
  assume "change db req (perform req db)"
  with assms show ?thesis by (intro change_effective) (simp_all add: sound_def)
qed

lemma roles_of_writes [simp]:
  "roles_of (invited i db) q u = roles_of db q u" "roles_of (invite_roles_set m rs db) q u = roles_of db q u"
  "roles_of (invite_revoked m db) q u = roles_of db q u"
  "roles_of (Rbac_Ops.declined hit db) q u = roles_of db q u"
  by (simp_all add: invited_def invite_roles_set_def invite_revoked_def Rbac_Ops.declined_def)

lemma set_role_holders: "u \<in> set (role_holders db p x) \<longleftrightarrow> x \<in> roles_of db p u"
  by (force simp: role_holders_def roles_of_def)

text \<open>
  How the roles of users change: not at all, or one user other than the caller is given roles or
  removed, or one custom role is taken from its holders. Whoever is touched is outranked.
\<close>

definition roles_change :: "rbac \<Rightarrow> string \<Rightarrow> string option \<Rightarrow> rbac \<Rightarrow> bool" where
  "roles_change db p c db' =
     ((\<forall>q u. roles_of db' q u = roles_of db q u) \<or>
      (\<exists>a m rs. c = Some a \<and> m \<noteq> a \<and> effective db p m \<subseteq> effective db p a \<and>
         (''owner'' \<in> roles_of db p m \<longrightarrow> ''owner'' \<in> rs \<or> others_own db p m) \<and>
         (\<forall>q u. roles_of db' q u = (if q = p \<and> u = m then rs else roles_of db q u))) \<or>
      (\<exists>a x. c = Some a \<and> x \<noteq> ''owner'' \<and> (\<forall>u. x \<in> roles_of db p u \<longrightarrow> effective db p u \<subseteq> effective db p a) \<and>
         (\<forall>q u. roles_of db' q u = (if q = p then roles_of db q u - {x} else roles_of db q u))))"

lemma roles_change_none: "tables db' = tables X \<Longrightarrow> (\<And>q u. roles_of X q u = roles_of db q u) \<Longrightarrow> roles_change db p c db'"
  using roles_of_tables [of db' X] by (simp add: roles_change_def)

lemma change_roles:
  assumes ch: "change db req db'" and "managed req = Some (p, c)"
  shows "roles_change db p c db'"
  using ch
proof cases
  case (creation p' c' body fresh)
  then show ?thesis
    by (auto simp: role_creation_def Let_def roles_of_role_writes intro: roles_change_none)
next
  case (rewrite p' c' x body)
  then show ?thesis
    by (auto simp: role_rewrite_def Let_def roles_of_role_writes intro: roles_change_none)
next
  case (deletion p' c' x)
  with assms(2) have pc: "p' = p" "c' = c" by simp_all
  with deletion have t: "tables db' = tables (role_deleted p x db)"
    and v: "verdict (effective db p) (grants db p [] \<union> {}) c (role_holders db p x) = Inr ()"
    and res: "x \<noteq> ''owner''"
    by (auto simp: role_deletion_def isReservedRoleId_def isBuiltInRole_iff)
  from verdict_covered [OF v] obtain a where "c = Some a" "\<forall>m \<in> set (role_holders db p x). effective db p m \<subseteq> effective db p a"
    by blast
  with res roles_of_tables [OF t] show ?thesis
    unfolding roles_change_def by (intro disjI2 exI [of _ a] exI [of _ x])
      (simp add: set_role_holders roles_of_role_writes)
next
  case (edit p' c' m rf)
  with assms(2) have pc: "p' = p" "c' = c" by simp_all
  show ?thesis
  proof (cases "invitation_exists db m p")
    case True
    with edit pc show ?thesis by (auto simp: member_edit_def intro: roles_change_none)
  next
    case False
    with edit pc have t: "tables db' = tables (member_roles_set p m (or_empty rf) db)"
      and v: "verdict (effective db p) (grants db p (or_empty rf) \<union> {}) c [m] = Inr ()"
      and o: "''owner'' \<in> roles_of db p m \<longrightarrow> ''owner'' \<in> set (or_empty rf) \<or> others_own db p m" and "c \<noteq> Some m"
      by (simp_all add: member_edit_def)
    from verdict_covered [OF v] this(4) obtain a where "c = Some a" "m \<noteq> a" "effective db p m \<subseteq> effective db p a" by auto
    with o roles_of_tables [OF t] show ?thesis
      unfolding roles_change_def by (intro disjI2 disjI1 exI [of _ a] exI [of _ m] exI [of _ "set (or_empty rf)"])
        (simp add: roles_of_member_roles_set)
  qed
next
  case (removal p' c' m)
  with assms(2) have pc: "p' = p" "c' = c" by simp_all
  show ?thesis
  proof (cases "invitation_exists db m p")
    case True
    with removal pc show ?thesis by (auto simp: member_removal_def intro: roles_change_none)
  next
    case False
    with removal pc have t: "tables db' = tables (member_removed p m db)"
      and v: "verdict (effective db p) (grants db p [] \<union> {}) c [m] = Inr ()"
      and o: "''owner'' \<in> roles_of db p m \<longrightarrow> others_own db p m" and "c \<noteq> Some m"
      by (simp_all add: member_removal_def)
    from verdict_covered [OF v] this(4) obtain a where "c = Some a" "m \<noteq> a" "effective db p m \<subseteq> effective db p a" by auto
    with o roles_of_tables [OF t] show ?thesis
      unfolding roles_change_def by (intro disjI2 disjI1 exI [of _ a] exI [of _ m] exI [of _ "{}"])
        (simp add: roles_of_member_removed)
  qed
next
  case sent
  then show ?thesis by (auto simp: invite_sent_def intro: roles_change_none)
qed (use assms(2) in simp_all)

lemma perform_roles:
  assumes "sound db" "managed req = Some (p, c)"
  shows "roles_change db p c (perform req db)"
  using perform_changes [OF assms(1), of req] change_roles [OF _ assms(2)] roles_change_none by blast

lemma perform_unmanaged:
  assumes "sound db" "managed req = None"
  shows "roles_of db q u \<subseteq> roles_of (perform req db) q u"
  using perform_changes [OF assms(1), of req]
proof (elim disjE conjE)
  assume "tables (perform req db) = tables db"
  then show ?thesis by (simp add: roles_of_tables [of "perform req db" db])
next
  assume "change db req (perform req db)"
  then show ?thesis
  proof cases
    case (accepted c token i)
    then obtain acc u' where t: "tables (perform req db) = tables (joined acc i u' db)" by (auto simp: acceptance_def)
    show ?thesis unfolding roles_of_tables [OF t] by (auto simp: roles_of_joined)
  next
    case (declined hit)
    show ?thesis unfolding roles_of_tables [OF declined(3)] by simp
  next
    case elapsed
    then show ?thesis by (simp add: roles_of_def)
  qed (use assms(2) in simp_all)
qed

lemma owner_kept:
  assumes "sound db" "''owner'' \<in> roles_of db p v"
  shows "\<exists>v. ''owner'' \<in> roles_of (perform req db) p v"
proof (cases "managed req")
  case None
  with perform_unmanaged assms show ?thesis by blast
next
  case (Some pc)
  then obtain q c where "managed req = Some (q, c)" by (cases pc) auto
  from perform_roles [OF assms(1) this] assms(2) show ?thesis
    unfolding roles_change_def others_own_def by (elim disjE exE conjE) (auto, metis+)
qed

lemma carries_of_tables: "tables db' = tables X \<Longrightarrow> carries db' q r = carries X q r"
  by (rule carries_cong) (metis owned_tables fields_tables(6,7))+

lemma carries_invitation_writes [simp]:
  "carries (invited i db) q r = carries db q r" "carries (invite_roles_set m rs db) q r = carries db q r"
  "carries (invite_revoked m db) q r = carries db q r"
  by (simp_all add: invited_def invite_roles_set_def invite_revoked_def with_invites_def)

lemma change_other:
  assumes wf: "wf_tables db" and ch: "change db req db'" and "managed req = Some (p, c)" and q: "q \<noteq> p"
  shows "carries db' q r = carries db q r"
  using ch
proof cases
  case (creation p' c' body fresh)
  with assms(3) q show ?thesis
    by (auto simp: role_creation_def Let_def dest!: carries_of_tables [where q = q and r = r] simp: carries_created_other)
next
  case (rewrite p' c' x body)
  with assms(3) q wf show ?thesis
    by (auto simp: role_rewrite_def Let_def dest!: carries_of_tables [where q = q and r = r] simp: carries_rewritten_other)
next
  case (deletion p' c' x)
  with assms(3) have t: "tables db' = tables (role_deleted p x db)" and own: "owned db p x"
    and res: "\<not> isBuiltInRole x"
    by (auto simp: role_deletion_def isReservedRoleId_def)
  from carries_of_tables [OF t] carries_deleted_other [OF q own wf res] show ?thesis by simp
next
  case (edit p' c' m rf)
  then consider "tables db' = tables (invite_roles_set m (or_empty rf) db)"
    | "tables db' = tables (member_roles_set p' m (or_empty rf) db)"
    by (auto simp: member_edit_def split: if_splits)
  then show ?thesis by cases (drule carries_of_tables [where q = q and r = r], simp)+
next
  case (removal p' c' m)
  then consider "tables db' = tables (invite_revoked m db)" | "tables db' = tables (member_removed p' m db)"
    by (auto simp: member_removal_def split: if_splits)
  then show ?thesis by cases (drule carries_of_tables [where q = q and r = r], simp)+
next
  case sent
  then obtain i where "tables db' = tables (invited i db)" by (auto simp: invite_sent_def)
  from carries_of_tables [OF this, of q r] show ?thesis by simp
qed (use assms(3) in simp_all)

lemma perform_other:
  assumes "sound db" "managed req = Some (p, c)" "q \<noteq> p"
  shows "effective (perform req db) q u = effective db q u"
proof -
  have "carries (perform req db) q r = carries db q r" for r
    using perform_changes [OF assms(1), of req] change_other [OF _ _ assms(2,3)] assms(1)
    by (auto simp: sound_def dest: carries_of_tables)
  moreover have "roles_of (perform req db) q u = roles_of db q u"
    using perform_roles [OF assms(1,2)] assms(3) unfolding roles_change_def by (elim disjE exE conjE) simp_all
  ultimately show ?thesis by (simp add: effective_def held_def)
qed

lemma change_refused:
  assumes "change db req db'" "managed req = Some (p, c)"
  shows "\<not> is_guest db c \<and> \<not> absent c"
  using assms(1)
proof cases
  case (creation p' c' body fresh)
  with assms(2) show ?thesis by (auto simp: role_creation_def Let_def verdict_ok absent_def)
next
  case (rewrite p' c' x body)
  with assms(2) show ?thesis by (auto simp: role_rewrite_def Let_def verdict_ok absent_def)
next
  case (deletion p' c' x)
  with assms(2) show ?thesis by (auto simp: role_deletion_def verdict_ok absent_def)
next
  case (edit p' c' m rf)
  with assms(2) show ?thesis by (auto simp: member_edit_def verdict_ok absent_def split: if_splits)
next
  case (removal p' c' m)
  with assms(2) show ?thesis by (auto simp: member_removal_def verdict_ok absent_def split: if_splits)
next
  case sent
  with assms(2) show ?thesis by (auto simp: invite_sent_def verdict_ok absent_def)
qed (use assms(2) in simp_all)

text \<open>Only permissions the application knows are ever granted.\<close>

definition known_permissions :: "rbac \<Rightarrow> bool" where
  "known_permissions db = (snd ` set (role_perms db) \<subseteq> set permission_keys)"

lemma known_of_tables: "tables db' = tables X \<Longrightarrow> known_permissions db' = known_permissions X"
  unfolding known_permissions_def by (metis fields_tables(6))

lemma known_writes:
  "known_permissions db \<Longrightarrow> set ps \<subseteq> set permission_keys \<Longrightarrow> known_permissions (role_created x p n ps cs db)"
  "known_permissions db \<Longrightarrow> set ps \<subseteq> set permission_keys \<Longrightarrow> known_permissions (role_rewritten p x n ps cs db)"
  "known_permissions db \<Longrightarrow> known_permissions (role_deleted p x db)"
  by (auto simp: known_permissions_def role_created_def role_rewritten_def role_deleted_def)

lemma known_other [simp]:
  "known_permissions (member_roles_set p m rs db) = known_permissions db"
  "known_permissions (member_removed p m db) = known_permissions db"
  "known_permissions (invited i db) = known_permissions db"
  "known_permissions (with_invites g db) = known_permissions db"
  "known_permissions (joined acc i u db) = known_permissions db"
  by (simp_all add: known_permissions_def member_roles_set_def member_removed_def invited_def with_invites_def joined_def)

lemma change_known:
  assumes "change db req db'" "known_permissions db"
  shows "known_permissions db'"
  using assms(1)
proof cases
  case (creation p c body fresh)
  with assms(2) show ?thesis by (auto simp: role_creation_def Let_def known_writes dest!: known_of_tables)
next
  case (rewrite p c x body)
  with assms(2) show ?thesis by (auto simp: role_rewrite_def Let_def known_writes dest!: known_of_tables)
next
  case (deletion p c x)
  with assms(2) show ?thesis by (auto simp: role_deletion_def known_writes dest!: known_of_tables)
next
  case (edit p c m rf)
  with assms(2) show ?thesis
    by (auto simp: member_edit_def invite_roles_set_def dest!: known_of_tables split: if_splits)
next
  case (removal p c m)
  with assms(2) show ?thesis
    by (auto simp: member_removal_def invite_revoked_def dest!: known_of_tables split: if_splits)
next
  case sent
  with assms(2) show ?thesis by (auto simp: invite_sent_def dest!: known_of_tables)
next
  case (accepted c token i)
  with assms(2) show ?thesis by (auto simp: acceptance_def dest!: known_of_tables)
next
  case (declined hit c tf)
  with assms(2) show ?thesis by (auto simp: Rbac_Ops.declined_def dest!: known_of_tables)
next
  case (elapsed ms)
  with assms(2) show ?thesis by (simp add: known_permissions_def)
qed

lemma reach_known:
  assumes "rbac_reach db0 db" "sound db0" "known_permissions db0"
  shows "known_permissions db"
  using assms
proof (induction rule: rbac_reach.induct)
  case (step db req)
  then have "sound db" "known_permissions db" by (simp_all add: reach_sound)
  with perform_changes [of db req] show ?case using change_known known_of_tables by blast
qed simp

lemma effective_known: "known_permissions db \<Longrightarrow> effective db p u \<subseteq> set permission_keys"
proof
  fix perm
  assume k: "known_permissions db" and "perm \<in> effective db p u"
  then obtain r where "perm \<in> own_perms db p r"
    by (auto simp: effective_def held_def carries_def split: if_splits)
  with k default_role_permissions_known [of r] show "perm \<in> set permission_keys"
    by (auto simp: own_perms_def known_permissions_def)
qed

end
