(* ===== verification/Rbac_Claims.thy ===== *)
theory Rbac_Claims
  imports Rbac_Safety
begin

text \<open>
  The security properties of role management, over the requests of \<open>Rbac_Safety\<close>, each with a
  run on a small project that meets its hypotheses.
\<close>

section \<open>A project to run on\<close>

text \<open>
  Project \<open>p1\<close>: \<open>ann\<close> owns it, \<open>bob\<close> is an editor, \<open>cas\<close> holds the custom role \<open>lead\<close>, which
  includes the custom role \<open>hist\<close>; \<open>gus\<close> is a guest account, and \<open>eve\<close> is invited.
\<close>

definition demo_user :: "string \<Rightarrow> bool \<Rightarrow> user_row" where
  "demo_user name guest = \<lparr>u_id = name, u_username = name, u_email = Some (name @ ''@x''), u_verified = True,
     u_guest = guest, u_two_factor = False, u_github = None, u_gitlab = None\<rparr>"

definition demo :: rbac where
  "demo = \<lparr>users = [demo_user ''ann'' False, demo_user ''bob'' False, demo_user ''cas'' False,
       demo_user ''gus'' True, demo_user ''eve'' False],
     projects = [\<lparr>p_id = ''p1'', p_name = ''P'', p_timeout = Some 600\<rparr>],
     members = [(''p1'', ''ann'', ''owner''), (''p1'', ''bob'', ''editor''), (''p1'', ''cas'', ''viewer''),
       (''p1'', ''gus'', ''editor'')],
     member_roles = [(''p1'', ''ann'', ''owner''), (''p1'', ''bob'', ''editor''), (''p1'', ''cas'', ''lead''),
       (''p1'', ''gus'', ''editor'')],
     custom_roles = [\<lparr>r_id = ''lead'', r_project = ''p1'', r_name = ''Lead''\<rparr>,
       \<lparr>r_id = ''hist'', r_project = ''p1'', r_name = ''Historian''\<rparr>],
     role_perms = [(''lead'', ''get:/api/projects/:id''), (''hist'', ''delete:/api/projects/:id'')],
     inheritance = [(''lead'', ''hist'')],
     invitations = [\<lparr>i_id = ''inv1'', i_project = ''p1'', i_email = None, i_username = Some ''eve'',
       i_roles = [''viewer''], i_status = Pending, i_token = ''tok1'', i_expires = 5000\<rparr>],
     kv_bound = True, kv = [], neg = [], clock = 1000000\<rparr>"

lemma coherent_empty: "kv db = [] \<Longrightarrow> neg db = [] \<Longrightarrow> coherent db"
  by (simp add: coherent_def)

lemma demo_sound: "sound demo"
proof -
  have "coherent demo" by (rule coherent_empty) (simp_all add: demo_def)
  moreover have "wf_tables demo" by (auto simp: wf_tables_def role_ids_def demo_def)
  ultimately show ?thesis by (simp add: sound_def)
qed

lemma pair_of_fst: "fst x = r \<Longrightarrow> x = (r, snd x)"
  by auto

section \<open>Escalation, isolation, ownership\<close>

text \<open>
  C1. No request of role management gives any user a permission, in any project, that the user did
  not hold and the caller does not hold in the managed project. Whatever is written (roles of a
  member, a new custom role, a new definition of a held role, a deletion, a removal, an invitation)
  and whatever the outcome, the permissions of every user stay within what that user had and, in the
  managed project only, what the caller has.
\<close>

theorem no_privilege_escalation:
  assumes "sound db" and "managed req = Some (p, c)"
  shows "effective (perform req db) q u \<subseteq>
    effective db q u \<union> (if q = p then caller_perms db p c else {})"
  using assms by (rule perform_effective)

theorem no_privilege_escalation_witness:
  "effective (perform (Set_roles ''p1'' (Some ''ann'') ''bob'' (Some [''owner''])) demo) ''p1'' ''bob''
     \<subseteq> effective demo ''p1'' ''bob'' \<union> caller_perms demo ''p1'' (Some ''ann'')
   \<and> user_roles (perform (Set_roles ''p1'' (Some ''ann'') ''bob'' (Some [''owner''])) demo) ''p1'' ''bob'' = [''owner'']"
proof
  show "effective (perform (Set_roles ''p1'' (Some ''ann'') ''bob'' (Some [''owner''])) demo) ''p1'' ''bob''
     \<subseteq> effective demo ''p1'' ''bob'' \<union> caller_perms demo ''p1'' (Some ''ann'')"
    using no_privilege_escalation [OF demo_sound, of "Set_roles ''p1'' (Some ''ann'') ''bob'' (Some [''owner''])"
        "''p1''" "Some ''ann''" "''p1''" "''bob''"] by simp
qed code_simp

text \<open>
  C5. A project that has an owner keeps one: no sequence of requests, of whatever kind and by
  whatever callers, leaves a project without a holder of the owner role.
\<close>

theorem last_owner_is_kept:
  assumes "sound db0" and "rbac_reach db0 db" and "project_owners db0 p \<noteq> []"
  shows "project_owners db p \<noteq> []"
proof -
  from assms(2,1) have "\<exists>v. ''owner'' \<in> roles_of db p v"
  proof (induction rule: rbac_reach.induct)
    case start
    with assms(3) show ?case using set_project_owners [of db0 p] by (metis Collect_empty_eq set_empty)
  next
    case (step db req)
    with owner_kept reach_sound show ?case by blast
  qed
  then show ?thesis using set_project_owners [of db p] by auto
qed

definition demo_history :: "request list" where
  "demo_history = [Set_roles ''p1'' (Some ''ann'') ''bob'' (Some [''owner'', ''editor'']),
     Remove ''p1'' (Some ''bob'') ''ann'', Set_roles ''p1'' (Some ''bob'') ''bob'' (Some [''viewer'']),
     Remove ''p1'' (Some ''cas'') ''bob'']"

lemma reach_run: "rbac_reach db0 db \<Longrightarrow> rbac_reach db0 (foldl (\<lambda>s r. perform r s) db rs)"
  by (induction rs arbitrary: db) (auto intro: rbac_reach.step)

theorem last_owner_is_kept_witness:
  "project_owners (foldl (\<lambda>s r. perform r s) demo demo_history) ''p1'' \<noteq> []
   \<and> project_owners (foldl (\<lambda>s r. perform r s) demo demo_history) ''p1'' = [''bob'']"
proof
  have "project_owners demo ''p1'' \<noteq> []" by code_simp
  with last_owner_is_kept [OF demo_sound reach_run [OF rbac_reach.start]]
  show "project_owners (foldl (\<lambda>s r. perform r s) demo demo_history) ''p1'' \<noteq> []" by blast
qed code_simp

text \<open>
  C16. Whoever has roles changed, taken away or removed by a request of role management held no
  permission that the caller lacks: a member manager can not demote or evict somebody above.
\<close>

theorem only_outranked_members_change:
  assumes "sound db" and "managed req = Some (p, c)"
    and "roles_of (perform req db) q u \<noteq> roles_of db q u"
  shows "q = p \<and> (\<exists>a. c = Some a \<and> effective db p u \<subseteq> effective db p a)"
  using perform_roles [OF assms(1,2)] assms(3) unfolding roles_change_def
  by (elim disjE exE conjE) (auto split: if_splits)

theorem only_outranked_members_change_witness:
  "effective demo ''p1'' ''cas'' \<subseteq> effective demo ''p1'' ''ann''"
proof -
  let ?req = "Delete_role ''p1'' (Some ''ann'') ''lead''"
  have "user_roles (perform ?req demo) ''p1'' ''cas'' = [] \<and> user_roles demo ''p1'' ''cas'' = [''lead'']" by code_simp
  then have "roles_of (perform ?req demo) ''p1'' ''cas'' \<noteq> roles_of demo ''p1'' ''cas''"
    using set_user_roles [of "perform ?req demo" "''p1''" "''cas''"] set_user_roles [of demo "''p1''" "''cas''"]
    by (metis empty_set list.set_intros(1) empty_iff)
  from only_outranked_members_change [OF demo_sound _ this, of "''p1''" "Some ''ann''"] show ?thesis by simp
qed

text \<open>
  A caller's own requests never give the caller a role, in any project.
\<close>

theorem own_roles_never_grow:
  assumes "sound db" and "managed req = Some (p, Some a)"
  shows "roles_of (perform req db) q a \<subseteq> roles_of db q a"
  using perform_roles [OF assms] unfolding roles_change_def by (elim disjE exE conjE) auto

theorem own_roles_never_grow_witness:
  "roles_of (perform (Set_roles ''p1'' (Some ''bob'') ''bob'' (Some [''owner''])) demo) ''p1'' ''bob''
     \<subseteq> roles_of demo ''p1'' ''bob''"
  by (rule own_roles_never_grow [OF demo_sound]) simp

text \<open>
  C17. A request about one project changes neither the roles nor the permissions anybody has in
  another, although custom roles of all projects share their tables.
\<close>

theorem other_projects_are_untouched:
  assumes "sound db" and "managed req = Some (p, c)" and "q \<noteq> p"
  shows "effective (perform req db) q u = effective db q u"
  using assms by (rule perform_other)

theorem other_projects_are_untouched_witness:
  "effective (perform (Delete_role ''p2'' (Some ''ann'') ''lead'') demo) ''p1'' ''cas'' = effective demo ''p1'' ''cas''"
  by (rule other_projects_are_untouched [OF demo_sound, of _ "''p2''" "Some ''ann''"]) simp_all

text \<open>
  Guests and requests without a user change nothing: every management request is refused and
  the tables stay as they were.
\<close>

theorem guests_change_nothing:
  assumes "sound db" and "managed req = Some (p, c)" and "is_guest db c \<or> absent c"
  shows "tables (perform req db) = tables db"
  using perform_changes [OF assms(1), of req] change_refused [OF _ assms(2)] assms(3) by blast

theorem guests_change_nothing_witness:
  "tables (perform (Remove ''p1'' (Some ''gus'') ''cas'') demo) = tables demo"
proof -
  have "is_guest demo (Some ''gus'')" by code_simp
  then show ?thesis by (intro guests_change_nothing [OF demo_sound, of _ "''p1''" "Some ''gus''"]) simp_all
qed

section \<open>The tables and the caches\<close>



section \<open>What the permission checks answer\<close>



text \<open>
  Removal takes effect at once: as soon as \<open>removeMember\<close> has answered, every check of every
  permission of the removed user in the project is refused, whatever the caches held before.
\<close>

theorem removal_is_immediate:
  assumes "sound db" and "removeMember p c m db = (Inr ''removed'', db')"
  shows "fst (checkPermission m p permission db') = Inr False"
proof -
  from assms have s: "coherent db" by (simp add: sound_def)
  have r: "member_removal db p c m db' \<and> \<not> invitation_exists db m p"
    by (rule changes_run [OF removeMember_changes s assms(2)]) (simp_all split: if_splits)
  then have t: "tables db' = tables (member_removed p m db)" and "coherent db'" by (simp_all add: member_removal_def)
  moreover have "effective db' p m = {}"
    unfolding effective_of_tables [OF t] by (simp add: effective_def held_def roles_of_member_removed)
  ultimately show ?thesis using check_exact [of db' m p permission] by simp
qed

theorem removal_is_immediate_witness:
  "fst (checkPermission ''cas'' ''p1'' ''get:/api/projects/:id'' (snd (removeMember ''p1'' (Some ''ann'') ''cas''
     (perform (Check ''cas'' ''p1'' ''x'') demo)))) = Inr False"
proof -
  let ?db = "perform (Check ''cas'' ''p1'' ''x'') demo"
  have "fst (removeMember ''p1'' (Some ''ann'') ''cas'' ?db) = Inr ''removed''" by code_simp
  from removal_is_immediate [OF perform_sound [OF demo_sound] pair_of_fst [OF this]] show ?thesis .
qed

text \<open>
  C20. Accepting an invitation is open to its addressee only: whoever gains a role by it is the
  signed-in user, and the invitation was pending, not expired, and named the user's username or a
  verified address of the user; the roles gained are among those it carries.
\<close>

theorem invitations_reach_their_addressee:
  assumes "sound db" and "r \<in> roles_of (perform (Accept_invite c tf) db) p u" and "r \<notin> roles_of db p u"
  shows "\<exists>user i token. tf = Some token \<and> c = Some u \<and> user \<in> set (users db) \<and> u_id user = u \<and>
    i \<in> set (invitations db) \<and> i_token i = token \<and> i_status i = Pending \<and> not_expired db i \<and>
    addressed_to (u_username user) (u_email user) (u_verified user) i \<and> i_project i = p \<and> r \<in> set (i_roles i)"
  using perform_changes [OF assms(1), of "Accept_invite c tf"]
proof (elim disjE conjE)
  assume "tables (perform (Accept_invite c tf) db) = tables db"
  from roles_of_tables [OF this] assms show ?thesis by simp
next
  assume "change db (Accept_invite c tf) (perform (Accept_invite c tf) db)"
  then show ?thesis
  proof cases
    case (accepted token i)
    then obtain user where u: "c = Some (u_id user)" "user \<in> set (users db)" "i \<in> set (invitations db)" "i_token i = token"
        "i_status i = Pending" "not_expired db i" "addressed_to (u_username user) (u_email user) (u_verified user) i"
      and t: "tables (perform (Accept_invite c tf) db) = tables (joined (acceptable db token (u_username user) (u_email user)
          (u_verified user)) i (u_id user) db)"
      by (auto simp: acceptance_def)
    from assms(2,3) have "u = u_id user \<and> p = i_project i \<and> r \<in> set (i_roles i)"
      unfolding roles_of_tables [OF t] by (auto simp: roles_of_joined split: if_splits)
    with u accepted show ?thesis by blast
  qed
qed

theorem invitations_reach_their_addressee_witness:
  "\<exists>i \<in> set (invitations demo). i_token i = ''tok1'' \<and> i_project i = ''p1'' \<and> ''viewer'' \<in> set (i_roles i)"
proof -
  let ?req = "Accept_invite (Some ''eve'') (Some ''tok1'')"
  have "user_roles (perform ?req demo) ''p1'' ''eve'' = [''viewer''] \<and> user_roles demo ''p1'' ''eve'' = []" by code_simp
  then have "''viewer'' \<in> roles_of (perform ?req demo) ''p1'' ''eve''" "''viewer'' \<notin> roles_of demo ''p1'' ''eve''"
    using set_user_roles [of "perform ?req demo" "''p1''" "''eve''"] set_user_roles [of demo "''p1''" "''eve''"] by auto
  from invitations_reach_their_addressee [OF demo_sound this] show ?thesis by auto
qed

text \<open>
  Nobody ever holds a permission the application does not know: if the custom roles start out
  with known permissions only, so do all users in every state a history of requests can reach.
\<close>

theorem only_known_permissions_are_held:
  assumes "sound db0" and "known_permissions db0" and "rbac_reach db0 db"
  shows "effective db p u \<subseteq> set permission_keys"
  using effective_known [OF reach_known [OF assms(3,1,2)]] .

theorem only_known_permissions_are_held_witness:
  "effective (foldl (\<lambda>s r. perform r s) demo demo_history) ''p1'' ''cas'' \<subseteq> set permission_keys"
proof -
  have "known_permissions demo" by code_simp
  from only_known_permissions_are_held [OF demo_sound this reach_run [OF rbac_reach.start]] show ?thesis .
qed

text \<open>
  The check behind every role change decides exactly what it is meant to: it refuses callers who
  are not signed in, then grants of anything the caller does not hold (roles through their included
  roles), then changes to members who hold more than the caller; otherwise it lets the change pass.
\<close>

theorem caller_check_is_exact:
  assumes "sound db"
  shows "fst (covers p c sc db) =
    verdict (effective db p) (grants db p (g_roles sc) \<union> set (g_permissions sc)) c (s_members sc)"
proof -
  from assms have "coherent db" by (simp add: sound_def)
  from repo.covers_decides(1) [OF this] show ?thesis by (metis covers_def prod.collapse)
qed

theorem caller_check_is_exact_witness:
  "fst (covers ''p1'' (Some ''bob'') \<lparr>g_roles = [''owner''], g_permissions = [], s_members = []\<rparr> demo) =
     verdict (effective demo ''p1'') (grants demo ''p1'' [''owner''] \<union> {}) (Some ''bob'') []
   \<and> fst (covers ''p1'' (Some ''bob'') \<lparr>g_roles = [''owner''], g_permissions = [], s_members = []\<rparr> demo) =
     Inl (Error cannot_grant)"
proof
  show "fst (covers ''p1'' (Some ''bob'') \<lparr>g_roles = [''owner''], g_permissions = [], s_members = []\<rparr> demo) =
     verdict (effective demo ''p1'') (grants demo ''p1'' [''owner''] \<union> {}) (Some ''bob'') []"
    using caller_check_is_exact [OF demo_sound, of "''p1''" "Some ''bob''"
        "\<lparr>g_roles = [''owner''], g_permissions = [], s_members = []\<rparr>"] by simp
qed code_simp

text \<open>
  The check of role editors looks at the direct holders of a role only. An editor who lacks a
  permission can take it from a member who outranks the editor and holds the role through another
  role that includes it, although the code means the caller to outrank everyone holding it.
\<close>

theorem indirect_holders_are_not_protected:
  "let req = Update_role ''p1'' (Some ''bob'') ''hist'' \<lparr>b_name = Some ''Historian'', b_permissions = None, b_included = None\<rparr>;
       permission = ''delete:/api/projects/:id'' in
     fst (checkPermission ''cas'' ''p1'' permission demo) = Inr True \<and>
     fst (checkPermission ''bob'' ''p1'' permission demo) = Inr False \<and>
     fst (checkPermission ''cas'' ''p1'' permission (perform req demo)) = Inr False"
  by code_simp

end
