(* ===== verification/Json.thy ===== *)
theory Json
  imports Prelude
begin

text \<open>
  The JSON documents tenants supply (scan configurations, checkpoints). Their keys and strings are
  lists of UTF-16 code units, as a key that differs from a field's name by a Unicode case variant
  matters to the runner guard. A document never holds a key twice: \<open>JSON.parse\<close> keeps one entry.
\<close>

section \<open>Documents\<close>

type_synonym ustring = "nat list"

datatype json =
    JNull
  | JBool bool
  | JNum rat
  | JStr ustring
  | JArr "json list"
  | JObj "(ustring \<times> json) list"

definition units :: "string \<Rightarrow> ustring" where
  "units s = map of_char s"

fun is_object :: "json \<Rightarrow> bool" where
  "is_object (JObj _) = True"
| "is_object _ = False"

fun entries :: "json \<Rightarrow> (ustring \<times> json) list" where
  "entries (JObj kvs) = kvs"
| "entries _ = []"

text \<open>\<open>v?.k\<close>: the own property of an object, \<open>undefined\<close> (\<open>None\<close>) of anything else.\<close>

definition jprop :: "json \<Rightarrow> string \<Rightarrow> json option" where
  "jprop v k = map_of (entries v) (units k)"

fun json_truthy :: "json \<Rightarrow> bool" where
  "json_truthy JNull = False"
| "json_truthy (JBool b) = b"
| "json_truthy (JNum n) = (n \<noteq> 0)"
| "json_truthy (JStr s) = (s \<noteq> [])"
| "json_truthy _ = True"

definition prop_truthy :: "json option \<Rightarrow> bool" where
  "prop_truthy v = (case v of None \<Rightarrow> False | Some j \<Rightarrow> json_truthy j)"

text \<open>\<open>{ ...a, ...b }\<close>: the entries of \<open>b\<close> written over those of \<open>a\<close>, in insertion order.\<close>

definition spread :: "(ustring \<times> json) list \<Rightarrow> (ustring \<times> json) list \<Rightarrow> (ustring \<times> json) list" where
  "spread a b = foldl (\<lambda>m e. jset (fst e) (snd e) m) a b"

definition set_prop :: "string \<Rightarrow> json \<Rightarrow> (ustring \<times> json) list \<Rightarrow> (ustring \<times> json) list" where
  "set_prop k v kvs = jset (units k) v kvs"

lemma units_inject [simp]: "units a = units b \<longleftrightarrow> a = b"
  by (simp add: units_def inj_map_eq_map inj_on_def)

lemma map_of_spread: "map_of (spread a b) k = (case map_of (rev b) k of None \<Rightarrow> map_of a k | Some v \<Rightarrow> Some v)"
proof (induction b arbitrary: a)
  case (Cons e b)
  then show ?case
    by (cases e) (auto simp: spread_def map_add_def split: option.splits)
qed (simp add: spread_def)

lemma jwf_spread: "jwf a \<Longrightarrow> jwf (spread a b)"
  by (induction b arbitrary: a) (auto simp: spread_def)

lemma set_spread_keys: "fst ` set (spread a b) = fst ` set a \<union> fst ` set b"
proof (induction b arbitrary: a)
  case (Cons e b)
  then show ?case by (auto simp: spread_def keys_jset)
qed (simp add: spread_def)

end
