(* ===== verification/Runner_Access.thy ===== *)
theory Runner_Access
  imports Json
begin

text \<open>
  \<open>coordinator/runnerAccess.ts\<close> and the tag helpers of \<open>coordinator/utils.ts\<close>: who a runner works
  for, by the tags the Worker put on its connection, and the configuration it may receive.
\<close>

section \<open>Owners\<close>

definition USER_ID_TAG :: string where "USER_ID_TAG = ''user_id:''"

definition getRunnerOwnerId :: "string list \<Rightarrow> string option" where
  "getRunnerOwnerId tags =
     (case find (\<lambda>t. starts_with t USER_ID_TAG) tags of
        None \<Rightarrow> None
      | Some t \<Rightarrow> let ownerId = drop (length USER_ID_TAG) t in if ownerId = [] then None else Some ownerId)"

definition isRunnerOwnedBy :: "string list \<Rightarrow> string option \<Rightarrow> bool" where
  "isRunnerOwnedBy tags userId = (userId \<noteq> None \<and> userId \<noteq> Some [] \<and> getRunnerOwnerId tags = userId)"

definition SHARED_RUNNER_TAG :: string where "SHARED_RUNNER_TAG = ''shared''"

definition isSharedRunnerTags :: "string list \<Rightarrow> bool" where
  "isSharedRunnerTags tags = (SHARED_RUNNER_TAG \<in> set tags)"

definition runnerIdentity :: "string list \<Rightarrow> string option" where
  "runnerIdentity tags =
     (if isSharedRunnerTags tags then Some ''shared''
      else case getRunnerOwnerId tags of None \<Rightarrow> None | Some owner \<Rightarrow> Some (''user:'' @ owner))"

definition not_a_name :: "string \<Rightarrow> bool" where
  "not_a_name t = (t \<noteq> ''runner'' \<and> t \<noteq> ''runner-pending'' \<and> t \<noteq> ''shared'' \<and>
     \<not> starts_with t ''name:'' \<and> \<not> starts_with t ''version:'' \<and> \<not> starts_with t ''user_id:'')"

definition getPublicKeyFromTags :: "string list \<Rightarrow> string option" where
  "getPublicKeyFromTags tags = find not_a_name tags"

definition getRunIdFromTags :: "string list \<Rightarrow> string option" where
  "getRunIdFromTags tags = find (\<lambda>t. t \<noteq> ''client'' \<and> not_a_name t) tags"

text \<open>The tags \<open>ConnectRunnerHandler\<close> gives a connection that proved a key, and one that presented a token.\<close>

definition keyed_tags :: "string \<Rightarrow> string \<Rightarrow> string \<Rightarrow> string \<Rightarrow> string list" where
  "keyed_tags publicKey name version userId =
     [''runner-pending'', publicKey, ''name:'' @ name, ''version:'' @ version] @
     (if userId = [] then [] else [''user_id:'' @ userId])"

definition token_tags :: "bool \<Rightarrow> string \<Rightarrow> string \<Rightarrow> string \<Rightarrow> string list" where
  "token_tags isShared name version userId =
     [''runner'', ''name:'' @ name, ''version:'' @ version] @
     (if isShared then [SHARED_RUNNER_TAG] else []) @
     (if userId = [] then [] else [''user_id:'' @ userId])"

lemma owner_of_token_tags:
  "getRunnerOwnerId (token_tags isShared name version userId) = (if userId = [] then None else Some userId)"
  by (simp add: getRunnerOwnerId_def token_tags_def USER_ID_TAG_def SHARED_RUNNER_TAG_def starts_with_def)

lemma shared_of_token_tags: "isSharedRunnerTags (token_tags isShared name version userId) = isShared"
  by (auto simp: isSharedRunnerTags_def token_tags_def SHARED_RUNNER_TAG_def)

lemma identity_private:
  "runnerIdentity tags = Some (''user:'' @ u) \<longleftrightarrow> \<not> isSharedRunnerTags tags \<and> getRunnerOwnerId tags = Some u"
  by (auto simp: runnerIdentity_def split: option.splits)

lemma identity_shared: "runnerIdentity tags = Some ''shared'' \<longleftrightarrow> isSharedRunnerTags tags"
  by (auto simp: runnerIdentity_def split: option.splits)

section \<open>Key folding\<close>

text \<open>
  \<open>key.toUpperCase().toLowerCase()\<close> of code units, as far as its result can be ASCII: the letters,
  and the other units whose upper case is made of ASCII letters (dotless i, long s, sharp s and the
  Latin ligatures) or whose lower case is one (the Kelvin sign). Every other unit is left as it is:
  neither it nor its folding is ASCII alone, so no comparison with an ASCII name depends on it.
\<close>

definition upper_unit :: "nat \<Rightarrow> nat list" where
  "upper_unit c =
     (if 97 \<le> c \<and> c \<le> 122 then [c - 32]
      else if c = 0x131 then [73]
      else if c = 0x17F then [83]
      else if c = 0xDF then [83, 83]
      else if c = 0xFB00 then [70, 70]
      else if c = 0xFB01 then [70, 73]
      else if c = 0xFB02 then [70, 76]
      else if c = 0xFB03 then [70, 70, 73]
      else if c = 0xFB04 then [70, 70, 76]
      else if c = 0xFB05 \<or> c = 0xFB06 then [83, 84]
      else [c])"

definition lower_unit :: "nat \<Rightarrow> nat" where
  "lower_unit c = (if 65 \<le> c \<and> c \<le> 90 then c + 32 else if c = 0x212A then 107 else c)"

text \<open>For evaluation: ASCII first.\<close>

lemma upper_unit_code [code]:
  "upper_unit c =
     (if c < 128 then (if 97 \<le> c \<and> c \<le> 122 then [c - 32] else [c])
      else if c = 0x131 then [73] else if c = 0x17F then [83] else if c = 0xDF then [83, 83]
      else if c = 0xFB00 then [70, 70] else if c = 0xFB01 then [70, 73] else if c = 0xFB02 then [70, 76]
      else if c = 0xFB03 then [70, 70, 73] else if c = 0xFB04 then [70, 70, 76]
      else if c = 0xFB05 \<or> c = 0xFB06 then [83, 84] else [c])"
  by (simp add: upper_unit_def)

lemma lower_unit_code [code]:
  "lower_unit c = (if c < 128 then (if 65 \<le> c \<and> c \<le> 90 then c + 32 else c) else if c = 0x212A then 107 else c)"
  by (simp add: lower_unit_def)

definition goJsonFold :: "ustring \<Rightarrow> ustring" where
  "goJsonFold key = map lower_unit (concat (map upper_unit key))"

text \<open>
  How Go's \<open>encoding/json\<close> matches a key to a struct field with an ASCII lower-case name: ASCII
  case-insensitively, long s as s and the Kelvin sign as k.
\<close>

definition go_fold_unit :: "nat \<Rightarrow> nat" where
  "go_fold_unit c =
     (if 65 \<le> c \<and> c \<le> 90 then c + 32 else if c = 0x17F then 115 else if c = 0x212A then 107 else c)"

definition go_matches :: "ustring \<Rightarrow> string \<Rightarrow> bool" where
  "go_matches key field = (map go_fold_unit key = units field)"

definition ascii_lower_name :: "string \<Rightarrow> bool" where
  "ascii_lower_name f = list_all (\<lambda>c. is_lower c \<or> c = CHR ''_'') f"

lemma fold_unit:
  assumes "97 \<le> go_fold_unit c \<and> go_fold_unit c \<le> 122 \<or> go_fold_unit c = 95"
  shows "map lower_unit (upper_unit c) = [go_fold_unit c]"
proof -
  from assms consider "65 \<le> c \<and> c \<le> 90" | "c = 0x17F" | "c = 0x212A" | "97 \<le> c \<and> c \<le> 122" | "c = 95"
    by (auto simp: go_fold_unit_def split: if_splits)
  then show ?thesis by cases (auto simp: go_fold_unit_def upper_unit_def lower_unit_def)
qed

lemma go_matches_folds:
  assumes "ascii_lower_name f" "go_matches key f"
  shows "goJsonFold key = units f"
proof -
  have ok: "\<forall>n \<in> set (units f). 97 \<le> n \<and> n \<le> 122 \<or> n = 95"
  proof
    fix n
    assume "n \<in> set (units f)"
    then obtain c where c: "c \<in> set f" "n = of_char c" by (auto simp: units_def)
    with assms(1) have "is_lower c \<or> c = CHR ''_''" by (simp add: ascii_lower_name_def list_all_iff)
    then show "97 \<le> n \<and> n \<le> 122 \<or> n = 95" by (elim disjE) (simp_all add: c is_lower_def Let_def)
  qed
  have "goJsonFold k = map go_fold_unit k"
    if "\<forall>c \<in> set k. 97 \<le> go_fold_unit c \<and> go_fold_unit c \<le> 122 \<or> go_fold_unit c = 95" for k
    using that by (induction k) (simp_all add: goJsonFold_def fold_unit)
  moreover have "\<forall>c \<in> set key. 97 \<le> go_fold_unit c \<and> go_fold_unit c \<le> 122 \<or> go_fold_unit c = 95"
    using ok assms(2) unfolding go_matches_def by (metis (no_types, lifting) image_eqI list.set_map)
  ultimately show ?thesis using assms(2) by (simp add: go_matches_def)
qed

section \<open>The configuration a runner receives\<close>

definition collect_security :: "(ustring \<times> json) list \<Rightarrow> (ustring \<times> json) list" where
  "collect_security kvs =
     foldl (\<lambda>security e. if goJsonFold (fst e) = units ''security'' \<and> is_object (snd e)
            then spread security (entries (snd e)) else security) [] kvs"

definition configForRunner :: "json \<Rightarrow> string list \<Rightarrow> string option \<Rightarrow> json" where
  "configForRunner config tags allow_private_ips_env =
     (if \<not> isSharedRunnerTags tags \<or> allow_private_ips_env = Some ''true'' then config
      else if \<not> is_object config then config
      else let rest = filter (\<lambda>e. goJsonFold (fst e) \<noteq> units ''security'') (entries config);
               guarded = filter (\<lambda>e. goJsonFold (fst e) \<noteq> units ''allow_private_ips'')
                           (collect_security (entries config))
           in JObj (set_prop ''security'' (JObj (set_prop ''allow_private_ips'' (JBool False) guarded)) rest))"

text \<open>What Go decodes from a document: every matching key counts, whatever its spelling.\<close>

definition go_allows_private_ips :: "json \<Rightarrow> bool" where
  "go_allows_private_ips config =
     (\<exists>(k, v) \<in> set (entries config). go_matches k ''security'' \<and>
        (\<exists>(k', v') \<in> set (entries v). go_matches k' ''allow_private_ips'' \<and> v' \<noteq> JBool False))"

lemma set_jset_subset: "set (jset k v m) \<subseteq> insert (k, v) (set m)"
  by (induction m) (auto split: if_splits)

lemma shared_config_is_guarded:
  assumes "isSharedRunnerTags tags" "env \<noteq> Some ''true''"
  shows "\<not> go_allows_private_ips (configForRunner config tags env)"
proof (cases "is_object config")
  case False
  with assms show ?thesis by (cases config) (simp_all add: configForRunner_def go_allows_private_ips_def)
next
  case True
  let ?rest = "filter (\<lambda>e. goJsonFold (fst e) \<noteq> units ''security'') (entries config)"
  let ?guarded = "filter (\<lambda>e. goJsonFold (fst e) \<noteq> units ''allow_private_ips'') (collect_security (entries config))"
  let ?sec = "set_prop ''allow_private_ips'' (JBool False) ?guarded"
  have names: "ascii_lower_name ''security''" "ascii_lower_name ''allow_private_ips''" by code_simp+
  have inner: "v' = JBool False" if "(k', v') \<in> set ?sec" "go_matches k' ''allow_private_ips''" for k' v'
    using that(1) set_jset_subset [of "units ''allow_private_ips''" "JBool False" ?guarded]
      go_matches_folds [OF names(2) that(2)]
    by (auto simp: set_prop_def)
  have outer: "v = JObj ?sec" if "(k, v) \<in> set (set_prop ''security'' (JObj ?sec) ?rest)" "go_matches k ''security''" for k v
    using that(1) set_jset_subset [of "units ''security''" "JObj ?sec" ?rest] go_matches_folds [OF names(1) that(2)]
    by (auto simp: set_prop_def)
  have conf: "configForRunner config tags env = JObj (set_prop ''security'' (JObj ?sec) ?rest)"
    using assms True by (simp add: configForRunner_def Let_def)
  show ?thesis
    unfolding conf go_allows_private_ips_def using inner outer by fastforce
qed

section \<open>Versions\<close>

text \<open>\<open>Number(s)\<close> of a version part: decimal digits, or empty as 0; anything else is \<open>NaN\<close>.\<close>

definition part_number :: "string \<Rightarrow> nat option" where
  "part_number s = (if list_all is_digit s then Some (dec_val s) else None)"

text \<open>\<open>runnerVer.replace(/^v\.?/, '')\<close>\<close>

fun strip_v :: "string \<Rightarrow> string" where
  "strip_v (c # cs) = (if c = CHR ''v'' then (case cs of d # ds \<Rightarrow> if d = CHR ''.'' then ds else cs | [] \<Rightarrow> []) else c # cs)"
| "strip_v [] = []"

definition release_and_pre :: "string \<Rightarrow> string \<times> string option" where
  "release_and_pre clean = (case split_on (CHR ''-'') clean of
     [] \<Rightarrow> ([], None) | [r] \<Rightarrow> (r, None) | r # p # _ \<Rightarrow> (r, Some p))"

fun string_less :: "string \<Rightarrow> string \<Rightarrow> bool" where
  "string_less _ [] = False"
| "string_less [] (_ # _) = True"
| "string_less (a # as) (b # bs) =
     ((of_char a :: nat) < of_char b \<or> (a = b \<and> string_less as bs))"

text \<open>\<open>Some verdict\<close> when the releases decide, \<open>None\<close> when they are level.\<close>

fun compare_parts :: "string \<Rightarrow> string \<Rightarrow> nat option list \<Rightarrow> nat option list \<Rightarrow> bool option" where
  "compare_parts rr cr [] [] = None"
| "compare_parts rr cr rs cs =
     (case (case rs of [] \<Rightarrow> Some 0 | r # _ \<Rightarrow> r, case cs of [] \<Rightarrow> Some 0 | c # _ \<Rightarrow> c) of
        (Some r, Some c) \<Rightarrow> if r < c then Some True else if c < r then Some False
                            else compare_parts rr cr (drop 1 rs) (drop 1 cs)
      | _ \<Rightarrow> if string_less rr cr then Some True else if string_less cr rr then Some False else None)"

definition pre_given :: "string option \<Rightarrow> bool" where
  "pre_given p = (p \<noteq> None \<and> p \<noteq> Some [])"

definition isVersionOutdated :: "string \<Rightarrow> string \<Rightarrow> bool" where
  "isVersionOutdated runnerVer coordVer =
     (if runnerVer = ''dev'' \<or> coordVer = ''dev'' then False
      else let (rr, rp) = release_and_pre (strip_v runnerVer);
               (cr, cp) = release_and_pre (strip_v coordVer)
           in case compare_parts rr cr (map part_number (split_on (CHR ''.'') rr)) (map part_number (split_on (CHR ''.'') cr)) of
                Some verdict \<Rightarrow> verdict
              | None \<Rightarrow> if pre_given rp \<and> \<not> pre_given cp then True
                        else if \<not> pre_given rp \<and> pre_given cp then False
                        else if pre_given rp \<and> pre_given cp then string_less (the rp) (the cp)
                        else False)"

lemma string_less_irrefl: "\<not> string_less s s"
  by (induction s) auto

lemma string_less_asym: "string_less a b \<Longrightarrow> \<not> string_less b a"
  by (induction a b rule: string_less.induct) auto

lemma compare_parts_refl: "compare_parts r r ps ps = None"
  by (induction ps) (auto simp: string_less_irrefl split: option.splits)

lemma compare_parts_asym: "compare_parts rr cr rs cs = Some v \<Longrightarrow> compare_parts cr rr cs rs = Some (\<not> v)"
  by (induction rr cr rs cs rule: compare_parts.induct)
    (auto dest: string_less_asym split: option.splits if_splits list.splits)

end
