(* ===== verification/Scan_Config_Store.thy ===== *)
theory Scan_Config_Store
  imports Json Rbac_Config
begin

text \<open>
  \<open>services/scanConfigStore.ts\<close>: the R2 objects a scan's configuration waits in until the scan is
  dispatched. An object is named \<open>scans/configs/<runId>/<uuid>.json\<close>, and a reference is followed
  only for the run its name carries. \<open>r2_down\<close> is an R2 read that fails; an object whose text
  is no JSON is \<open>Broken\<close>.
\<close>

section \<open>Names\<close>

definition SCAN_CONFIG_PREFIX :: string where "SCAN_CONFIG_PREFIX = ''scans/configs/''"

definition isValidRunId :: "string \<Rightarrow> bool" where
  "isValidRunId runId = isValidId runId"

definition uuid_char :: "char \<Rightarrow> bool" where
  "uuid_char c = (is_digit c \<or> c \<in> set ''abcdef'' \<or> c = CHR ''-'')"

text \<open>
  The key's pattern, as one deterministic scan: the run id's characters cannot match the slash
  that ends them, nor the uuid's the dot.
\<close>

definition isValidScanConfigKey :: "string \<Rightarrow> bool" where
  "isValidScanConfigKey key =
     (\<not> includes_str key ''..'' \<and> starts_with key SCAN_CONFIG_PREFIX \<and>
      (let rest = drop (length SCAN_CONFIG_PREFIX) key;
           run = takeWhile id_char rest;
           tail = dropWhile id_char rest
       in 1 \<le> length run \<and> length run \<le> 64 \<and>
          starts_with tail ''/'' \<and>
          (let file = drop 1 tail
           in list_all uuid_char (take 36 file) \<and> 36 \<le> length file \<and> drop 36 file = ''.json'')))"

definition isScanConfigKeyForRun :: "string \<Rightarrow> string \<Rightarrow> bool" where
  "isScanConfigKeyForRun key runId =
     (isValidScanConfigKey key \<and> isValidRunId runId \<and> starts_with key (SCAN_CONFIG_PREFIX @ runId @ ''/''))"

definition scan_config_key :: "string \<Rightarrow> string \<Rightarrow> string" where
  "scan_config_key runId uuid = SCAN_CONFIG_PREFIX @ runId @ ''/'' @ uuid @ ''.json''"

lemma id_char_not_slash: "\<not> id_char (CHR ''/'')" by code_simp

lemma valid_id_chars: "isValidId r \<Longrightarrow> c \<in> set r \<Longrightarrow> id_char c"
  by (auto simp: isValidId_def list_all_iff)

lemma run_of_key:
  assumes "isScanConfigKeyForRun key runId"
  shows "takeWhile id_char (drop (length SCAN_CONFIG_PREFIX) key) = runId"
proof -
  from assms obtain r where key: "key = SCAN_CONFIG_PREFIX @ runId @ CHR ''/'' # r" and v: "isValidId runId"
    unfolding isScanConfigKeyForRun_def starts_with_iff isValidRunId_def by auto
  have "takeWhile id_char (runId @ CHR ''/'' # r) = runId"
    using valid_id_chars [OF v] id_char_not_slash by (simp add: takeWhile_append)
  with key show ?thesis by simp
qed

lemma key_of_one_run: "isScanConfigKeyForRun key r1 \<Longrightarrow> isScanConfigKeyForRun key r2 \<Longrightarrow> r1 = r2"
  using run_of_key by metis

section \<open>Objects\<close>

datatype r2_object = Document json | Broken

type_synonym r2_store = "r2_object jmap"

datatype config_error = Invalid_key | Not_found | Unreadable

definition MAX_SCAN_CONFIG_BYTES :: nat where "MAX_SCAN_CONFIG_BYTES = 20 * 1024 * 1024"

text \<open>\<open>stringify\<close> is \<open>JSON.stringify\<close>; \<open>utf8_length\<close> what \<open>TextEncoder\<close> makes of its code units.\<close>

fun utf8_length :: "ustring \<Rightarrow> nat" where
  "utf8_length [] = 0"
| "utf8_length (c # cs) =
     (if c < 0x80 then 1 + utf8_length cs
      else if c < 0x800 then 2 + utf8_length cs
      else if 0xD800 \<le> c \<and> c < 0xDC00 then
        (case cs of
           d # ds \<Rightarrow> if 0xDC00 \<le> d \<and> d < 0xE000 then 4 + utf8_length ds else 3 + utf8_length cs
         | [] \<Rightarrow> 3)
      else 3 + utf8_length cs)"

definition serializeScanConfig :: "(json \<Rightarrow> ustring) \<Rightarrow> json option \<Rightarrow> (ustring \<times> nat) res" where
  "serializeScanConfig stringify config =
     (let serialized = stringify (case config of None \<Rightarrow> JObj [] | Some c \<Rightarrow> c);
          byteLength = utf8_length serialized
      in if byteLength > MAX_SCAN_CONFIG_BYTES then Inl (Error ''Scan config too large|413'')
         else Inr (serialized, byteLength))"

definition writeScanConfig :: "string \<Rightarrow> string \<Rightarrow> json \<Rightarrow> r2_store \<Rightarrow> string res \<times> r2_store" where
  "writeScanConfig uuid runId config r2 =
     (if \<not> isValidRunId runId then (Inl (Error ''Invalid runId|400''), r2)
      else let key = scan_config_key runId uuid in (Inr key, jset key (Document config) r2))"

definition getScanConfig :: "bool \<Rightarrow> r2_store \<Rightarrow> string \<Rightarrow> config_error + json" where
  "getScanConfig r2_down r2 key =
     (if \<not> isValidScanConfigKey key then Inl Invalid_key
      else if r2_down then Inl Unreadable
      else case map_of r2 key of
             None \<Rightarrow> Inl Not_found
           | Some Broken \<Rightarrow> Inl Unreadable
           | Some (Document c) \<Rightarrow> Inr c)"

definition deleteScanConfig :: "bool \<Rightarrow> string \<Rightarrow> r2_store \<Rightarrow> r2_store" where
  "deleteScanConfig r2_down key r2 =
     (if \<not> isValidScanConfigKey key \<or> r2_down then r2 else jdel key r2)"

definition is_uuid :: "string \<Rightarrow> bool" where
  "is_uuid u = (length u = 36 \<and> list_all uuid_char u)"

lemma no_dots_append:
  assumes "CHR ''.'' \<notin> set a"
  shows "includes_str (a @ b) ''..'' = includes_str b ''..''"
  using assms by (induction a) (auto simp: starts_with_def)

lemma written_key_is_for_run:
  assumes "isValidId runId" "is_uuid uuid"
  shows "isScanConfigKeyForRun (scan_config_key runId uuid) runId"
proof -
  have dot: "\<not> id_char (CHR ''.'')" "\<not> uuid_char (CHR ''.'')" by code_simp+
  have tw: "takeWhile id_char (runId @ CHR ''/'' # r) = runId" "dropWhile id_char (runId @ CHR ''/'' # r) = CHR ''/'' # r" for r
    using valid_id_chars [OF assms(1)] id_char_not_slash by (simp_all add: takeWhile_append dropWhile_append)
  have nodot: "CHR ''.'' \<notin> set (SCAN_CONFIG_PREFIX @ runId @ ''/'' @ uuid)"
    using valid_id_chars [OF assms(1)] dot assms(2)
    by (auto simp: SCAN_CONFIG_PREFIX_def is_uuid_def list_all_iff)
  have "\<not> includes_str (scan_config_key runId uuid) ''..''"
    using no_dots_append [OF nodot, of "''.json''"] by (simp add: scan_config_key_def starts_with_def)
  moreover have "1 \<le> length runId \<and> length runId \<le> 64" using assms(1) by (auto simp: isValidId_def)
  ultimately show ?thesis
    using assms tw
    by (simp add: isScanConfigKeyForRun_def isValidScanConfigKey_def isValidRunId_def scan_config_key_def
        Let_def is_uuid_def starts_with_def)
qed

end
