(* ===== verification/Event_Ids.thy ===== *)
theory Event_Ids
  imports Json Rbac_Config
begin

text \<open>
  How a runner's events are numbered (\<open>coordinator/delivery.ts\<close>): the execution id and sequence
  number a message carries, what of them is accepted, and the stored id they give the event.
\<close>

text \<open>A text as an identifier: \<open>None\<close> of one that holds a code unit no identifier has.\<close>

definition text_of :: "ustring \<Rightarrow> string option" where
  "text_of u = (if list_all (\<lambda>n. n < 256) u then Some (map char_of u) else None)"

definition str_of :: "json option \<Rightarrow> string option" where
  "str_of v = (case v of Some (JStr u) \<Rightarrow> text_of u | _ \<Rightarrow> None)"

definition MAX_SAFE_INTEGER :: int where "MAX_SAFE_INTEGER = 2 ^ 53 - 1"

definition seq_of :: "json option \<Rightarrow> int option" where
  "seq_of v = (case v of
     Some (JNum q) \<Rightarrow> (if snd (quotient_of q) = 1 \<and> 1 \<le> fst (quotient_of q) \<and> fst (quotient_of q) \<le> MAX_SAFE_INTEGER
                      then Some (fst (quotient_of q)) else None)
   | _ \<Rightarrow> None)"

definition isValidSeq :: "json option \<Rightarrow> bool" where
  "isValidSeq v = (seq_of v \<noteq> None)"

definition exec_of :: "json option \<Rightarrow> string option" where
  "exec_of v = (case str_of v of Some e \<Rightarrow> if isValidId e then Some e else None | None \<Rightarrow> None)"

definition isValidExec :: "json option \<Rightarrow> bool" where
  "isValidExec v = (exec_of v \<noteq> None)"

definition eventIdFor :: "string \<Rightarrow> string \<Rightarrow> int \<Rightarrow> string" where
  "eventIdFor runId exec seq = ''ev:'' @ runId @ '':'' @ exec @ '':'' @ show_int seq"

definition deliveredSeqKey :: "string \<Rightarrow> string" where
  "deliveredSeqKey runId = ''delivered_seq:'' @ runId"

lemma text_of_units [simp]: "text_of (units s) = Some s"
  by (simp add: text_of_def units_def list_all_iff comp_def)

lemma text_of_Some: "text_of u = Some s \<longleftrightarrow> u = units s"
proof
  assume "text_of u = Some s"
  then have "list_all (\<lambda>n. n < 256) u" "s = map char_of u" by (auto simp: text_of_def split: if_splits)
  then show "u = units s"
    by (auto simp: units_def comp_def list_all_iff intro!: map_idI [symmetric])
qed simp

lemma exec_of_valid: "exec_of v = Some e \<Longrightarrow> isValidId e"
  by (auto simp: exec_of_def split: option.splits if_splits)

lemma seq_of_bounds: "seq_of v = Some n \<Longrightarrow> 1 \<le> n \<and> n \<le> MAX_SAFE_INTEGER"
  by (auto simp: seq_of_def split: option.splits json.splits if_splits)

lemma last_sep_unique:
  assumes "a @ c # b = a' @ c # b'" "c \<notin> set b" "c \<notin> set b'"
  shows "a = a' \<and> b = b'"
proof -
  have tw: "takeWhile (\<lambda>x. x \<noteq> c) (rev (x @ c # y)) = rev y" if "c \<notin> set y" for x y
    using that by (simp add: takeWhile_append)
  from assms have "rev b = rev b'" using tw [of b a] tw [of b' a'] by simp
  then show ?thesis using assms(1) by simp
qed

lemma show_int_no_colon: "0 \<le> n \<Longrightarrow> CHR '':'' \<notin> set (show_int n)"
proof
  assume "0 \<le> n" "CHR '':'' \<in> set (show_int n)"
  then have "is_digit (CHR '':'')" by (auto simp: show_int_def dest: nat_digits_is_digit)
  then show False by (simp add: is_digit_def)
qed

lemma show_int_inj:
  assumes "0 \<le> m" "0 \<le> n" "show_int m = show_int n"
  shows "m = n"
proof -
  from assms have "nat_digits (nat m) = nat_digits (nat n)" by (simp add: show_int_def)
  then have "nat m = nat n" by (metis dec_val_nat_digits)
  with assms show ?thesis by simp
qed

lemma id_no_colon: "isValidId e \<Longrightarrow> CHR '':'' \<notin> set e"
proof
  assume "isValidId e" "CHR '':'' \<in> set e"
  then have "id_char (CHR '':'')" by (auto simp: isValidId_def list_all_iff)
  moreover have "\<not> id_char (CHR '':'')" by code_simp
  ultimately show False by simp
qed

text \<open>The execution id cannot hold a colon, so no event can take the id of another, whatever its run.\<close>

lemma event_id_inj:
  assumes "eventIdFor r e n = eventIdFor r' e' n'" "isValidId e" "isValidId e'" "0 \<le> n" "0 \<le> n'"
  shows "r = r' \<and> e = e' \<and> n = n'"
proof -
  have "(r @ CHR '':'' # e) @ CHR '':'' # show_int n = (r' @ CHR '':'' # e') @ CHR '':'' # show_int n'"
    using assms(1) by (simp add: eventIdFor_def)
  from last_sep_unique [OF this] assms show_int_no_colon
  have "r @ CHR '':'' # e = r' @ CHR '':'' # e'" and s: "show_int n = show_int n'" by auto
  from last_sep_unique [OF this(1)] assms id_no_colon have "r = r' \<and> e = e'" by auto
  with s assms show ?thesis using show_int_inj by auto
qed

end
