(* ===== verification/Runner_Messages.thy ===== *)
theory Runner_Messages
  imports Json
begin

text \<open>
  \<open>utils/runnerMessages.ts\<close>: what users see of a runner's untrusted text. Texts are lists of UTF-16
  code units; the expressions the source matches are recognisers over them. What the language's
  runtime does with a value is the record \<open>runtime\<close>: \<open>JSON.stringify\<close>, \<open>JSON.parse\<close>,
  \<open>String\<close> and the \<open>URL\<close> constructor (\<open>None\<close> when it throws).
\<close>

record url =
  u_protocol :: ustring
  u_host :: ustring
  u_username :: ustring
  u_password :: ustring
  u_pathname :: ustring
  u_search :: ustring
  u_hash :: ustring

record runtime =
  stringify :: "json \<Rightarrow> ustring"
  parse_json :: "ustring \<Rightarrow> json option"
  to_text :: "json \<Rightarrow> ustring"
  parse_url :: "ustring \<Rightarrow> url option"

definition MAX_RUNNER_MESSAGE_LENGTH :: nat where "MAX_RUNNER_MESSAGE_LENGTH = 500"
definition MAX_RUNNER_LOG_LENGTH :: nat where "MAX_RUNNER_LOG_LENGTH = 4000"

definition UNKNOWN_FAILURE :: ustring where
  "UNKNOWN_FAILURE = units ''The scan failed without an error message.''"

section \<open>Classes of code units\<close>

definition u_ws :: "nat \<Rightarrow> bool" where
  "u_ws c = (9 \<le> c \<and> c \<le> 13 \<or> c = 32 \<or> c = 160 \<or> c = 0x1680 \<or> 0x2000 \<le> c \<and> c \<le> 0x200A \<or>
     c = 0x2028 \<or> c = 0x2029 \<or> c = 0x202F \<or> c = 0x205F \<or> c = 0x3000 \<or> c = 0xFEFF)"

definition u_digit :: "nat \<Rightarrow> bool" where "u_digit c = (48 \<le> c \<and> c \<le> 57)"
definition u_letter :: "nat \<Rightarrow> bool" where "u_letter c = (65 \<le> c \<and> c \<le> 90 \<or> 97 \<le> c \<and> c \<le> 122)"
definition u_word :: "nat \<Rightarrow> bool" where "u_word c = (u_letter c \<or> u_digit c \<or> c = 95)"
definition u_control :: "nat \<Rightarrow> bool" where "u_control c = (c \<le> 0x1F \<or> 0x7F \<le> c \<and> c \<le> 0x9F)"

definition u_starts :: "ustring \<Rightarrow> string \<Rightarrow> bool" where
  "u_starts t p = (take (length p) t = units p)"

section \<open>Stack traces\<close>

text \<open>
  \<open>STACK_TRACE_START\<close> after its line start: white space, then one of the four frames. No frame
  starts with white space, so \<open>\s*\<close> takes all of it; the run of a location ends at the colon, which
  its class lacks, so the extension is the end of the run.
\<close>

definition goroutine_line :: "ustring \<Rightarrow> bool" where
  "goroutine_line t =
     (u_starts t ''goroutine '' \<and>
      (let r = drop 10 t in takeWhile u_digit r \<noteq> [] \<and> u_starts (dropWhile u_digit r) '' [''))"

definition call_unit :: "nat \<Rightarrow> bool" where
  "call_unit c = (u_word c \<or> c \<in> {36, 46, 60, 62})"

definition call_line :: "ustring \<Rightarrow> bool" where
  "call_line t =
     (u_starts t ''at '' \<and>
      (let r = drop 3 t in takeWhile call_unit r \<noteq> [] \<and> u_starts (dropWhile call_unit r) '' (''))"

definition path_unit :: "nat \<Rightarrow> bool" where
  "path_unit c = (u_word c \<or> c \<in> {46, 47, 92, 45})"

definition has_ending :: "ustring \<Rightarrow> string \<Rightarrow> bool" where
  "has_ending w e = (length e < length w \<and> drop (length w - length e) w = units e)"

definition location_line :: "ustring \<Rightarrow> bool" where
  "location_line t =
     (let w = takeWhile path_unit t; r = dropWhile path_unit t
      in (has_ending w ''.go'' \<or> has_ending w ''.ts'' \<or> has_ending w ''.js'' \<or> has_ending w ''.mjs'') \<and>
         u_starts r '':'' \<and> (case drop 1 r of d # _ \<Rightarrow> u_digit d | [] \<Rightarrow> False))"

definition frame_starts :: "ustring \<Rightarrow> bool" where
  "frame_starts line =
     (let t = dropWhile u_ws line
      in goroutine_line t \<or> u_starts t ''panic:'' \<or> call_line t \<or> location_line t)"

text \<open>\<open>text.slice(0, text.search(STACK_TRACE_START))\<close>, or the text when nothing matches.\<close>

fun cut_at_frame :: "ustring \<Rightarrow> ustring" where
  "cut_at_frame [] = []"
| "cut_at_frame (c # cs) = (if c = 10 \<and> frame_starts cs then [] else c # cut_at_frame cs)"

definition cut_stack :: "ustring \<Rightarrow> ustring" where
  "cut_stack t = (if frame_starts t then [] else cut_at_frame t)"

section \<open>URLs and escapes\<close>

definition scheme_unit :: "nat \<Rightarrow> bool" where
  "scheme_unit c = (u_letter c \<or> u_digit c \<or> c \<in> {43, 46, 45})"

definition url_unit :: "nat \<Rightarrow> bool" where
  "url_unit c = (\<not> u_ws c \<and> c \<notin> {34, 39, 60, 62})"

text \<open>The length of the match of \<open>URL_IN_TEXT\<close> at the start of the text; 0 when there is none.\<close>

definition url_match :: "ustring \<Rightarrow> nat" where
  "url_match t = (case t of
     [] \<Rightarrow> 0
   | c # cs \<Rightarrow>
       if \<not> u_letter c then 0
       else let scheme = takeWhile scheme_unit cs; r = dropWhile scheme_unit cs
            in if u_starts r ''://'' \<and> takeWhile url_unit (drop 3 r) \<noteq> []
               then 1 + length scheme + 3 + length (takeWhile url_unit (drop 3 r)) else 0)"

function replace_urls :: "(ustring \<Rightarrow> ustring) \<Rightarrow> ustring \<Rightarrow> ustring" where
  "replace_urls f [] = []"
| "replace_urls f (c # cs) =
     (if url_match (c # cs) = 0 then c # replace_urls f cs
      else f (take (url_match (c # cs)) (c # cs)) @ replace_urls f (drop (url_match (c # cs)) (c # cs)))"
  by pat_completeness auto
termination by (relation "measure (\<lambda>(f, t). length t)") auto

text \<open>The length of an ANSI escape sequence at the start of the text; 0 when there is none.\<close>

definition ansi_match :: "ustring \<Rightarrow> nat" where
  "ansi_match t =
     (if u_starts t [char_of (27 :: nat), CHR ''[''] then
        let r = drop 2 t;
            params = takeWhile (\<lambda>c. u_digit c \<or> c = 59 \<or> c = 63) r;
            r1 = drop (length params) r;
            mids = takeWhile (\<lambda>c. 32 \<le> c \<and> c \<le> 47) r1;
            r2 = drop (length mids) r1
        in (case r2 of c # _ \<Rightarrow> if 64 \<le> c \<and> c \<le> 126 then 2 + length params + length mids + 1 else 0 | [] \<Rightarrow> 0)
      else 0)"

function strip_ansi :: "ustring \<Rightarrow> ustring" where
  "strip_ansi [] = []"
| "strip_ansi (c # cs) =
     (if ansi_match (c # cs) = 0 then c # strip_ansi cs
      else strip_ansi (drop (ansi_match (c # cs)) (c # cs)))"
  by pat_completeness auto
termination by (relation "measure length") auto

text \<open>\<open>CONTROL_CHARS\<close> and \<open>\s+\<close>, both \<open>+\<close> expressions replaced by one space.\<close>

fun squeeze :: "(nat \<Rightarrow> bool) \<Rightarrow> ustring \<Rightarrow> ustring" where
  "squeeze P [] = []"
| "squeeze P [c] = (if P c then [32] else [c])"
| "squeeze P (c # d # cs) = (if P c then if P d then squeeze P (d # cs) else 32 # squeeze P (d # cs)
                             else c # squeeze P (d # cs))"

definition u_trim_end :: "ustring \<Rightarrow> ustring" where
  "u_trim_end t = rev (dropWhile u_ws (rev t))"

definition u_trim :: "ustring \<Rightarrow> ustring" where
  "u_trim t = u_trim_end (dropWhile u_ws t)"

section \<open>Redaction\<close>

definition ELLIPSIS :: nat where "ELLIPSIS = 0x2026"

definition redactUrl :: "(ustring \<Rightarrow> url option) \<Rightarrow> ustring \<Rightarrow> ustring" where
  "redactUrl new_url raw = (case new_url raw of
     None \<Rightarrow> units ''(URL)''
   | Some u \<Rightarrow>
       if u_host u = [] then u_protocol u @ [ELLIPSIS]
       else let userinfo = (if u_username u \<noteq> [] \<or> u_password u \<noteq> [] then [ELLIPSIS, 64] else []);
                query = (if u_search u \<noteq> [] \<or> 63 \<in> set raw then [63, ELLIPSIS] else []);
                fragment = (if u_hash u \<noteq> [] then [35, ELLIPSIS] else []);
                path = (if u_pathname u \<noteq> [] \<and> u_pathname u \<noteq> units ''/'' then [47, ELLIPSIS] else [])
            in u_protocol u @ units ''//'' @ userinfo @ u_host u @ path @ query @ fragment)"

definition raw_text :: "runtime \<Rightarrow> json option \<Rightarrow> ustring" where
  "raw_text rt raw = (case raw of
     Some (JStr s) \<Rightarrow> s | None \<Rightarrow> [] | Some JNull \<Rightarrow> [] | Some v \<Rightarrow> stringify rt v)"

definition bounded :: "nat \<Rightarrow> ustring \<Rightarrow> ustring" where
  "bounded limit t = (if length t > limit then u_trim_end (take (limit - 1) t) @ [ELLIPSIS] else t)"

definition one_line :: "ustring \<Rightarrow> ustring" where
  "one_line t = u_trim (squeeze u_ws (squeeze u_control (strip_ansi t)))"

definition sanitizeRunnerText :: "runtime \<Rightarrow> json option \<Rightarrow> nat \<Rightarrow> ustring" where
  "sanitizeRunnerText rt raw limit =
     bounded limit (one_line (replace_urls (redactUrl (parse_url rt)) (cut_stack (raw_text rt raw))))"

definition redactRunnerLogText :: "runtime \<Rightarrow> json option \<Rightarrow> nat \<Rightarrow> ustring" where
  "redactRunnerLogText rt raw limit =
     (let text = (case raw of Some (JStr s) \<Rightarrow> s | _ \<Rightarrow> []);
          t = strip_ansi (replace_urls (redactUrl (parse_url rt)) text)
      in if length t > limit then take (limit - 1) t @ [ELLIPSIS] else t)"

definition shown :: "runtime \<Rightarrow> ustring \<Rightarrow> ustring" where
  "shown rt t = sanitizeRunnerText rt (Some (JStr t)) MAX_RUNNER_MESSAGE_LENGTH"

definition data_text :: "runtime \<Rightarrow> json option \<Rightarrow> ustring" where
  "data_text rt data = (case data of
     Some (JStr t) \<Rightarrow> shown rt t
   | Some d \<Rightarrow> (case jprop d ''message'' of
        Some (JStr t) \<Rightarrow> shown rt t
      | _ \<Rightarrow> (case jprop d ''error'' of Some (JStr t) \<Rightarrow> shown rt t | _ \<Rightarrow> []))
   | None \<Rightarrow> [])"

text \<open>\<open>'data' in value\<close> of an array is false; \<open>jprop\<close> of an array is \<open>undefined\<close> too.\<close>

definition error_value_text :: "runtime \<Rightarrow> json option \<Rightarrow> ustring" where
  "error_value_text rt value = (case value of
     Some (JObj kvs) \<Rightarrow>
       data_text rt (if jprop (JObj kvs) ''type'' = Some (JStr (units ''error'')) \<and> jprop (JObj kvs) ''data'' \<noteq> None
                     then jprop (JObj kvs) ''data'' else value)
   | Some (JArr _) \<Rightarrow> []
   | _ \<Rightarrow> sanitizeRunnerText rt value MAX_RUNNER_MESSAGE_LENGTH)"

definition runnerErrorText :: "runtime \<Rightarrow> json option \<Rightarrow> ustring" where
  "runnerErrorText rt payload = (case payload of
     Some (JStr s) \<Rightarrow> (case parse_json rt s of
        None \<Rightarrow> shown rt s
      | Some v \<Rightarrow> error_value_text rt (Some v))
   | _ \<Rightarrow> error_value_text rt payload)"

section \<open>One bounded, clean line\<close>

lemma dropWhile_length: "length (dropWhile P t) \<le> length t"
  by (induction t) auto

lemma u_trim_end_length [simp]: "length (u_trim_end t) \<le> length t"
  using dropWhile_length [of u_ws "rev t"] by (simp add: u_trim_end_def)

lemma bounded_length: "1 \<le> limit \<Longrightarrow> length (bounded limit t) \<le> limit"
proof -
  assume "1 \<le> limit"
  moreover have "length (u_trim_end (take (limit - 1) t)) \<le> limit - 1"
    by (rule order_trans [OF u_trim_end_length]) simp
  ultimately show ?thesis unfolding bounded_def by auto
qed

lemma set_squeeze: "set (squeeze P t) \<subseteq> {c. \<not> P c \<and> c \<in> set t} \<union> {32}"
  by (induction P t rule: squeeze.induct) auto

lemma set_u_trim: "set (u_trim t) \<subseteq> set t" "set (u_trim_end t) \<subseteq> set t"
proof -
  show e: "set (u_trim_end t) \<subseteq> set t" for t
    using set_dropWhileD [of _ u_ws "rev t"] by (auto simp: u_trim_end_def)
  show "set (u_trim t) \<subseteq> set t"
    using e [of "dropWhile u_ws t"] set_dropWhileD [of _ u_ws t] by (auto simp: u_trim_def)
qed

lemma one_line_clean: "c \<in> set (one_line t) \<Longrightarrow> \<not> u_control c \<and> (u_ws c \<longrightarrow> c = 32)"
proof -
  assume "c \<in> set (one_line t)"
  then have c: "c \<in> set (squeeze u_ws (squeeze u_control (strip_ansi t)))"
    using set_u_trim(1) by (auto simp: one_line_def)
  have sp: "\<not> u_control 32" by (simp add: u_control_def)
  from c set_squeeze [of u_ws] set_squeeze [of u_control "strip_ansi t"] sp show ?thesis by blast
qed

lemma sanitized_clean:
  assumes "c \<in> set (sanitizeRunnerText rt raw limit)"
  shows "\<not> u_control c \<and> (u_ws c \<longrightarrow> c = 32)"
proof -
  let ?t = "one_line (replace_urls (redactUrl (parse_url rt)) (cut_stack (raw_text rt raw)))"
  have "c = ELLIPSIS \<or> c \<in> set ?t"
    using assms set_u_trim(2) [of "take (limit - 1) ?t"] set_take_subset [of "limit - 1" ?t]
    by (auto simp: sanitizeRunnerText_def bounded_def split: if_splits)
  then show ?thesis
  proof
    assume "c = ELLIPSIS"
    then show ?thesis by (simp add: ELLIPSIS_def u_control_def u_ws_def)
  qed (rule one_line_clean)
qed

definition error_shape :: "runtime \<Rightarrow> ustring \<Rightarrow> bool" where
  "error_shape rt t = (t = [] \<or> (\<exists>raw. t = sanitizeRunnerText rt raw MAX_RUNNER_MESSAGE_LENGTH))"

lemma error_shape_intros: "error_shape rt []" "error_shape rt (sanitizeRunnerText rt raw MAX_RUNNER_MESSAGE_LENGTH)"
  "error_shape rt (shown rt t)"
  by (auto simp: error_shape_def shown_def)

lemma error_shape_data: "error_shape rt (data_text rt d)"
proof (cases d)
  case (Some j)
  have "error_shape rt (case x of Some (JStr t) \<Rightarrow> shown rt t | _ \<Rightarrow> y)" if "error_shape rt y" for x y
    using that by (cases x rule: option.exhaust; cases "the x") (auto intro: error_shape_intros)
  with Some show ?thesis by (cases j) (auto simp: data_text_def intro: error_shape_intros)
qed (simp add: data_text_def error_shape_intros)

lemma error_shape_value: "error_shape rt (error_value_text rt v)"
proof (cases v)
  case (Some j)
  then show ?thesis
    by (cases j) (auto simp: error_value_text_def intro: error_shape_intros error_shape_data)
qed (simp add: error_value_text_def error_shape_intros)

lemma error_text_shape: "error_shape rt (runnerErrorText rt payload)"
proof (cases payload)
  case (Some j)
  then show ?thesis
    by (cases j) (auto simp: runnerErrorText_def intro: error_shape_intros error_shape_value split: option.split)
qed (simp add: runnerErrorText_def error_shape_value)

lemma redaction_hides:
  assumes "new_url a = Some u" "new_url b = Some v"
    and "u_protocol u = u_protocol v" "u_host u = u_host v"
    and "(u_username u = [] \<and> u_password u = []) = (u_username v = [] \<and> u_password v = [])"
    and "(u_search u \<noteq> [] \<or> 63 \<in> set a) = (u_search v \<noteq> [] \<or> 63 \<in> set b)"
    and "(u_hash u = []) = (u_hash v = [])"
    and "(u_pathname u = [] \<or> u_pathname u = units ''/'') = (u_pathname v = [] \<or> u_pathname v = units ''/'')"
  shows "redactUrl new_url a = redactUrl new_url b"
proof -
  have path: "(u_pathname u \<noteq> [] \<and> u_pathname u \<noteq> units ''/'') = (u_pathname v \<noteq> [] \<and> u_pathname v \<noteq> units ''/'')"
    using assms(8) by blast
  have user: "(u_username u \<noteq> [] \<or> u_password u \<noteq> []) = (u_username v \<noteq> [] \<or> u_password v \<noteq> [])"
    using assms(5) by blast
  show ?thesis
    unfolding redactUrl_def assms(1,2) option.case assms(3,4,6,7) path user ..
qed

end
