(* ===== verification/Scans_Db.thy ===== *)
theory Scans_Db
  imports Event_Ids Runner_Messages
begin

text \<open>
  \<open>repositories/scans.ts\<close>: the tables of scans, their events, findings and pending out-of-band
  tokens, and the statements on them (migrations 0003, 0004, 0016, 0045). Times are Unix seconds, as
  \<open>datetime('now')\<close> counts them. A TEXT column that holds \<open>JSON.stringify(v)\<close> holds the
  document \<open>v\<close> here; \<open>JStr t\<close> in an event's payload is the raw text \<open>t\<close>.
\<close>

section \<open>Tables\<close>

record scan_row =
  s_id :: string
  s_project :: string
  s_target :: ustring
  s_profile :: string
  s_status :: string
  s_user :: "string option"
  s_summary :: "json option"
  s_checkpoint :: "json option"
  s_failure :: "ustring option"
  s_created :: int
  s_completed :: "int option"
  s_changed :: "int option"
  s_trigger :: string
  s_report :: "string option"

record event_row =
  e_id :: string
  e_scan :: string
  e_type :: ustring
  e_payload :: json
  e_created :: int

record finding_row =
  f_id :: string
  f_scan :: string
  f_rule :: ustring
  f_level :: ustring
  f_message :: ustring
  f_evidence :: "ustring option"

record oob_row =
  o_scan :: string
  o_token :: string
  o_endpoint :: ustring
  o_payload :: ustring
  o_created :: int

text \<open>
  \<open>fired\<close> lists the webhooks dispatched (project, event, scan); \<open>uuid_of\<close> is the supply of random
  UUIDs and \<open>next_uuid\<close> how many were drawn. A stored scan configuration whose text is no JSON
  is \<open>None\<close> in \<open>scan_configs\<close>.
\<close>

record scans_db =
  scans :: "scan_row list"
  scan_events :: "event_row list"
  findings :: "finding_row list"
  oob_pending :: "oob_row list"
  user_keys :: "(string \<times> string) list"
  scan_configs :: "((string \<times> string) \<times> json option) list"
  fired :: "(string \<times> string \<times> string) list"
  db_clock :: int
  uuid_of :: "nat \<Rightarrow> string"
  next_uuid :: nat

definition ACTIVE_STATUSES :: "string list" where
  "ACTIVE_STATUSES = [''queued'', ''dispatched'', ''paused'']"

definition is_active :: "scan_row \<Rightarrow> bool" where
  "is_active s = (s_status s \<in> set ACTIVE_STATUSES)"

definition scan_exists :: "scans_db \<Rightarrow> string \<Rightarrow> bool" where
  "scan_exists db scanId = list_ex (\<lambda>s. s_id s = scanId) (scans db)"

definition update_scans :: "(scan_row \<Rightarrow> bool) \<Rightarrow> (scan_row \<Rightarrow> scan_row) \<Rightarrow> scans_db \<Rightarrow> nat \<times> scans_db" where
  "update_scans P f db =
     (length (filter P (scans db)), db\<lparr>scans := map (\<lambda>s. if P s then f s else s) (scans db)\<rparr>)"

definition fire :: "string \<Rightarrow> string \<Rightarrow> string \<Rightarrow> scans_db \<Rightarrow> scans_db" where
  "fire projectId eventType scanId db = db\<lparr>fired := fired db @ [(projectId, eventType, scanId)]\<rparr>"

section \<open>Scans\<close>

definition new_scan :: "string \<Rightarrow> string \<Rightarrow> ustring \<Rightarrow> string \<Rightarrow> string \<Rightarrow> string option \<Rightarrow> string \<Rightarrow> int \<Rightarrow> scan_row" where
  "new_scan scanId projectId targetUrl profile status userId triggerType now =
     \<lparr>s_id = scanId, s_project = projectId, s_target = targetUrl, s_profile = profile, s_status = status,
      s_user = userId, s_summary = None, s_checkpoint = None, s_failure = None, s_created = now,
      s_completed = None, s_changed = None, s_trigger = triggerType, s_report = None\<rparr>"

definition createScan ::
  "string \<Rightarrow> string \<Rightarrow> ustring \<Rightarrow> string \<Rightarrow> string \<Rightarrow> string option \<Rightarrow> string \<Rightarrow> (scans_db, unit) comp" where
  "createScan scanId projectId targetUrl profile status userId triggerType db =
     (if scan_exists db scanId then (Inl ConstraintFailed, db)
      else (Inr (), db\<lparr>scans := scans db @
             [new_scan scanId projectId targetUrl profile status userId triggerType (db_clock db)]\<rparr>))"

definition getScan :: "scans_db \<Rightarrow> string \<Rightarrow> scan_row option" where
  "getScan db scanId = find (\<lambda>s. s_id s = scanId) (scans db)"

definition getScanStatus :: "scans_db \<Rightarrow> string \<Rightarrow> string option" where
  "getScanStatus db scanId = map_option s_status (getScan db scanId)"

text \<open>The fields a client may set; each is written only when it is given.\<close>

definition updateScan ::
  "string \<Rightarrow> string option \<Rightarrow> json option \<Rightarrow> int option \<Rightarrow> (scans_db, scan_row option) comp" where
  "updateScan scanId status summary completed db =
     (if status = None \<and> summary = None \<and> completed = None then (Inl (Error ''No valid fields to update|400''), db)
      else let db' = snd (update_scans (\<lambda>s. s_id s = scanId)
             (\<lambda>s. s\<lparr>s_status := (case status of None \<Rightarrow> s_status s | Some x \<Rightarrow> x),
                    s_summary := (case summary of None \<Rightarrow> s_summary s | Some x \<Rightarrow> Some x),
                    s_completed := (case completed of None \<Rightarrow> s_completed s | Some x \<Rightarrow> Some x)\<rparr>) db)
           in (Inr (getScan db' scanId), db'))"

definition updateScanReportUrl :: "string \<Rightarrow> string \<Rightarrow> scans_db \<Rightarrow> scans_db" where
  "updateScanReportUrl scanId reportUrl db =
     snd (update_scans (\<lambda>s. s_id s = scanId) (\<lambda>s. s\<lparr>s_report := Some reportUrl\<rparr>) db)"

definition changeActiveStatus :: "string \<Rightarrow> string list \<Rightarrow> string \<Rightarrow> scans_db \<Rightarrow> bool \<times> scans_db" where
  "changeActiveStatus scanId from_statuses to_status db =
     (let (changes, db') = update_scans (\<lambda>s. s_id s = scanId \<and> s_status s \<in> set from_statuses)
        (\<lambda>s. s\<lparr>s_status := to_status, s_changed := Some (db_clock db)\<rparr>) db
      in (0 < changes, db'))"

definition markFailedIfActive :: "string \<Rightarrow> ustring option \<Rightarrow> scans_db \<Rightarrow> bool \<times> scans_db" where
  "markFailedIfActive scanId reason db =
     (let (changes, db') = update_scans (\<lambda>s. s_id s = scanId \<and> is_active s)
        (\<lambda>s. s\<lparr>s_status := ''failed'', s_completed := Some (db_clock db), s_failure := reason\<rparr>) db
      in (0 < changes, db'))"

definition hasActiveScans :: "scans_db \<Rightarrow> bool" where
  "hasActiveScans db = list_ex (\<lambda>s. s_status s \<in> set [''dispatched'', ''paused'']) (scans db)"

definition status_event :: "string \<Rightarrow> string option" where
  "status_event status =
     (if status = ''dispatched'' then Some ''scan.started''
      else if status = ''completed'' then Some ''scan.completed''
      else if status = ''failed'' then Some ''scan.failed'' else None)"

definition set_status :: "string \<Rightarrow> string \<Rightarrow> json option \<Rightarrow> ustring option \<Rightarrow> scans_db \<Rightarrow> scans_db" where
  "set_status scanId status summaryStats failureReason db =
     snd (update_scans (\<lambda>s. s_id s = scanId)
       (\<lambda>s. let s1 = s\<lparr>s_status := status, s_changed := Some (db_clock db)\<rparr>
            in if status = ''completed'' \<and> summaryStats \<noteq> None then
                 s1\<lparr>s_completed := Some (db_clock db), s_summary := summaryStats\<rparr>
               else if status = ''failed'' then
                 s1\<lparr>s_completed := Some (db_clock db),
                    s_failure := (case failureReason of None \<Rightarrow> s_failure s | r \<Rightarrow> r)\<rparr>
               else s1) db)"

definition updateScanStatus :: "string \<Rightarrow> string \<Rightarrow> json option \<Rightarrow> ustring option \<Rightarrow> scans_db \<Rightarrow> scans_db" where
  "updateScanStatus scanId status summaryStats failureReason db =
     (let db' = set_status scanId status summaryStats failureReason db
      in case getScan db' scanId of
           Some s \<Rightarrow> if s_project s = [] then db'
                     else (case status_event status of None \<Rightarrow> db' | Some ev \<Rightarrow> fire (s_project s) ev scanId db')
         | None \<Rightarrow> db')"

text \<open>The rows with the \<open>LEFT JOIN\<close> on the users' public keys.\<close>

definition user_key :: "scans_db \<Rightarrow> scan_row \<Rightarrow> string option" where
  "user_key db s = (case s_user s of None \<Rightarrow> None | Some u \<Rightarrow> map_of (user_keys db) u)"

definition getQueuedScans :: "scans_db \<Rightarrow> (scan_row \<times> string option) list" where
  "getQueuedScans db = map (\<lambda>s. (s, user_key db s)) (sort_key s_created (filter (\<lambda>s. s_status s = ''queued'') (scans db)))"

definition getActiveScans :: "scans_db \<Rightarrow> (scan_row \<times> string option) list" where
  "getActiveScans db = map (\<lambda>s. (s, user_key db s)) (sort_key s_created (filter is_active (scans db)))"

text \<open>The outer option is whether a row was found, the inner whether its text is JSON.\<close>

definition getScanConfigByProject :: "scans_db \<Rightarrow> string \<Rightarrow> string \<Rightarrow> json option option" where
  "getScanConfigByProject db projectId profileName = map_of (scan_configs db) (projectId, profileName)"

text \<open>Saving a project's configuration under a name.\<close>

definition set_scan_config :: "string \<Rightarrow> string \<Rightarrow> json option \<Rightarrow> scans_db \<Rightarrow> scans_db" where
  "set_scan_config projectId name doc db = db\<lparr>scan_configs := jset (projectId, name) doc (scan_configs db)\<rparr>"

section \<open>Stalled scans\<close>

definition last_activity :: "scans_db \<Rightarrow> scan_row \<Rightarrow> int" where
  "last_activity db s =
     foldl max (s_created s)
       (map e_created (filter (\<lambda>e. e_scan e = s_id s) (scan_events db)) @
        (case s_changed s of None \<Rightarrow> [] | Some t \<Rightarrow> [t]))"

definition idle_minutes :: "scans_db \<Rightarrow> scan_row \<Rightarrow> int" where
  "idle_minutes db s = (db_clock db - last_activity db s) div 60"

definition select_stalled ::
  "scans_db \<Rightarrow> (scan_row \<Rightarrow> bool) \<Rightarrow> nat \<Rightarrow> nat \<Rightarrow> (string \<times> string \<times> int) list" where
  "select_stalled db P minutes limit =
     map (\<lambda>s. (s_id s, s_status s, idle_minutes db s))
       (take limit (sort_key (last_activity db)
          (filter (\<lambda>s. P s \<and> last_activity db s < db_clock db - 60 * int (max 1 minutes)) (scans db))))"

definition getStalledActiveScans ::
  "nat \<Rightarrow> nat \<Rightarrow> string list \<Rightarrow> nat \<Rightarrow> scans_db \<Rightarrow> (string \<times> string \<times> int) list" where
  "getStalledActiveScans idleMinutes limit owned ownedIdleMinutes db =
     select_stalled db (\<lambda>s. s_status s \<in> set [''dispatched'', ''paused''] \<and> s_id s \<notin> set owned) idleMinutes limit @
     (if owned = [] then []
      else select_stalled db (\<lambda>s. s_status s = ''dispatched'' \<and> s_id s \<in> set owned) ownedIdleMinutes limit)"

section \<open>Out-of-band tokens\<close>

definition MAX_OOB_TOKENS_PER_EVENT :: nat where "MAX_OOB_TOKENS_PER_EVENT = 100"
definition MAX_OOB_TOKENS_PER_SCAN :: nat where "MAX_OOB_TOKENS_PER_SCAN = 2000"
definition OOB_FIELD_LIMIT :: nat where "OOB_FIELD_LIMIT = 256"
definition OOB_PENDING_DAYS :: int where "OOB_PENDING_DAYS = 7"

definition oob_text :: "json option \<Rightarrow> ustring" where
  "oob_text v = take OOB_FIELD_LIMIT (case v of Some (JStr t) \<Rightarrow> t | _ \<Rightarrow> [])"

definition valid_id_of :: "json option \<Rightarrow> string option" where
  "valid_id_of v = (case str_of v of Some i \<Rightarrow> if isValidId i then Some i else None | None \<Rightarrow> None)"

definition array_of :: "json option \<Rightarrow> json list option" where
  "array_of v = (case v of Some (JArr xs) \<Rightarrow> Some xs | _ \<Rightarrow> None)"

definition sanitizeOobPending :: "json option \<Rightarrow> (string \<times> ustring \<times> ustring) list" where
  "sanitizeOobPending data = (case (case data of None \<Rightarrow> None | Some d \<Rightarrow> array_of (jprop d ''tokens'')) of
     None \<Rightarrow> []
   | Some tokens \<Rightarrow> List.map_filter (\<lambda>t. case valid_id_of (jprop t ''uuid'') of
        None \<Rightarrow> None
      | Some token \<Rightarrow> Some (token, oob_text (jprop t ''endpoint''), oob_text (jprop t ''payload'')))
      (take MAX_OOB_TOKENS_PER_EVENT tokens))"

definition oob_key :: "oob_row \<Rightarrow> string \<times> string" where
  "oob_key r = (o_scan r, o_token r)"

definition insert_oob :: "string \<Rightarrow> (string \<times> ustring \<times> ustring) \<Rightarrow> scans_db \<Rightarrow> scans_db" where
  "insert_oob scanId t db =
     (if (scanId, fst t) \<in> oob_key ` set (oob_pending db) then db
      else db\<lparr>oob_pending := oob_pending db @
             [\<lparr>o_scan = scanId, o_token = fst t, o_endpoint = fst (snd t), o_payload = snd (snd t), o_created = db_clock db\<rparr>]\<rparr>)"

definition oob_count :: "scans_db \<Rightarrow> string \<Rightarrow> nat" where
  "oob_count db scanId = length (filter (\<lambda>r. o_scan r = scanId) (oob_pending db))"

definition storeOobPending :: "string \<Rightarrow> (string \<times> ustring \<times> ustring) list \<Rightarrow> scans_db \<Rightarrow> scans_db" where
  "storeOobPending scanId tokens db =
     (if tokens = [] \<or> \<not> scan_exists db scanId then db
      else fold (insert_oob scanId) (take (MAX_OOB_TOKENS_PER_SCAN - oob_count db scanId) tokens) db)"

definition insert_finding :: "finding_row \<Rightarrow> scans_db \<Rightarrow> scans_db" where
  "insert_finding f db =
     (if f_id f \<in> f_id ` set (findings db) then db else db\<lparr>findings := findings db @ [f]\<rparr>)"

definition oob_message :: "oob_row \<Rightarrow> ustring" where
  "oob_message r =
     units ''Out-of-Band (OOB) Interaction detected after the scan ended: the target application initiated an external connection in response to the payload sent to '' @
     (if o_endpoint r = [] then units ''an unknown endpoint'' else o_endpoint r) @ units '': '' @ o_payload r"

definition oob_finding :: "oob_row \<Rightarrow> finding_row" where
  "oob_finding r =
     \<lparr>f_id = ''oob-'' @ o_scan r @ ''-'' @ o_token r, f_scan = o_scan r, f_rule = units ''swazz/oob-interaction'',
      f_level = units ''error'', f_message = oob_message r,
      f_evidence = Some (units (''Late callback triggered with token/UUID: '' @ o_token r))\<rparr>"

definition recordLateOobCallback :: "string \<Rightarrow> string \<Rightarrow> scans_db \<Rightarrow> bool \<times> scans_db" where
  "recordLateOobCallback scanId token db =
     (let rows = filter (\<lambda>r. o_scan r = scanId \<and> o_token r = token) (oob_pending db)
      in if \<not> (list_ex (\<lambda>r. o_created r > db_clock db - OOB_PENDING_DAYS * 86400) rows \<and> scan_exists db scanId)
         then (False, db)
         else (True, (fold (\<lambda>r. insert_finding (oob_finding r)) rows db)
                \<lparr>oob_pending := filter (\<lambda>r. \<not> (o_scan r = scanId \<and> o_token r = token)) (oob_pending db)\<rparr>))"

end
