(* ===== verification/Scans_Events.thy ===== *)
theory Scans_Events
  imports Scans_Db
begin

text \<open>
  \<open>ScansRepository.processFindingsQueueMessages\<close>: what the events runners report do to the tables.
  A batch is turned into a list of statements, which D1 runs as one transaction. Events arrive at
  least once (a replay after a reconnect, a queue redelivery, the queue and its fallback both
  succeeding); a sequenced event's stored id makes it take effect once.
\<close>

section \<open>Events\<close>

record body =
  b_scan :: string
  b_type :: "json option"
  b_payload :: "json option"
  b_exec :: "json option"
  b_seq :: "json option"

definition u_includes :: "ustring \<Rightarrow> string \<Rightarrow> bool" where
  "u_includes t p = list_ex (\<lambda>i. u_starts (drop i t) p) [0..<Suc (length t)]"

definition is_text :: "json option \<Rightarrow> string \<Rightarrow> bool" where
  "is_text v s = (v = Some (JStr (units s)))"

text \<open>\<open>payload && payload.type === name\<close>.\<close>

definition payload_is :: "json option \<Rightarrow> string \<Rightarrow> bool" where
  "payload_is payload name = (case payload of None \<Rightarrow> False | Some p \<Rightarrow> is_text (jprop p ''type'') name)"

definition payload_data :: "json option \<Rightarrow> json option" where
  "payload_data payload = (case payload of None \<Rightarrow> None | Some p \<Rightarrow> jprop p ''data'')"

definition event_type :: "json option \<Rightarrow> ustring" where
  "event_type type = (case type of Some (JStr t) \<Rightarrow> if t = [] then units ''event'' else t | _ \<Rightarrow> units ''event'')"

datatype progress_kind = Progress | Fuzz_progress

fun kind_name :: "progress_kind \<Rightarrow> string" where
  "kind_name Progress = ''progress''"
| "kind_name Fuzz_progress = ''fuzz_progress''"

definition isCoalescedProgressEvent :: "ustring \<Rightarrow> json option \<Rightarrow> progress_kind option" where
  "isCoalescedProgressEvent eventType payload =
     (if eventType \<noteq> units ''event'' then None
      else if payload_is payload ''progress'' then Some Progress
      else if payload_is payload ''runner_log'' then
        (case (case payload_data payload of None \<Rightarrow> None | Some d \<Rightarrow> jprop d ''message'') of
           Some (JStr msg) \<Rightarrow>
             if u_starts msg ''[Fuzz Progress]'' \<or> (u_starts msg ''{'' \<and> u_includes msg ''\"totalRequests\"'')
             then Some Fuzz_progress else None
         | _ \<Rightarrow> None)
      else None)"

definition eventOrder :: "body \<Rightarrow> (string \<times> int) option" where
  "eventOrder b = (case (exec_of (b_exec b), seq_of (b_seq b)) of
     (Some e, Some n) \<Rightarrow> Some (e, n) | _ \<Rightarrow> None)"

fun supersedes :: "(string \<times> int) option \<Rightarrow> (string \<times> int) option \<Rightarrow> bool" where
  "supersedes (Some (e, n)) (Some (e', n')) = (e \<noteq> e' \<or> n' < n)"
| "supersedes _ _ = True"

definition storedEventId :: "body \<Rightarrow> string option" where
  "storedEventId b =
     (if isCoalescedProgressEvent (event_type (b_type b)) (b_payload b) \<noteq> None then None
      else if b_scan b = [] then None
      else case eventOrder b of None \<Rightarrow> None | Some (e, n) \<Rightarrow> Some (eventIdFor (b_scan b) e n))"

section \<open>Findings\<close>

definition MAX_FINDINGS_PER_EVENT :: nat where "MAX_FINDINGS_PER_EVENT = 1000"
definition FINDING_TEXT_LIMIT :: nat where "FINDING_TEXT_LIMIT = 64 * 1024"

definition finding_text :: "runtime \<Rightarrow> json option \<Rightarrow> nat \<Rightarrow> ustring" where
  "finding_text rt v limit =
     take limit (case v of Some (JStr t) \<Rightarrow> t | None \<Rightarrow> [] | Some JNull \<Rightarrow> [] | Some j \<Rightarrow> to_text rt j)"

definition finding_id :: "json option \<Rightarrow> string option" where
  "finding_id v = (case str_of v of
     Some i \<Rightarrow> if 8 \<le> length i \<and> length i \<le> 64 \<and> list_all id_char i then Some i else None
   | None \<Rightarrow> None)"

text \<open>The finding, and how many UUIDs it drew.\<close>

definition sanitizeRunnerFinding :: "runtime \<Rightarrow> string \<Rightarrow> string \<Rightarrow> json \<Rightarrow> (finding_row \<times> nat) option" where
  "sanitizeRunnerFinding rt uuid scanId raw =
     (if \<not> is_object raw then None
      else let ruleId = finding_text rt (jprop raw ''ruleId'') 256
           in if ruleId = [] then None
              else let evidence = jprop raw ''evidence'';
                       (i, drawn) = (case finding_id (jprop raw ''id'') of Some i \<Rightarrow> (i, 0) | None \<Rightarrow> (uuid, 1))
                   in Some (\<lparr>f_id = i, f_scan = scanId, f_rule = ruleId,
                             f_level = finding_text rt (jprop raw ''level'') 32,
                             f_message = finding_text rt (jprop raw ''message'') FINDING_TEXT_LIMIT,
                             f_evidence = (if evidence = None \<or> evidence = Some JNull \<or> evidence = Some (JStr []) then None
                                           else Some (finding_text rt evidence FINDING_TEXT_LIMIT))\<rparr>, drawn))"

section \<open>Statements\<close>

datatype scan_stmt =
    Insert_event string string ustring json
  | Upsert_progress string string ustring json
  | Complete_scan string json
  | Set_checkpoint string json
  | Fail_scan string ustring
  | Insert_finding finding_row

text \<open>\<open>json_extract(payload, '$.k')\<close>, SQL NULL for a missing or null field.\<close>

definition sql_extract :: "json \<Rightarrow> string \<Rightarrow> json option" where
  "sql_extract v k = (case jprop v k of Some JNull \<Rightarrow> None | x \<Rightarrow> x)"

text \<open>SQLite orders numbers before texts; a composite value compares as no less here.\<close>

fun units_less :: "ustring \<Rightarrow> ustring \<Rightarrow> bool" where
  "units_less _ [] = False"
| "units_less [] (_ # _) = True"
| "units_less (a # as) (b # bs) = (a < b \<or> (a = b \<and> units_less as bs))"

fun sql_less :: "json \<Rightarrow> json \<Rightarrow> bool" where
  "sql_less (JNum a) (JNum b) = (a < b)"
| "sql_less (JNum a) (JStr b) = True"
| "sql_less (JStr a) (JStr b) = units_less a b"
| "sql_less _ _ = False"

definition replaces :: "json \<Rightarrow> json \<Rightarrow> bool" where
  "replaces new old = (case (sql_extract new ''_seq'', sql_extract old ''_seq'') of
     (Some n, Some m) \<Rightarrow> sql_extract new ''_exec'' \<noteq> sql_extract old ''_exec'' \<or> sql_less m n
   | _ \<Rightarrow> True)"

definition update_event :: "string \<Rightarrow> ustring \<Rightarrow> json \<Rightarrow> scans_db \<Rightarrow> scans_db" where
  "update_event i type payload db =
     db\<lparr>scan_events := map (\<lambda>e. if e_id e = i \<and> replaces payload (e_payload e)
        then e\<lparr>e_type := type, e_payload := payload, e_created := db_clock db\<rparr> else e) (scan_events db)\<rparr>"

definition add_event :: "string \<Rightarrow> string \<Rightarrow> ustring \<Rightarrow> json \<Rightarrow> scans_db \<Rightarrow> scans_db" where
  "add_event i scanId type payload db =
     db\<lparr>scan_events := scan_events db @
        [\<lparr>e_id = i, e_scan = scanId, e_type = type, e_payload = payload, e_created = db_clock db\<rparr>]\<rparr>"

definition event_stored :: "scans_db \<Rightarrow> string \<Rightarrow> bool" where
  "event_stored db i = list_ex (\<lambda>e. e_id e = i) (scan_events db)"

text \<open>A statement gives the changes the two terminal updates report, and the tables.\<close>

fun run_stmt :: "scan_stmt \<Rightarrow> scans_db \<Rightarrow> nat \<times> scans_db" where
  "run_stmt (Insert_event i scanId type payload) db =
     (0, if \<not> scan_exists db scanId \<or> event_stored db i then db else add_event i scanId type payload db)"
| "run_stmt (Upsert_progress i scanId type payload) db =
     (0, if \<not> scan_exists db scanId then db
         else if event_stored db i then update_event i type payload db
         else add_event i scanId type payload db)"
| "run_stmt (Complete_scan scanId stats) db =
     update_scans (\<lambda>s. s_id s = scanId \<and> is_active s)
       (\<lambda>s. s\<lparr>s_status := ''completed'', s_completed := Some (db_clock db), s_summary := Some stats\<rparr>) db"
| "run_stmt (Set_checkpoint scanId data) db =
     (0, snd (update_scans (\<lambda>s. s_id s = scanId) (\<lambda>s. s\<lparr>s_checkpoint := Some data\<rparr>) db))"
| "run_stmt (Fail_scan scanId reason) db =
     update_scans (\<lambda>s. s_id s = scanId \<and> is_active s)
       (\<lambda>s. s\<lparr>s_status := ''failed'', s_completed := Some (db_clock db), s_failure := Some reason\<rparr>) db"
| "run_stmt (Insert_finding f) db = (0, if \<not> scan_exists db (f_scan f) then db else insert_finding f db)"

fun run_stmts :: "scan_stmt list \<Rightarrow> scans_db \<Rightarrow> nat list \<times> scans_db" where
  "run_stmts [] db = ([], db)"
| "run_stmts (q # qs) db =
     (let (n, db1) = run_stmt q db; (ns, db2) = run_stmts qs db1 in (n # ns, db2))"

section \<open>Batches\<close>

text \<open>What the loop over a batch builds. \<open>a_bad\<close>: a statement was bound to \<open>undefined\<close>, which throws.\<close>

record batch_acc =
  a_stmts :: "scan_stmt list"
  a_terminal :: "(nat \<times> string \<times> (string \<times> string) option) list"
  a_seen :: "string list"
  a_coalesced :: "(string \<times> nat \<times> (string \<times> int) option) list"
  a_uuids :: nat
  a_bad :: bool

definition push :: "scan_stmt \<Rightarrow> batch_acc \<Rightarrow> batch_acc" where
  "push q acc = acc\<lparr>a_stmts := a_stmts acc @ [q]\<rparr>"

definition push_terminal :: "scan_stmt \<Rightarrow> string \<Rightarrow> string \<Rightarrow> string \<Rightarrow> batch_acc \<Rightarrow> batch_acc" where
  "push_terminal q scanId projectId eventType acc =
     push q (acc\<lparr>a_terminal := a_terminal acc @
       [(length (a_stmts acc), scanId, if projectId = [] then None else Some (projectId, eventType))]\<rparr>)"

definition coalesced_payload :: "progress_kind \<Rightarrow> json option \<Rightarrow> (string \<times> int) option \<Rightarrow> json" where
  "coalesced_payload kind payload order =
     (let base = (if kind = Progress then JObj [(units ''type'', JStr (units ''progress''))]
                  else case payload of Some p \<Rightarrow> p | None \<Rightarrow> JNull)
      in case order of None \<Rightarrow> base
         | Some (e, n) \<Rightarrow> JObj (set_prop ''_seq'' (JNum (of_int n)) (set_prop ''_exec'' (JStr (units e)) (entries base))))"

definition push_progress :: "progress_kind \<Rightarrow> body \<Rightarrow> batch_acc \<Rightarrow> batch_acc" where
  "push_progress kind b acc =
     (let dedupId = b_scan b @ '':'' @ kind_name kind;
          order = eventOrder b;
          q = Upsert_progress dedupId (b_scan b) (event_type (b_type b)) (coalesced_payload kind (b_payload b) order)
      in case map_of (a_coalesced acc) dedupId of
           None \<Rightarrow> push q (acc\<lparr>a_coalesced := jset dedupId (length (a_stmts acc), order) (a_coalesced acc)\<rparr>)
         | Some (index, kept) \<Rightarrow>
             if \<not> supersedes order kept then acc
             else acc\<lparr>a_stmts := (a_stmts acc)[index := q], a_coalesced := jset dedupId (index, order) (a_coalesced acc)\<rparr>)"

definition stored_payload :: "ustring \<Rightarrow> json option \<Rightarrow> json" where
  "stored_payload eventType payload =
     (if payload_is payload ''oob_pending'' then
        JObj [(units ''type'', JStr (units ''oob_pending'')),
              (units ''data'', JObj [(units ''count'', JNum (of_nat (length (sanitizeOobPending (payload_data payload)))))])]
      else if eventType = units ''event'' \<and> (payload_is payload ''result'' \<or> payload_is payload ''checkpoint'' \<or> payload_is payload ''complete'')
      then JObj [(units ''type'', the (jprop (the payload) ''type''))]
      else case payload of None \<Rightarrow> JNull | Some p \<Rightarrow> p)"

definition push_outcome :: "runtime \<Rightarrow> body \<Rightarrow> string \<Rightarrow> batch_acc \<Rightarrow> batch_acc" where
  "push_outcome rt b projectId acc =
     (let p = b_payload b
      in if payload_is p ''complete'' then
           push_terminal (Complete_scan (b_scan b)
             (if prop_truthy (payload_data p) then the (payload_data p) else JObj [])) (b_scan b) projectId ''scan.completed'' acc
         else if payload_is p ''checkpoint'' then
           (case payload_data p of None \<Rightarrow> acc\<lparr>a_bad := True\<rparr> | Some d \<Rightarrow> push (Set_checkpoint (b_scan b) d) acc)
         else if is_text (b_type b) ''error'' \<or> payload_is p ''error'' then
           push_terminal (Fail_scan (b_scan b) (let reason = runnerErrorText rt p in if reason = [] then UNKNOWN_FAILURE else reason))
             (b_scan b) projectId ''scan.failed'' acc
         else acc)"

fun push_findings :: "runtime \<Rightarrow> scans_db \<Rightarrow> string \<Rightarrow> json list \<Rightarrow> batch_acc \<Rightarrow> batch_acc" where
  "push_findings rt db scanId [] acc = acc"
| "push_findings rt db scanId (raw # raws) acc =
     (case sanitizeRunnerFinding rt (uuid_of db (next_uuid db + a_uuids acc)) scanId raw of
        None \<Rightarrow> push_findings rt db scanId raws acc
      | Some (f, drawn) \<Rightarrow>
          push_findings rt db scanId raws (push (Insert_finding f) (acc\<lparr>a_uuids := a_uuids acc + drawn\<rparr>)))"

definition reported_findings :: "json option \<Rightarrow> json list" where
  "reported_findings payload =
     (if payload_is payload ''result'' then
        (case (case payload_data payload of None \<Rightarrow> None | Some d \<Rightarrow> array_of (jprop d ''analyzerFindings'')) of
           Some raws \<Rightarrow> take MAX_FINDINGS_PER_EVENT raws | None \<Rightarrow> [])
      else [])"

text \<open>One message of the batch, whose stored id is not known yet.\<close>

definition push_message :: "runtime \<Rightarrow> scans_db \<Rightarrow> body \<Rightarrow> batch_acc \<Rightarrow> batch_acc" where
  "push_message rt db b acc =
     (case getScan db (b_scan b) of
        None \<Rightarrow> acc
      | Some scan \<Rightarrow>
          let eventType = event_type (b_type b)
          in case isCoalescedProgressEvent eventType (b_payload b) of
               Some kind \<Rightarrow> push_progress kind b acc
             | None \<Rightarrow>
                 let (i, acc1) = (case storedEventId b of
                       Some i \<Rightarrow> (i, acc)
                     | None \<Rightarrow> (uuid_of db (next_uuid db + a_uuids acc), acc\<lparr>a_uuids := Suc (a_uuids acc)\<rparr>));
                     acc2 = push (Insert_event i (b_scan b) eventType (stored_payload eventType (b_payload b))) acc1
                 in push_findings rt db (b_scan b) (reported_findings (b_payload b))
                      (push_outcome rt b (s_project scan) acc2))"

definition batch_step :: "runtime \<Rightarrow> scans_db \<Rightarrow> batch_acc \<Rightarrow> body \<Rightarrow> batch_acc" where
  "batch_step rt db acc b =
     (case storedEventId b of
        Some i \<Rightarrow>
          if event_stored db i \<or> i \<in> set (a_seen acc) then acc
          else push_message rt db b (acc\<lparr>a_seen := sadd i (a_seen acc)\<rparr>)
      | None \<Rightarrow> push_message rt db b acc)"

definition empty_acc :: batch_acc where
  "empty_acc = \<lparr>a_stmts = [], a_terminal = [], a_seen = [], a_coalesced = [], a_uuids = 0, a_bad = False\<rparr>"

definition prepare :: "runtime \<Rightarrow> scans_db \<Rightarrow> body list \<Rightarrow> batch_acc" where
  "prepare rt db bodies = foldl (batch_step rt db) empty_acc bodies"

definition ended_updates :: "nat list \<Rightarrow> (nat \<times> string \<times> (string \<times> string) option) list \<Rightarrow>
    (string \<times> (string \<times> string) option) list" where
  "ended_updates changes terminal = map snd (filter (\<lambda>(i, _). i < length changes \<and> changes ! i \<noteq> 0) terminal)"

definition fire_all :: "(string \<times> (string \<times> string) option) list \<Rightarrow> scans_db \<Rightarrow> scans_db" where
  "fire_all ended db = fold (\<lambda>(scanId, hook) d. case hook of None \<Rightarrow> d | Some (p, ev) \<Rightarrow> fire p ev scanId d) ended db"

text \<open>The scans the batch ended, and the tables it leaves.\<close>

definition processFindingsQueueMessages :: "runtime \<Rightarrow> body list \<Rightarrow> (scans_db, string list) comp" where
  "processFindingsQueueMessages rt bodies db =
     (let acc = prepare rt db bodies
      in if a_bad acc then (Inl TypeError, db)
         else let (changes, db1) = run_stmts (a_stmts acc) (db\<lparr>next_uuid := next_uuid db + a_uuids acc\<rparr>);
                  ended = ended_updates changes (a_terminal acc)
              in (Inr (map fst ended), fire_all ended db1))"

section \<open>Reading a scan's log\<close>

text \<open>\<open>json_extract\<close> of a text that is no JSON fails the query (\<open>None\<close>).\<close>

definition extracted_type :: "runtime \<Rightarrow> json \<Rightarrow> json option option" where
  "extracted_type rt payload = (case payload of
     JStr raw \<Rightarrow> (case parse_json rt raw of None \<Rightarrow> None | Some v \<Rightarrow> Some (sql_extract v ''type''))
   | v \<Rightarrow> Some (sql_extract v ''type''))"

definition log_row :: "runtime \<Rightarrow> string list \<Rightarrow> event_row \<Rightarrow> bool option" where
  "log_row rt names e =
     (if e_type e = units ''error'' then Some True
      else if e_type e \<noteq> units ''event'' then Some False
      else map_option (\<lambda>t. list_ex (is_text t) names) (extracted_type rt (e_payload e)))"

fun select_rows :: "('a \<Rightarrow> bool option) \<Rightarrow> 'a list \<Rightarrow> 'a list option" where
  "select_rows f [] = Some []"
| "select_rows f (x # xs) = (case (f x, select_rows f xs) of
     (Some True, Some ys) \<Rightarrow> Some (x # ys) | (Some False, Some ys) \<Rightarrow> Some ys | _ \<Rightarrow> None)"

definition getRunnerLogs :: "runtime \<Rightarrow> scans_db \<Rightarrow> string \<Rightarrow> event_row list option" where
  "getRunnerLogs rt db scanId =
     map_option (sort_key e_created)
       (select_rows (log_row rt [''error'', ''runner_log'']) (filter (\<lambda>e. e_scan e = scanId) (scan_events db)))"

text \<open>
  \<open>getFailureReasons\<close> of one scan: its recorded reason, else the newest stored error, which is then
  kept on the scan. \<open>None\<close>: the query failed.
\<close>

definition newest_error :: "runtime \<Rightarrow> event_row list \<Rightarrow> ustring option" where
  "newest_error rt es = find (\<lambda>t. t \<noteq> []) (map (\<lambda>e. runnerErrorText rt (Some (e_payload e))) (rev (sort_key e_created es)))"

definition getFailureReason :: "runtime \<Rightarrow> string \<Rightarrow> scans_db \<Rightarrow> ustring option option \<times> scans_db" where
  "getFailureReason rt scanId db = (case getScan db scanId of
     None \<Rightarrow> (Some None, db)
   | Some s \<Rightarrow>
       let text = (case s_failure s of None \<Rightarrow> [] | Some r \<Rightarrow> shown rt r)
       in if text \<noteq> [] then (Some (Some text), db)
          else case select_rows (log_row rt [''error'']) (filter (\<lambda>e. e_scan e = scanId) (scan_events db)) of
                 None \<Rightarrow> (None, db)
               | Some es \<Rightarrow>
                   let found = newest_error rt es
                   in (Some found, snd (update_scans (\<lambda>s. s_id s = scanId \<and> s_failure s = None)
                         (\<lambda>s. s\<lparr>s_failure := Some (case found of None \<Rightarrow> UNKNOWN_FAILURE | Some t \<Rightarrow> t)\<rparr>) db)))"

end
