(* ===== verification/Scans_Facts.thy ===== *)
theory Scans_Facts
  imports Scans_Events
begin

text \<open>
  What a batch of events does to the tables: it changes no scan that has ended, ends a scan at
  most once, leaves the scans of other runs alone, and does nothing when it is processed again.
\<close>

section \<open>Scans keep their end\<close>

definition outcome :: "scan_row \<Rightarrow> string \<times> int option \<times> ustring option \<times> json option" where
  "outcome s = (s_status s, s_completed s, s_failure s, s_summary s)"

definition row_step :: "scan_row \<Rightarrow> scan_row \<Rightarrow> bool" where
  "row_step s s' = (s_id s' = s_id s \<and> s_project s' = s_project s \<and> s_user s' = s_user s \<and>
     (s_status s' = s_status s \<or> s_status s' = ''completed'' \<or> s_status s' = ''failed'') \<and>
     (\<not> is_active s \<longrightarrow> outcome s' = outcome s))"

definition rows_step :: "scans_db \<Rightarrow> scans_db \<Rightarrow> bool" where
  "rows_step db db' = list_all2 row_step (scans db) (scans db')"

lemma row_step_refl [simp]: "row_step s s"
  by (simp add: row_step_def)

lemma ended_names: "\<not> is_active (s\<lparr>s_status := ''completed''\<rparr>)" "\<not> is_active (s\<lparr>s_status := ''failed''\<rparr>)"
  by (simp_all add: is_active_def ACTIVE_STATUSES_def)

lemma row_step_trans: "row_step a b \<Longrightarrow> row_step b c \<Longrightarrow> row_step a c"
proof -
  assume ab: "row_step a b" and bc: "row_step b c"
  have "s_status c = s_status a \<or> s_status c = ''completed'' \<or> s_status c = ''failed''"
    using ab bc by (auto simp: row_step_def)
  moreover have "outcome c = outcome a" if "\<not> is_active a"
  proof -
    from that ab have "outcome b = outcome a" by (simp add: row_step_def)
    moreover from this that have "\<not> is_active b" by (simp add: outcome_def is_active_def)
    ultimately show ?thesis using bc by (simp add: row_step_def)
  qed
  ultimately show ?thesis using ab bc by (simp add: row_step_def)
qed

lemma rows_step_refl: "rows_step db db"
  by (simp add: rows_step_def list_all2_refl)

lemma rows_step_same: "scans db' = scans db \<Longrightarrow> rows_step db db'"
  by (simp add: rows_step_def list_all2_refl)

lemma rows_step_trans: "rows_step a b \<Longrightarrow> rows_step b c \<Longrightarrow> rows_step a c"
  unfolding rows_step_def by (rule list_all2_trans) (auto intro: row_step_trans)

lemma rows_step_update:
  "(\<And>s. P s \<Longrightarrow> row_step s (f s)) \<Longrightarrow> rows_step db (snd (update_scans P f db))"
  by (simp add: rows_step_def update_scans_def list_all2_map2 list_all2_same)

lemma same_scans_stmt [simp]:
  "scans (update_event i t p db) = scans db" "scans (add_event i sc t p db) = scans db"
  "scans (insert_finding f db) = scans db"
  by (simp_all add: update_event_def add_event_def insert_finding_def)

lemma run_stmt_rows: "rows_step db (snd (run_stmt q db))"
proof (cases q)
  case (Complete_scan scanId stats)
  then show ?thesis by (auto intro!: rows_step_update simp: row_step_def)
next
  case (Fail_scan scanId reason)
  then show ?thesis by (auto intro!: rows_step_update simp: row_step_def)
next
  case (Set_checkpoint scanId data)
  then show ?thesis by (auto intro!: rows_step_update simp: row_step_def outcome_def)
qed (auto intro: rows_step_same)

lemma run_stmts_rows: "rows_step db (snd (run_stmts qs db))"
proof (induction qs arbitrary: db)
  case (Cons q qs)
  have "rows_step (snd (run_stmt q db)) (snd (run_stmts qs (snd (run_stmt q db))))" by (rule Cons.IH)
  with run_stmt_rows [of db q] show ?case
    by (auto simp: split_beta Let_def intro: rows_step_trans)
qed (simp add: rows_step_refl)

lemma scans_fire_all [simp]: "scans (fire_all ended db) = scans db" "scan_events (fire_all ended db) = scan_events db"
  "findings (fire_all ended db) = findings db"
proof -
  have "scans (fire_all ended db) = scans db \<and> scan_events (fire_all ended db) = scan_events db \<and> findings (fire_all ended db) = findings db"
    by (induction ended arbitrary: db) (auto simp: fire_all_def fire_def split: option.splits prod.splits)
  then show "scans (fire_all ended db) = scans db" "scan_events (fire_all ended db) = scan_events db"
    "findings (fire_all ended db) = findings db" by auto
qed

lemma rows_step_cong: "scans a = scans a' \<Longrightarrow> scans b = scans b' \<Longrightarrow> rows_step a b = rows_step a' b'"
  by (simp add: rows_step_def)

lemma process_rows: "rows_step db (snd (processFindingsQueueMessages rt bodies db))"
proof -
  let ?db0 = "db\<lparr>next_uuid := next_uuid db + a_uuids (prepare rt db bodies)\<rparr>"
  have "rows_step ?db0 (snd (run_stmts (a_stmts (prepare rt db bodies)) ?db0))" by (rule run_stmts_rows)
  then show ?thesis
    by (simp add: processFindingsQueueMessages_def Let_def split_beta rows_step_def list_all2_refl)
qed

lemma rows_step_ids: "rows_step db db' \<Longrightarrow> map s_id (scans db') = map s_id (scans db)"
  unfolding rows_step_def by (induction rule: list_all2_induct) (auto simp: row_step_def)

lemma scan_exists_ids: "scan_exists db i \<longleftrightarrow> i \<in> set (map s_id (scans db))"
  by (auto simp: scan_exists_def list_ex_iff)

lemma rows_step_exists: "rows_step db db' \<Longrightarrow> scan_exists db' i = scan_exists db i"
  by (simp add: scan_exists_ids rows_step_ids)

lemma getScan_exists: "getScan db i = None \<longleftrightarrow> \<not> scan_exists db i"
  by (auto simp: getScan_def scan_exists_def list_ex_iff find_None_iff)

lemma getScan_id: "getScan db i = Some s \<Longrightarrow> s_id s = i \<and> s \<in> set (scans db)"
  unfolding getScan_def by (auto simp: find_Some_iff)

lemma rows_step_getScan:
  assumes "rows_step db db'" "getScan db i = Some s"
  shows "\<exists>s'. getScan db' i = Some s' \<and> row_step s s'"
proof -
  have "list_all2 row_step xs ys \<Longrightarrow> find (\<lambda>s. s_id s = i) xs = Some s \<Longrightarrow>
        \<exists>s'. find (\<lambda>s. s_id s = i) ys = Some s' \<and> row_step s s'" for xs ys
    by (induction rule: list_all2_induct) (auto simp: row_step_def split: if_splits)
  with assms show ?thesis by (auto simp: rows_step_def getScan_def)
qed

text \<open>The first terminal event of a scan wins.\<close>

lemma process_keeps_ended:
  assumes "getScan db i = Some s" "\<not> is_active s"
  shows "\<exists>s'. getScan (snd (processFindingsQueueMessages rt bodies db)) i = Some s' \<and> outcome s' = outcome s"
  using rows_step_getScan [OF process_rows assms(1)] assms(2) by (auto simp: row_step_def)

section \<open>Stored events\<close>

lemma event_stored_ids: "event_stored db i \<longleftrightarrow> i \<in> set (map e_id (scan_events db))"
  by (auto simp: event_stored_def list_ex_iff)

lemma update_event_ids: "map e_id (scan_events (update_event i t p db)) = map e_id (scan_events db)"
  by (simp add: update_event_def)

lemma event_stored_simps [simp]:
  "event_stored (update_event i t p db) j = event_stored db j"
  "event_stored (add_event i sc t p db) j = (event_stored db j \<or> i = j)"
  "event_stored (insert_finding f db) j = event_stored db j"
  "event_stored (snd (update_scans P g db)) j = event_stored db j"
  unfolding event_stored_ids update_event_ids
  by (auto simp: add_event_def insert_finding_def update_scans_def)

lemma scan_exists_simps [simp]:
  "scan_exists (update_event i t p db) j = scan_exists db j"
  "scan_exists (add_event i sc t p db) j = scan_exists db j"
  "scan_exists (insert_finding f db) j = scan_exists db j"
  by (simp_all add: scan_exists_def)

lemma run_stmt_stored: "event_stored db i \<Longrightarrow> event_stored (snd (run_stmt q db)) i"
  by (cases q) auto

lemma run_stmt_exists: "scan_exists (snd (run_stmt q db)) i = scan_exists db i"
  by (rule rows_step_exists [OF run_stmt_rows])

lemma run_stmts_stored: "event_stored db i \<Longrightarrow> event_stored (snd (run_stmts qs db)) i"
  by (induction qs arbitrary: db) (auto simp: split_beta Let_def run_stmt_stored)

lemma run_stmts_inserts:
  "Insert_event i scanId t p \<in> set qs \<Longrightarrow> scan_exists db scanId \<Longrightarrow> event_stored (snd (run_stmts qs db)) i"
proof (induction qs arbitrary: db)
  case (Cons q qs)
  show ?case
  proof (cases "q = Insert_event i scanId t p")
    case True
    with Cons.prems have "event_stored (snd (run_stmt q db)) i" by (auto simp: Let_def)
    then show ?thesis by (simp add: split_beta Let_def run_stmts_stored)
  next
    case False
    with Cons show ?thesis by (simp add: split_beta Let_def run_stmt_exists)
  qed
qed simp

section \<open>Processed again\<close>

text \<open>An event that is stored under an id of its own: sequenced, and no coalesced progress.\<close>

definition sequenced :: "body \<Rightarrow> bool" where
  "sequenced b = (storedEventId b \<noteq> None)"

definition accounted :: "scans_db \<Rightarrow> batch_acc \<Rightarrow> body \<Rightarrow> bool" where
  "accounted db acc b = (\<forall>i. storedEventId b = Some i \<longrightarrow>
     \<not> scan_exists db (b_scan b) \<or> event_stored db i \<or>
     (\<exists>scanId t p. Insert_event i scanId t p \<in> set (a_stmts acc) \<and> scan_exists db scanId))"

lemma push_findings_stmts: "set (a_stmts acc) \<subseteq> set (a_stmts (push_findings rt db sc raws acc))"
proof (induction raws arbitrary: acc)
  case (Cons raw raws)
  show ?case
  proof (cases "sanitizeRunnerFinding rt (uuid_of db (next_uuid db + a_uuids acc)) sc raw")
    case (Some fd)
    then obtain f drawn where fd: "sanitizeRunnerFinding rt (uuid_of db (next_uuid db + a_uuids acc)) sc raw = Some (f, drawn)"
      by (cases fd) auto
    have "set (a_stmts acc) \<subseteq> set (a_stmts (push (Insert_finding f) (acc\<lparr>a_uuids := a_uuids acc + drawn\<rparr>)))"
      by (auto simp: push_def)
    with Cons.IH [of "push (Insert_finding f) (acc\<lparr>a_uuids := a_uuids acc + drawn\<rparr>)"] fd show ?thesis by simp
  qed (use Cons.IH in simp)
qed simp

lemma push_findings_others [simp]:
  "a_seen (push_findings rt db sc raws acc) = a_seen acc"
  "a_terminal (push_findings rt db sc raws acc) = a_terminal acc"
  by (induction raws arbitrary: acc) (auto simp: push_def split: option.splits)

lemma push_outcome_stmts: "set (a_stmts acc) \<subseteq> set (a_stmts (push_outcome rt b p acc))"
  by (auto simp: push_outcome_def Let_def push_terminal_def push_def split: option.splits)

lemma push_outcome_seen [simp]: "a_seen (push_outcome rt b p acc) = a_seen acc"
  by (auto simp: push_outcome_def Let_def push_terminal_def push_def split: option.splits)

lemma stored_not_progress:
  "storedEventId b = Some i \<Longrightarrow> isCoalescedProgressEvent (event_type (b_type b)) (b_payload b) = None"
  by (auto simp: storedEventId_def split: if_splits)

lemma push_message_sequenced:
  assumes "storedEventId b = Some i"
  shows "set (a_stmts acc) \<subseteq> set (a_stmts (push_message rt db b acc))"
    and "a_seen (push_message rt db b acc) = a_seen acc"
    and "scan_exists db (b_scan b) \<Longrightarrow>
         \<exists>t p. Insert_event i (b_scan b) t p \<in> set (a_stmts (push_message rt db b acc))"
proof -
  define t where "t = event_type (b_type b)"
  define acc2 where "acc2 = push (Insert_event i (b_scan b) t (stored_payload t (b_payload b))) acc"
  have m: "push_message rt db b acc = (case getScan db (b_scan b) of None \<Rightarrow> acc
      | Some scan \<Rightarrow> push_findings rt db (b_scan b) (reported_findings (b_payload b)) (push_outcome rt b (s_project scan) acc2))"
    using assms stored_not_progress [OF assms]
    by (simp add: push_message_def acc2_def t_def Let_def split: option.splits)
  have sub: "set (a_stmts acc2) \<subseteq> set (a_stmts (push_findings rt db (b_scan b) (reported_findings (b_payload b)) (push_outcome rt b p acc2)))" for p
    using push_outcome_stmts push_findings_stmts by (rule order_trans)
  have own: "Insert_event i (b_scan b) t (stored_payload t (b_payload b)) \<in> set (a_stmts acc2)"
    and old: "set (a_stmts acc) \<subseteq> set (a_stmts acc2)" by (auto simp: acc2_def push_def)
  show "set (a_stmts acc) \<subseteq> set (a_stmts (push_message rt db b acc))"
    unfolding m using order_trans [OF old sub] by (auto split: option.split)
  show "a_seen (push_message rt db b acc) = a_seen acc"
    unfolding m by (auto simp: acc2_def push_def split: option.split)
  show "\<exists>t p. Insert_event i (b_scan b) t p \<in> set (a_stmts (push_message rt db b acc))" if "scan_exists db (b_scan b)"
  proof -
    from that obtain scan where "getScan db (b_scan b) = Some scan" using getScan_exists by (metis not_None_eq)
    with m own sub [of "s_project scan"] show ?thesis by auto
  qed
qed

lemma stored_id_inj:
  assumes "storedEventId b = Some i" "storedEventId b' = Some i"
  shows "b_scan b = b_scan b'"
proof -
  have parts: "\<exists>e n. i = eventIdFor (b_scan x) e n \<and> isValidId e \<and> 1 \<le> n" if "storedEventId x = Some i" for x
  proof -
    from that obtain e n where o: "eventOrder x = Some (e, n)" and i: "i = eventIdFor (b_scan x) e n"
      by (auto simp: storedEventId_def split: if_splits option.splits)
    from o have "exec_of (b_exec x) = Some e" "seq_of (b_seq x) = Some n"
      by (auto simp: eventOrder_def split: option.splits)
    with i show ?thesis using exec_of_valid seq_of_bounds by blast
  qed
  from parts [OF assms(1)] parts [OF assms(2)] obtain e n e' n' where
    "eventIdFor (b_scan b) e n = eventIdFor (b_scan b') e' n'" "isValidId e" "isValidId e'" "1 \<le> n" "1 \<le> n'"
    by metis
  then show ?thesis using event_id_inj [of "b_scan b" e n "b_scan b'" e' n'] by simp
qed

lemma accounted_mono:
  "set (a_stmts acc) \<subseteq> set (a_stmts acc') \<Longrightarrow> accounted db acc b \<Longrightarrow> accounted db acc' b"
  unfolding accounted_def by blast

definition all_seen_accounted :: "scans_db \<Rightarrow> batch_acc \<Rightarrow> bool" where
  "all_seen_accounted db acc = (\<forall>i \<in> set (a_seen acc). \<exists>b. storedEventId b = Some i \<and> accounted db acc b)"

lemma batch_step_sequenced:
  assumes "sequenced b" "all_seen_accounted db acc"
  shows "set (a_stmts acc) \<subseteq> set (a_stmts (batch_step rt db acc b))"
    and "accounted db (batch_step rt db acc b) b"
    and "all_seen_accounted db (batch_step rt db acc b)"
proof -
  obtain i where i: "storedEventId b = Some i" using assms(1) by (auto simp: sequenced_def)
  let ?acc' = "batch_step rt db acc b"
  have "set (a_stmts acc) \<subseteq> set (a_stmts ?acc') \<and> accounted db ?acc' b \<and> all_seen_accounted db ?acc'"
  proof (cases "event_stored db i \<or> i \<in> set (a_seen acc)")
    case True
    then have same: "?acc' = acc" using i by (simp add: batch_step_def)
    have "accounted db acc b"
    proof (cases "event_stored db i")
      case False
      with True assms(2) obtain b0 where b0: "storedEventId b0 = Some i" "accounted db acc b0"
        by (auto simp: all_seen_accounted_def)
      moreover have "b_scan b0 = b_scan b" by (rule stored_id_inj [OF b0(1) i])
      ultimately show ?thesis using i by (auto simp: accounted_def)
    qed (simp add: accounted_def i)
    with same assms(2) show ?thesis by simp
  next
    case False
    let ?acc1 = "acc\<lparr>a_seen := sadd i (a_seen acc)\<rparr>"
    have acc': "?acc' = push_message rt db b ?acc1" using False i by (simp add: batch_step_def)
    note pm = push_message_sequenced [OF i, where acc = ?acc1 and rt = rt and db = db, folded acc']
    have sub: "set (a_stmts acc) \<subseteq> set (a_stmts ?acc')" using pm(1) by simp
    have own: "accounted db ?acc' b" using pm(3) i by (auto simp: accounted_def)
    have "\<exists>b. storedEventId b = Some j \<and> accounted db ?acc' b" if "j \<in> set (a_seen ?acc')" for j
    proof (cases "j = i")
      case True
      with i own show ?thesis by blast
    next
      case False
      with that have "j \<in> set (a_seen acc)" by (simp add: pm(2))
      with assms(2) accounted_mono [OF sub] show ?thesis unfolding all_seen_accounted_def by blast
    qed
    then have "all_seen_accounted db ?acc'" by (simp add: all_seen_accounted_def)
    with sub own show ?thesis by blast
  qed
  then show "set (a_stmts acc) \<subseteq> set (a_stmts ?acc')" "accounted db ?acc' b" "all_seen_accounted db ?acc'" by auto
qed

lemma prepare_accounts:
  assumes "\<forall>b \<in> set bodies. sequenced b" "all_seen_accounted db acc"
  shows "set (a_stmts acc) \<subseteq> set (a_stmts (foldl (batch_step rt db) acc bodies)) \<and>
         (\<forall>b \<in> set bodies. accounted db (foldl (batch_step rt db) acc bodies) b)"
  using assms
proof (induction bodies arbitrary: acc)
  case (Cons b bodies)
  let ?acc1 = "batch_step rt db acc b"
  from Cons.prems have "sequenced b" by simp
  note step = batch_step_sequenced [OF this Cons.prems(2), of rt]
  from Cons.IH [of ?acc1] Cons.prems(1) step(3)
  have rest: "set (a_stmts ?acc1) \<subseteq> set (a_stmts (foldl (batch_step rt db) ?acc1 bodies))"
    "\<forall>x \<in> set bodies. accounted db (foldl (batch_step rt db) ?acc1 bodies) x" by auto
  with step(1,2) accounted_mono [OF rest(1) step(2)] show ?case by auto
qed simp

definition idle_acc :: "batch_acc \<Rightarrow> bool" where
  "idle_acc acc = (a_stmts acc = [] \<and> a_terminal acc = [] \<and> a_uuids acc = 0 \<and> \<not> a_bad acc)"

lemma replay_is_idle:
  assumes "\<forall>b \<in> set bodies. \<exists>i. storedEventId b = Some i \<and> (event_stored db i \<or> \<not> scan_exists db (b_scan b))" "idle_acc acc"
  shows "idle_acc (foldl (batch_step rt db) acc bodies)"
  using assms
proof (induction bodies arbitrary: acc)
  case (Cons b bodies)
  from Cons.prems obtain i where i: "storedEventId b = Some i" "event_stored db i \<or> \<not> scan_exists db (b_scan b)" by auto
  have "push_message rt db b acc = acc" if "\<not> scan_exists db (b_scan b)" for acc
    using that by (simp add: push_message_def flip: getScan_exists)
  with i Cons.prems(2) have "idle_acc (batch_step rt db acc b)" by (auto simp: batch_step_def idle_acc_def)
  with Cons show ?case by simp
qed simp

lemma idle_batch: "idle_acc (prepare rt db bodies) \<Longrightarrow> processFindingsQueueMessages rt bodies db = (Inr [], db)"
  by (simp add: processFindingsQueueMessages_def idle_acc_def Let_def ended_updates_def fire_all_def)

lemma empty_acc_ok [simp]: "all_seen_accounted db empty_acc" "idle_acc empty_acc"
  by (simp_all add: all_seen_accounted_def idle_acc_def empty_acc_def)

lemma process_stores:
  assumes "\<forall>b \<in> set bodies. sequenced b" "processFindingsQueueMessages rt bodies db = (Inr ended, db')" "b \<in> set bodies"
  shows "\<exists>i. storedEventId b = Some i \<and> (event_stored db' i \<or> \<not> scan_exists db' (b_scan b))"
proof -
  let ?acc = "prepare rt db bodies"
  let ?db0 = "db\<lparr>next_uuid := next_uuid db + a_uuids ?acc\<rparr>"
  let ?db1 = "snd (run_stmts (a_stmts ?acc) ?db0)"
  from assms(2) obtain ups where db': "db' = fire_all ups ?db1"
    by (auto simp: processFindingsQueueMessages_def Let_def split_beta split: if_splits)
  have ev: "event_stored db' = event_stored ?db1" and ex: "scan_exists db' = scan_exists ?db1"
    unfolding db' by (simp_all add: fun_eq_iff event_stored_def scan_exists_def)
  have start: "event_stored ?db0 = event_stored db" "scan_exists ?db0 = scan_exists db"
    by (simp_all add: fun_eq_iff event_stored_def scan_exists_def)
  have ex1: "scan_exists ?db1 j = scan_exists db j" for j
    using rows_step_exists [OF run_stmts_rows, of "a_stmts ?acc" ?db0] start by simp
  from assms(1,3) obtain i where i: "storedEventId b = Some i" by (auto simp: sequenced_def)
  have "accounted db ?acc b"
    using prepare_accounts [OF assms(1), of db empty_acc rt] assms(3) by (simp add: prepare_def)
  with i consider "\<not> scan_exists db (b_scan b)" | "event_stored db i"
    | scanId t p where "Insert_event i scanId t p \<in> set (a_stmts ?acc)" "scan_exists db scanId"
    by (auto simp: accounted_def)
  then show ?thesis
  proof cases
    case 1
    then show ?thesis using i ex ex1 by simp
  next
    case 2
    then have "event_stored ?db1 i" using run_stmts_stored [of ?db0 i] start by simp
    then show ?thesis using i ev by simp
  next
    case 3
    then have "event_stored ?db1 i" using run_stmts_inserts [of i scanId t p _ ?db0] start by simp
    then show ?thesis using i ev by simp
  qed
qed

lemma process_replay:
  assumes "\<forall>b \<in> set bodies. sequenced b" "processFindingsQueueMessages rt bodies db = (Inr ended, db')"
  shows "processFindingsQueueMessages rt bodies db' = (Inr [], db')"
  by (rule idle_batch, unfold prepare_def, rule replay_is_idle) (use process_stores [OF assms] in auto)

end
