(* ===== verification/Scans_Ended.thy ===== *)
theory Scans_Ended
  imports Scans_Facts
begin

text \<open>
  Which scans a batch reports as ended, and which it can change at all: the list it returns is
  exactly the scans it ended, each once, and only the scans its events name are touched.
\<close>

section \<open>Terminal statements\<close>

fun ends :: "scan_stmt \<Rightarrow> string \<Rightarrow> bool" where
  "ends (Complete_scan i _) scanId = (i = scanId)"
| "ends (Fail_scan i _) scanId = (i = scanId)"
| "ends _ _ = False"

definition has_active :: "scans_db \<Rightarrow> string \<Rightarrow> bool" where
  "has_active db scanId = list_ex (\<lambda>s. s_id s = scanId \<and> is_active s) (scans db)"

lemma not_active_ended [simp]:
  "\<not> is_active (s\<lparr>s_status := ''completed'', s_completed := c, s_summary := d\<rparr>)"
  "\<not> is_active (s\<lparr>s_status := ''failed'', s_completed := c, s_failure := r\<rparr>)"
  by (simp_all add: is_active_def ACTIVE_STATUSES_def)

lemma update_count: "fst (update_scans (\<lambda>s. s_id s = i \<and> is_active s) f db) \<noteq> 0 \<longleftrightarrow> has_active db i"
  by (auto simp: update_scans_def has_active_def list_ex_iff filter_empty_conv)

lemma update_ends:
  assumes "\<And>s. s_id (f s) = s_id s" "\<And>s. \<not> is_active (f s)"
  shows "\<not> has_active (snd (update_scans (\<lambda>s. s_id s = i \<and> is_active s) f db)) i"
  using assms by (auto simp: update_scans_def has_active_def list_ex_iff)

lemma ends_change: "ends q scanId \<Longrightarrow> fst (run_stmt q db) \<noteq> 0 \<longleftrightarrow> has_active db scanId"
  by (cases q) (simp_all only: ends.simps run_stmt.simps update_count)

lemma ends_after: "ends q scanId \<Longrightarrow> \<not> has_active (snd (run_stmt q db)) scanId"
  by (cases q) (simp_all add: update_ends)

lemma rows_step_inactive:
  assumes "rows_step db db'" "\<not> has_active db i"
  shows "\<not> has_active db' i"
proof -
  have "list_all2 row_step xs ys \<Longrightarrow> \<not> list_ex (\<lambda>s. s_id s = i \<and> is_active s) xs \<Longrightarrow>
        \<not> list_ex (\<lambda>s. s_id s = i \<and> is_active s) ys" for xs ys
    by (induction rule: list_all2_induct) (auto simp: row_step_def outcome_def is_active_def)
  with assms show ?thesis by (auto simp: rows_step_def has_active_def)
qed

lemma run_stmts_length [simp]: "length (fst (run_stmts qs db)) = length qs"
  by (induction qs arbitrary: db) (auto simp: split_beta Let_def)

lemma run_stmts_nth:
  "i < length qs \<Longrightarrow> fst (run_stmts qs db) ! i = fst (run_stmt (qs ! i) (snd (run_stmts (take i qs) db)))"
proof (induction qs arbitrary: db i)
  case (Cons q qs)
  then show ?case by (cases i) (auto simp: split_beta Let_def)
qed simp

lemma run_stmts_append: "snd (run_stmts (qs @ qs') db) = snd (run_stmts qs' (snd (run_stmts qs db)))"
  by (induction qs arbitrary: db) (auto simp: split_beta Let_def)

lemma take_rows: "i \<le> j \<Longrightarrow> rows_step (snd (run_stmts (take i qs) db)) (snd (run_stmts (take j qs) db))"
proof -
  assume "i \<le> j"
  then have "take j qs = take i qs @ take (j - i) (drop i qs)" by (metis le_add_diff_inverse take_add)
  then show ?thesis by (simp add: run_stmts_append run_stmts_rows)
qed

text \<open>Of the terminal statements of one scan, the first that finds it active reports a change.\<close>

lemma one_change:
  assumes "ends (qs ! i) scanId" "ends (qs ! j) scanId" "i < j" "j < length qs"
    and "fst (run_stmts qs db) ! i \<noteq> 0"
  shows "fst (run_stmts qs db) ! j = 0"
proof -
  have "snd (run_stmts (take (Suc i) qs) db) = snd (run_stmt (qs ! i) (snd (run_stmts (take i qs) db)))"
    using assms(3,4) by (simp add: take_Suc_conv_app_nth run_stmts_append split_beta Let_def)
  then have "\<not> has_active (snd (run_stmts (take (Suc i) qs) db)) scanId" using ends_after [OF assms(1)] by simp
  from rows_step_inactive [OF take_rows this, of j] assms(3)
  have "\<not> has_active (snd (run_stmts (take j qs) db)) scanId" by simp
  then have "fst (run_stmt (qs ! j) (snd (run_stmts (take j qs) db))) = 0" using ends_change [OF assms(2)] by blast
  then show ?thesis using assms(4) by (simp add: run_stmts_nth)
qed

lemma change_was_active:
  assumes "ends (qs ! i) scanId" "i < length qs" "fst (run_stmts qs db) ! i \<noteq> 0"
  shows "has_active db scanId \<and> \<not> has_active (snd (run_stmts qs db)) scanId"
proof
  have "has_active (snd (run_stmts (take i qs) db)) scanId"
    using ends_change [OF assms(1)] assms(2,3) by (simp add: run_stmts_nth)
  then show "has_active db scanId" using rows_step_inactive [OF run_stmts_rows] by blast
  have "snd (run_stmts (take (Suc i) qs) db) = snd (run_stmt (qs ! i) (snd (run_stmts (take i qs) db)))"
    using assms(2) by (simp add: take_Suc_conv_app_nth run_stmts_append split_beta Let_def)
  then have "\<not> has_active (snd (run_stmts (take (Suc i) qs) db)) scanId" using ends_after [OF assms(1)] by simp
  from rows_step_inactive [OF take_rows this, of "length qs"] assms(2)
  show "\<not> has_active (snd (run_stmts qs db)) scanId" by simp
qed

lemma same_active [simp]:
  "has_active (update_event i t p db) j = has_active db j" "has_active (add_event i sc t p db) j = has_active db j"
  "has_active (insert_finding f db) j = has_active db j"
  by (simp_all add: has_active_def)

lemma list_ex_map: "list_ex Q (map g xs) = list_ex (\<lambda>x. Q (g x)) xs"
  by (induction xs) auto

lemma others_keep_active:
  "(\<forall>q \<in> set qs. \<not> ends q scanId) \<Longrightarrow> has_active (snd (run_stmts qs db)) scanId = has_active db scanId"
proof (induction qs arbitrary: db)
  case (Cons q qs)
  have upd: "has_active (snd (update_scans P f db)) scanId = has_active db scanId"
    if "\<And>s. P s \<Longrightarrow> s_id (f s) = s_id s \<and> (s_id s = scanId \<longrightarrow> s_status (f s) = s_status s)" for P f
  proof -
    have "(s_id (if P s then f s else s) = scanId \<and> is_active (if P s then f s else s)) = (s_id s = scanId \<and> is_active s)" for s
      using that [of s] by (auto simp: is_active_def)
    then show ?thesis
      by (simp add: has_active_def update_scans_def list_ex_map del: if_split)
  qed
  have "has_active (snd (run_stmt q db)) scanId = has_active db scanId"
  proof (cases q)
    case (Complete_scan i d)
    with Cons.prems have "i \<noteq> scanId" by auto
    then show ?thesis unfolding Complete_scan run_stmt.simps by (intro upd) auto
  next
    case (Fail_scan i r)
    with Cons.prems have "i \<noteq> scanId" by auto
    then show ?thesis unfolding Fail_scan run_stmt.simps by (intro upd) auto
  qed (auto simp: upd)
  with Cons show ?case by (simp add: split_beta Let_def)
qed simp

lemma active_until_end:
  assumes "has_active db scanId" "\<not> has_active (snd (run_stmts qs db)) scanId"
  shows "\<exists>i < length qs. ends (qs ! i) scanId \<and> fst (run_stmts qs db) ! i \<noteq> 0"
  using assms
proof (induction qs arbitrary: db)
  case (Cons q qs)
  show ?case
  proof (cases "ends q scanId")
    case True
    then have "fst (run_stmts (q # qs) db) ! 0 \<noteq> 0"
      using ends_change [OF True] Cons.prems(1) by (simp add: split_beta Let_def)
    with True show ?thesis by (intro exI [of _ 0]) simp
  next
    case False
    then have same: "has_active (snd (run_stmt q db)) scanId" using others_keep_active [of "[q]" scanId db] Cons.prems(1)
      by (simp add: split_beta Let_def)
    with Cons.prems(2) Cons.IH [of "snd (run_stmt q db)"] obtain i where
      "i < length qs" "ends (qs ! i) scanId" "fst (run_stmts qs (snd (run_stmt q db))) ! i \<noteq> 0"
      by (auto simp: split_beta Let_def)
    then show ?thesis by (intro exI [of _ "Suc i"]) (simp add: split_beta Let_def)
  qed
qed simp

section \<open>The bookkeeping of a batch\<close>

text \<open>The terminal entries are the terminal statements, by position, and no progress row replaces one.\<close>

definition is_upsert :: "scan_stmt \<Rightarrow> bool" where
  "is_upsert q = (case q of Upsert_progress _ _ _ _ \<Rightarrow> True | _ \<Rightarrow> False)"

definition acc_wf :: "batch_acc \<Rightarrow> bool" where
  "acc_wf acc =
     ((\<forall>i < length (a_stmts acc). \<forall>sc. ends (a_stmts acc ! i) sc \<longrightarrow> (\<exists>h. (i, sc, h) \<in> set (a_terminal acc))) \<and>
      (\<forall>(i, sc, h) \<in> set (a_terminal acc). i < length (a_stmts acc) \<and> ends (a_stmts acc ! i) sc) \<and>
      distinct (map fst (a_terminal acc)) \<and>
      (\<forall>(d, i, ord) \<in> set (a_coalesced acc). i < length (a_stmts acc) \<and> is_upsert (a_stmts acc ! i)))"

lemma is_upsert_not_ends: "is_upsert q \<Longrightarrow> \<not> ends q sc"
  by (cases q) (auto simp: is_upsert_def)

lemma acc_wf_push: "acc_wf acc \<Longrightarrow> \<forall>sc. \<not> ends q sc \<Longrightarrow> acc_wf (push q acc)"
  unfolding acc_wf_def push_def by (fastforce simp: nth_append less_Suc_eq)

lemma acc_wf_terminal: "acc_wf acc \<Longrightarrow> ends q sc \<Longrightarrow> acc_wf (push_terminal q sc p ev acc)"
proof -
  assume wf: "acc_wf acc" and e: "ends q sc"
  have only: "ends q x \<Longrightarrow> x = sc" for x using e by (cases q) auto
  from wf have "\<forall>i \<in> fst ` set (a_terminal acc). i < length (a_stmts acc)" by (fastforce simp: acc_wf_def)
  then have new: "length (a_stmts acc) \<notin> fst ` set (a_terminal acc)" by blast
  let ?h = "if p = [] then None else Some (p, ev)"
  let ?acc' = "push_terminal q sc p ev acc"
  have s: "a_stmts ?acc' = a_stmts acc @ [q]" "a_terminal ?acc' = a_terminal acc @ [(length (a_stmts acc), sc, ?h)]"
    "a_coalesced ?acc' = a_coalesced acc" by (simp_all add: push_terminal_def push_def)
  show ?thesis
    unfolding acc_wf_def s
  proof (intro conjI)
    show "\<forall>i < length (a_stmts acc @ [q]). \<forall>x. ends ((a_stmts acc @ [q]) ! i) x \<longrightarrow>
        (\<exists>h. (i, x, h) \<in> set (a_terminal acc @ [(length (a_stmts acc), sc, ?h)]))"
      using wf only unfolding acc_wf_def by (auto simp: nth_append less_Suc_eq)
    show "\<forall>(i, x, h) \<in> set (a_terminal acc @ [(length (a_stmts acc), sc, ?h)]).
        i < length (a_stmts acc @ [q]) \<and> ends ((a_stmts acc @ [q]) ! i) x"
      using wf e unfolding acc_wf_def by (fastforce simp: nth_append)
    show "distinct (map fst (a_terminal acc @ [(length (a_stmts acc), sc, ?h)]))"
      using wf new unfolding acc_wf_def by auto
    show "\<forall>(d, i, ord) \<in> set (a_coalesced acc). i < length (a_stmts acc @ [q]) \<and> is_upsert ((a_stmts acc @ [q]) ! i)"
      using wf unfolding acc_wf_def by (fastforce simp: nth_append)
  qed
qed

lemma acc_wf_fields: "acc_wf acc \<Longrightarrow> acc_wf (acc\<lparr>a_uuids := n\<rparr>)" "acc_wf acc \<Longrightarrow> acc_wf (acc\<lparr>a_seen := xs\<rparr>)"
  "acc_wf acc \<Longrightarrow> acc_wf (acc\<lparr>a_bad := b\<rparr>)"
  by (simp_all add: acc_wf_def)

lemma set_jset: "set (jset k v m) \<subseteq> insert (k, v) (set m)"
  by (induction m) (auto split: if_splits)

lemma acc_wf_coalesced:
  assumes "acc_wf acc" "i < length (a_stmts acc)" "is_upsert (a_stmts acc ! i)"
  shows "acc_wf (acc\<lparr>a_coalesced := jset d (i, ord) (a_coalesced acc)\<rparr>)"
proof -
  have "j < length (a_stmts acc) \<and> is_upsert (a_stmts acc ! j)" if "(c, j, k) \<in> set (jset d (i, ord) (a_coalesced acc))" for c j k
  proof -
    from that set_jset have "(c, j, k) = (d, i, ord) \<or> (c, j, k) \<in> set (a_coalesced acc)" by fastforce
    with assms show ?thesis by (auto simp: acc_wf_def)
  qed
  with assms(1) show ?thesis by (simp add: acc_wf_def case_prod_beta') fastforce
qed

lemma acc_wf_replace:
  assumes wf: "acc_wf acc" and i: "i < length (a_stmts acc)" "is_upsert (a_stmts acc ! i)" and q: "is_upsert q"
  shows "acc_wf (acc\<lparr>a_stmts := (a_stmts acc)[i := q]\<rparr>)"
proof -
  have same: "ends ((a_stmts acc)[i := q] ! j) sc = ends (a_stmts acc ! j) sc"
    "is_upsert ((a_stmts acc)[i := q] ! j) = is_upsert (a_stmts acc ! j)" if "j < length (a_stmts acc)" for j sc
    using that i q is_upsert_not_ends by (cases "j = i"; simp)+
  show ?thesis
    unfolding acc_wf_def
  proof (intro conjI)
    let ?acc = "acc\<lparr>a_stmts := (a_stmts acc)[i := q]\<rparr>"
    show "\<forall>j < length (a_stmts ?acc). \<forall>sc. ends (a_stmts ?acc ! j) sc \<longrightarrow> (\<exists>h. (j, sc, h) \<in> set (a_terminal ?acc))"
      using wf same(1) by (simp add: acc_wf_def)
    show "\<forall>(j, sc, h) \<in> set (a_terminal ?acc). j < length (a_stmts ?acc) \<and> ends (a_stmts ?acc ! j) sc"
      using wf same(1) by (auto simp: acc_wf_def)
    show "distinct (map fst (a_terminal ?acc))" using wf by (simp add: acc_wf_def)
    show "\<forall>(d, j, ord) \<in> set (a_coalesced ?acc). j < length (a_stmts ?acc) \<and> is_upsert (a_stmts ?acc ! j)"
      using wf same(2) by (auto simp: acc_wf_def)
  qed
qed

lemma push_coalesced: "push q (acc\<lparr>a_coalesced := m\<rparr>) = (push q acc)\<lparr>a_coalesced := m\<rparr>"
  by (cases acc) (simp add: push_def)

lemma acc_wf_progress: "acc_wf acc \<Longrightarrow> acc_wf (push_progress kind b acc)"
proof -
  assume wf: "acc_wf acc"
  let ?d = "b_scan b @ '':'' @ kind_name kind"
  let ?q = "Upsert_progress ?d (b_scan b) (event_type (b_type b)) (coalesced_payload kind (b_payload b) (eventOrder b))"
  have up: "is_upsert ?q" by (simp add: is_upsert_def)
  show ?thesis
  proof (cases "map_of (a_coalesced acc) ?d")
    case None
    have p: "acc_wf (push ?q acc)" using wf by (rule acc_wf_push) simp
    have "acc_wf ((push ?q acc)\<lparr>a_coalesced := jset ?d (length (a_stmts acc), eventOrder b) (a_coalesced (push ?q acc))\<rparr>)"
      by (rule acc_wf_coalesced [OF p]) (simp_all add: push_def is_upsert_def)
    moreover have "a_coalesced (push ?q acc) = a_coalesced acc" by (simp add: push_def)
    ultimately show ?thesis using None by (simp add: push_progress_def push_coalesced Let_def)
  next
    case (Some io)
    obtain i ord where io: "io = (i, ord)" by (cases io)
    with Some have "(?d, i, ord) \<in> set (a_coalesced acc)" by (auto dest: map_of_SomeD)
    then have i: "i < length (a_stmts acc)" "is_upsert (a_stmts acc ! i)" using wf by (auto simp: acc_wf_def)
    have "acc_wf ((acc\<lparr>a_stmts := (a_stmts acc)[i := ?q]\<rparr>)\<lparr>a_coalesced := jset ?d (i, eventOrder b) (a_coalesced (acc\<lparr>a_stmts := (a_stmts acc)[i := ?q]\<rparr>))\<rparr>)"
      by (rule acc_wf_coalesced [OF acc_wf_replace [OF wf i up]]) (use i up in simp_all)
    with Some io wf show ?thesis by (simp add: push_progress_def Let_def)
  qed
qed

lemma acc_wf_findings: "acc_wf acc \<Longrightarrow> acc_wf (push_findings rt db sc raws acc)"
proof (induction raws arbitrary: acc)
  case (Cons raw raws)
  have "acc_wf (push (Insert_finding f) (acc\<lparr>a_uuids := n\<rparr>))" for f n
    using Cons.prems by (intro acc_wf_push acc_wf_fields) auto
  with Cons show ?case by (auto split: option.split)
qed simp

lemma acc_wf_outcome: "acc_wf acc \<Longrightarrow> acc_wf (push_outcome rt b p acc)"
  unfolding push_outcome_def Let_def by (auto intro!: acc_wf_push acc_wf_terminal acc_wf_fields split: option.split)

lemma acc_wf_message: "acc_wf acc \<Longrightarrow> acc_wf (push_message rt db b acc)"
  unfolding push_message_def Let_def
  by (auto intro!: acc_wf_progress acc_wf_findings acc_wf_outcome acc_wf_push acc_wf_fields split: option.split prod.split)

lemma acc_wf_prepare: "acc_wf (prepare rt db bodies)"
proof -
  have "acc_wf (foldl (batch_step rt db) acc bodies)" if "acc_wf acc" for acc
    using that
  proof (induction bodies arbitrary: acc)
    case (Cons b bodies)
    have "acc_wf (batch_step rt db acc b)"
      unfolding batch_step_def using Cons.prems by (auto intro: acc_wf_message acc_wf_fields split: option.split)
    with Cons.IH show ?case by simp
  qed simp
  moreover have "acc_wf empty_acc" by (simp add: acc_wf_def empty_acc_def)
  ultimately show ?thesis by (simp add: prepare_def)
qed

section \<open>What is reported as ended\<close>

lemma ended_exactly:
  assumes "acc_wf acc" "run_stmts (a_stmts acc) db = (ns, db')"
  defines "ended \<equiv> map fst (ended_updates ns (a_terminal acc))"
  shows "distinct ended" and "i \<in> set ended \<longleftrightarrow> has_active db i \<and> \<not> has_active db' i"
proof -
  let ?qs = "a_stmts acc"
  let ?sel = "filter (\<lambda>(i, _). i < length ns \<and> ns ! i \<noteq> 0) (a_terminal acc)"
  have ns: "ns = fst (run_stmts ?qs db)" "db' = snd (run_stmts ?qs db)" "length ns = length ?qs"
    using assms(2) run_stmts_length [of ?qs db] by auto
  have ended: "ended = map (fst \<circ> snd) ?sel" by (simp add: ended_def ended_updates_def comp_def)
  have sel: "x < length ?qs \<and> ends (?qs ! x) sc \<and> ns ! x \<noteq> 0" if "(x, sc, h) \<in> set ?sel" for x sc h
    using that assms(1) by (auto simp: acc_wf_def)
  have uniq: "x = y" if "(x, sc, h) \<in> set ?sel" "(y, sc, k) \<in> set ?sel" for x y sc h k
  proof (rule ccontr)
    assume "x \<noteq> y"
    then consider "x < y" | "y < x" by linarith
    then show False using one_change [of ?qs x sc y db] one_change [of ?qs y sc x db] sel [OF that(1)] sel [OF that(2)] ns
      by cases auto
  qed
  have dsel: "distinct (map fst ?sel)" using assms(1) by (simp add: acc_wf_def distinct_map_filter)
  show "distinct ended"
    unfolding ended distinct_map
  proof
    show "distinct ?sel" using dsel by (simp add: distinct_map)
    show "inj_on (fst \<circ> snd) (set ?sel)"
    proof (rule inj_onI)
      fix a b
      assume ab: "a \<in> set ?sel" "b \<in> set ?sel" "(fst \<circ> snd) a = (fst \<circ> snd) b"
      obtain x sc h where a: "a = (x, sc, h)" by (cases a)
      obtain y sd k where b: "b = (y, sd, k)" by (cases b)
      have "sc = sd" using ab(3) a b by simp
      then have "x = y" using uniq ab(1,2) a b by blast
      then have "fst a = fst b" using a b by simp
      then show "a = b" using dsel ab(1,2) by (auto simp: distinct_map dest: inj_onD)
    qed
  qed
  show "i \<in> set ended \<longleftrightarrow> has_active db i \<and> \<not> has_active db' i"
  proof
    assume "i \<in> set ended"
    then obtain x h where m: "(x, i, h) \<in> set ?sel" by (auto simp: ended)
    from change_was_active [of ?qs x i db] sel [OF m] ns show "has_active db i \<and> \<not> has_active db' i" by simp
  next
    assume "has_active db i \<and> \<not> has_active db' i"
    then obtain x where x: "x < length ?qs" "ends (?qs ! x) i" "ns ! x \<noteq> 0"
      using active_until_end [of db i ?qs] ns by auto
    then obtain h where "(x, i, h) \<in> set (a_terminal acc)" using assms(1) unfolding acc_wf_def by blast
    then have "(x, i, h) \<in> set ?sel" using x ns by simp
    then show "i \<in> set ended" unfolding ended by force
  qed
qed

definition hooks :: "(string \<times> (string \<times> string) option) list \<Rightarrow> (string \<times> string \<times> string) list" where
  "hooks ended = List.map_filter (\<lambda>(i, h). map_option (\<lambda>(p, ev). (p, ev, i)) h) ended"

lemma fired_fire_all: "fired (fire_all ended db) = fired db @ hooks ended"
proof (induction ended arbitrary: db)
  case (Cons e ended)
  obtain i h where e: "e = (i, h)" by (cases e)
  have "fire_all (e # ended) db = fire_all ended (case h of None \<Rightarrow> db | Some (p, ev) \<Rightarrow> fire p ev i db)"
    by (simp add: fire_all_def e)
  with Cons.IH show ?case
    by (cases h) (auto simp: e hooks_def fire_def)
qed (simp add: fire_all_def hooks_def)

lemma run_stmt_fired: "fired (snd (run_stmt q db)) = fired db"
  by (cases q) (auto simp: update_scans_def update_event_def add_event_def insert_finding_def)

lemma run_stmts_fired: "fired (snd (run_stmts qs db)) = fired db"
  by (induction qs arbitrary: db) (auto simp: split_beta Let_def run_stmt_fired)

lemma hooks_of_distinct:
  "distinct (map fst ended) \<Longrightarrow> distinct (map (snd \<circ> snd) (hooks ended)) \<and> set (map (snd \<circ> snd) (hooks ended)) \<subseteq> set (map fst ended)"
proof (induction ended)
  case (Cons e ended)
  obtain i h where e: "e = (i, h)" by (cases e)
  have "hooks (e # ended) = (case h of None \<Rightarrow> [] | Some (p, ev) \<Rightarrow> [(p, ev, i)]) @ hooks ended"
    by (simp add: hooks_def e map_filter_simps split: option.split prod.split)
  moreover from Cons e have "i \<notin> (snd \<circ> snd) ` set (hooks ended)" by auto
  then have "(p, ev, i) \<notin> set (hooks ended)" for p ev by force
  ultimately show ?case using Cons e by (cases h) auto
qed (simp add: hooks_def map_filter_simps)

lemma process_reports:
  assumes "processFindingsQueueMessages rt bodies db = (Inr ended, db')"
  shows "distinct ended"
    and "i \<in> set ended \<longleftrightarrow> has_active db i \<and> \<not> has_active db' i"
    and "\<exists>hs. fired db' = fired db @ hs \<and> distinct (map (snd \<circ> snd) hs) \<and> set (map (snd \<circ> snd) hs) \<subseteq> set ended"
proof -
  let ?acc = "prepare rt db bodies"
  let ?db0 = "db\<lparr>next_uuid := next_uuid db + a_uuids ?acc\<rparr>"
  obtain ns db1 where run: "run_stmts (a_stmts ?acc) ?db0 = (ns, db1)" by fastforce
  let ?ups = "ended_updates ns (a_terminal ?acc)"
  from assms run have ended: "ended = map fst ?ups" and db': "db' = fire_all ?ups db1"
    by (auto simp: processFindingsQueueMessages_def Let_def split: if_splits)
  have act: "has_active ?db0 j = has_active db j" "has_active db' j = has_active db1 j" for j
    by (simp_all add: has_active_def db')
  note ex = ended_exactly [OF acc_wf_prepare run, folded ended]
  show "distinct ended" by (rule ex(1))
  show "i \<in> set ended \<longleftrightarrow> has_active db i \<and> \<not> has_active db' i" using ex(2) act by simp
  have "fired db1 = fired db" using run_stmts_fired [of "a_stmts ?acc" ?db0] run by simp
  then show "\<exists>hs. fired db' = fired db @ hs \<and> distinct (map (snd \<circ> snd) hs) \<and> set (map (snd \<circ> snd) hs) \<subseteq> set ended"
    using hooks_of_distinct [of ?ups] ex(1) unfolding db' fired_fire_all ended by auto
qed

end
