(* ===== verification/Delivery.thy ===== *)
theory Delivery
  imports Event_Ids
begin

text \<open>
  \<open>coordinator/delivery.ts\<close>: acknowledged delivery of run events. The tracker marks, per run, the
  execution and highest sequence number it processed, waits for the events' persistence, and only
  then writes the mark to storage and sends the acknowledgements that cover them.

  Promises are explicit: every persistence has a number, \<open>persisting\<close> holds per run the numbers the
  latest chain still waits for and the mark that chain will write, and an acknowledgement waits for
  the numbers outstanding when it was asked for. The last three fields are history: what was
  accepted, what settled, and what was acknowledged with the first number not covered by it.
\<close>

type_synonym mark = "string \<times> int"

datatype seq_verdict = New string int | Duplicate | Invalid

record ack_msg =
  k_socket :: nat
  k_run :: string
  k_exec :: string
  k_seq :: int

record tracker =
  sinceAck :: "(string \<times> nat) list"
  marks :: "(string \<times> mark) list"
  persisting :: "(string \<times> (mark option \<times> nat list)) list"
  waiting :: "(nat list \<times> nat \<times> ack_msg) list"
  duplicateAcked :: "(nat \<times> string) list"
  next_persist :: nat
  h_accepted :: "(nat \<times> string \<times> mark) list"
  h_settled :: "nat list"
  h_acked :: "(nat \<times> ack_msg) list"

definition no_deliveries :: tracker where
  "no_deliveries = \<lparr>sinceAck = [], marks = [], persisting = [], waiting = [], duplicateAcked = [],
     next_persist = 0, h_accepted = [], h_settled = [], h_acked = []\<rparr>"

definition ACK_EVERY :: nat where "ACK_EVERY = 50"

definition last_mark :: "tracker \<Rightarrow> mark option \<Rightarrow> string \<Rightarrow> mark option" where
  "last_mark t stored runId = (case map_of (marks t) runId of
     Some m \<Rightarrow> Some m
   | None \<Rightarrow> (case stored of Some (e, n) \<Rightarrow> if isValidId e \<and> 1 \<le> n \<and> n \<le> MAX_SAFE_INTEGER then Some (e, n) else None
             | None \<Rightarrow> None))"

definition accept :: "string \<Rightarrow> json option \<Rightarrow> json option \<Rightarrow> mark option \<Rightarrow> tracker \<Rightarrow> seq_verdict \<times> tracker" where
  "accept runId exec seq stored t = (case (exec_of exec, seq_of seq) of
     (Some e, Some n) \<Rightarrow>
       (case last_mark t stored runId of
          Some (e', n') \<Rightarrow> if e' = e \<and> n \<le> n' then (Duplicate, t)
                          else (New e n, t\<lparr>marks := jset runId (e, n) (marks t)\<rparr>)
        | None \<Rightarrow> (New e n, t\<lparr>marks := jset runId (e, n) (marks t)\<rparr>))
   | _ \<Rightarrow> (Invalid, t))"

definition deps :: "tracker \<Rightarrow> string \<Rightarrow> nat list" where
  "deps t runId = (case map_of (persisting t) runId of None \<Rightarrow> [] | Some (_, ps) \<Rightarrow> ps)"

text \<open>\<open>persisted(runId, done)\<close>: the event just accepted is being stored, under the next number.\<close>

definition persisted :: "string \<Rightarrow> tracker \<Rightarrow> nat \<times> tracker" where
  "persisted runId t =
     (next_persist t,
      t\<lparr>persisting := jset runId (map_of (marks t) runId, deps t runId @ [next_persist t]) (persisting t),
        next_persist := Suc (next_persist t),
        h_accepted := h_accepted t @
          (case map_of (marks t) runId of None \<Rightarrow> [] | Some m \<Rightarrow> [(next_persist t, runId, m)])\<rparr>)"

definition send_ack :: "nat \<times> ack_msg \<Rightarrow> tracker \<Rightarrow> tracker" where
  "send_ack a t = t\<lparr>h_acked := h_acked t @ [a]\<rparr>"

text \<open>What is sent at once, and the tracker; otherwise the acknowledgement waits.\<close>

definition acknowledge :: "ack_msg \<Rightarrow> tracker \<Rightarrow> ack_msg list \<times> tracker" where
  "acknowledge a t =
     (let t1 = t\<lparr>sinceAck := jdel (k_run a) (sinceAck t)\<rparr>
      in if deps t1 (k_run a) = [] then ([a], send_ack (next_persist t1, a) t1)
         else ([], t1\<lparr>waiting := waiting t1 @ [(deps t1 (k_run a), next_persist t1, a)]\<rparr>))"

definition processed :: "nat \<Rightarrow> string \<Rightarrow> string \<Rightarrow> int \<Rightarrow> bool \<Rightarrow> tracker \<Rightarrow> ack_msg list \<times> tracker" where
  "processed ws runId exec seq terminal t =
     (let count = Suc (case map_of (sinceAck t) runId of None \<Rightarrow> 0 | Some n \<Rightarrow> n)
      in if count < ACK_EVERY \<and> \<not> terminal then ([], t\<lparr>sinceAck := jset runId count (sinceAck t)\<rparr>)
         else acknowledge \<lparr>k_socket = ws, k_run = runId, k_exec = exec, k_seq = seq\<rparr> t)"

definition requested ::
  "nat \<Rightarrow> string \<Rightarrow> json option \<Rightarrow> json option \<Rightarrow> mark option \<Rightarrow> tracker \<Rightarrow> ack_msg list \<times> tracker" where
  "requested ws runId exec seq stored t = (case (exec_of exec, seq_of seq) of
     (Some e, Some n) \<Rightarrow>
       (case last_mark t stored runId of
          Some (e', n') \<Rightarrow>
            if e' = e then acknowledge \<lparr>k_socket = ws, k_run = runId, k_exec = e, k_seq = min n n'\<rparr> t else ([], t)
        | None \<Rightarrow> ([], t))
   | _ \<Rightarrow> ([], t))"

text \<open>\<open>onceFor\<close>: the first duplicate of a run on a connection.\<close>

definition duplicate :: "nat \<Rightarrow> string \<Rightarrow> mark option \<Rightarrow> tracker \<Rightarrow> ack_msg list \<times> tracker" where
  "duplicate ws runId stored t =
     (if (ws, runId) \<in> set (duplicateAcked t) then ([], t)
      else let t1 = t\<lparr>duplicateAcked := (ws, runId) # duplicateAcked t\<rparr>
           in case last_mark t1 stored runId of
                None \<Rightarrow> ([], t1)
              | Some (e, n) \<Rightarrow> acknowledge \<lparr>k_socket = ws, k_run = runId, k_exec = e, k_seq = n\<rparr> t1)"

text \<open>
  Persistence \<open>p\<close> settled. The run whose chain has nothing left writes its mark, and forgets it
  when no later event replaced it; the acknowledgements with nothing left go out.
\<close>

definition strike :: "nat \<Rightarrow> (string \<times> (mark option \<times> nat list)) list \<Rightarrow> (string \<times> (mark option \<times> nat list)) list" where
  "strike p = map (\<lambda>(r, m, ps). (r, m, filter (\<lambda>q. q \<noteq> p) ps))"

definition finished_chains :: "(string \<times> (mark option \<times> nat list)) list \<Rightarrow> (string \<times> mark) list" where
  "finished_chains links = List.map_filter (\<lambda>(r, m, ps). if ps = [] then map_option (\<lambda>k. (r, k)) m else None) links"

definition settle :: "nat \<Rightarrow> tracker \<Rightarrow> (string \<times> mark) list \<times> ack_msg list \<times> tracker" where
  "settle p t =
     (let links = strike p (persisting t);
          written = finished_chains links;
          waits = map (\<lambda>(ds, c, a). (filter (\<lambda>q. q \<noteq> p) ds, c, a)) (waiting t);
          ready = map snd (filter (\<lambda>(ds, _). ds = []) waits)
      in (written, map snd ready,
          t\<lparr>persisting := filter (\<lambda>(_, _, ps). ps \<noteq> []) links,
            marks := filter (\<lambda>(r, m). (r, m) \<notin> set written) (marks t),
            waiting := filter (\<lambda>(ds, _). ds \<noteq> []) waits,
            h_settled := p # h_settled t,
            h_acked := h_acked t @ ready\<rparr>))"

section \<open>What the tracker guarantees\<close>

text \<open>
  Every accepted event is settled or still waited for by its run's chain, and an acknowledgement,
  waiting or sent, covers only events of its run that are settled or that it still waits for.
\<close>

definition covered :: "tracker \<Rightarrow> string \<Rightarrow> nat \<Rightarrow> nat list \<Rightarrow> bool" where
  "covered t r c ds =
     (\<forall>(p, r', m) \<in> set (h_accepted t). r' = r \<and> p < c \<longrightarrow> p \<in> set (h_settled t) \<or> p \<in> set ds)"

definition tracked :: "tracker \<Rightarrow> bool" where
  "tracked t =
     (jwf (persisting t) \<and>
      (\<forall>(p, r, m) \<in> set (h_accepted t). p < next_persist t) \<and>
      (\<forall>r. covered t r (next_persist t) (deps t r)) \<and>
      (\<forall>(ds, c, a) \<in> set (waiting t). c \<le> next_persist t \<and> covered t (k_run a) c ds) \<and>
      (\<forall>(c, a) \<in> set (h_acked t). c \<le> next_persist t \<and> covered t (k_run a) c []))"

lemma trackedD:
  assumes "tracked t"
  shows "jwf (persisting t)" "(p, r, m) \<in> set (h_accepted t) \<Longrightarrow> p < next_persist t"
    "covered t r (next_persist t) (deps t r)"
    "(ds, c, a) \<in> set (waiting t) \<Longrightarrow> c \<le> next_persist t \<and> covered t (k_run a) c ds"
    "(c, a) \<in> set (h_acked t) \<Longrightarrow> c \<le> next_persist t \<and> covered t (k_run a) c []"
  using assms by (auto simp: tracked_def)

lemma covered_fields [simp]:
  "covered (t\<lparr>marks := m\<rparr>) = covered t" "covered (t\<lparr>sinceAck := k\<rparr>) = covered t"
  "covered (t\<lparr>duplicateAcked := d\<rparr>) = covered t" "covered (t\<lparr>waiting := w\<rparr>) = covered t"
  "covered (t\<lparr>h_acked := h\<rparr>) = covered t"
  by (simp_all add: covered_def fun_eq_iff)

lemma deps_fields [simp]:
  "deps (t\<lparr>marks := m\<rparr>) = deps t" "deps (t\<lparr>sinceAck := k\<rparr>) = deps t"
  "deps (t\<lparr>duplicateAcked := d\<rparr>) = deps t" "deps (t\<lparr>waiting := w\<rparr>) = deps t" "deps (t\<lparr>h_acked := h\<rparr>) = deps t"
  by (simp_all add: deps_def fun_eq_iff)

lemma tracked_initially: "tracked no_deliveries"
  by (simp add: tracked_def no_deliveries_def covered_def)

lemma tracked_marks [simp]: "tracked (t\<lparr>marks := m\<rparr>) = tracked t" "tracked (t\<lparr>sinceAck := k\<rparr>) = tracked t"
  "tracked (t\<lparr>duplicateAcked := d\<rparr>) = tracked t"
  by (simp_all add: tracked_def)

lemma accept_tracked: "tracked t \<Longrightarrow> tracked (snd (accept runId exec seq stored t))"
  by (auto simp: accept_def split: option.split prod.split)

lemma deps_persisted: "deps (snd (persisted r t)) r' = (if r' = r then deps t r @ [next_persist t] else deps t r')"
  by (simp add: persisted_def deps_def)

lemma covered_persisted:
  assumes "covered t r c ds" "c \<le> next_persist t"
  shows "covered (snd (persisted runId t)) r c ds"
proof -
  have "p = next_persist t \<or> (p, r', m) \<in> set (h_accepted t)"
    if "(p, r', m) \<in> set (h_accepted (snd (persisted runId t)))" for p r' m
    using that by (auto simp: persisted_def split: option.splits)
  moreover have "h_settled (snd (persisted runId t)) = h_settled t" by (simp add: persisted_def)
  ultimately show ?thesis using assms unfolding covered_def by fastforce
qed

lemma persisted_tracked:
  assumes "tracked t"
  shows "tracked (snd (persisted runId t))"
proof -
  let ?t = "snd (persisted runId t)"
  note D = trackedD [OF assms]
  have acc: "(p = next_persist t \<and> r = runId) \<or> (p, r, m) \<in> set (h_accepted t)"
    if "(p, r, m) \<in> set (h_accepted ?t)" for p r m
    using that by (auto simp: persisted_def split: option.splits)
  have same: "waiting ?t = waiting t" "h_acked ?t = h_acked t" "next_persist ?t = Suc (next_persist t)"
    "jwf (persisting ?t)" "h_settled ?t = h_settled t"
    using D(1) by (simp_all add: persisted_def)
  have lt: "p < Suc (next_persist t)" if "(p, r, m) \<in> set (h_accepted ?t)" for p r m
    using acc [OF that] D(2) [of p r m] by auto
  have B: "covered ?t r (Suc (next_persist t)) (deps ?t r)" for r
  proof -
    have "p \<in> set (h_settled t) \<or> p \<in> set (deps ?t r)" if m: "(p, r, m) \<in> set (h_accepted ?t)" for p m
    proof (cases "p = next_persist t \<and> r = runId")
      case False
      with acc [OF m] have o: "(p, r, m) \<in> set (h_accepted t)" by blast
      from D(2) [OF o] D(3) [of r] o have "p \<in> set (h_settled t) \<or> p \<in> set (deps t r)"
        unfolding covered_def by fastforce
      then show ?thesis by (auto simp: deps_persisted)
    qed (simp add: deps_persisted)
    then show ?thesis unfolding covered_def same by fastforce
  qed
  have C: "c \<le> Suc (next_persist t) \<and> covered ?t (k_run a) c ds" if "(ds, c, a) \<in> set (waiting t)" for ds c a
    using D(4) [OF that] covered_persisted by (auto intro: le_SucI)
  have E: "c \<le> Suc (next_persist t) \<and> covered ?t (k_run a) c []" if "(c, a) \<in> set (h_acked t)" for c a
    using D(5) [OF that] covered_persisted by (auto intro: le_SucI)
  show ?thesis unfolding tracked_def same using lt B C E same(4) by blast
qed

lemma acknowledge_tracked:
  assumes "tracked t"
  shows "tracked (snd (acknowledge a t))"
proof -
  note D = trackedD [OF assms]
  from D(3) [of "k_run a"] have c: "covered t (k_run a) (next_persist t) (deps t (k_run a))" .
  show ?thesis
  proof (cases "deps t (k_run a) = []")
    case True
    with c have "covered t (k_run a) (next_persist t) []" by simp
    with assms True show ?thesis by (auto simp: acknowledge_def Let_def send_ack_def tracked_def)
  next
    case False
    with assms c show ?thesis by (auto simp: acknowledge_def Let_def send_ack_def tracked_def)
  qed
qed

lemma processed_tracked: "tracked t \<Longrightarrow> tracked (snd (processed ws r e n terminal t))"
  by (simp add: processed_def Let_def acknowledge_tracked)

lemma requested_tracked: "tracked t \<Longrightarrow> tracked (snd (requested ws r e n stored t))"
  by (auto simp: requested_def acknowledge_tracked split: option.split prod.split)

lemma duplicate_tracked: "tracked t \<Longrightarrow> tracked (snd (duplicate ws r stored t))"
  by (auto simp: duplicate_def Let_def acknowledge_tracked split: option.split prod.split)

lemma map_of_strike: "map_of (strike p links) r = map_option (\<lambda>(m, ps). (m, filter (\<lambda>q. q \<noteq> p) ps)) (map_of links r)"
  by (induction links) (auto simp: strike_def)

lemma strike_keys [simp]: "map fst (strike p links) = map fst links"
  by (induction links) (auto simp: strike_def)

lemma map_of_unfinished:
  fixes xs :: "(string \<times> (mark option \<times> nat list)) list"
  assumes "distinct (map fst xs)"
  shows "map_of (filter (\<lambda>(_, _, ps). ps \<noteq> []) xs) r =
    (case map_of xs r of Some (m, ps) \<Rightarrow> if ps = [] then None else Some (m, ps) | None \<Rightarrow> None)"
  using assms
proof (induction xs)
  case (Cons x xs)
  obtain k m ps where x: "x = (k, m, ps)" by (cases x)
  have "map_of xs k = None" using Cons.prems x by (simp add: map_of_eq_None_iff)
  with Cons x show ?case by auto
qed simp

lemma deps_settle:
  assumes "jwf (persisting t)"
  shows "deps (snd (snd (settle p t))) r = filter (\<lambda>q. q \<noteq> p) (deps t r)"
proof -
  have "distinct (map fst (strike p (persisting t)))" using assms by (simp add: jwf_def)
  from map_of_unfinished [OF this, of r] show ?thesis
    by (auto simp: settle_def Let_def deps_def map_of_strike split: option.splits)
qed

lemma covered_settle:
  "covered t r c ds \<Longrightarrow> covered (snd (snd (settle p t))) r c (filter (\<lambda>q. q \<noteq> p) ds)"
  unfolding covered_def settle_def Let_def by fastforce

lemma settle_tracked:
  assumes "tracked t"
  shows "tracked (snd (snd (settle p t)))"
proof -
  let ?t = "snd (snd (settle p t))"
  note D = trackedD [OF assms]
  have fields: "h_accepted ?t = h_accepted t" "next_persist ?t = next_persist t"
    by (simp_all add: settle_def Let_def)
  have waits: "\<exists>ds'. (ds', c, a) \<in> set (waiting t) \<and> ds = filter (\<lambda>q. q \<noteq> p) ds'"
    if "(ds, c, a) \<in> set (waiting ?t)" for ds c a
    using that by (auto simp: settle_def Let_def)
  have acked: "(c, a) \<in> set (h_acked t) \<or> (\<exists>ds'. (ds', c, a) \<in> set (waiting t) \<and> filter (\<lambda>q. q \<noteq> p) ds' = [])"
    if "(c, a) \<in> set (h_acked ?t)" for c a
    using that by (force simp: settle_def Let_def)
  have A: "jwf (persisting ?t)"
    using D(1) by (simp add: settle_def Let_def jwf_def distinct_map_filter)
  have B: "covered ?t r (next_persist t) (deps ?t r)" for r
    unfolding deps_settle [OF D(1)] by (rule covered_settle [OF D(3)])
  have C: "c \<le> next_persist t \<and> covered ?t (k_run a) c ds" if w: "(ds, c, a) \<in> set (waiting ?t)" for ds c a
    using waits [OF w] D(4) covered_settle by blast
  have E: "c \<le> next_persist t \<and> covered ?t (k_run a) c []" if w: "(c, a) \<in> set (h_acked ?t)" for c a
    using acked [OF w]
  proof
    assume "(c, a) \<in> set (h_acked t)"
    then show ?thesis using D(5) covered_settle [of t "k_run a" c "[]" p] by simp
  next
    assume "\<exists>ds'. (ds', c, a) \<in> set (waiting t) \<and> filter (\<lambda>q. q \<noteq> p) ds' = []"
    then obtain ds' where "(ds', c, a) \<in> set (waiting t)" "filter (\<lambda>q. q \<noteq> p) ds' = []" by blast
    then show ?thesis using D(4) covered_settle [of t "k_run a" c ds' p] by metis
  qed
  show ?thesis unfolding tracked_def fields using A B C E D(2) by blast
qed


lemma finished_mem: "(r, m) \<in> set (finished_chains xs) \<Longrightarrow> (r, Some m, []) \<in> set xs"
  by (induction xs) (auto simp: finished_chains_def map_filter_simps split: if_splits option.splits)

lemma written_covers:
  assumes "tracked t" "settle p t = (written, sent, t')" "(r, m) \<in> set written" "(p', r, m') \<in> set (h_accepted t')"
  shows "p' \<in> set (h_settled t')"
proof -
  have t': "t' = snd (snd (settle p t))" and w: "written = finished_chains (strike p (persisting t))"
    using assms(2) by (auto simp: settle_def Let_def)
  from assms(3) w have "(r, Some m, []) \<in> set (strike p (persisting t))"
    by (simp add: finished_mem)
  moreover have "distinct (map fst (strike p (persisting t)))" using trackedD(1) [OF assms(1)] by (simp add: jwf_def)
  ultimately have "map_of (strike p (persisting t)) r = Some (Some m, [])" by simp
  then have "deps t' r = []"
    unfolding t' deps_settle [OF trackedD(1) [OF assms(1)]] by (auto simp: map_of_strike deps_def)
  then have "covered t' r (next_persist t') []"
    using trackedD(3) [OF settle_tracked [OF assms(1), of p], of r] by (simp add: t')
  moreover have "p' < next_persist t'" using trackedD(2) [OF settle_tracked [OF assms(1), of p]] assms(4) t' by blast
  ultimately show ?thesis using assms(4) unfolding covered_def by fastforce
qed

section \<open>The tracker at work\<close>

text \<open>
  The tracker's histories: events a runner sends (an accepted one starts its persistence and is
  counted, as \<open>WebSocketHandler\<close> does without waiting in between), repeats, requests for an
  acknowledgement, and persistences that settle in any order.
\<close>

inductive delivers :: "tracker \<Rightarrow> bool" where
  start: "delivers no_deliveries"
| event: "delivers t \<Longrightarrow> accept runId exec seq stored t = (New e n, t1) \<Longrightarrow> persisted runId t1 = (p, t2) \<Longrightarrow>
    processed ws runId e n terminal t2 = (sent, t3) \<Longrightarrow> delivers t3"
| repeat: "delivers t \<Longrightarrow> duplicate ws runId stored t = (sent, t') \<Longrightarrow> delivers t'"
| ask: "delivers t \<Longrightarrow> requested ws runId exec seq stored t = (sent, t') \<Longrightarrow> delivers t'"
| done_one: "delivers t \<Longrightarrow> settle p t = (written, sent, t') \<Longrightarrow> delivers t'"

lemma delivers_tracked: "delivers t \<Longrightarrow> tracked t"
proof (induction rule: delivers.induct)
  case (event t runId exec seq stored e n t1 p t2 ws terminal sent t3)
  have "tracked t1" using accept_tracked [OF event.IH, of runId exec seq stored] event.hyps by simp
  then have "tracked t2" using persisted_tracked [of t1 runId] event.hyps by simp
  then show ?case using processed_tracked [of t2 ws runId e n terminal] event.hyps by simp
next
  case (repeat t ws runId stored sent t')
  then show ?case using duplicate_tracked [of t ws runId stored] by simp
next
  case (ask t ws runId exec seq stored sent t')
  then show ?case using requested_tracked [of t ws runId exec seq stored] by simp
next
  case (done_one t p written sent t')
  then show ?case using settle_tracked [of t p] by simp
qed (rule tracked_initially)

end
