(* ===== verification/Coord_State.thy ===== *)
theory Coord_State
  imports Runner_Access Scan_Config_Store Scans_Ended Delivery
begin

text \<open>
  The state of the run coordinator, one Durable Object: the sockets the runtime holds for it, what
  \<open>coordinator/StateManager.ts\<close> keeps in memory, its storage, and the D1 tables and R2 objects it
  works on. An operation runs without interruption between two waits for D1 or R2; a wait for the
  object's own storage lets no other event in. Logging is left out.
\<close>

section \<open>Sockets\<close>

record attachment =
  authenticated :: bool
  nonce :: "string option"
  connectionId :: "string option"
  heartbeat :: bool
  connectedAt :: "int option"
  resume :: "string list option"
  activeJobs :: "string list option"
  recentJobs :: "string list option"

text \<open>What \<open>deserializeAttachment\<close> gives: \<open>null\<close>, an exception, or the object last serialized.\<close>

datatype raw_attachment = Absent | Corrupt | Attached attachment

definition empty_attachment :: attachment where
  "empty_attachment = \<lparr>authenticated = False, nonce = None, connectionId = None, heartbeat = False,
     connectedAt = None, resume = None, activeJobs = None, recentJobs = None\<rparr>"

text \<open>The messages the coordinator sends to runners and dashboards.\<close>

datatype wire =
    Challenge string
  | Auth_ok
  | Auth_failed
  | Job_dispatch string json string
  | Start_run string json
  | Job_command string string
  | Control string string
  | Oob_trigger string string
  | Parse_request string ustring
  | Agent_restart
  | Ack string string int
  | Client_event json

record socket =
  tags :: "string list"
  att :: raw_attachment
  is_open :: bool
  outbox :: "wire list"
  pong_at :: "int option"

section \<open>Storage\<close>

text \<open>The values under the object's storage keys: configurations, their references and whether they
  refuse shared runners, user keys, runner identities, delivery marks, finished runs, and when the
  watchdog first saw a scan without a runner.\<close>

datatype stored =
    St_config json
  | St_text string
  | St_meta bool
  | St_mark string int
  | St_runs "string list"
  | St_times "(string \<times> int) list"

record env =
  AUTH_ENABLED :: "string option"
  VERSION :: "string option"
  JWT_SECRET :: "string option"
  ALLOW_PRIVATE_IPS :: "string option"
  js_rt :: runtime
  verifies :: "string \<Rightarrow> string \<Rightarrow> string \<Rightarrow> bool"
  new_id :: "nat \<Rightarrow> string"

definition auth_disabled :: "env \<Rightarrow> bool" where
  "auth_disabled env = (AUTH_ENABLED env = Some ''false'')"

record coord =
  sockets :: "(nat \<times> socket) list"
  next_socket :: nat
  runners :: "nat list"
  clients :: "(string \<times> nat list) list"
  jobs :: "(string \<times> nat) list"
  pendingChallenges :: "(nat \<times> string) list"
  pendingParses :: "string list"
  pendingParseUrls :: "(string \<times> string) list"
  pendingParseRunners :: "(string \<times> nat) list"
  sseStreams :: "(string \<times> string) list"
  oobHandOvers :: "(string \<times> int) list"
  storage :: "(string \<times> stored) list"
  r2 :: r2_store
  db :: scans_db
  now :: int
  ids_drawn :: nat
  d1_down :: bool
  r2_down :: bool
  queue_down :: bool
  findings_queue :: "body list"
  delivery :: tracker
  tasks :: "(nat option \<times> body) list"
  oobRetries :: "(string \<times> string \<times> nat) list"
  sse_sent :: "(string \<times> string) list"

section \<open>Sending and attachments\<close>

definition socket_of :: "coord \<Rightarrow> nat \<Rightarrow> socket option" where
  "socket_of s ws = map_of (sockets s) ws"

definition tags_of :: "coord \<Rightarrow> nat \<Rightarrow> string list" where
  "tags_of s ws = (case socket_of s ws of None \<Rightarrow> [] | Some k \<Rightarrow> tags k)"

definition att_of :: "coord \<Rightarrow> nat \<Rightarrow> raw_attachment" where
  "att_of s ws = (case socket_of s ws of None \<Rightarrow> Absent | Some k \<Rightarrow> att k)"

definition set_socket :: "nat \<Rightarrow> (socket \<Rightarrow> socket) \<Rightarrow> coord \<Rightarrow> coord" where
  "set_socket ws f s = (case socket_of s ws of None \<Rightarrow> s | Some k \<Rightarrow> s\<lparr>sockets := jset ws (f k) (sockets s)\<rparr>)"

text \<open>\<open>ws.send\<close>: false when it throws, because the connection is gone.\<close>

definition can_send :: "coord \<Rightarrow> nat \<Rightarrow> bool" where
  "can_send s ws = (case socket_of s ws of None \<Rightarrow> False | Some k \<Rightarrow> is_open k)"

definition send :: "nat \<Rightarrow> wire \<Rightarrow> coord \<Rightarrow> coord" where
  "send ws m s = (if can_send s ws then set_socket ws (\<lambda>k. k\<lparr>outbox := outbox k @ [m]\<rparr>) s else s)"

definition close_ws :: "nat \<Rightarrow> coord \<Rightarrow> coord" where
  "close_ws ws s = set_socket ws (\<lambda>k. k\<lparr>is_open := False\<rparr>) s"

definition set_att :: "nat \<Rightarrow> attachment \<Rightarrow> coord \<Rightarrow> coord" where
  "set_att ws a s = set_socket ws (\<lambda>k. k\<lparr>att := Attached a\<rparr>) s"

text \<open>\<open>(ws.deserializeAttachment() || {})\<close>, for the places that would throw on a corrupt one.\<close>

definition read_att :: "coord \<Rightarrow> nat \<Rightarrow> attachment option" where
  "read_att s ws = (case att_of s ws of Absent \<Rightarrow> Some empty_attachment | Corrupt \<Rightarrow> None | Attached a \<Rightarrow> Some a)"

definition listed :: "string list option \<Rightarrow> string list" where
  "listed xs = (case xs of None \<Rightarrow> [] | Some ys \<Rightarrow> ys)"

definition active_of :: "coord \<Rightarrow> nat \<Rightarrow> string list" where
  "active_of s ws = (case read_att s ws of None \<Rightarrow> [] | Some a \<Rightarrow> listed (activeJobs a))"

definition recent_of :: "coord \<Rightarrow> nat \<Rightarrow> string list" where
  "recent_of s ws = (case read_att s ws of None \<Rightarrow> [] | Some a \<Rightarrow> listed (recentJobs a))"

definition set_job :: "string \<Rightarrow> nat \<Rightarrow> coord \<Rightarrow> coord" where
  "set_job runId ws s = s\<lparr>jobs := jset runId ws (jobs s)\<rparr>"

definition del_job :: "string \<Rightarrow> coord \<Rightarrow> coord" where
  "del_job runId s = s\<lparr>jobs := jdel runId (jobs s)\<rparr>"

definition has_job :: "coord \<Rightarrow> string \<Rightarrow> bool" where
  "has_job s runId = (map_of (jobs s) runId \<noteq> None)"

definition del_runner :: "nat \<Rightarrow> coord \<Rightarrow> coord" where
  "del_runner ws s = s\<lparr>runners := sdel ws (runners s)\<rparr>"

definition on_db :: "(scans_db \<Rightarrow> scans_db) \<Rightarrow> coord \<Rightarrow> coord" where
  "on_db f s = s\<lparr>db := f (db s)\<rparr>"

definition put :: "string \<Rightarrow> stored \<Rightarrow> coord \<Rightarrow> coord" where
  "put k v s = s\<lparr>storage := jset k v (storage s)\<rparr>"

definition del_keys :: "string list \<Rightarrow> coord \<Rightarrow> coord" where
  "del_keys ks s = s\<lparr>storage := filter (\<lambda>e. fst e \<notin> set ks) (storage s)\<rparr>"

definition text_at :: "(string \<times> stored) list \<Rightarrow> string \<Rightarrow> string option" where
  "text_at st k = (case map_of st k of Some (St_text t) \<Rightarrow> Some t | _ \<Rightarrow> None)"

definition runs_at :: "(string \<times> stored) list \<Rightarrow> string \<Rightarrow> string list" where
  "runs_at st k = (case map_of st k of Some (St_runs xs) \<Rightarrow> xs | _ \<Rightarrow> [])"

section \<open>Storage keys (\<open>coordinator/utils.ts\<close>)\<close>

definition config_key :: "string \<Rightarrow> string" where "config_key runId = ''config:'' @ runId"
definition config_ref_key :: "string \<Rightarrow> string" where "config_ref_key runId = ''config_ref:'' @ runId"
definition config_meta_key :: "string \<Rightarrow> string" where "config_meta_key runId = ''config_meta:'' @ runId"
definition user_key_key :: "string \<Rightarrow> string" where "user_key_key runId = ''user_public_key:'' @ runId"
definition jobRunnerKey :: "string \<Rightarrow> string" where "jobRunnerKey runId = ''job_runner:'' @ runId"

definition scanStateKeys :: "string \<Rightarrow> string list" where
  "scanStateKeys runId = [config_key runId, config_ref_key runId, config_meta_key runId, user_key_key runId]"

definition clearScanState :: "string \<Rightarrow> coord \<Rightarrow> coord" where
  "clearScanState runId s = del_keys (scanStateKeys runId) s"

definition FINISHED_SCANS_KEY :: string where "FINISHED_SCANS_KEY = ''finished_runs''"
definition MAX_FINISHED_SCANS :: nat where "MAX_FINISHED_SCANS = 200"

text \<open>Appending to a list that keeps its last \<open>n\<close> entries, and what falls off its front.\<close>

definition keep_last :: "nat \<Rightarrow> 'a list \<Rightarrow> 'a list" where
  "keep_last n xs = drop (length xs - n) xs"

definition evicted :: "nat \<Rightarrow> 'a list \<Rightarrow> 'a list" where
  "evicted n xs = take (length xs - n) xs"

definition markScanFinished :: "string \<Rightarrow> coord \<Rightarrow> coord" where
  "markScanFinished runId s =
     (let xs = sdel runId (runs_at (storage s) FINISHED_SCANS_KEY) @ [runId]
      in del_keys (concat (map (\<lambda>i. [jobRunnerKey i, deliveredSeqKey i]) (evicted MAX_FINISHED_SCANS xs)))
           (put FINISHED_SCANS_KEY (St_runs (keep_last MAX_FINISHED_SCANS xs)) s))"

definition getFinishedScans :: "coord \<Rightarrow> string list" where
  "getFinishedScans s = runs_at (storage s) FINISHED_SCANS_KEY"

definition recordJobRunner :: "string \<Rightarrow> string option \<Rightarrow> coord \<Rightarrow> coord" where
  "recordJobRunner runId identity s = (case identity of None \<Rightarrow> s | Some i \<Rightarrow> put (jobRunnerKey runId) (St_text i) s)"

definition forgetJobRunner :: "string \<Rightarrow> coord \<Rightarrow> coord" where
  "forgetJobRunner runId s = del_keys [jobRunnerKey runId, deliveredSeqKey runId] s"

section \<open>The state manager\<close>

definition MAX_ACTIVE_JOBS_PER_RUNNER :: nat where "MAX_ACTIVE_JOBS_PER_RUNNER = 10"
definition RUNNER_HEARTBEAT_TIMEOUT_MS :: int where "RUNNER_HEARTBEAT_TIMEOUT_MS = 90000"

definition noteOobHandOver :: "string \<Rightarrow> coord \<Rightarrow> coord" where
  "noteOobHandOver runId s =
     s\<lparr>oobHandOvers := keep_last 200 (jdel runId (oobHandOvers s) @ [(runId, now s)])\<rparr>"

definition oobHandedOverWithin :: "coord \<Rightarrow> string \<Rightarrow> int \<Rightarrow> bool" where
  "oobHandedOverWithin s runId ms = (case map_of (oobHandOvers s) runId of
     None \<Rightarrow> False | Some t \<Rightarrow> now s - t \<le> ms)"

definition isSharedRunner :: "coord \<Rightarrow> nat \<Rightarrow> bool" where
  "isSharedRunner s ws = isSharedRunnerTags (tags_of s ws)"

definition hasCapacity :: "coord \<Rightarrow> nat \<Rightarrow> bool" where
  "hasCapacity s ws = (case att_of s ws of
     Corrupt \<Rightarrow> False
   | Absent \<Rightarrow> 0 < MAX_ACTIVE_JOBS_PER_RUNNER
   | Attached a \<Rightarrow> length (listed (activeJobs a)) < MAX_ACTIVE_JOBS_PER_RUNNER)"

definition isHeartbeatExpired :: "coord \<Rightarrow> nat \<Rightarrow> bool" where
  "isHeartbeatExpired s ws = (case att_of s ws of
     Attached a \<Rightarrow>
       if \<not> heartbeat a then False
       else let lastSeen = (case (case socket_of s ws of None \<Rightarrow> None | Some k \<Rightarrow> pong_at k) of
                  Some t \<Rightarrow> t
                | None \<Rightarrow> (case connectedAt a of Some t \<Rightarrow> t | None \<Rightarrow> now s))
            in now s - lastSeen > RUNNER_HEARTBEAT_TIMEOUT_MS
   | _ \<Rightarrow> False)"

definition drop_jobs_of :: "nat \<Rightarrow> coord \<Rightarrow> coord" where
  "drop_jobs_of ws s = s\<lparr>jobs := filter (\<lambda>e. snd e \<noteq> ws) (jobs s)\<rparr>"

definition drop_runner :: "nat \<Rightarrow> coord \<Rightarrow> coord" where
  "drop_runner ws s = drop_jobs_of ws (s\<lparr>runners := sdel ws (runners s), pendingChallenges := jdel ws (pendingChallenges s)\<rparr>)"

definition prune_one :: "nat \<Rightarrow> coord \<Rightarrow> coord" where
  "prune_one ws s = (if isHeartbeatExpired s ws then close_ws ws (drop_runner ws s) else s)"

definition pruneDeadRunners :: "coord \<Rightarrow> coord" where
  "pruneDeadRunners s = fold prune_one (runners s @ jkeys (pendingChallenges s)) s"

text \<open>Rebuilding the memory from the sockets, after hibernation or a restart.\<close>

definition wiped :: "coord \<Rightarrow> coord" where
  "wiped s = s\<lparr>runners := [], clients := [], jobs := [], pendingChallenges := [], pendingParses := [],
     pendingParseUrls := [], pendingParseRunners := [], sseStreams := [], oobHandOvers := []\<rparr>"

definition add_client :: "string \<Rightarrow> nat \<Rightarrow> coord \<Rightarrow> coord" where
  "add_client runId ws s =
     s\<lparr>clients := jset runId (sadd ws (case map_of (clients s) runId of None \<Rightarrow> [] | Some xs \<Rightarrow> xs)) (clients s)\<rparr>"

definition rebuild_one :: "nat \<Rightarrow> coord \<Rightarrow> coord" where
  "rebuild_one ws s =
     (let ts = tags_of s ws
      in if ''runner'' \<in> set ts \<or> ''runner-pending'' \<in> set ts then
           (case att_of s ws of
              Attached a \<Rightarrow>
                if ''runner'' \<in> set ts \<or> authenticated a
                then fold (\<lambda>i. set_job i ws) (listed (activeJobs a)) (s\<lparr>runners := sadd ws (runners s)\<rparr>)
                else (case nonce a of
                        None \<Rightarrow> s
                      | Some n \<Rightarrow> if n = [] then s else s\<lparr>pendingChallenges := jset ws n (pendingChallenges s)\<rparr>)
            | _ \<Rightarrow> if ''runner'' \<in> set ts then s\<lparr>runners := sadd ws (runners s)\<rparr> else s)
         else if ''client'' \<in> set ts then
           (case getRunIdFromTags ts of
              None \<Rightarrow> s
            | Some runId \<Rightarrow> if runId = [] then s else add_client runId ws s)
         else s)"

text \<open>The constructor throws (\<open>None\<close>) on a runner whose attachment cannot be read.\<close>

definition reconstructState :: "coord \<Rightarrow> coord option" where
  "reconstructState s =
     (if list_ex (\<lambda>(ws, k). att k = Corrupt \<and> (''runner'' \<in> set (tags k) \<or> ''runner-pending'' \<in> set (tags k))) (sockets s)
      then None else Some (fold rebuild_one (jkeys (sockets s)) (wiped s)))"

end
