(* ===== verification/Queue_Service.thy ===== *)
theory Queue_Service
  imports Coord_State
begin

text \<open>
  \<open>coordinator/QueueService.ts\<close>: handing queued and orphaned scans to a runner. What other events
  do to the state while a pass waits for D1 or R2 is the argument \<open>others\<close>: \<open>others runId k\<close>
  runs at the \<open>k\<close>th wait of the pass for that scan, and may be anything.
\<close>

definition SCAN_CONFIG_UNREADABLE :: ustring where
  "SCAN_CONFIG_UNREADABLE = units ''The scan's configuration could not be read, so it never started. Start the scan again.''"

definition delete_config :: "string option \<Rightarrow> coord \<Rightarrow> coord" where
  "delete_config ref s = (case ref of None \<Rightarrow> s | Some k \<Rightarrow> s\<lparr>r2 := deleteScanConfig (r2_down s) k (r2 s)\<rparr>)"

definition failScan :: "string \<Rightarrow> string option \<Rightarrow> coord \<Rightarrow> coord" where
  "failScan scanId ownConfigRef s =
     (if d1_down s then s
      else let (marked, d) = markFailedIfActive scanId (Some SCAN_CONFIG_UNREADABLE) (db s); s1 = s\<lparr>db := d\<rparr>
           in if marked then delete_config ownConfigRef (clearScanState scanId s1) else s1)"

definition connectedRunnerOwners :: "coord \<Rightarrow> string list" where
  "connectedRunnerOwners s =
     List.map_filter (\<lambda>ws. if isSharedRunner s ws then None else getRunnerOwnerId (tags_of s ws)) (runners s)"

definition collectRecentJobIds :: "coord \<Rightarrow> nat \<Rightarrow> string list" where
  "collectRecentJobIds s ws =
     concat (map (recent_of s) (runners s)) @ (if ws \<in> set (runners s) then [] else recent_of s ws)"

section \<open>One scan\<close>

text \<open>The state keys read at the start of a pass.\<close>

type_synonym snapshot = "(string \<times> stored) list"

definition legacy_config :: "snapshot \<Rightarrow> string \<Rightarrow> json option" where
  "legacy_config snap scanId = (case map_of snap (config_key scanId) of
     Some (St_config c) \<Rightarrow> if c = JNull then None else Some c | _ \<Rightarrow> None)"

definition config_ref :: "snapshot \<Rightarrow> string \<Rightarrow> string option" where
  "config_ref snap scanId = (case text_at snap (config_ref_key scanId) of
     Some k \<Rightarrow> if k = [] then None else Some k | None \<Rightarrow> None)"

text \<open>\<open>config.settings?.disable_shared_runners || false\<close>\<close>

definition refuses_shared :: "json \<Rightarrow> bool" where
  "refuses_shared config = (case jprop config ''settings'' of
     None \<Rightarrow> False | Some st \<Rightarrow> prop_truthy (jprop st ''disable_shared_runners''))"

definition meta_refuses :: "snapshot \<Rightarrow> string \<Rightarrow> bool" where
  "meta_refuses snap scanId = (case map_of snap (config_meta_key scanId) of Some (St_meta b) \<Rightarrow> b | _ \<Rightarrow> True)"

text \<open>\<open>getScanConfigByProject\<close> and its parse, \<open>None\<close> when either fails or there is no row.\<close>

definition project_config :: "coord \<Rightarrow> scan_row \<Rightarrow> json option" where
  "project_config s scan =
     (if d1_down s then None
      else case getScanConfigByProject (db s) (s_project scan) (s_profile scan) of Some (Some c) \<Rightarrow> Some c | _ \<Rightarrow> None)"

definition disable_shared :: "snapshot \<Rightarrow> coord \<Rightarrow> scan_row \<Rightarrow> bool" where
  "disable_shared snap s scan =
     (case legacy_config snap (s_id scan) of
        Some c \<Rightarrow> refuses_shared c
      | None \<Rightarrow>
          if config_ref snap (s_id scan) \<noteq> None then meta_refuses snap (s_id scan)
          else if s_project scan \<noteq> [] then
            (case project_config s scan of Some c \<Rightarrow> refuses_shared c | None \<Rightarrow> False)
          else False)"

definition given :: "string option \<Rightarrow> bool" where
  "given v = (v \<noteq> None \<and> v \<noteq> Some [])"

definition is_compatible :: "env \<Rightarrow> snapshot \<Rightarrow> string list \<Rightarrow> nat \<Rightarrow> scan_row \<times> string option \<Rightarrow> coord \<Rightarrow> bool" where
  "is_compatible env snap owners ws scan_key s =
     (let scan = fst scan_key
      in if auth_disabled env then True
         else if \<not> isSharedRunner s ws then isRunnerOwnedBy (tags_of s ws) (s_user scan)
         else \<not> (given (text_at snap (user_key_key (s_id scan))) \<or> given (snd scan_key)) \<and>
              \<not> disable_shared snap s scan \<and>
              \<not> (given (s_user scan) \<and> the (s_user scan) \<in> set owners))"

text \<open>What the configuration of a scan is found to be.\<close>

datatype found_config =
    Found json
  | Owned_already
  | Bad_reference
  | Missing_object
  | Read_failed

definition load_config :: "snapshot \<Rightarrow> scan_row \<Rightarrow> coord \<Rightarrow> found_config" where
  "load_config snap scan s =
     (case legacy_config snap (s_id scan) of
        Some c \<Rightarrow> Found c
      | None \<Rightarrow>
          (case config_ref snap (s_id scan) of
             Some ref \<Rightarrow>
               if has_job s (s_id scan) then Owned_already
               else if \<not> isScanConfigKeyForRun ref (s_id scan) then Bad_reference
               else (case getScanConfig (r2_down s) (r2 s) ref of
                       Inr c \<Rightarrow> Found c
                     | Inl Not_found \<Rightarrow> Missing_object
                     | Inl _ \<Rightarrow> Read_failed)
           | None \<Rightarrow>
               if s_project scan \<noteq> [] then
                 Found (case project_config s scan of Some c \<Rightarrow> c | None \<Rightarrow> JObj [])
               else Found (JObj [])))"

text \<open>
  Assigning a property of \<open>config.settings\<close>: an object takes it, on an array it is lost when the
  message is serialized, and on a primitive the assignment throws (\<open>None\<close>).
\<close>

definition with_checkpoint :: "json \<Rightarrow> bool \<Rightarrow> json \<Rightarrow> json option" where
  "with_checkpoint checkpoint paused config =
     (let settings = (case jprop config ''settings'' of Some v \<Rightarrow> if json_truthy v then v else JObj [] | None \<Rightarrow> JObj []);
          ck = JObj (set_prop ''paused'' (JBool paused) (entries checkpoint))
      in case settings of
           JObj kvs \<Rightarrow> Some (JObj (set_prop ''settings'' (JObj (set_prop ''checkpoint'' ck kvs)) (entries config)))
         | JArr xs \<Rightarrow> Some (JObj (set_prop ''settings'' (JArr xs) (entries config)))
         | _ \<Rightarrow> None)"

definition prepared_config :: "scan_row \<Rightarrow> json \<Rightarrow> json option" where
  "prepared_config scan config =
     (let c = (if prop_truthy (jprop config ''base_url'') then config
               else JObj (set_prop ''base_url'' (JStr (s_target scan)) (entries config)))
      in case s_checkpoint scan of
           Some ck \<Rightarrow> if json_truthy ck then with_checkpoint ck (s_status scan = ''paused'') c else Some c
         | None \<Rightarrow> Some c)"

text \<open>Reserving the slot and sending, without a wait in between; false when the send failed.\<close>

definition assign_run :: "nat \<Rightarrow> string \<Rightarrow> wire \<Rightarrow> coord \<Rightarrow> bool \<times> coord" where
  "assign_run ws runId m s =
     (case read_att s ws of
        None \<Rightarrow> (False, s)
      | Some a \<Rightarrow>
          let act = listed (activeJobs a);
              act' = (if runId \<in> set act then act else act @ [runId])
          in if can_send s ws
             then (True, send ws m (if runId \<in> set act then set_job runId ws s
                                    else set_att ws (a\<lparr>activeJobs := Some act'\<rparr>) (set_job runId ws s)))
             else (False, set_att ws (a\<lparr>activeJobs := Some (filter (\<lambda>i. i \<noteq> runId) act')\<rparr>)
                            (del_runner ws (del_job runId s))))"

text \<open>After the send: the run's identity, its status, its leftovers.\<close>

definition after_dispatch :: "nat \<Rightarrow> string \<Rightarrow> string option \<Rightarrow> (string \<Rightarrow> nat \<Rightarrow> coord \<Rightarrow> coord) \<Rightarrow> coord \<Rightarrow> coord" where
  "after_dispatch ws runId ref others s =
     (let s1 = others runId 3 (recordJobRunner runId (runnerIdentity (tags_of s ws)) s);
          s2 = (if d1_down s1 then s1 else on_db (updateScanStatus runId ''dispatched'' None None) s1)
      in delete_config ref (clearScanState runId (others runId 4 s2)))"

datatype pass = Next coord | Stop coord

definition send_scan ::
  "env \<Rightarrow> (string \<Rightarrow> nat \<Rightarrow> coord \<Rightarrow> coord) \<Rightarrow> nat \<Rightarrow> scan_row \<Rightarrow> string option \<Rightarrow> json \<Rightarrow> coord \<Rightarrow> pass" where
  "send_scan env others ws scan ref config s =
     (let runId = s_id scan;
          key = (case getPublicKeyFromTags (tags_of s ws) of None \<Rightarrow> [] | Some k \<Rightarrow> k)
      in if has_job s runId \<or> runId \<in> set (collectRecentJobIds s ws) then Next s
         else if (ref \<noteq> None \<or> s_project scan \<noteq> []) \<and> runId \<in> set (getFinishedScans s) then Next s
         else if \<not> hasCapacity s ws then Stop s
         else (case assign_run ws runId
                     (Job_dispatch runId (configForRunner config (tags_of s ws) (ALLOW_PRIVATE_IPS env)) key) s of
                 (True, s1) \<Rightarrow> Next (after_dispatch ws runId ref others s1)
               | (False, s1) \<Rightarrow> Stop s1))"

definition dispatch_scan ::
  "env \<Rightarrow> (string \<Rightarrow> nat \<Rightarrow> coord \<Rightarrow> coord) \<Rightarrow> snapshot \<Rightarrow> string list \<Rightarrow> string list \<Rightarrow> nat \<Rightarrow>
   scan_row \<times> string option \<Rightarrow> coord \<Rightarrow> pass" where
  "dispatch_scan env others snap recent owners ws scan_key s =
     (let scan = fst scan_key; runId = s_id scan; ref = config_ref snap runId
      in if runId \<in> set (runs_at snap FINISHED_SCANS_KEY) \<or> runId \<in> set recent then Next s
         else if (s_status scan = ''dispatched'' \<or> s_status scan = ''paused'') \<and> has_job s runId then Next s
         else let s1 = others runId 0 s; s2 = others runId 1 s1; s3 = others runId 2 s2
              in if \<not> is_compatible env snap owners ws scan_key s1 then Next s2
                 else if \<not> hasCapacity s2 ws then Stop s2
                 else (case load_config snap scan s2 of
                         Owned_already \<Rightarrow> Next s2
                       | Bad_reference \<Rightarrow> Next (failScan runId None s2)
                       | Missing_object \<Rightarrow> Next (if has_job s3 runId then s3 else failScan runId None s3)
                       | Read_failed \<Rightarrow> Next s3
                       | Found c0 \<Rightarrow>
                           let config = (if json_truthy c0 then c0 else JObj [])
                           in if \<not> is_object config then Next (failScan runId ref s3)
                              else (case prepared_config scan config of
                                      None \<Rightarrow> Stop s3
                                    | Some c \<Rightarrow> send_scan env others ws scan ref c s3)))"

section \<open>A pass\<close>

fun pass_scans ::
  "env \<Rightarrow> (string \<Rightarrow> nat \<Rightarrow> coord \<Rightarrow> coord) \<Rightarrow> snapshot \<Rightarrow> string list \<Rightarrow> string list \<Rightarrow> nat \<Rightarrow>
   (scan_row \<times> string option) list \<Rightarrow> coord \<Rightarrow> coord" where
  "pass_scans env others snap recent owners ws [] s = s"
| "pass_scans env others snap recent owners ws (x # xs) s =
     (case dispatch_scan env others snap recent owners ws x s of
        Next s' \<Rightarrow> pass_scans env others snap recent owners ws xs s'
      | Stop s' \<Rightarrow> s')"

definition dispatchPass :: "env \<Rightarrow> (string \<Rightarrow> nat \<Rightarrow> coord \<Rightarrow> coord) \<Rightarrow> nat \<Rightarrow> coord \<Rightarrow> coord" where
  "dispatchPass env others ws s =
     (if \<not> hasCapacity s ws then s
      else if d1_down s then s
      else pass_scans env others (storage s) (collectRecentJobIds s ws)
             (if isSharedRunner s ws then connectedRunnerOwners s else []) ws (getActiveScans (db s)) s)"

text \<open>
  Dispatching to a runner that turns out dead does nothing. While a pass for the runner is under
  way, a call only asks for another one: \<open>reruns\<close> are the calls that come in during each pass, so
  after a pass with one the loop goes round again if the runner has a free slot.
\<close>

fun run_passes :: "env \<Rightarrow> nat \<Rightarrow> ((string \<Rightarrow> nat \<Rightarrow> coord \<Rightarrow> coord) \<times> bool) list \<Rightarrow> coord \<Rightarrow> coord" where
  "run_passes env ws [] s = s"
| "run_passes env ws ((others, again) # rest) s =
     (let s' = dispatchPass env others ws s
      in if again \<and> hasCapacity s' ws then run_passes env ws rest s' else s')"

definition checkAndDispatchQueuedScans ::
  "env \<Rightarrow> ((string \<Rightarrow> nat \<Rightarrow> coord \<Rightarrow> coord) \<times> bool) list \<Rightarrow> nat \<Rightarrow> coord \<Rightarrow> coord" where
  "checkAndDispatchQueuedScans env reruns ws s =
     (let s1 = pruneDeadRunners s
      in if ws \<in> set (runners s) \<and> ws \<notin> set (runners s1) then s1 else run_passes env ws reruns s1)"

definition alone :: "string \<Rightarrow> nat \<Rightarrow> coord \<Rightarrow> coord" where
  "alone runId k s = s"

text \<open>A call that no other event interleaves with: one pass.\<close>

definition dispatch_queued :: "env \<Rightarrow> nat \<Rightarrow> coord \<Rightarrow> coord" where
  "dispatch_queued env ws s = checkAndDispatchQueuedScans env [(alone, False)] ws s"

end
