(* ===== verification/Resume.thy ===== *)
theory Resume
  imports Queue_Service
begin

text \<open>
  \<open>coordinator/resume.ts\<close>: handing runs back to a runner that reconnected while it executed them.
  \<open>others runId\<close> is what other events do while the run's status is read from D1.
\<close>

definition parseResumeParam :: "string option \<Rightarrow> string list" where
  "parseResumeParam v = (case v of
     None \<Rightarrow> []
   | Some t \<Rightarrow> if t = [] then [] else take MAX_ACTIVE_JOBS_PER_RUNNER (uniq (filter isValidRunId (split_on (CHR '','') t))))"

definition RESUMABLE_STATUSES :: "string list" where
  "RESUMABLE_STATUSES = [''queued'', ''dispatched'', ''paused'']"

definition MAX_RECENT_JOBS :: nat where "MAX_RECENT_JOBS = 20"

definition add_recent :: "string \<Rightarrow> string list \<Rightarrow> string list" where
  "add_recent runId recent = keep_last MAX_RECENT_JOBS (sadd runId recent)"

definition releaseJob :: "nat \<Rightarrow> string \<Rightarrow> coord \<Rightarrow> coord" where
  "releaseJob ws runId s = (case read_att s ws of
     None \<Rightarrow> s
   | Some a \<Rightarrow> if runId \<in> set (listed (activeJobs a))
              then set_att ws (a\<lparr>activeJobs := Some (filter (\<lambda>i. i \<noteq> runId) (listed (activeJobs a)))\<rparr>) s else s)"

definition take_over :: "nat \<Rightarrow> string \<Rightarrow> coord \<Rightarrow> coord" where
  "take_over ws runId s =
     set_job runId ws (case map_of (jobs s) runId of
        None \<Rightarrow> s | Some previous \<Rightarrow> if previous = ws then s else releaseJob previous runId s)"

record resuming =
  r_active :: "string list"
  r_recent :: "string list"
  r_accepted :: "string list"

text \<open>One requested run, against the records read at the start.\<close>

definition resume_one ::
  "(string \<Rightarrow> coord \<Rightarrow> coord) \<Rightarrow> snapshot \<Rightarrow> string \<Rightarrow> nat \<Rightarrow> string \<Rightarrow> resuming \<times> coord \<Rightarrow> resuming \<times> coord" where
  "resume_one others snap identity ws runId st =
     (let (r, s) = st
      in if text_at snap (jobRunnerKey runId) \<noteq> Some identity then (r, s)
         else if runId \<in> set (runs_at snap FINISHED_SCANS_KEY)
         then (r\<lparr>r_recent := add_recent runId (r_recent r)\<rparr>, s)
         else let status = getScanStatus (db s) runId; s1 = others runId s
              in if d1_down s then (r, s1)
                 else if status = None \<or> the status \<notin> set RESUMABLE_STATUSES then (r, forgetJobRunner runId s1)
                 else if runId \<notin> set (r_active r) \<and> MAX_ACTIVE_JOBS_PER_RUNNER \<le> length (r_active r) then (r, s1)
                 else (r\<lparr>r_active := sadd runId (r_active r), r_accepted := r_accepted r @ [runId]\<rparr>, take_over ws runId s1))"

definition resumeRuns :: "(string \<Rightarrow> coord \<Rightarrow> coord) \<Rightarrow> nat \<Rightarrow> string list option \<Rightarrow> (coord, string list) comp" where
  "resumeRuns others ws runIds s =
     (case (runnerIdentity (tags_of s ws), runIds) of
        (Some identity, Some ids) \<Rightarrow>
          (let requested = take MAX_ACTIVE_JOBS_PER_RUNNER (uniq (filter isValidRunId ids))
           in if requested = [] then (Inr [], s)
              else case read_att s ws of
                     None \<Rightarrow> (Inl TypeError, s)
                   | Some a \<Rightarrow>
                       (let (r, s1) = fold (resume_one others (storage s) identity ws) requested
                              (\<lparr>r_active = listed (activeJobs a), r_recent = listed (recentJobs a), r_accepted = []\<rparr>, s)
                        in (Inr (r_accepted r), set_att ws (a\<lparr>activeJobs := Some (r_active r), recentJobs := Some (r_recent r)\<rparr>) s1)))
      | _ \<Rightarrow> (Inr [], s))"

definition quiet :: "string \<Rightarrow> coord \<Rightarrow> coord" where
  "quiet runId s = s"

end
