(* ===== verification/Ws_Handler.thy ===== *)
theory Ws_Handler
  imports Resume
begin

text \<open>
  \<open>coordinator/WebSocketHandler.ts\<close>: what a runner's messages do. A message is its parsed JSON,
  \<open>None\<close> when it does not parse. Work handed to \<open>waitUntil\<close> is a task, which \<open>run_task\<close> carries
  out later and in any order. Handing the answer of a parse request to its waiting caller ends
  the request; the cache of parsed specifications it also fills is not modelled.
\<close>

section \<open>Proving a key\<close>

definition fail_auth :: "nat \<Rightarrow> coord \<Rightarrow> coord" where
  "fail_auth ws s = close_ws ws (send ws Auth_failed s)"

definition authenticate :: "env \<Rightarrow> nat \<Rightarrow> coord \<Rightarrow> coord" where
  "authenticate env ws s =
     (let s1 = s\<lparr>pendingChallenges := jdel ws (pendingChallenges s), runners := sadd ws (runners s)\<rparr>
      in case read_att s1 ws of
           None \<Rightarrow> close_ws ws s1
         | Some a \<Rightarrow>
             (let s2 = set_att ws (a\<lparr>authenticated := True, resume := None\<rparr>) s1
              in case resumeRuns quiet ws (resume a) s2 of
                   (Inl _, s3) \<Rightarrow> close_ws ws s3
                 | (Inr _, s3) \<Rightarrow>
                     if can_send s3 ws then dispatch_queued env ws (send ws Auth_ok s3) else close_ws ws s3))"

definition handle_challenge :: "env \<Rightarrow> nat \<Rightarrow> json option \<Rightarrow> coord \<Rightarrow> coord" where
  "handle_challenge env ws message s = (case message of
     None \<Rightarrow> close_ws ws s
   | Some msg \<Rightarrow>
       if msg = JNull then close_ws ws s
       else if \<not> is_text (jprop msg ''type'') ''challenge_response'' then s
       else (case (map_of (pendingChallenges s) ws, getPublicKeyFromTags (tags_of s ws)) of
               (Some n, Some publicKey) \<Rightarrow>
                 if n = [] \<or> publicKey = [] then close_ws ws s
                 else if (case str_of (jprop msg ''signature'') of Some sig \<Rightarrow> verifies env publicKey sig n | None \<Rightarrow> False)
                 then authenticate env ws s
                 else fail_auth ws s
             | _ \<Rightarrow> close_ws ws s))"

section \<open>Run events\<close>

definition owned_by :: "coord \<Rightarrow> nat \<Rightarrow> string \<Rightarrow> bool" where
  "owned_by s ws runId = (runId \<in> set (active_of s ws) \<or> runId \<in> set (recent_of s ws))"

text \<open>Whether the connection may report this event of the run.\<close>

definition may_report :: "coord \<Rightarrow> nat \<Rightarrow> string \<Rightarrow> json \<Rightarrow> bool" where
  "may_report s ws runId msg =
     (runId \<in> set (active_of s ws) \<or>
      (runId \<in> set (recent_of s ws) \<and> is_text (jprop msg ''type'') ''event'' \<and> payload_is (jprop msg ''payload'') ''runner_log''))"

definition ends_run :: "json \<Rightarrow> bool" where
  "ends_run msg =
     (is_text (jprop msg ''type'') ''error'' \<or>
      (is_text (jprop msg ''type'') ''event'' \<and>
       (payload_is (jprop msg ''payload'') ''complete'' \<or> payload_is (jprop msg ''payload'') ''error'')))"

definition error_event :: "ustring \<Rightarrow> json" where
  "error_event reason =
     JObj [(units ''type'', JStr (units ''error'')), (units ''data'', JObj [(units ''message'', JStr reason)])]"

definition reason_of :: "runtime \<Rightarrow> json option \<Rightarrow> ustring" where
  "reason_of rt payload = (let t = runnerErrorText rt payload in if t = [] then UNKNOWN_FAILURE else t)"

text \<open>The payload as it is shown and stored: log lines redacted, errors reduced to their text.\<close>

definition shown_payload :: "runtime \<Rightarrow> json \<Rightarrow> json option" where
  "shown_payload rt msg =
     (let p = jprop msg ''payload''
      in if \<not> is_text (jprop msg ''type'') ''event'' then p
         else if payload_is p ''runner_log'' then
           (case payload_data p of
              Some (JObj d) \<Rightarrow>
                (case jprop (JObj d) ''message'' of
                   Some (JStr t) \<Rightarrow>
                     Some (JObj (set_prop ''data''
                       (JObj (set_prop ''message'' (JStr (redactRunnerLogText rt (Some (JStr t)) MAX_RUNNER_LOG_LENGTH)) d))
                       (entries (the p))))
                 | _ \<Rightarrow> p)
            | _ \<Rightarrow> p)
         else if payload_is p ''error'' then Some (error_event (reason_of rt p))
         else p)"

definition stored_mark :: "coord \<Rightarrow> string \<Rightarrow> mark option" where
  "stored_mark s runId = (case map_of (storage s) (deliveredSeqKey runId) of Some (St_mark e n) \<Rightarrow> Some (e, n) | _ \<Rightarrow> None)"

definition send_acks :: "ack_msg list \<Rightarrow> coord \<Rightarrow> coord" where
  "send_acks acks s = fold (\<lambda>a. send (k_socket a) (Ack (k_run a) (k_exec a) (k_seq a))) acks s"

definition note_oob :: "string \<Rightarrow> json option \<Rightarrow> coord \<Rightarrow> coord" where
  "note_oob runId payload s =
     (let s1 = noteOobHandOver runId s
      in if d1_down s1 then s1 else on_db (storeOobPending runId (sanitizeOobPending (payload_data payload))) s1)"

text \<open>Starting the persistence of an event, and what it acknowledges at once.\<close>

definition start_persisting :: "nat \<Rightarrow> string \<Rightarrow> body \<Rightarrow> (string \<times> int) option \<Rightarrow> bool \<Rightarrow> coord \<Rightarrow> coord" where
  "start_persisting ws runId b place terminal s = (case place of
     None \<Rightarrow> s\<lparr>tasks := tasks s @ [(None, b)]\<rparr>
   | Some (e, n) \<Rightarrow>
       (let (p, t1) = persisted runId (delivery s); (acks, t2) = processed ws runId e n terminal t1
        in send_acks acks (s\<lparr>delivery := t2, tasks := tasks s @ [(Some p, b)]\<rparr>)))"

definition broadcast :: "string \<Rightarrow> json \<Rightarrow> coord \<Rightarrow> coord" where
  "broadcast runId m s = fold (\<lambda>c. send c (Client_event m)) (case map_of (clients s) runId of None \<Rightarrow> [] | Some cs \<Rightarrow> cs) s"

definition tell_clients :: "runtime \<Rightarrow> string \<Rightarrow> json option \<Rightarrow> json option \<Rightarrow> coord \<Rightarrow> coord" where
  "tell_clients rt runId type payload s =
     (if payload_is payload ''oob_pending'' then s
      else broadcast runId
        (if is_text type ''error'' then error_event (reason_of rt payload)
         else (case payload of Some p \<Rightarrow> p | None \<Rightarrow> JNull)) s)"

definition finish_run :: "env \<Rightarrow> nat \<Rightarrow> string \<Rightarrow> coord \<Rightarrow> coord" where
  "finish_run env ws runId s0 =
     (let s = del_job runId s0
      in case read_att s ws of
           None \<Rightarrow> s
         | Some a \<Rightarrow>
             dispatch_queued env ws (markScanFinished runId
               (set_att ws (a\<lparr>activeJobs := Some (remove1 runId (listed (activeJobs a))),
                              recentJobs := Some (keep_last MAX_RECENT_JOBS (remove1 runId (listed (recentJobs a)) @ [runId]))\<rparr>) s)))"

definition take_event :: "env \<Rightarrow> nat \<Rightarrow> string \<Rightarrow> json \<Rightarrow> (string \<times> int) option \<Rightarrow> coord \<Rightarrow> coord" where
  "take_event env ws runId msg place s =
     (let type = jprop msg ''type'';
          payload = shown_payload (js_rt env) msg;
          b = \<lparr>b_scan = runId, b_type = type, b_payload = payload,
               b_exec = (if place = None then None else jprop msg ''exec''),
               b_seq = (if place = None then None else jprop msg ''seq'')\<rparr>;
          s1 = (if is_text type ''event'' \<and> payload_is payload ''oob_pending'' then note_oob runId payload s else s);
          s2 = start_persisting ws runId b place (ends_run msg) s1;
          s3 = tell_clients (js_rt env) runId type payload s2
      in if ends_run msg then finish_run env ws runId s3 else s3)"

definition handle_event :: "env \<Rightarrow> nat \<Rightarrow> json \<Rightarrow> coord \<Rightarrow> coord" where
  "handle_event env ws msg s = (case str_of (jprop msg ''runId'') of
     None \<Rightarrow> s
   | Some runId \<Rightarrow>
       if runId = [] \<or> \<not> may_report s ws runId msg then s
       else if jprop msg ''seq'' = None then take_event env ws runId msg None s
       else (case accept runId (jprop msg ''exec'') (jprop msg ''seq'') (stored_mark s runId) (delivery s) of
               (Invalid, t) \<Rightarrow> s\<lparr>delivery := t\<rparr>
             | (Duplicate, t) \<Rightarrow>
                 (let (acks, t1) = duplicate ws runId (stored_mark s runId) t in send_acks acks (s\<lparr>delivery := t1\<rparr>))
             | (New e n, t) \<Rightarrow> take_event env ws runId msg (Some (e, n)) (s\<lparr>delivery := t\<rparr>)))"

definition handle_ack_request :: "nat \<Rightarrow> json \<Rightarrow> coord \<Rightarrow> coord" where
  "handle_ack_request ws msg s = (case str_of (jprop msg ''runId'') of
     None \<Rightarrow> s
   | Some runId \<Rightarrow>
       if runId = [] \<or> \<not> owned_by s ws runId then s
       else (let (acks, t) = requested ws runId (jprop msg ''exec'') (jprop msg ''seq'') (stored_mark s runId) (delivery s)
             in send_acks acks (s\<lparr>delivery := t\<rparr>)))"

definition handle_parse_result :: "nat \<Rightarrow> json \<Rightarrow> coord \<Rightarrow> coord" where
  "handle_parse_result ws msg s = (case str_of (jprop msg ''reqId'') of
     None \<Rightarrow> s
   | Some reqId \<Rightarrow>
       if map_of (pendingParseRunners s) reqId \<noteq> Some ws then s
       else s\<lparr>pendingParseRunners := jdel reqId (pendingParseRunners s), pendingParseUrls := jdel reqId (pendingParseUrls s),
              pendingParses := sdel reqId (pendingParses s)\<rparr>)"

definition handleMessage :: "env \<Rightarrow> nat \<Rightarrow> json option \<Rightarrow> coord \<Rightarrow> coord" where
  "handleMessage env ws message s =
     (let ts = tags_of s ws
      in if ''runner-pending'' \<in> set ts \<and> ws \<notin> set (runners s) then handle_challenge env ws message s
         else if ''runner'' \<in> set ts \<or> ws \<in> set (runners s) then
           (case message of
              None \<Rightarrow> s
            | Some msg \<Rightarrow>
                if is_text (jprop msg ''type'') ''parse_result'' then handle_parse_result ws msg s
                else if is_text (jprop msg ''type'') ''ack_request'' then handle_ack_request ws msg s
                else if is_text (jprop msg ''type'') ''event'' \<or> is_text (jprop msg ''type'') ''error'' then handle_event env ws msg s
                else s)
         else s)"

section \<open>Persistence\<close>

text \<open>
  A task writes straight to D1 in local development; otherwise the event goes to the findings queue,
  and to D1 when the queue refuses it. Whatever happens it has settled then.
\<close>

definition write_to_d1 :: "env \<Rightarrow> body \<Rightarrow> coord \<Rightarrow> coord" where
  "write_to_d1 env b s =
     (if d1_down s then s else on_db (\<lambda>d. snd (processFindingsQueueMessages (js_rt env) [b] d)) s)"

definition persist_event :: "env \<Rightarrow> body \<Rightarrow> coord \<Rightarrow> coord" where
  "persist_event env b s =
     (if JWT_SECRET env = Some ''test-secret'' \<or> queue_down s then write_to_d1 env b s
      else s\<lparr>findings_queue := findings_queue s @ [b]\<rparr>)"

definition settled_task :: "nat \<Rightarrow> coord \<Rightarrow> coord" where
  "settled_task p s =
     (let (written, acks, t) = settle p (delivery s)
      in send_acks acks (fold (\<lambda>(r, e, n). put (deliveredSeqKey r) (St_mark e n)) written (s\<lparr>delivery := t\<rparr>)))"

definition run_task :: "env \<Rightarrow> nat \<Rightarrow> coord \<Rightarrow> coord" where
  "run_task env i s =
     (if i < length (tasks s) then
        (let (p, b) = tasks s ! i;
             s1 = persist_event env b (s\<lparr>tasks := take i (tasks s) @ drop (Suc i) (tasks s)\<rparr>)
         in case p of None \<Rightarrow> s1 | Some n \<Rightarrow> settled_task n s1)
      else s)"

text \<open>
  The findings queue's consumer (\<open>index.ts\<close>): a batch of any size; when it fails, its messages one
  at a time, and those that still fail are redelivered.
\<close>

definition one_by_one :: "env \<Rightarrow> body list \<Rightarrow> scans_db \<Rightarrow> body list \<times> scans_db" where
  "one_by_one env batch d0 =
     foldl (\<lambda>(left, d) b. case processFindingsQueueMessages (js_rt env) [b] d of
              (Inl _, _) \<Rightarrow> (left @ [b], d) | (Inr _, d') \<Rightarrow> (left, d')) ([], d0) batch"

definition consume_findings :: "env \<Rightarrow> nat \<Rightarrow> coord \<Rightarrow> coord" where
  "consume_findings env k s =
     (if d1_down s then s
      else let batch = take k (findings_queue s); rest = drop k (findings_queue s)
           in case processFindingsQueueMessages (js_rt env) batch (db s) of
                (Inr _, d) \<Rightarrow> s\<lparr>db := d, findings_queue := rest\<rparr>
              | (Inl _, _) \<Rightarrow> (let (left, d) = one_by_one env batch (db s) in s\<lparr>db := d, findings_queue := left @ rest\<rparr>))"

section \<open>Closing\<close>

definition handleClose :: "nat \<Rightarrow> coord \<Rightarrow> coord" where
  "handleClose ws s =
     (let ts = tags_of s ws
      in if ''runner'' \<in> set ts \<or> ''runner-pending'' \<in> set ts then drop_runner ws s
         else if ''client'' \<in> set ts then
           (case getRunIdFromTags ts of
              None \<Rightarrow> s
            | Some runId \<Rightarrow>
                if runId = [] then s
                else (case map_of (clients s) runId of
                        None \<Rightarrow> s
                      | Some cs \<Rightarrow> if sdel ws cs = [] then s\<lparr>clients := jdel runId (clients s)\<rparr>
                                  else s\<lparr>clients := jset runId (sdel ws cs) (clients s)\<rparr>))
         else s)"

text \<open>The runtime reports a closed socket and drops it.\<close>

definition socket_gone :: "nat \<Rightarrow> coord \<Rightarrow> coord" where
  "socket_gone ws s = (let s1 = handleClose ws s in s1\<lparr>sockets := jdel ws (sockets s1)\<rparr>)"

end
