(* ===== verification/Job_Handlers.thy ===== *)
theory Job_Handlers
  imports Queue_Service
begin

text \<open>
  \<open>coordinator/handlers/jobs.ts\<close>: the Worker's requests to dispatch a queued scan, to command a
  running one, and to start or control a run directly. A response is its status and text; what
  throws out of a handler is the platform's 500. \<open>others\<close> is what other events do while
  \<open>DispatchHandler\<close> waits for R2 (0) and D1 (1).
\<close>

type_synonym response = "nat \<times> string"

definition thrown :: response where "thrown = (500, ''Internal Error'')"

section \<open>Dispatch\<close>

record dispatch_body =
  p_runId :: string
  p_configKey :: "string option"
  p_config :: "json option"
  p_userId :: "string option"
  p_userPublicKey :: "string option"

definition key_of :: "dispatch_body \<Rightarrow> string" where
  "key_of p = (case p_userPublicKey p of None \<Rightarrow> [] | Some k \<Rightarrow> k)"

definition choose_runner :: "env \<Rightarrow> dispatch_body \<Rightarrow> json \<Rightarrow> coord \<Rightarrow> nat option" where
  "choose_runner env p config s =
     (if auth_disabled env then find (hasCapacity s) (runners s)
      else let matchingPrivate = (if given (p_userId p)
                 then filter (\<lambda>r. \<not> isSharedRunner s r \<and> isRunnerOwnedBy (tags_of s r) (p_userId p)) (runners s) else []);
               runner = find (hasCapacity s) matchingPrivate
           in if runner = None \<and> matchingPrivate = [] \<and> \<not> given (p_userPublicKey p) \<and> \<not> refuses_shared config
              then find (\<lambda>r. isSharedRunner s r \<and> hasCapacity s r) (runners s)
              else runner)"

text \<open>From the status check on: no wait until the message is sent.\<close>

definition dispatch_to_runner :: "env \<Rightarrow> dispatch_body \<Rightarrow> json \<Rightarrow> coord \<Rightarrow> response \<times> coord" where
  "dispatch_to_runner env p config s0 =
     (let s = pruneDeadRunners s0; runId = p_runId p
      in if runners s = [] then ((503, ''No runners available''), s)
         else case choose_runner env p config s of
                None \<Rightarrow> ((503, ''No runner could accept job''), s)
              | Some ws \<Rightarrow>
                  (case assign_run ws runId
                          (Job_dispatch runId (configForRunner config (tags_of s ws) (ALLOW_PRIVATE_IPS env)) (key_of p)) s of
                     (True, s1) \<Rightarrow>
                       ((200, ''Dispatched''),
                        delete_config (p_configKey p) (clearScanState runId (recordJobRunner runId (runnerIdentity (tags_of s ws)) s1)))
                   | (False, s1) \<Rightarrow> ((500, ''Failed to send dispatch command to runner''), s1)))"

definition check_and_dispatch :: "env \<Rightarrow> (nat \<Rightarrow> coord \<Rightarrow> coord) \<Rightarrow> dispatch_body \<Rightarrow> json \<Rightarrow> coord \<Rightarrow> response \<times> coord" where
  "check_and_dispatch env others p config s =
     (let s1 = put (user_key_key (p_runId p)) (St_text (key_of p)) s;
          s2 = others 1 s1
      in if d1_down s1 then (thrown, s2)
         else if getScanStatus (db s1) (p_runId p) \<noteq> Some ''queued''
         then ((409, ''Scan not dispatchable''), delete_config (p_configKey p) (clearScanState (p_runId p) s2))
         else if has_job s2 (p_runId p) then ((200, ''Already dispatched''), s2)
         else dispatch_to_runner env p config s2)"

definition DispatchHandler :: "env \<Rightarrow> (nat \<Rightarrow> coord \<Rightarrow> coord) \<Rightarrow> dispatch_body option \<Rightarrow> coord \<Rightarrow> response \<times> coord" where
  "DispatchHandler env others body s = (case body of
     None \<Rightarrow> ((400, ''Invalid JSON payload''), s)
   | Some p \<Rightarrow>
       if p_runId p \<noteq> [] \<and> has_job s (p_runId p) then ((200, ''Already dispatched''), s)
       else if given (p_configKey p) then
         (let key = the (p_configKey p)
          in if \<not> isScanConfigKeyForRun key (p_runId p) then ((400, ''Invalid scan config key''), s)
             else case getScanConfig (r2_down s) (r2 s) key of
                    Inl _ \<Rightarrow> ((500, ''Failed to load scan config''), others 0 s)
                  | Inr config \<Rightarrow>
                      check_and_dispatch env others p config
                        (put (config_meta_key (p_runId p)) (St_meta (refuses_shared config))
                          (put (config_ref_key (p_runId p)) (St_text key) (others 0 s))))
       else let config = (case p_config p of Some c \<Rightarrow> if json_truthy c then c else JObj [] | None \<Rightarrow> JObj [])
            in check_and_dispatch env others (p\<lparr>p_configKey := None\<rparr>) config
                 (put (config_key (p_runId p)) (St_config config) s))"

section \<open>Commands\<close>

definition STOPPED_QUEUED :: ustring where
  "STOPPED_QUEUED = units ''The scan was stopped before a runner started it.''"
definition STOPPED :: ustring where "STOPPED = units ''The scan was stopped.''"

text \<open>Stopping a scan no runner holds.\<close>

definition stop_unassigned :: "string \<Rightarrow> coord \<Rightarrow> coord" where
  "stop_unassigned runId s =
     (if d1_down s then s
      else let reason = (if getScanStatus (db s) runId = Some ''queued'' then STOPPED_QUEUED else STOPPED);
               (marked, d) = markFailedIfActive runId (Some reason) (db s); s1 = s\<lparr>db := d\<rparr>
           in if marked
              then delete_config (text_at (storage s1) (config_ref_key runId)) (forgetJobRunner runId (clearScanState runId s1))
              else s1)"

definition CommandHandler :: "(string \<times> string) option \<Rightarrow> coord \<Rightarrow> response \<times> coord" where
  "CommandHandler body s = (case body of
     None \<Rightarrow> ((400, ''Invalid JSON payload''), s)
   | Some (runId, command) \<Rightarrow>
       if runId = [] then ((400, ''Missing runId''), s)
       else (case map_of (jobs s) runId of
               None \<Rightarrow> ((404, ''Runner not found for job''), if command = ''stop'' then stop_unassigned runId s else s)
             | Some ws \<Rightarrow>
                 if can_send s ws then ((200, ''Command sent''), send ws (Job_command runId command) s)
                 else (thrown, s)))"

section \<open>Direct runs\<close>

text \<open>A body without a configuration sends none; it is \<open>null\<close> here.\<close>

definition StartRunHandler :: "env \<Rightarrow> string option \<Rightarrow> json option \<Rightarrow> coord \<Rightarrow> response \<times> coord" where
  "StartRunHandler env run_param body s0 = (case run_param of
     None \<Rightarrow> ((400, ''Missing runId''), s0)
   | Some runId \<Rightarrow>
       if runId = [] then ((400, ''Missing runId''), s0)
       else let s = pruneDeadRunners s0
            in if runners s = [] then ((503, ''No runners available''), s)
               else case find (\<lambda>r. (auth_disabled env \<or> isSharedRunner s r) \<and> hasCapacity s r) (runners s) of
                      None \<Rightarrow> ((503, ''No shared runners available''), s)
                    | Some ws \<Rightarrow>
                        (case body of
                           None \<Rightarrow> ((400, ''Invalid JSON config''), s)
                         | Some parsed \<Rightarrow>
                             if parsed = JNull then ((400, ''Invalid JSON config''), s)
                             else (case assign_run ws runId
                                (Start_run runId (configForRunner (case jprop parsed ''config'' of Some c \<Rightarrow> c | None \<Rightarrow> JNull)
                                   (tags_of s ws) (ALLOW_PRIVATE_IPS env))) s of
                               (True, s1) \<Rightarrow> ((200, ''ok''), recordJobRunner runId (runnerIdentity (tags_of s ws)) s1)
                             | (False, s1) \<Rightarrow> ((500, ''Failed to send start command to runner''), s1))))"

definition ControlRunHandler :: "string option \<Rightarrow> string option \<Rightarrow> coord \<Rightarrow> response \<times> coord" where
  "ControlRunHandler run_param action s =
     (if \<not> given run_param \<or> \<not> given action then ((400, ''Missing runId or action''), s)
      else (case map_of (jobs s) (the run_param) of
              None \<Rightarrow> ((200, ''ok''), s)
            | Some ws \<Rightarrow> ((200, ''ok''), send ws (Control (the action) (the run_param)) s)))"

end
