(* ===== verification/Runner_Handlers.thy ===== *)
theory Runner_Handlers
  imports Ws_Handler Job_Handlers
begin

text \<open>
  \<open>coordinator/handlers/runners.ts\<close>, \<open>users.ts\<close> and \<open>connectClient.ts\<close>: connections come in,
  are listed, restarted and revoked.
\<close>

section \<open>Listing\<close>

definition tag_value :: "string \<Rightarrow> string \<Rightarrow> string list \<Rightarrow> string" where
  "tag_value prefix dflt ts = (case find (\<lambda>t. starts_with t prefix) ts of
     None \<Rightarrow> dflt | Some t \<Rightarrow> drop (length prefix) t)"

record runner_info =
  i_connectionId :: "string option"
  i_name :: string
  i_ownerId :: "string option"
  i_publicKey :: "string option"
  i_connected :: bool
  i_isShared :: bool
  i_version :: string
  i_activeJobs :: "string list"

definition describe :: "coord \<Rightarrow> nat \<Rightarrow> runner_info" where
  "describe s ws =
     (let ts = tags_of s ws
      in \<lparr>i_connectionId = (case att_of s ws of
            Attached a \<Rightarrow> if given (connectionId a) then connectionId a else None | _ \<Rightarrow> None),
          i_name = tag_value ''name:'' ''Unnamed Runner'' ts,
          i_ownerId = getRunnerOwnerId ts,
          i_publicKey = (case getPublicKeyFromTags ts of Some k \<Rightarrow> if k = [] then None else Some k | None \<Rightarrow> None),
          i_connected = (\<not> (''runner-pending'' \<in> set ts \<and> ws \<notin> set (runners s))),
          i_isShared = isSharedRunnerTags ts,
          i_version = tag_value ''version:'' ''v0.0.0'' ts,
          i_activeJobs = active_of s ws\<rparr>)"

definition RunnersHandler :: "coord \<Rightarrow> runner_info list \<times> coord" where
  "RunnersHandler s0 = (let s = pruneDeadRunners s0
     in (map (describe s) (uniq (runners s @ jkeys (pendingChallenges s))), s))"

text \<open>
  What the Worker shows a user of that list (\<open>services/runners.ts\<close>): their own runners in full,
  shared runners by name, status and version, and no one else's.
\<close>

datatype visible_runner =
    Mine runner_info
  | Shared_one string bool string

definition filterRunnersForUser :: "runner_info list \<Rightarrow> string \<Rightarrow> visible_runner list" where
  "filterRunnersForUser rs userId = List.map_filter (\<lambda>r.
     if given (i_ownerId r) \<and> i_ownerId r = Some userId then Some (Mine r)
     else if i_isShared r then Some (Shared_one (i_name r) (i_connected r) (i_version r))
     else None) rs"

section \<open>Restart and revocation\<close>

definition RestartRunnerHandler :: "env \<Rightarrow> string option \<Rightarrow> string option \<Rightarrow> coord \<Rightarrow> response \<times> coord" where
  "RestartRunnerHandler env connection userId s =
     (if \<not> given connection then ((400, ''Missing connectionId''), s)
      else case find (\<lambda>ws. case att_of s ws of Attached a \<Rightarrow> connectionId a = connection | _ \<Rightarrow> False) (runners s) of
             None \<Rightarrow> ((404, ''Runner not found''), s)
           | Some ws \<Rightarrow>
               if isSharedRunnerTags (tags_of s ws) then ((403, ''Forbidden: Shared runners cannot be restarted''), s)
               else if \<not> auth_disabled env \<and> \<not> isRunnerOwnedBy (tags_of s ws) userId
               then ((403, ''Forbidden: You do not own this runner''), s)
               else if can_send s ws then ((200, ''Restart command sent''), send ws Agent_restart s)
               else ((500, ''Failed to send restart command''), s))"

definition revoke_socket :: "string \<Rightarrow> nat \<Rightarrow> coord \<Rightarrow> coord" where
  "revoke_socket userIdTag ws s =
     (if userIdTag \<in> set (tags_of s ws) then del_runner ws (close_ws ws s) else s)"

definition RevokeUserHandler :: "string option \<Rightarrow> coord \<Rightarrow> response \<times> coord" where
  "RevokeUserHandler userId s =
     (if \<not> given userId then ((400, ''Missing userId''), s)
      else let userIdTag = ''user_id:'' @ the userId;
               s1 = fold (revoke_socket userIdTag) (jkeys (sockets s)) s
           in ((200, ''ok''), s1\<lparr>sseStreams := filter (\<lambda>e. snd e \<noteq> the userId) (sseStreams s1)\<rparr>))"

section \<open>Connecting\<close>

record connect_params =
  c_publicKey :: "string option"
  c_shared :: bool
  c_userId :: "string option"
  c_name :: "string option"
  c_version :: "string option"
  c_heartbeat :: bool
  c_resume :: "string option"

definition or_else :: "string option \<Rightarrow> string \<Rightarrow> string" where
  "or_else v d = (if given v then the v else d)"

definition accept_socket :: "nat \<Rightarrow> string list \<Rightarrow> attachment \<Rightarrow> coord \<Rightarrow> coord" where
  "accept_socket ws ts a s =
     s\<lparr>sockets := sockets s @ [(ws, \<lparr>tags = ts, att = Attached a, is_open = True, outbox = [], pong_at = None\<rparr>)],
      next_socket := Suc (next_socket s)\<rparr>"

definition connect_keyed :: "env \<Rightarrow> connect_params \<Rightarrow> string \<Rightarrow> string \<Rightarrow> coord \<Rightarrow> coord" where
  "connect_keyed env c publicKey userId s =
     (let ws = next_socket s;
          n = new_id env (ids_drawn s);
          claims = parseResumeParam (c_resume c);
          a = empty_attachment\<lparr>nonce := Some n, connectionId := Some (new_id env (Suc (ids_drawn s))),
                heartbeat := c_heartbeat c, connectedAt := (if c_heartbeat c then Some (now s) else None),
                resume := (if claims = [] then None else Some claims)\<rparr>;
          s1 = accept_socket ws (keyed_tags publicKey (or_else (c_name c) ''Unnamed Runner'') (or_else (c_version c) ''v1.0.0'') userId) a s
      in send ws (Challenge n)
           (s1\<lparr>pendingChallenges := jset ws n (pendingChallenges s1), ids_drawn := ids_drawn s1 + 2\<rparr>))"

definition connect_token :: "env \<Rightarrow> connect_params \<Rightarrow> string \<Rightarrow> coord \<Rightarrow> coord" where
  "connect_token env c userId s =
     (let ws = next_socket s;
          a = empty_attachment\<lparr>authenticated := True, connectionId := Some (new_id env (ids_drawn s)),
                heartbeat := c_heartbeat c, connectedAt := (if c_heartbeat c then Some (now s) else None)\<rparr>;
          s1 = accept_socket ws (token_tags (c_shared c) (or_else (c_name c) ''Unnamed Runner'') (or_else (c_version c) ''v1.0.0'') userId) a s;
          s2 = s1\<lparr>runners := sadd ws (runners s1), ids_drawn := Suc (ids_drawn s1)\<rparr>
      in case resumeRuns quiet ws (Some (parseResumeParam (c_resume c))) s2 of
           (Inl _, s3) \<Rightarrow> s3
         | (Inr _, s3) \<Rightarrow> dispatch_queued env ws s3)"

definition ConnectRunnerHandler :: "env \<Rightarrow> connect_params \<Rightarrow> coord \<Rightarrow> coord" where
  "ConnectRunnerHandler env c s0 =
     (let s = pruneDeadRunners s0;
          userId = (if c_shared c then [] else or_else (c_userId c) [])
      in if given (c_publicKey c) then connect_keyed env c (the (c_publicKey c)) userId s
         else connect_token env c userId s)"

text \<open>The five seconds a keyed runner has to prove its key are over.\<close>

definition auth_timeout :: "nat \<Rightarrow> coord \<Rightarrow> coord" where
  "auth_timeout ws s = (if ws \<in> set (runners s) then s else close_ws ws s)"

text \<open>A dashboard connecting after its scan ended is told so at once.\<close>

definition ended_event :: "runtime \<Rightarrow> scan_row \<Rightarrow> scans_db \<Rightarrow> json option \<times> scans_db" where
  "ended_event r scan d =
     (let stats = (case s_summary scan of Some v \<Rightarrow> if json_truthy v then v else JObj [] | None \<Rightarrow> JObj [])
      in if s_status scan = ''completed''
         then (Some (JObj [(units ''type'', JStr (units ''complete'')), (units ''data'', stats)]), d)
         else if s_status scan = ''failed'' then
           (case getFailureReason r (s_id scan) d of
              (None, d1) \<Rightarrow> (None, d1)
            | (Some reason, d1) \<Rightarrow>
                (Some (JObj [(units ''type'', JStr (units ''error'')),
                   (units ''data'', JObj (set_prop ''message''
                      (JStr (case reason of Some t \<Rightarrow> t | None \<Rightarrow> UNKNOWN_FAILURE)) (entries stats)))]), d1))
         else (None, d))"

definition ConnectClientHandler :: "env \<Rightarrow> string option \<Rightarrow> coord \<Rightarrow> response \<times> coord" where
  "ConnectClientHandler env run_param s =
     (if \<not> given run_param then ((400, ''Missing runId''), s)
      else let runId = the run_param;
               ws = next_socket s;
               s1 = add_client runId ws (accept_socket ws [''client'', runId] empty_attachment s)
           in if d1_down s1 then (thrown, s1)
              else case getScan (db s1) runId of
                     None \<Rightarrow> ((101, []), s1)
                   | Some scan \<Rightarrow>
                       (let (m, d) = ended_event (js_rt env) scan (db s1); s2 = s1\<lparr>db := d\<rparr>
                        in ((101, []), case m of None \<Rightarrow> s2 | Some j \<Rightarrow> send ws (Client_event j) s2)))"

end
