(* ===== verification/Watchdog.thy ===== *)
theory Watchdog
  imports Ws_Handler
begin

text \<open>
  \<open>coordinator/watchdog.ts\<close>: ending scans whose runner went away or hangs. A pass looks at the
  candidates D1 lists; when each was first seen without a runner is kept in the object's storage.
\<close>

definition STALLED_IDLE_MINUTES :: nat where "STALLED_IDLE_MINUTES = 10"
definition UNOWNED_GRACE_MS :: int where "UNOWNED_GRACE_MS = 300000"
definition SILENT_OWNED_MINUTES :: nat where "SILENT_OWNED_MINUTES = 60"
definition WATCHDOG_BATCH :: nat where "WATCHDOG_BATCH = 50"
definition UNOWNED_SINCE_KEY :: string where "UNOWNED_SINCE_KEY = ''watchdog_unowned_since''"

definition STALLED_SCAN_MESSAGE :: ustring where
  "STALLED_SCAN_MESSAGE =
     units ''The runner executing this scan stopped responding, and no runner took the scan over. Start the scan again once a runner is connected (Settings '' @
     [0x2192] @ units '' Runners).''"

definition SILENT_SCAN_MESSAGE :: ustring where
  "SILENT_SCAN_MESSAGE =
     units ''The scan reported no progress for 60 minutes, so it was stopped. Start it again; if this keeps happening, update the runner.''"

definition times_at :: "(string \<times> stored) list \<Rightarrow> (string \<times> int) list" where
  "times_at st = (case map_of st UNOWNED_SINCE_KEY of Some (St_times m) \<Rightarrow> m | _ \<Rightarrow> [])"

definition end_body :: "string \<Rightarrow> ustring \<Rightarrow> body" where
  "end_body runId reason =
     \<lparr>b_scan = runId, b_type = Some (JStr (units ''error'')),
      b_payload = Some (JObj [(units ''error'', JStr reason)]), b_exec = None, b_seq = None\<rparr>"

definition endScan :: "env \<Rightarrow> string \<Rightarrow> ustring \<Rightarrow> (coord, bool) comp" where
  "endScan env runId reason s =
     (if d1_down s then (Inl TypeError, s)
      else let status = getScanStatus (db s) runId
           in if status \<noteq> Some ''dispatched'' \<and> status \<noteq> Some ''paused'' then (Inr False, s)
              else case processFindingsQueueMessages (js_rt env) [end_body runId reason] (db s) of
                     (Inl e, d) \<Rightarrow> (Inl e, s\<lparr>db := d\<rparr>)
                   | (Inr ended, d) \<Rightarrow>
                       if runId \<notin> set ended then (Inr False, s\<lparr>db := d\<rparr>)
                       else (Inr True, broadcast runId (error_event reason)
                                (forgetJobRunner runId (clearScanState runId (s\<lparr>db := d\<rparr>)))))"

definition stopOnRunner :: "nat \<Rightarrow> string \<Rightarrow> coord \<Rightarrow> coord" where
  "stopOnRunner ws runId s = releaseJob ws runId (del_job runId (send ws (Job_command runId ''stop'') s))"

record watching =
  w_since :: "(string \<times> int) list"
  w_failed :: "string list"

definition watch_one :: "env \<Rightarrow> (string \<times> int) list \<Rightarrow> string \<times> string \<times> int \<Rightarrow> watching \<times> coord \<Rightarrow> watching \<times> coord" where
  "watch_one env stored c st =
     (let (scanId, status, idle) = c; (w, s) = st
      in case map_of (jobs s) scanId of
           Some ws \<Rightarrow>
             if status = ''dispatched'' \<and> int SILENT_OWNED_MINUTES \<le> idle then
               (case endScan env scanId SILENT_SCAN_MESSAGE s of
                  (Inr True, s1) \<Rightarrow> (w\<lparr>w_failed := w_failed w @ [scanId]\<rparr>, stopOnRunner ws scanId s1)
                | (_, s1) \<Rightarrow> (w, s1))
             else (w, s)
         | None \<Rightarrow>
             let since = (case map_of stored scanId of Some t \<Rightarrow> t | None \<Rightarrow> now s)
             in if now s - since < UNOWNED_GRACE_MS then (w\<lparr>w_since := jset scanId since (w_since w)\<rparr>, s)
                else (case endScan env scanId STALLED_SCAN_MESSAGE s of
                        (Inr True, s1) \<Rightarrow> (w\<lparr>w_failed := w_failed w @ [scanId]\<rparr>, s1)
                      | (_, s1) \<Rightarrow> (w, s1)))"

definition candidates :: "coord \<Rightarrow> (string \<times> string \<times> int) list" where
  "candidates s = getStalledActiveScans STALLED_IDLE_MINUTES WATCHDOG_BATCH (jkeys (jobs s)) SILENT_OWNED_MINUTES (db s)"

definition failStalledScans :: "env \<Rightarrow> (coord, string list) comp" where
  "failStalledScans env s0 =
     (let s = pruneDeadRunners s0
      in if d1_down s then (Inl TypeError, s)
         else let stored = times_at (storage s);
                  (w, s1) = fold (watch_one env stored) (candidates s) (\<lparr>w_since = [], w_failed = []\<rparr>, s)
              in (Inr (w_failed w),
                  if w_since w \<noteq> [] then put UNOWNED_SINCE_KEY (St_times (w_since w)) s1
                  else if stored \<noteq> [] then del_keys [UNOWNED_SINCE_KEY] s1 else s1))"

end
