(* ===== verification/Request_Handlers.thy ===== *)
theory Request_Handlers
  imports Runner_Handlers Watchdog
begin

text \<open>
  The remaining handlers of the coordinator (\<open>handlers/oob.ts\<close>, \<open>parse.ts\<close>, \<open>sse.ts\<close>) and the
  routes of \<open>RequestHandler.ts\<close>.
\<close>

section \<open>Out-of-band callbacks\<close>

definition LATE_OOB_RETRY_WINDOW_MS :: int where "LATE_OOB_RETRY_WINDOW_MS = 120000"
definition LATE_OOB_RETRIES :: nat where "LATE_OOB_RETRIES = 2"
definition MAX_LATE_OOB_RETRIES :: nat where "MAX_LATE_OOB_RETRIES = 100"

text \<open>
  The first lookup, and how many more are scheduled when it finds nothing; a failed read ends it.
  \<open>oobRetries\<close> holds the callbacks still being retried and the lookups they have left.
\<close>

definition recordLateCallback :: "string \<Rightarrow> string \<Rightarrow> bool \<Rightarrow> coord \<Rightarrow> coord" where
  "recordLateCallback runId uuid retry s =
     (if d1_down s then s
      else case recordLateOobCallback runId uuid (db s) of
             (True, d) \<Rightarrow> s\<lparr>db := d\<rparr>
           | (False, d) \<Rightarrow>
               if \<not> retry \<or> MAX_LATE_OOB_RETRIES \<le> length (oobRetries s) then s\<lparr>db := d\<rparr>
               else s\<lparr>db := d, oobRetries := oobRetries s @ [(runId, uuid, LATE_OOB_RETRIES)]\<rparr>)"

definition oob_retry :: "nat \<Rightarrow> coord \<Rightarrow> coord" where
  "oob_retry i s =
     (if i < length (oobRetries s) then
        (let (runId, uuid, left) = oobRetries s ! i;
             rest = take i (oobRetries s) @ drop (Suc i) (oobRetries s)
         in if d1_down s then s\<lparr>oobRetries := rest\<rparr>
            else case recordLateOobCallback runId uuid (db s) of
                   (True, d) \<Rightarrow> s\<lparr>db := d, oobRetries := rest\<rparr>
                 | (False, d) \<Rightarrow> s\<lparr>db := d, oobRetries := (if left \<le> 1 then rest else (oobRetries s)[i := (runId, uuid, left - 1)])\<rparr>)
      else s)"

definition OobHandler :: "string \<Rightarrow> coord \<Rightarrow> response \<times> coord" where
  "OobHandler pathname s =
     (let parts = split_on (CHR ''/'') pathname
      in if length parts < 4 then ((400, ''Invalid path''), s)
         else let runId = parts ! 2; uuid = parts ! 3;
                  s1 = (case map_of (jobs s) runId of None \<Rightarrow> s | Some ws \<Rightarrow> send ws (Oob_trigger runId uuid) s);
                  s2 = (if isValidId runId \<and> isValidId uuid
                        then recordLateCallback runId uuid (oobHandedOverWithin s1 runId LATE_OOB_RETRY_WINDOW_MS) s1 else s1)
              in ((200, ''swazz-oob-received''), s2))"

section \<open>Parse requests\<close>

definition swaggerCacheKey :: "string option \<Rightarrow> string \<Rightarrow> string" where
  "swaggerCacheKey userId u = ''user:'' @ or_else userId ''anonymous'' @ ''|'' @ u"

definition UNCACHED_PARSE :: string where "UNCACHED_PARSE = ''rawSpec''"

record parse_body =
  q_url :: "string option"
  q_rawSpec :: "string option"
  q_forceRebuild :: bool
  q_userId :: "string option"
  q_headers :: "(string \<times> string) list"
  q_cookies :: "(string \<times> string) list"

definition isCacheableParse :: "parse_body \<Rightarrow> bool \<Rightarrow> bool" where
  "isCacheableParse q authDisabled = (\<not> (q_headers q \<noteq> [] \<or> q_cookies q \<noteq> []) \<and> (authDisabled \<or> given (q_userId q)))"

definition choose_parser :: "env \<Rightarrow> parse_body \<Rightarrow> coord \<Rightarrow> nat option" where
  "choose_parser env q s =
     (let own = (if auth_disabled env then (case runners s of [] \<Rightarrow> None | r # _ \<Rightarrow> Some r)
                 else if given (q_userId q)
                 then find (\<lambda>r. \<not> isSharedRunner s r \<and> isRunnerOwnedBy (tags_of s r) (q_userId q)) (runners s)
                 else None)
      in if own = None then find (isSharedRunner s) (runners s) else own)"

text \<open>\<open>cached key\<close>: whether the cache and R2 hold a parsed specification under the key.\<close>

definition ParseHandler :: "env \<Rightarrow> (string \<Rightarrow> bool) \<Rightarrow> parse_body option \<Rightarrow> coord \<Rightarrow> response \<times> coord" where
  "ParseHandler env cached body s = (case body of
     None \<Rightarrow> ((400, ''Invalid JSON body''), s)
   | Some q \<Rightarrow>
       if \<not> given (q_url q) \<and> \<not> given (q_rawSpec q) then ((400, ''Missing required parameter: url or rawSpec''), s)
       else let cacheable = (given (q_url q) \<and> isCacheableParse q (auth_disabled env));
                key = swaggerCacheKey (q_userId q) (or_else (q_url q) [])
            in if cacheable \<and> \<not> q_forceRebuild q \<and> \<not> d1_down s \<and> cached key then ((200, ''cached''), s)
               else if runners s = [] then ((503, ''No active runners connected to Coordinator''), s)
               else let reqId = new_id env (ids_drawn s); s1 = s\<lparr>ids_drawn := Suc (ids_drawn s)\<rparr>
                    in case choose_parser env q s1 of
                         None \<Rightarrow> ((503, ''No compatible runner connected to Coordinator''), s1)
                       | Some ws \<Rightarrow>
                           if \<not> can_send s1 ws then ((500, ''Failed to send parse request to runner''), s1)
                           else ((0, ''pending''),
                                 send ws (Parse_request reqId (units (or_else (q_url q) [])))
                                   (s1\<lparr>pendingParseUrls := jset reqId (if cacheable then key else UNCACHED_PARSE) (pendingParseUrls s1),
                                       pendingParseRunners := jset reqId ws (pendingParseRunners s1),
                                       pendingParses := sadd reqId (pendingParses s1)\<rparr>)))"

definition parse_timeout :: "string \<Rightarrow> coord \<Rightarrow> coord" where
  "parse_timeout reqId s =
     (if reqId \<in> set (pendingParses s)
      then s\<lparr>pendingParses := sdel reqId (pendingParses s), pendingParseUrls := jdel reqId (pendingParseUrls s),
             pendingParseRunners := jdel reqId (pendingParseRunners s)\<rparr>
      else s)"

section \<open>Server-sent events\<close>

definition ownedStream :: "coord \<Rightarrow> string option \<Rightarrow> string option \<Rightarrow> response + string" where
  "ownedStream s connection userId =
     (if \<not> given connection then Inl (400, ''Missing connectionId'')
      else if \<not> given userId \<or> map_of (sseStreams s) (the connection) \<noteq> userId then Inl (404, ''Connection not found'')
      else Inr (the connection))"

definition enqueue :: "string \<Rightarrow> string \<Rightarrow> coord \<Rightarrow> coord" where
  "enqueue connection text s = s\<lparr>sse_sent := sse_sent s @ [(connection, text)]\<rparr>"

definition SseHandler :: "string option \<Rightarrow> string option \<Rightarrow> string \<Rightarrow> coord \<Rightarrow> response \<times> coord" where
  "SseHandler connection userId origin s =
     (if \<not> given connection then ((400, ''Missing connectionId''), s)
      else if \<not> given userId then ((400, ''Missing userId''), s)
      else ((200, []),
            enqueue (the connection) (origin @ ''/api/mcp/message?connectionId='' @ the connection)
              (s\<lparr>sseStreams := jset (the connection) (the userId) (sseStreams s)\<rparr>)))"

definition sse_cancel :: "string \<Rightarrow> coord \<Rightarrow> coord" where
  "sse_cancel connection s = s\<lparr>sseStreams := jdel connection (sseStreams s)\<rparr>"

definition SseOwnerHandler :: "string option \<Rightarrow> string option \<Rightarrow> coord \<Rightarrow> response \<times> coord" where
  "SseOwnerHandler connection userId s =
     ((case ownedStream s connection userId of Inl r \<Rightarrow> r | Inr _ \<Rightarrow> (204, [])), s)"

text \<open>\<open>shut\<close>: the stream's controller refuses the message.\<close>

definition SseSendHandler :: "bool \<Rightarrow> string option \<Rightarrow> string option \<Rightarrow> string \<Rightarrow> coord \<Rightarrow> response \<times> coord" where
  "SseSendHandler shut connection userId body s = (case ownedStream s connection userId of
     Inl r \<Rightarrow> (r, s)
   | Inr c \<Rightarrow> if shut then ((410, ''Connection closed''), sse_cancel c s) else ((200, ''Sent''), enqueue c body s))"

section \<open>Routes\<close>

text \<open>The requests the Worker makes of the object; any other path is answered with 404.\<close>

datatype object_request =
    Sse "string option" "string option" string
  | Sse_send bool "string option" "string option" string
  | Sse_owner "string option" "string option"
  | Revoke_user "string option"
  | Dispatch "dispatch_body option"
  | Command "(string \<times> string) option"
  | Parse "string list" "parse_body option"
  | Start "string option" "json option"
  | Control_run "string option" "string option"
  | List_runners
  | Restart_runner "string option" "string option"
  | Connect_runner connect_params
  | Connect_client "string option"
  | Oob string
  | Watchdog_pass
  | Unknown_path

definition undisturbed :: "nat \<Rightarrow> coord \<Rightarrow> coord" where
  "undisturbed k s = s"

fun handle_request :: "env \<Rightarrow> object_request \<Rightarrow> coord \<Rightarrow> response \<times> coord" where
  "handle_request env (Sse c u origin) s = SseHandler c u origin s"
| "handle_request env (Sse_send shut c u body) s = SseSendHandler shut c u body s"
| "handle_request env (Sse_owner c u) s = SseOwnerHandler c u s"
| "handle_request env (Revoke_user u) s = RevokeUserHandler u s"
| "handle_request env (Dispatch p) s = DispatchHandler env undisturbed p s"
| "handle_request env (Command p) s = CommandHandler p s"
| "handle_request env (Parse cached q) s = ParseHandler env (\<lambda>k. k \<in> set cached) q s"
| "handle_request env (Start r body) s = StartRunHandler env r body s"
| "handle_request env (Control_run r a) s = ControlRunHandler r a s"
| "handle_request env List_runners s = ((200, ''runners''), snd (RunnersHandler s))"
| "handle_request env (Restart_runner c u) s = RestartRunnerHandler env c u s"
| "handle_request env (Connect_runner c) s = ((101, []), ConnectRunnerHandler env c s)"
| "handle_request env (Connect_client r) s = ConnectClientHandler env r s"
| "handle_request env (Oob path) s = OobHandler path s"
| "handle_request env Watchdog_pass s =
     (case failStalledScans env s of (Inl _, s') \<Rightarrow> (thrown, s') | (Inr xs, s') \<Rightarrow> ((200, show_nat (length xs)), s'))"
| "handle_request env Unknown_path s = ((404, ''Not found''), s)"

end
