(* ===== verification/Coord_Inv.thy ===== *)
theory Coord_Inv
  imports Request_Handlers
begin

text \<open>
  The coordinator's safety invariant, and what any operation may do to the state while another one
  waits: sockets keep their tags, scans keep their users. Each operation is shown to lead from a
  state that satisfies the invariant to one that does, within those bounds, so that the rules
  compose along a handler as its code does.
\<close>

named_theorems leads_rules \<open>operations that keep the invariant\<close>

section \<open>The invariant\<close>

text \<open>Whether a message may have been sent to a socket with these tags.\<close>

definition owner_matches :: "scans_db \<Rightarrow> string list \<Rightarrow> string \<Rightarrow> bool" where
  "owner_matches d ts runId = (\<exists>sc. getScan d runId = Some sc \<and> isRunnerOwnedBy ts (s_user sc))"

fun proper_wire :: "env \<Rightarrow> scans_db \<Rightarrow> string list \<Rightarrow> wire \<Rightarrow> bool" where
  "proper_wire env d ts (Job_dispatch runId config key) =
     ((auth_disabled env \<or> isSharedRunnerTags ts \<or> owner_matches d ts runId) \<and>
      (isSharedRunnerTags ts \<and> ALLOW_PRIVATE_IPS env \<noteq> Some ''true'' \<longrightarrow> \<not> go_allows_private_ips config))"
| "proper_wire env d ts (Start_run runId config) =
     ((auth_disabled env \<or> isSharedRunnerTags ts) \<and>
      (isSharedRunnerTags ts \<and> ALLOW_PRIVATE_IPS env \<noteq> Some ''true'' \<longrightarrow> \<not> go_allows_private_ips config))"
| "proper_wire env d ts _ = True"

definition within_capacity :: "raw_attachment \<Rightarrow> bool" where
  "within_capacity r = (case r of
     Attached a \<Rightarrow> length (listed (activeJobs a)) \<le> MAX_ACTIVE_JOBS_PER_RUNNER | _ \<Rightarrow> True)"

definition proper_socket :: "env \<Rightarrow> scans_db \<Rightarrow> socket \<Rightarrow> bool" where
  "proper_socket env d k = (within_capacity (att k) \<and> (\<forall>m \<in> set (outbox k). proper_wire env d (tags k) m))"

definition coord_inv :: "env \<Rightarrow> coord \<Rightarrow> bool" where
  "coord_inv env s =
     (jwf (sockets s) \<and> distinct (map s_id (scans (db s))) \<and>
      (\<forall>(ws, k) \<in> set (sockets s). ws < next_socket s \<and> proper_socket env (db s) k))"

definition users_kept :: "scans_db \<Rightarrow> scans_db \<Rightarrow> bool" where
  "users_kept d d' =
     ((\<forall>i sc. getScan d i = Some sc \<longrightarrow> (\<exists>sc'. getScan d' i = Some sc' \<and> s_user sc' = s_user sc)) \<and>
      (distinct (map s_id (scans d)) \<longrightarrow> distinct (map s_id (scans d'))))"

definition evolves :: "coord \<Rightarrow> coord \<Rightarrow> bool" where
  "evolves s s' =
     (next_socket s \<le> next_socket s' \<and> users_kept (db s) (db s') \<and>
      (\<forall>ws k'. ws < next_socket s \<longrightarrow> socket_of s' ws = Some k' \<longrightarrow>
         (\<exists>k. socket_of s ws = Some k \<and> tags k' = tags k)))"

definition leads :: "env \<Rightarrow> coord \<Rightarrow> coord \<Rightarrow> bool" where
  "leads env s s' = (coord_inv env s' \<and> evolves s s')"

lemma users_kept_refl [simp]: "users_kept d d"
  by (simp add: users_kept_def)

lemma users_kept_trans: "users_kept a b \<Longrightarrow> users_kept b c \<Longrightarrow> users_kept a c"
  unfolding users_kept_def by (metis (no_types, lifting))

lemma users_kept_rows: "rows_step d d' \<Longrightarrow> users_kept d d'"
  unfolding users_kept_def using rows_step_getScan rows_step_ids by (fastforce simp: row_step_def)

lemma evolves_refl [simp]: "evolves s s"
  by (simp add: evolves_def)

lemma evolves_trans:
  assumes "evolves a b" "evolves b c"
  shows "evolves a c"
proof -
  have "\<exists>k. socket_of a ws = Some k \<and> tags k' = tags k" if ws: "ws < next_socket a" and c: "socket_of c ws = Some k'" for ws k'
  proof -
    from ws assms(1) have "ws < next_socket b" by (simp add: evolves_def)
    with c assms(2) obtain k where k: "socket_of b ws = Some k" "tags k' = tags k" unfolding evolves_def by blast
    with ws assms(1) obtain k0 where "socket_of a ws = Some k0" "tags k = tags k0" unfolding evolves_def by blast
    with k(2) show ?thesis by simp
  qed
  then show ?thesis using assms users_kept_trans unfolding evolves_def by (meson order_trans)
qed

lemma leads_refl: "coord_inv env s \<Longrightarrow> leads env s s"
  by (simp add: leads_def)

lemma leads_trans: "leads env a b \<Longrightarrow> leads env b c \<Longrightarrow> leads env a c"
  using evolves_trans by (auto simp: leads_def)

lemma leads_inv: "leads env a s \<Longrightarrow> coord_inv env s"
  by (simp add: leads_def)

lemma proper_wire_mono: "users_kept d d' \<Longrightarrow> proper_wire env d ts m \<Longrightarrow> proper_wire env d' ts m"
proof (cases m)
  case (Job_dispatch i c k)
  assume "users_kept d d'"
  then have "owner_matches d ts i \<Longrightarrow> owner_matches d' ts i" unfolding owner_matches_def users_kept_def by metis
  moreover assume "proper_wire env d ts m"
  ultimately show ?thesis using Job_dispatch by auto
qed auto

lemma proper_socket_mono: "users_kept d d' \<Longrightarrow> proper_socket env d k \<Longrightarrow> proper_socket env d' k"
  unfolding proper_socket_def using proper_wire_mono by blast

section \<open>Rules\<close>

lemma leads_same:
  assumes "leads env a s" "sockets s' = sockets s" "db s' = db s" "next_socket s' = next_socket s"
  shows "leads env a s'"
proof -
  have "coord_inv env s' = coord_inv env s" unfolding coord_inv_def assms(2-4) ..
  moreover have "evolves a s' = evolves a s" unfolding evolves_def socket_of_def assms(2-4) ..
  ultimately show ?thesis using assms(1) by (simp add: leads_def)
qed

lemma leads_fields [leads_rules]:
  assumes "leads env a s"
  shows "leads env a (s\<lparr>runners := x1\<rparr>)" "leads env a (s\<lparr>clients := x2\<rparr>)" "leads env a (s\<lparr>jobs := x3\<rparr>)"
    "leads env a (s\<lparr>pendingChallenges := x4\<rparr>)" "leads env a (s\<lparr>pendingParses := x5\<rparr>)"
    "leads env a (s\<lparr>pendingParseUrls := x6\<rparr>)" "leads env a (s\<lparr>pendingParseRunners := x7\<rparr>)"
    "leads env a (s\<lparr>sseStreams := x8\<rparr>)" "leads env a (s\<lparr>oobHandOvers := x9\<rparr>)" "leads env a (s\<lparr>storage := x10\<rparr>)"
    "leads env a (s\<lparr>r2 := x11\<rparr>)" "leads env a (s\<lparr>ids_drawn := x12\<rparr>)" "leads env a (s\<lparr>findings_queue := x13\<rparr>)"
    "leads env a (s\<lparr>delivery := x14\<rparr>)" "leads env a (s\<lparr>tasks := x15\<rparr>)" "leads env a (s\<lparr>oobRetries := x16\<rparr>)"
    "leads env a (s\<lparr>sse_sent := x17\<rparr>)" "leads env a (s\<lparr>now := x18\<rparr>)" "leads env a (s\<lparr>d1_down := x19\<rparr>)"
    "leads env a (s\<lparr>r2_down := x20\<rparr>)" "leads env a (s\<lparr>queue_down := x21\<rparr>)"
  by (rule leads_same [OF assms]; simp)+

lemma leads_db:
  assumes "leads env a s" "users_kept (db s) d"
  shows "leads env a (s\<lparr>db := d\<rparr>)"
proof -
  from assms have "distinct (map s_id (scans d))" by (simp add: leads_def coord_inv_def users_kept_def)
  then show ?thesis
    using assms proper_socket_mono [OF assms(2)] users_kept_trans
    by (fastforce simp: leads_def coord_inv_def evolves_def socket_of_def)
qed

lemma leads_rows: "leads env a s \<Longrightarrow> rows_step (db s) d \<Longrightarrow> leads env a (s\<lparr>db := d\<rparr>)"
  by (blast intro: leads_db users_kept_rows)

lemma leads_on_db [leads_rules]: "leads env a s \<Longrightarrow> (\<And>d. users_kept d (f d)) \<Longrightarrow> leads env a (on_db f s)"
  by (simp add: on_db_def leads_db)

lemma leads_set_socket:
  assumes "leads env a s"
    and "\<And>k. socket_of s ws = Some k \<Longrightarrow> proper_socket env (db s) k \<Longrightarrow> tags (f k) = tags k \<and> proper_socket env (db s) (f k)"
  shows "leads env a (set_socket ws f s)"
proof (cases "socket_of s ws")
  case None
  with assms(1) show ?thesis by (simp add: set_socket_def)
next
  case (Some k)
  let ?s = "s\<lparr>sockets := jset ws (f k) (sockets s)\<rparr>"
  have inv: "coord_inv env s" by (rule leads_inv [OF assms(1)])
  have mem: "(ws, k) \<in> set (sockets s)" using Some by (auto simp: socket_of_def dest: map_of_SomeD)
  with inv have k: "ws < next_socket s" "proper_socket env (db s) k" by (auto simp: coord_inv_def)
  have fk: "tags (f k) = tags k" "proper_socket env (db s) (f k)" using assms(2) [OF Some k(2)] by auto
  have "coord_inv env ?s"
    using inv k fk set_jset [of ws "f k" "sockets s"] unfolding coord_inv_def by fastforce
  moreover have "evolves s ?s"
    using fk(1) Some by (auto simp: evolves_def socket_of_def)
  ultimately show ?thesis
    using assms(1) evolves_trans Some by (auto simp: leads_def set_socket_def)
qed

fun harmless :: "wire \<Rightarrow> bool" where
  "harmless (Job_dispatch _ _ _) = False"
| "harmless (Start_run _ _) = False"
| "harmless _ = True"

lemma harmless_proper: "harmless m \<Longrightarrow> proper_wire env d ts m"
  by (cases m) auto

lemma leads_send_proper:
  "leads env a s \<Longrightarrow> (can_send s ws \<Longrightarrow> proper_wire env (db s) (tags_of s ws) m) \<Longrightarrow> leads env a (send ws m s)"
  by (auto simp: send_def proper_socket_def tags_of_def intro!: leads_set_socket)

lemma leads_send [leads_rules]: "leads env a s \<Longrightarrow> harmless m \<Longrightarrow> leads env a (send ws m s)"
  by (rule leads_send_proper) (simp_all add: harmless_proper)

lemma leads_close [leads_rules]: "leads env a s \<Longrightarrow> leads env a (close_ws ws s)"
  by (auto simp: close_ws_def proper_socket_def intro!: leads_set_socket)

lemma leads_set_att [leads_rules]:
  "leads env a s \<Longrightarrow> length (listed (activeJobs x)) \<le> MAX_ACTIVE_JOBS_PER_RUNNER \<Longrightarrow> leads env a (set_att ws x s)"
  by (auto simp: set_att_def proper_socket_def within_capacity_def intro!: leads_set_socket)

lemma read_att_capacity:
  assumes "coord_inv env s" "read_att s ws = Some a"
  shows "length (listed (activeJobs a)) \<le> MAX_ACTIVE_JOBS_PER_RUNNER"
proof (cases "socket_of s ws")
  case None
  with assms(2) show ?thesis by (auto simp: read_att_def att_of_def empty_attachment_def listed_def)
next
  case (Some k)
  then have "(ws, k) \<in> set (sockets s)" by (auto simp: socket_of_def dest: map_of_SomeD)
  with assms(1) have "within_capacity (att k)" by (auto simp: coord_inv_def proper_socket_def)
  with assms(2) Some show ?thesis
    by (auto simp: read_att_def att_of_def empty_attachment_def listed_def within_capacity_def split: raw_attachment.splits)
qed

lemma leads_read: "leads env a s \<Longrightarrow> read_att s ws = Some x \<Longrightarrow> length (listed (activeJobs x)) \<le> MAX_ACTIVE_JOBS_PER_RUNNER"
  using leads_inv read_att_capacity by blast

lemma leads_simple [leads_rules]:
  assumes "leads env a s"
  shows "leads env a (set_job i ws s)" "leads env a (del_job i s)" "leads env a (del_runner ws s)"
    "leads env a (put k v s)" "leads env a (del_keys ks s)" "leads env a (clearScanState i s)"
    "leads env a (markScanFinished i s)" "leads env a (recordJobRunner i idn s)" "leads env a (forgetJobRunner i s)"
    "leads env a (noteOobHandOver i s)" "leads env a (drop_jobs_of ws s)" "leads env a (drop_runner ws s)"
    "leads env a (delete_config ref s)" "leads env a (add_client i ws s)"
  using assms
  by (auto simp: set_job_def del_job_def del_runner_def put_def del_keys_def clearScanState_def markScanFinished_def Let_def
      recordJobRunner_def forgetJobRunner_def noteOobHandOver_def drop_jobs_of_def drop_runner_def delete_config_def add_client_def
      intro!: leads_fields split: option.split)

lemma leads_if [leads_rules]: "leads env a x \<Longrightarrow> leads env a y \<Longrightarrow> leads env a (if b then x else y)"
  by simp

lemma leads_fold [leads_rules]: "leads env a s \<Longrightarrow> (\<And>x s. x \<in> set xs \<Longrightarrow> leads env a s \<Longrightarrow> leads env a (f x s)) \<Longrightarrow> leads env a (fold f xs s)"
  by (induction xs arbitrary: s) auto

lemma leads_prune [leads_rules]: "leads env a s \<Longrightarrow> leads env a (pruneDeadRunners s)"
  unfolding pruneDeadRunners_def prune_one_def by (intro leads_rules)

lemma leads_broadcast [leads_rules]: "leads env a s \<Longrightarrow> leads env a (broadcast i m s)"
  unfolding broadcast_def by (intro leads_rules) simp_all

lemma leads_send_acks [leads_rules]: "leads env a s \<Longrightarrow> leads env a (send_acks acks s)"
  unfolding send_acks_def by (intro leads_rules) simp_all

lemma leads_release [leads_rules]: "leads env a s \<Longrightarrow> leads env a (releaseJob ws i s)"
proof -
  assume l: "leads env a s"
  show ?thesis
  proof (cases "read_att s ws")
    case (Some x)
    have "length (filter (\<lambda>j. j \<noteq> i) (listed (activeJobs x))) \<le> length (listed (activeJobs x))" by (rule length_filter_le)
    then have "length (listed (activeJobs (x\<lparr>activeJobs := Some (filter (\<lambda>j. j \<noteq> i) (listed (activeJobs x)))\<rparr>))) \<le> MAX_ACTIVE_JOBS_PER_RUNNER"
      using leads_read [OF l Some] by (simp add: listed_def [of "Some _"] le_trans [OF length_filter_le])
    with l Some show ?thesis by (simp add: releaseJob_def leads_set_att)
  qed (simp add: releaseJob_def l)
qed

section \<open>Tables\<close>

lemma users_kept_update:
  "(\<And>s. s_id (f s) = s_id s \<and> s_user (f s) = s_user s) \<Longrightarrow> users_kept d (snd (update_scans P f d))"
proof -
  assume f: "\<And>s. s_id (f s) = s_id s \<and> s_user (f s) = s_user s"
  have "find (\<lambda>s. s_id s = i) (map (\<lambda>s. if P s then f s else s) xs) =
        map_option (\<lambda>s. if P s then f s else s) (find (\<lambda>s. s_id s = i) xs)" for xs i
    using f by (induction xs) auto
  moreover have "map s_id (map (\<lambda>s. if P s then f s else s) (scans d)) = map s_id (scans d)" using f by simp
  ultimately show ?thesis using f by (auto simp: users_kept_def getScan_def update_scans_def simp del: map_map)
qed

lemma users_kept_scans: "scans d' = scans d \<Longrightarrow> users_kept d d'"
  by (simp add: users_kept_def getScan_def)

lemma users_kept_ops:
  "users_kept d (snd (markFailedIfActive i r d))" "users_kept d (snd (changeActiveStatus i from_st to_st d))"
  "users_kept d (set_status i st sm fr d)" "users_kept d (updateScanStatus i st sm fr d)"
  "users_kept d (storeOobPending i toks d)" "users_kept d (snd (recordLateOobCallback i tok d))"
  "users_kept d (snd (processFindingsQueueMessages r' bodies d))" "users_kept d (snd (getFailureReason r' i d))"
proof -
  show mf: "users_kept d (snd (markFailedIfActive i r d))"
    using users_kept_update [of "\<lambda>s. s\<lparr>s_status := ''failed'', s_completed := Some (db_clock d), s_failure := r\<rparr>"]
    by (simp add: markFailedIfActive_def case_prod_beta Let_def)
  show "users_kept d (snd (changeActiveStatus i from_st to_st d))"
    using users_kept_update [of "\<lambda>s. s\<lparr>s_status := to_st, s_changed := Some (db_clock d)\<rparr>"]
    by (simp add: changeActiveStatus_def case_prod_beta Let_def)
  show ss: "users_kept d (set_status i st sm fr d)"
    unfolding set_status_def by (rule users_kept_update) (simp add: Let_def)
  have fr: "users_kept x (fire p ev i x)" for x p ev i by (rule users_kept_scans) (simp add: fire_def)
  show "users_kept d (updateScanStatus i st sm fr d)"
    unfolding updateScanStatus_def Let_def using ss fr users_kept_trans by (auto split: option.split)
  have "scans (fold (insert_oob i) ts d) = scans d" for ts
    by (induction ts arbitrary: d) (auto simp: insert_oob_def)
  then show "users_kept d (storeOobPending i toks d)" by (intro users_kept_scans) (simp add: storeOobPending_def)
  have "scans (fold (\<lambda>r. insert_finding (oob_finding r)) rs d) = scans d" for rs
    by (induction rs arbitrary: d) (auto simp: insert_finding_def)
  then show "users_kept d (snd (recordLateOobCallback i tok d))"
    by (intro users_kept_scans) (simp add: recordLateOobCallback_def Let_def)
  show "users_kept d (snd (processFindingsQueueMessages r' bodies d))" by (rule users_kept_rows [OF process_rows])
  have "users_kept d (snd (update_scans P (\<lambda>s. s\<lparr>s_failure := z\<rparr>) d))" for P z by (rule users_kept_update) simp
  then show "users_kept d (snd (getFailureReason r' i d))"
    by (auto simp: getFailureReason_def Let_def split: option.split)
qed

lemma leads_db_ops:
  assumes "leads env a s"
  shows "markFailedIfActive i r (db s) = (b, d) \<Longrightarrow> leads env a (s\<lparr>db := d\<rparr>)"
    and "recordLateOobCallback i tok (db s) = (b, d) \<Longrightarrow> leads env a (s\<lparr>db := d\<rparr>)"
    and "processFindingsQueueMessages r' bodies (db s) = (res, d) \<Longrightarrow> leads env a (s\<lparr>db := d\<rparr>)"
    and "getFailureReason r' i (db s) = (fr, d) \<Longrightarrow> leads env a (s\<lparr>db := d\<rparr>)"
    and "changeActiveStatus i fs ts (db s) = (b, d) \<Longrightarrow> leads env a (s\<lparr>db := d\<rparr>)"
  using leads_db [OF assms] users_kept_ops(1,2,6,7,8) [of "db s"] by (metis snd_conv)+

end
