(* ===== verification/Coord_Steps.thy ===== *)
theory Coord_Steps
  imports Coord_Inv
begin

text \<open>
  Every operation of the coordinator keeps its invariant; a dispatch pass does so whatever other
  events do while it waits, as long as they keep it too.
\<close>

section \<open>Reserving a slot and sending\<close>

lemma capacity_below: "hasCapacity s ws \<Longrightarrow> read_att s ws = Some a \<Longrightarrow> length (listed (activeJobs a)) < MAX_ACTIVE_JOBS_PER_RUNNER"
  by (auto simp: hasCapacity_def read_att_def empty_attachment_def listed_def split: raw_attachment.splits)

lemma tags_of_set_socket: "(\<And>k. tags (f k) = tags k) \<Longrightarrow> tags_of (set_socket ws f s) ws' = tags_of s ws'"
  by (auto simp: tags_of_def set_socket_def socket_of_def split: option.split)

lemma tags_of_simps [simp]:
  "tags_of (set_att ws a s) ws' = tags_of s ws'" "tags_of (set_job i ws s) ws' = tags_of s ws'"
  "tags_of (send ws m s) ws' = tags_of s ws'" "tags_of (close_ws ws s) ws' = tags_of s ws'"
  by (auto simp: set_att_def set_job_def send_def close_ws_def tags_of_set_socket) (simp_all add: tags_of_def socket_of_def)

lemma db_simps [simp]:
  "db (set_att ws a s) = db s" "db (set_job i ws s) = db s" "db (send ws m s) = db s" "db (close_ws ws s) = db s"
  "db (del_job i s) = db s" "db (del_runner ws s) = db s"
  by (auto simp: set_att_def set_job_def send_def close_ws_def set_socket_def del_job_def del_runner_def split: option.split)

lemma leads_assign:
  assumes l: "leads env a s" and c: "hasCapacity s ws"
    and m: "can_send s ws \<Longrightarrow> proper_wire env (db s) (tags_of s ws) m"
  shows "leads env a (snd (assign_run ws runId m s))"
proof (cases "read_att s ws")
  case (Some x)
  let ?act = "listed (activeJobs x)"
  let ?act' = "if runId \<in> set ?act then ?act else ?act @ [runId]"
  have len: "length ?act' \<le> MAX_ACTIVE_JOBS_PER_RUNNER" using capacity_below [OF c Some] by simp
  have upd: "length (listed (activeJobs (x\<lparr>activeJobs := Some ys\<rparr>))) \<le> MAX_ACTIVE_JOBS_PER_RUNNER"
    if "length ys \<le> MAX_ACTIVE_JOBS_PER_RUNNER" for ys using that by (simp add: listed_def)
  have fil: "length (filter (\<lambda>i. i \<noteq> runId) ?act') \<le> MAX_ACTIVE_JOBS_PER_RUNNER" by (rule le_trans [OF length_filter_le len])
  show ?thesis
  proof (cases "can_send s ws")
    case True
    let ?s1 = "if runId \<in> set ?act then set_job runId ws s else set_att ws (x\<lparr>activeJobs := Some ?act'\<rparr>) (set_job runId ws s)"
    have "leads env a ?s1" using l len upd by (intro leads_rules) simp_all
    then have "leads env a (send ws m ?s1)" by (rule leads_send_proper) (use m True in simp)
    with Some True show ?thesis by (simp add: assign_run_def Let_def cong: if_cong)
  next
    case False
    have "leads env a (set_att ws (x\<lparr>activeJobs := Some (filter (\<lambda>i. i \<noteq> runId) ?act')\<rparr>) (del_runner ws (del_job runId s)))"
      using l upd [OF fil] by (intro leads_rules)
    with Some False show ?thesis by (simp add: assign_run_def Let_def)
  qed
qed (simp add: assign_run_def l)

section \<open>The queue\<close>

lemma leads_failScan [leads_rules]: "leads env a s \<Longrightarrow> leads env a (failScan i ref s)"
proof -
  assume l: "leads env a s"
  obtain b d where bd: "markFailedIfActive i (Some SCAN_CONFIG_UNREADABLE) (db s) = (b, d)" by fastforce
  have "leads env a (s\<lparr>db := d\<rparr>)" by (rule leads_db_ops(1) [OF l bd])
  then show ?thesis by (auto simp: failScan_def Let_def bd l intro!: leads_rules)
qed

text \<open>What other events may do while a pass waits.\<close>

definition well_behaved :: "env \<Rightarrow> (string \<Rightarrow> nat \<Rightarrow> coord \<Rightarrow> coord) \<Rightarrow> bool" where
  "well_behaved env others = (\<forall>i k s. coord_inv env s \<longrightarrow> leads env s (others i k s))"

lemma leads_others: "well_behaved env others \<Longrightarrow> leads env a s \<Longrightarrow> leads env a (others i k s)"
  using leads_trans leads_inv by (metis well_behaved_def)

lemma alone_well_behaved [simp]: "well_behaved env alone"
  by (simp add: well_behaved_def alone_def leads_refl)

lemma users_kept_dispatched: "users_kept d (updateScanStatus i st sm fr d)"
  by (rule users_kept_ops(4))

lemma leads_after_dispatch:
  assumes "well_behaved env others" "leads env a s"
  shows "leads env a (after_dispatch ws i ref others s)"
proof -
  note lo = leads_others [OF assms(1)]
  show ?thesis
    unfolding after_dispatch_def Let_def using assms(2)
    by (intro leads_simple lo leads_if leads_on_db users_kept_dispatched)
qed

lemma evolves_tags:
  "evolves s s' \<Longrightarrow> ws < next_socket s \<Longrightarrow> can_send s' ws \<Longrightarrow> tags_of s' ws = tags_of s ws"
  by (fastforce simp: evolves_def can_send_def tags_of_def split: option.splits)

fun pass_state :: "pass \<Rightarrow> coord" where
  "pass_state (Next s) = s"
| "pass_state (Stop s) = s"

lemma find_distinct: "distinct (map s_id xs) \<Longrightarrow> sc \<in> set xs \<Longrightarrow> find (\<lambda>s. s_id s = s_id sc) xs = Some sc"
  by (induction xs) auto

lemma getScan_of_active:
  "distinct (map s_id (scans d)) \<Longrightarrow> (sc, k) \<in> set (getActiveScans d) \<Longrightarrow> getScan d (s_id sc) = Some sc"
  unfolding getScan_def by (rule find_distinct) (auto simp: getActiveScans_def)


lemma compatible_wire:
  assumes "is_compatible env snap owners ws (scan, key) s1" "evolves s1 s3" "ws < next_socket s1" "can_send s3 ws"
    and "getScan (db s3) (s_id scan) = Some sc'" "s_user sc' = s_user scan"
  shows "proper_wire env (db s3) (tags_of s3 ws) (Job_dispatch (s_id scan) (configForRunner c (tags_of s3 ws) (ALLOW_PRIVATE_IPS env)) k)"
proof -
  have "tags_of s3 ws = tags_of s1 ws" by (rule evolves_tags [OF assms(2,3,4)])
  moreover have "auth_disabled env \<or> isSharedRunnerTags (tags_of s1 ws) \<or> isRunnerOwnedBy (tags_of s1 ws) (s_user scan)"
    using assms(1) by (auto simp: is_compatible_def Let_def isSharedRunner_def split: if_splits)
  ultimately show ?thesis
    using assms(5,6) shared_config_is_guarded by (auto simp: owner_matches_def)
qed

lemma leads_send_scan:
  assumes "well_behaved env others" "leads env a s"
    and "\<And>c k. can_send s ws \<Longrightarrow>
      proper_wire env (db s) (tags_of s ws) (Job_dispatch (s_id scan) (configForRunner c (tags_of s ws) (ALLOW_PRIVATE_IPS env)) k)"
  shows "leads env a (pass_state (send_scan env others ws scan ref config s))"
proof -
  have "leads env a (snd (assign_run ws (s_id scan) (Job_dispatch (s_id scan)
      (configForRunner config (tags_of s ws) (ALLOW_PRIVATE_IPS env)) k) s))" if "hasCapacity s ws" for k
    by (rule leads_assign [OF assms(2) that assms(3)])
  then show ?thesis
    using assms(1,2) leads_after_dispatch [OF assms(1)]
    by (auto simp: send_scan_def Let_def split: prod.split bool.split) (metis snd_conv)+
qed

lemma leads_dispatch_scan:
  assumes wb: "well_behaved env others" and l: "leads env a s"
    and scan: "getScan (db a) (s_id scan) = Some scan" and ws: "ws < next_socket a"
  shows "leads env a (pass_state (dispatch_scan env others snap recent owners ws (scan, key) s))"
proof -
  let ?i = "s_id scan"
  define s1 where "s1 = others ?i 0 s"
  define s2 where "s2 = others ?i 1 s1"
  define s3 where "s3 = others ?i 2 s2"
  have l1: "leads env a s1" unfolding s1_def by (rule leads_others [OF wb l])
  have l12: "leads env s1 s2" unfolding s2_def by (rule leads_others [OF wb leads_refl [OF leads_inv [OF l1]]])
  have l13: "leads env s1 s3" unfolding s3_def by (rule leads_others [OF wb l12])
  note l2 = leads_trans [OF l1 l12] and l3 = leads_trans [OF l1 l13]
  have ws1: "ws < next_socket s1" using l1 ws by (simp add: leads_def evolves_def)
  obtain sc' where sc': "getScan (db s3) ?i = Some sc'" "s_user sc' = s_user scan"
    using l3 scan unfolding leads_def evolves_def users_kept_def by metis
  have send: "leads env a (pass_state (send_scan env others ws scan ref c s3))"
    if "is_compatible env snap owners ws (scan, key) s1" for ref c
  proof (rule leads_send_scan [OF wb l3])
    show "proper_wire env (db s3) (tags_of s3 ws) (Job_dispatch ?i (configForRunner c (tags_of s3 ws) (ALLOW_PRIVATE_IPS env)) k)"
      if "can_send s3 ws" for c k
      using compatible_wire [OF \<open>is_compatible env snap owners ws (scan, key) s1\<close> _ ws1 that sc'] l13
      by (simp add: leads_def)
  qed
  show ?thesis
    unfolding dispatch_scan_def Let_def fst_conv s1_def [symmetric] s2_def [symmetric] s3_def [symmetric]
    using l l2 l3 leads_failScan [OF l2] leads_failScan [OF l3] send
    by (auto split: found_config.split option.split)
qed

lemma leads_pass_scans:
  assumes wb: "well_behaved env others" and "leads env a s" and ws: "ws < next_socket a"
    and "\<forall>(scan, key) \<in> set xs. getScan (db a) (s_id scan) = Some scan"
  shows "leads env a (pass_scans env others snap recent owners ws xs s)"
  using assms(2,4)
proof (induction xs arbitrary: s)
  case (Cons x xs)
  obtain scan key where x: "x = (scan, key)" by (cases x)
  have "leads env a (pass_state (dispatch_scan env others snap recent owners ws x s))"
    unfolding x by (rule leads_dispatch_scan [OF wb Cons.prems(1) _ ws]) (use Cons.prems x in auto)
  with Cons show ?case by (cases "dispatch_scan env others snap recent owners ws x s") auto
qed simp

lemma leads_dispatchPass:
  assumes "well_behaved env others" "coord_inv env s" "ws < next_socket s"
  shows "leads env s (dispatchPass env others ws s)"
proof -
  have d: "distinct (map s_id (scans (db s)))" using assms(2) by (simp add: coord_inv_def)
  have "leads env s (pass_scans env others snap recent owners ws (getActiveScans (db s)) s)" for snap recent owners
    by (rule leads_pass_scans [OF assms(1) leads_refl [OF assms(2)] assms(3)]) (use getScan_of_active [OF d] in auto)
  with leads_refl [OF assms(2)] show ?thesis by (simp add: dispatchPass_def)
qed

lemma leads_run_passes:
  "\<forall>(others, again) \<in> set reruns. well_behaved env others \<Longrightarrow> leads env a s \<Longrightarrow> ws < next_socket a \<Longrightarrow>
   leads env a (run_passes env ws reruns s)"
proof (induction reruns arbitrary: s)
  case (Cons r reruns)
  obtain others again where r: "r = (others, again)" by (cases r)
  have "ws < next_socket s" using Cons.prems by (auto simp: leads_def evolves_def)
  then have "leads env s (dispatchPass env others ws s)"
    using leads_dispatchPass [of env others s ws] Cons.prems r leads_inv by auto
  from leads_trans [OF Cons.prems(2) this] Cons.IH Cons.prems r show ?case by (auto simp: Let_def)
qed simp

lemma leads_check_and_dispatch:
  assumes "\<forall>(others, again) \<in> set reruns. well_behaved env others" "leads env a s" "ws < next_socket a"
  shows "leads env a (checkAndDispatchQueuedScans env reruns ws s)"
  unfolding checkAndDispatchQueuedScans_def Let_def
  by (intro leads_if leads_run_passes [OF assms(1) _ assms(3)] leads_prune assms(2))

lemma leads_dispatch_queued: "leads env a s \<Longrightarrow> ws < next_socket a \<Longrightarrow> leads env a (dispatch_queued env ws s)"
  unfolding dispatch_queued_def by (rule leads_check_and_dispatch) auto

section \<open>Resuming\<close>

lemma leads_take_over [leads_rules]: "leads env a s \<Longrightarrow> leads env a (take_over ws i s)"
  unfolding take_over_def by (auto intro!: leads_rules leads_release split: option.split)

lemma leads_resume_one:
  assumes "\<And>i s. leads env a s \<Longrightarrow> leads env a (others i s)" "leads env a s" "length (r_active r) \<le> MAX_ACTIVE_JOBS_PER_RUNNER"
    and "resume_one others snap identity ws i (r, s) = (r', s')"
  shows "leads env a s' \<and> length (r_active r') \<le> MAX_ACTIVE_JOBS_PER_RUNNER"
proof -
  have "length (sadd i xs) \<le> MAX_ACTIVE_JOBS_PER_RUNNER"
    if "length xs \<le> MAX_ACTIVE_JOBS_PER_RUNNER" "\<not> (i \<notin> set xs \<and> MAX_ACTIVE_JOBS_PER_RUNNER \<le> length xs)" for xs
    using that by (auto simp: sadd_def)
  with assms show ?thesis
    by (auto simp: resume_one_def Let_def split: if_splits intro!: leads_take_over leads_simple assms(1))
qed

lemma leads_resume_fold:
  assumes "\<And>i s. leads env a s \<Longrightarrow> leads env a (others i s)"
  shows "leads env a s \<Longrightarrow> length (r_active r) \<le> MAX_ACTIVE_JOBS_PER_RUNNER \<Longrightarrow>
    fold (resume_one others snap identity ws) ids (r, s) = (r', s') \<Longrightarrow>
    leads env a s' \<and> length (r_active r') \<le> MAX_ACTIVE_JOBS_PER_RUNNER"
proof (induction ids arbitrary: r s)
  case (Cons i ids)
  obtain r1 s1 where one: "resume_one others snap identity ws i (r, s) = (r1, s1)" by fastforce
  from leads_resume_one [OF assms Cons.prems(1,2) one] Cons.IH [of s1 r1] Cons.prems(3) one show ?case by simp
qed simp

lemma leads_resumeRuns:
  assumes "\<And>i s. leads env a s \<Longrightarrow> leads env a (others i s)" "leads env a s"
  shows "leads env a (snd (resumeRuns others ws ids s))"
proof -
  have "leads env a (set_att ws (x\<lparr>activeJobs := Some (r_active r), recentJobs := Some (r_recent r)\<rparr>) s1)"
    if x: "read_att s ws = Some x"
      and f: "fold (resume_one others (storage s) identity ws) rs
        (\<lparr>r_active = listed (activeJobs x), r_recent = listed (recentJobs x), r_accepted = []\<rparr>, s) = (r, s1)"
    for x identity rs r s1
  proof -
    have "leads env a s1 \<and> length (r_active r) \<le> MAX_ACTIVE_JOBS_PER_RUNNER"
      using leads_resume_fold [OF assms(1) assms(2) _ f] leads_read [OF assms(2) x] by simp
    then show ?thesis by (intro leads_set_att) (auto simp: listed_def)
  qed
  with assms(2) show ?thesis
    by (auto simp: resumeRuns_def Let_def split: option.split prod.split)
qed

end
