(* ===== verification/Coordinator.thy ===== *)
theory Coordinator
  imports Coord_Steps
begin

text \<open>
  The coordinator as a state machine (\<open>Coordinator.ts\<close>): requests from the Worker, messages of
  runners, sockets that close or go silent, tasks that finish, time, outages, and what the Worker
  does to the tables and R2 itself.
\<close>

section \<open>Events\<close>

datatype event =
    Request object_request
  | Message nat "json option"
  | Socket_gone nat
  | Connection_lost nat
  | Pong nat
  | Task_done nat
  | Consume_findings nat
  | Auth_timeout nat
  | Parse_timeout string
  | Oob_retry nat
  | Sse_cancel string
  | Hibernate
  | Elapse int
  | Outage bool bool bool
  | New_scan string string ustring string "string option" string
  | Change_status string "string list" string
  | Confirm_dispatched string
  | Mark_failed string ustring
  | Write_config string string json
  | Set_config string string "json option"

text \<open>
  Hibernation interrupts no pending work: it needs the tasks, parse requests and callback lookups
  to be done. Everything in memory is lost, and the state is rebuilt from the sockets.
\<close>

definition idle :: "coord \<Rightarrow> bool" where
  "idle s = (tasks s = [] \<and> pendingParses s = [] \<and> oobRetries s = [] \<and> waiting (delivery s) = [])"

definition forget_tracker :: "tracker \<Rightarrow> tracker" where
  "forget_tracker t = t\<lparr>sinceAck := [], marks := [], persisting := [], waiting := [], duplicateAcked := []\<rparr>"

definition hibernate :: "coord \<Rightarrow> coord" where
  "hibernate s = (if \<not> idle s then s
     else case reconstructState s of None \<Rightarrow> s
          | Some s' \<Rightarrow> s'\<lparr>delivery := forget_tracker (delivery s')\<rparr>)"

definition elapse :: "int \<Rightarrow> coord \<Rightarrow> coord" where
  "elapse ms s = (let t = now s + max 0 ms in s\<lparr>now := t, db := (db s)\<lparr>db_clock := t div 1000\<rparr>\<rparr>)"

fun step :: "env \<Rightarrow> event \<Rightarrow> coord \<Rightarrow> coord" where
  "step env (Request r) s = snd (handle_request env r s)"
| "step env (Message ws m) s = (if ws < next_socket s then handleMessage env ws m s else s)"
| "step env (Socket_gone ws) s = socket_gone ws s"
| "step env (Connection_lost ws) s = close_ws ws s"
| "step env (Pong ws) s = set_socket ws (\<lambda>k. k\<lparr>pong_at := Some (now s)\<rparr>) s"
| "step env (Task_done i) s = run_task env i s"
| "step env (Consume_findings k) s = consume_findings env k s"
| "step env (Auth_timeout ws) s = auth_timeout ws s"
| "step env (Parse_timeout reqId) s = parse_timeout reqId s"
| "step env (Oob_retry i) s = oob_retry i s"
| "step env (Sse_cancel c) s = sse_cancel c s"
| "step env Hibernate s = hibernate s"
| "step env (Elapse ms) s = elapse ms s"
| "step env (Outage d r q) s = s\<lparr>d1_down := d, r2_down := r, queue_down := q\<rparr>"
| "step env (New_scan i p t prof u trig) s = s\<lparr>db := snd (createScan i p t prof ''queued'' u trig (db s))\<rparr>"
| "step env (Change_status i from_st to_st) s = s\<lparr>db := snd (changeActiveStatus i from_st to_st (db s))\<rparr>"
| "step env (Confirm_dispatched i) s = on_db (updateScanStatus i ''dispatched'' None None) s"
| "step env (Mark_failed i reason) s = on_db (updateScanStatus i ''failed'' None (Some reason)) s"
| "step env (Write_config i uuid c) s = s\<lparr>r2 := snd (writeScanConfig uuid i c (r2 s))\<rparr>"
| "step env (Set_config p name doc) s = on_db (set_scan_config p name doc) s"

text \<open>
  What the Worker guarantees of its requests: a scan is dispatched under the user it was created
  for (\<open>queueRun\<close> puts both into the queue's message).
\<close>

fun from_worker :: "coord \<Rightarrow> event \<Rightarrow> bool" where
  "from_worker s (Request (Dispatch (Some p))) =
     (\<forall>sc. getScan (db s) (p_runId p) = Some sc \<longrightarrow> given (p_userId p) \<longrightarrow> p_userId p = s_user sc)"
| "from_worker s _ = True"

definition new_object :: "scans_db \<Rightarrow> int \<Rightarrow> coord" where
  "new_object d t = \<lparr>sockets = [], next_socket = 0, runners = [], clients = [], jobs = [], pendingChallenges = [],
     pendingParses = [], pendingParseUrls = [], pendingParseRunners = [], sseStreams = [], oobHandOvers = [],
     storage = [], r2 = [], db = d, now = t, ids_drawn = 0, d1_down = False, r2_down = False, queue_down = False,
     findings_queue = [], delivery = no_deliveries, tasks = [], oobRetries = [], sse_sent = []\<rparr>"

text \<open>
  Where a handler waits for D1 or R2, other events run. The dispatch pass and the resumption of runs
  are therefore steps of their own too, with any sequences of other events at each of their waits
  (\<open>follows\<close>); within the other handlers nothing else runs in the middle.
\<close>

inductive follows :: "env \<Rightarrow> coord \<Rightarrow> coord \<Rightarrow> bool" for env where
  stay: "follows env s s"
| event: "follows env a s \<Longrightarrow> from_worker s e \<Longrightarrow> follows env a (step env e s)"

definition interleaved :: "env \<Rightarrow> (string \<Rightarrow> nat \<Rightarrow> coord \<Rightarrow> coord) \<Rightarrow> bool" where
  "interleaved env others = (\<forall>runId k s. follows env s (others runId k s))"

inductive coord_reach :: "env \<Rightarrow> coord \<Rightarrow> bool" for env where
  init: "distinct (map s_id (scans d)) \<Longrightarrow> coord_reach env (new_object d t)"
| step: "coord_reach env s \<Longrightarrow> from_worker s e \<Longrightarrow> coord_reach env (step env e s)"
| pass: "coord_reach env s \<Longrightarrow> interleaved env others \<Longrightarrow> ws < next_socket s \<Longrightarrow>
    coord_reach env (dispatchPass env others ws s)"
| resume: "coord_reach env s \<Longrightarrow> interleaved env others \<Longrightarrow>
    coord_reach env (snd (resumeRuns (\<lambda>runId. others runId 0) ws ids s))"

section \<open>Handlers keep the invariant\<close>

lemma next_le: "leads env a s \<Longrightarrow> ws < next_socket a \<Longrightarrow> ws < next_socket s"
  by (auto simp: leads_def evolves_def)

lemma leads_authenticate:
  assumes l: "leads env a s" and ws: "ws < next_socket a"
  shows "leads env a (authenticate env ws s)"
proof -
  let ?s1 = "s\<lparr>pendingChallenges := jdel ws (pendingChallenges s), runners := sadd ws (runners s)\<rparr>"
  have l1: "leads env a ?s1" using l by (intro leads_rules)
  have r: "leads env a s3"
    if x: "read_att ?s1 ws = Some x" and res: "resumeRuns quiet ws ids (set_att ws (x\<lparr>authenticated := True, resume := None\<rparr>) ?s1) = (v, s3)"
    for x ids v s3
  proof -
    have "leads env a (set_att ws (x\<lparr>authenticated := True, resume := None\<rparr>) ?s1)"
      by (rule leads_set_att [OF l1]) (use leads_read [OF l1 x] in simp)
    then have "leads env a (snd (resumeRuns quiet ws ids (set_att ws (x\<lparr>authenticated := True, resume := None\<rparr>) ?s1)))"
      by (intro leads_resumeRuns) (simp_all add: quiet_def)
    with res show ?thesis by simp
  qed
  show ?thesis
    unfolding authenticate_def Let_def
    using r leads_close [OF l1]
    by (auto split: option.split sum.split prod.split intro!: leads_close leads_dispatch_queued [OF _ ws] leads_send)
qed

lemma leads_challenge:
  assumes "leads env a s" "ws < next_socket a"
  shows "leads env a (handle_challenge env ws m s)"
  using assms leads_authenticate [OF assms]
  by (auto simp: handle_challenge_def fail_auth_def split: option.split intro!: leads_close leads_send)

lemma leads_start_persisting [leads_rules]:
  "leads env a s \<Longrightarrow> leads env a (start_persisting ws i b place terminal s)"
  by (auto simp: start_persisting_def Let_def split: option.split prod.split intro!: leads_send_acks leads_fields)

lemma leads_finish_run:
  assumes l: "leads env a s" and ws: "ws < next_socket a"
  shows "leads env a (finish_run env ws i s)"
proof -
  have l1: "leads env a (del_job i s)" by (rule leads_simple [OF l])
  have "length (remove1 i xs) \<le> MAX_ACTIVE_JOBS_PER_RUNNER" if "length xs \<le> MAX_ACTIVE_JOBS_PER_RUNNER" for xs
    using that by (simp add: length_remove1) linarith
  then have "leads env a (set_att ws (x\<lparr>activeJobs := Some (remove1 i (listed (activeJobs x))), recentJobs := ys\<rparr>) (del_job i s))"
    if "read_att (del_job i s) ws = Some x" for x ys
    using leads_read [OF l1 that] by (intro leads_set_att [OF l1]) (simp add: listed_def [of "Some _"])
  then show ?thesis
    using l1 by (auto simp: finish_run_def Let_def split: option.split intro!: leads_dispatch_queued [OF _ ws] leads_simple)
qed

lemma leads_note_oob [leads_rules]: "leads env a s \<Longrightarrow> leads env a (note_oob i p s)"
  unfolding note_oob_def Let_def by (intro leads_if leads_on_db leads_simple users_kept_ops)

lemma leads_tell [leads_rules]: "leads env a s \<Longrightarrow> leads env a (tell_clients r i t p s)"
  unfolding tell_clients_def by (intro leads_if leads_broadcast)

lemma leads_take_event:
  "leads env a s \<Longrightarrow> ws < next_socket a \<Longrightarrow> leads env a (take_event env ws i msg place s)"
  unfolding take_event_def Let_def
  by (intro leads_if leads_finish_run leads_tell leads_start_persisting leads_note_oob) assumption+

lemma leads_handle_event:
  "leads env a s \<Longrightarrow> ws < next_socket a \<Longrightarrow> leads env a (handle_event env ws msg s)"
  unfolding handle_event_def Let_def
  by (auto split: option.split prod.split seq_verdict.split intro!: leads_take_event leads_send_acks leads_fields)

lemma leads_handleMessage:
  assumes "leads env a s" "ws < next_socket a"
  shows "leads env a (handleMessage env ws m s)"
  using assms leads_challenge [OF assms] leads_handle_event [OF assms]
  by (auto simp: handleMessage_def Let_def handle_parse_result_def handle_ack_request_def
      split: option.split prod.split intro!: leads_send_acks leads_fields)

lemma leads_run_task:
  assumes l: "leads env a s"
  shows "leads env a (run_task env i s)"
proof -
  have w: "leads env a x \<Longrightarrow> leads env a (write_to_d1 env b x)" for x b
    unfolding write_to_d1_def by (intro leads_if leads_on_db users_kept_ops)
  have p: "leads env a x \<Longrightarrow> leads env a (persist_event env b x)" for x b
    unfolding persist_event_def using w by (auto intro!: leads_fields)
  have st: "leads env a x \<Longrightarrow> leads env a (settled_task n x)" for x n
    unfolding settled_task_def Let_def
    by (auto split: prod.split intro!: leads_send_acks leads_fold leads_fields leads_simple)
  from l show ?thesis
    unfolding run_task_def Let_def by (auto split: prod.split option.split intro!: st p leads_fields)
qed

lemma users_one_by_one: "users_kept d0 (snd (one_by_one env batch d0))"
proof -
  have "users_kept d0 (snd (foldl (\<lambda>(left, d) b. case processFindingsQueueMessages (js_rt env) [b] d of
              (Inl _, _) \<Rightarrow> (left @ [b], d) | (Inr _, d') \<Rightarrow> (left, d')) (left, d) batch))"
    if "users_kept d0 d" for left d
    using that
  proof (induction batch arbitrary: left d)
    case (Cons b batch)
    from users_kept_ops(7) [of d "js_rt env" "[b]"] Cons.prems
    have "users_kept d0 (snd (processFindingsQueueMessages (js_rt env) [b] d))" using users_kept_trans by blast
    with Cons show ?case by (auto split: prod.split sum.split)
  qed simp
  then show ?thesis by (simp add: one_by_one_def)
qed

lemma leads_consume:
  assumes l: "leads env a s"
  shows "leads env a (consume_findings env k s)"
proof -
  have a1: "leads env a (s\<lparr>db := d, findings_queue := q\<rparr>)" if "users_kept (db s) d" for d q
    using leads_fields(13) [OF leads_db [OF l that]] .
  have "users_kept (db s) d" if "processFindingsQueueMessages (js_rt env) bs (db s) = (v, d)" for bs v d
    using users_kept_ops(7) [of "db s" "js_rt env" bs] that by simp
  moreover have "users_kept (db s) d" if "one_by_one env bs (db s) = (v, d)" for bs v d
    using users_one_by_one [of "db s" env bs] that by simp
  ultimately show ?thesis
    using l by (auto simp: consume_findings_def Let_def split: prod.split sum.split intro!: a1)
qed

lemma leads_socket_gone:
  assumes l: "leads env a s"
  shows "leads env a (socket_gone ws s)"
proof -
  have "leads env a (handleClose ws s)"
    using l by (auto simp: handleClose_def Let_def split: option.split intro!: leads_simple leads_fields)
  then have h: "coord_inv env (handleClose ws s)" "evolves a (handleClose ws s)" by (auto simp: leads_def)
  let ?s = "(handleClose ws s)\<lparr>sockets := jdel ws (sockets (handleClose ws s))\<rparr>"
  have "coord_inv env ?s" using h(1) by (auto simp: coord_inv_def jdel_def jwf_def distinct_map_filter)
  moreover have "evolves (handleClose ws s) ?s" by (auto simp: evolves_def socket_of_def split: if_splits)
  ultimately show ?thesis using h(2) evolves_trans by (auto simp: leads_def socket_gone_def Let_def)
qed

lemma leads_elapse: "leads env a s \<Longrightarrow> leads env a (elapse ms s)"
proof -
  assume l: "leads env a s"
  have "leads env a (s\<lparr>now := u, db := (db s)\<lparr>db_clock := t\<rparr>\<rparr>)" for t u
    by (rule leads_db [OF leads_fields(18) [OF l]]) (simp add: users_kept_scans)
  then show ?thesis by (simp add: elapse_def Let_def)
qed

lemma leads_hibernate:
  assumes l: "leads env a s"
  shows "leads env a (hibernate s)"
proof -
  have "leads env a x \<Longrightarrow> leads env a (rebuild_one ws x)" for ws x
    by (auto simp: rebuild_one_def Let_def split: option.split raw_attachment.split intro!: leads_fold leads_fields leads_simple)
  moreover have "leads env a (wiped s)" unfolding wiped_def using l by (intro leads_fields)
  ultimately have "leads env a (fold rebuild_one xs (wiped s))" for xs by (intro leads_fold) auto
  then show ?thesis
    using l by (auto simp: hibernate_def reconstructState_def split: option.split intro!: leads_fields)
qed


section \<open>Requests keep the invariant\<close>

lemma leads_accept_socket:
  assumes l: "leads env a s" and c: "length (listed (activeJobs x)) \<le> MAX_ACTIVE_JOBS_PER_RUNNER"
  shows "leads env a (accept_socket (next_socket s) ts x s)"
proof -
  let ?s = "accept_socket (next_socket s) ts x s"
  have inv: "coord_inv env s" by (rule leads_inv [OF l])
  have new: "next_socket s \<notin> fst ` set (sockets s)" using inv by (fastforce simp: coord_inv_def)
  have "coord_inv env ?s"
    using inv new c
    by (fastforce simp: coord_inv_def accept_socket_def jwf_def proper_socket_def within_capacity_def)
  moreover have "evolves s ?s"
    using new by (auto simp: evolves_def accept_socket_def socket_of_def map_add_def split: if_splits option.splits)
  ultimately show ?thesis using l evolves_trans by (auto simp: leads_def)
qed

lemma empty_capacity: "length (listed (activeJobs empty_attachment)) \<le> MAX_ACTIVE_JOBS_PER_RUNNER"
  by (simp add: listed_def empty_attachment_def)

lemma leads_connect_token:
  assumes l: "leads env a s"
  shows "leads env a (connect_token env c u s)"
proof -
  have key: "leads env a (case resumeRuns quiet (next_socket s) ids x2 of (Inl e, s3) \<Rightarrow> s3 | (Inr i, s3) \<Rightarrow> dispatch_queued env (next_socket s) s3)"
    if x: "length (listed (activeJobs x)) \<le> MAX_ACTIVE_JOBS_PER_RUNNER"
      and x2: "x2 = (accept_socket (next_socket s) ts x s)\<lparr>runners := r, ids_drawn := n\<rparr>" for x ts r n ids x2
  proof -
    have l2: "leads env a x2" unfolding x2 by (intro leads_fields leads_accept_socket l x)
    have n: "next_socket s < next_socket x2" by (simp add: x2 accept_socket_def)
    have r: "leads env x2 (snd (resumeRuns quiet (next_socket s) ids x2))"
      by (rule leads_resumeRuns [OF _ leads_refl [OF leads_inv [OF l2]]]) (simp add: quiet_def)
    obtain v s3 where v: "resumeRuns quiet (next_socket s) ids x2 = (v, s3)" by fastforce
    with r have "leads env x2 s3" by simp
    then have "leads env x2 (case v of Inl e \<Rightarrow> s3 | Inr i \<Rightarrow> dispatch_queued env (next_socket s) s3)"
      by (auto split: sum.split intro: leads_dispatch_queued [OF _ n])
    from leads_trans [OF l2 this] v show ?thesis by simp
  qed
  show ?thesis
    unfolding connect_token_def Let_def by (rule key [OF _ refl]) (simp add: empty_attachment_def listed_def)
qed

lemma leads_connect:
  assumes l: "leads env a s"
  shows "leads env a (ConnectRunnerHandler env c s)"
proof -
  have lp: "leads env a (pruneDeadRunners s)" by (rule leads_prune [OF l])
  have keyed: "leads env a (connect_keyed env c k u (pruneDeadRunners s))" for k u
    unfolding connect_keyed_def Let_def
    by (intro leads_send leads_fields leads_accept_socket lp) (simp_all add: empty_attachment_def listed_def)
  show ?thesis unfolding ConnectRunnerHandler_def Let_def by (intro leads_if keyed leads_connect_token [OF lp])
qed

lemma leads_assign':
  assumes "leads env a s" "hasCapacity s ws" "can_send s ws \<Longrightarrow> proper_wire env (db s) (tags_of s ws) m"
    "assign_run ws i m s = (b, s')"
  shows "leads env a s'"
  using leads_assign [OF assms(1-3), where runId = i] assms(4) by simp

lemma leads_start:
  assumes l: "leads env a s"
  shows "leads env a (snd (StartRunHandler env r body s))"
proof -
  let ?p = "pruneDeadRunners s"
  have lp: "leads env a ?p" by (rule leads_prune [OF l])
  have "leads env a s1"
    if f: "find (\<lambda>w. (auth_disabled env \<or> isSharedRunner ?p w) \<and> hasCapacity ?p w) (runners ?p) = Some ws"
      and as: "assign_run ws i (Start_run i (configForRunner c (tags_of ?p ws) (ALLOW_PRIVATE_IPS env))) ?p = (b, s1)"
    for ws i c b s1
  proof (rule leads_assign' [OF lp _ _ as])
    from find_Some [OF f] show "hasCapacity ?p ws" by simp
    from find_Some [OF f] show "proper_wire env (db ?p) (tags_of ?p ws) (Start_run i (configForRunner c (tags_of ?p ws) (ALLOW_PRIVATE_IPS env)))"
      using shared_config_is_guarded by (auto simp: isSharedRunner_def)
  qed
  then show ?thesis
    using l lp by (auto simp: StartRunHandler_def Let_def split: option.split prod.split bool.split intro!: leads_simple)
qed

lemma choose_runner_proper:
  assumes "choose_runner env p config s = Some ws" "getScan (db s) (p_runId p) = Some sc"
    and "given (p_userId p) \<Longrightarrow> p_userId p = s_user sc"
  shows "hasCapacity s ws"
    and "proper_wire env (db s) (tags_of s ws) (Job_dispatch (p_runId p) (configForRunner c (tags_of s ws) (ALLOW_PRIVATE_IPS env)) k)"
proof -
  from assms(1) have "hasCapacity s ws \<and>
      (auth_disabled env \<or> isSharedRunnerTags (tags_of s ws) \<or> (given (p_userId p) \<and> isRunnerOwnedBy (tags_of s ws) (p_userId p)))"
    by (auto simp: choose_runner_def Let_def isSharedRunner_def split: if_splits dest!: find_Some)
  then show "hasCapacity s ws"
    "proper_wire env (db s) (tags_of s ws) (Job_dispatch (p_runId p) (configForRunner c (tags_of s ws) (ALLOW_PRIVATE_IPS env)) k)"
    using assms(2,3) shared_config_is_guarded by (auto simp: owner_matches_def)
qed

lemma leads_dispatch_to_runner:
  assumes l: "leads env a s" and sc: "getScan (db s) (p_runId p) = Some sc" "given (p_userId p) \<Longrightarrow> p_userId p = s_user sc"
  shows "leads env a (snd (dispatch_to_runner env p config s))"
proof -
  let ?p = "pruneDeadRunners s"
  have lp: "leads env a ?p" and e: "evolves s ?p"
    using leads_prune [OF l] leads_prune [OF leads_refl [OF leads_inv [OF l]]] by (auto simp: leads_def)
  obtain sc' where sc': "getScan (db ?p) (p_runId p) = Some sc'" "s_user sc' = s_user sc"
    using e sc(1) unfolding evolves_def users_kept_def by metis
  have "leads env a s1"
    if ch: "choose_runner env p config ?p = Some ws"
      and as: "assign_run ws (p_runId p) (Job_dispatch (p_runId p) (configForRunner config (tags_of ?p ws) (ALLOW_PRIVATE_IPS env)) k) ?p = (b, s1)"
    for ws k b s1
  proof (rule leads_assign' [OF lp _ _ as])
    have u: "given (p_userId p) \<Longrightarrow> p_userId p = s_user sc'" using sc(2) sc'(2) by simp
    show "hasCapacity ?p ws" by (rule choose_runner_proper(1) [OF ch sc'(1) u])
    show "proper_wire env (db ?p) (tags_of ?p ws) (Job_dispatch (p_runId p) (configForRunner config (tags_of ?p ws) (ALLOW_PRIVATE_IPS env)) k)"
      by (rule choose_runner_proper(2) [OF ch sc'(1) u])
  qed
  then show ?thesis
    using lp by (auto simp: dispatch_to_runner_def Let_def split: option.split prod.split bool.split intro!: leads_simple)
qed

lemma leads_check_and_dispatch':
  assumes l: "leads env a s"
    and sc: "\<And>sc. getScan (db s) (p_runId p) = Some sc \<Longrightarrow> given (p_userId p) \<Longrightarrow> p_userId p = s_user sc"
  shows "leads env a (snd (check_and_dispatch env undisturbed p config s))"
proof -
  let ?s = "put (user_key_key (p_runId p)) (St_text (key_of p)) s"
  have l1: "leads env a ?s" and d: "db ?s = db s" using leads_simple(4) [OF l] by (simp_all add: put_def)
  have "leads env a (snd (dispatch_to_runner env p config ?s))" if "getScanStatus (db s) (p_runId p) = Some st" for st
  proof -
    from that obtain x where x: "getScan (db s) (p_runId p) = Some x" by (auto simp: getScanStatus_def)
    with d have "getScan (db ?s) (p_runId p) = Some x" by simp
    from leads_dispatch_to_runner [OF l1 this] sc [OF x] show ?thesis by simp
  qed
  then show ?thesis
    using l1 by (auto simp: check_and_dispatch_def Let_def undisturbed_def d intro!: leads_simple)
qed

lemma db_put [simp]: "db (put k v s) = db s"
  by (simp add: put_def)

lemma leads_dispatch:
  assumes l: "leads env a s" and ok: "from_worker s (Request (Dispatch p))"
  shows "leads env a (snd (DispatchHandler env undisturbed p s))"
proof (cases p)
  case (Some q)
  have honest: "\<And>sc. getScan (db s) (p_runId q) = Some sc \<Longrightarrow> given (p_userId q) \<Longrightarrow> p_userId q = s_user sc"
    using ok Some by auto
  have ck: "leads env a (snd (check_and_dispatch env undisturbed q' config s'))"
    if "leads env a s'" "db s' = db s" "p_runId q' = p_runId q" "p_userId q' = p_userId q" for q' config s'
    by (rule leads_check_and_dispatch' [OF that(1)]) (use honest that in auto)
  have keyed: "leads env a (snd (check_and_dispatch env undisturbed q config
      (put k1 v1 (put k2 v2 s))))" for config k1 v1 k2 v2
    by (rule ck) (simp_all add: l leads_simple)
  have inline: "leads env a (snd (check_and_dispatch env undisturbed (q\<lparr>p_configKey := None\<rparr>) config (put k1 v1 s)))"
    for config k1 v1 by (rule ck) (simp_all add: l leads_simple)
  show ?thesis
    unfolding DispatchHandler_def Some option.case Let_def undisturbed_def
    using l keyed [unfolded undisturbed_def] inline [unfolded undisturbed_def] by (auto split: sum.split)
qed (simp add: DispatchHandler_def l)

lemma leads_stop_unassigned: "leads env a s \<Longrightarrow> leads env a (stop_unassigned i s)"
proof -
  assume l: "leads env a s"
  have "leads env a (s\<lparr>db := d\<rparr>)" if "markFailedIfActive i (Some r) (db s) = (b, d)" for r b d
    by (rule leads_db_ops(1) [OF l that])
  then show ?thesis
    using l by (auto simp: stop_unassigned_def Let_def split: prod.split intro!: leads_simple)
qed

lemma leads_endScan:
  assumes l: "leads env a s"
  shows "leads env a (snd (endScan env i r s))"
proof -
  have d: "leads env a (s\<lparr>db := d\<rparr>)" if "processFindingsQueueMessages (js_rt env) bs (db s) = (v, d)" for bs v d
    by (rule leads_db_ops(3) [OF l that])
  have "leads env a (broadcast i m (forgetJobRunner i (clearScanState i (s\<lparr>db := d\<rparr>))))"
    if "processFindingsQueueMessages (js_rt env) bs (db s) = (v, d)" for bs v d m
    by (intro leads_broadcast leads_simple d [OF that])
  with l d show ?thesis by (auto simp: endScan_def Let_def split: prod.split sum.split)
qed

lemma leads_stop_on [leads_rules]: "leads env a s \<Longrightarrow> leads env a (stopOnRunner ws i s)"
  unfolding stopOnRunner_def by (intro leads_release leads_simple leads_send) simp_all

lemma leads_watch_one:
  assumes l: "leads env a s"
  shows "leads env a (snd (watch_one env stored c (w, s)))"
proof -
  have e: "leads env a s1" if "endScan env i r s = (v, s1)" for i r v s1
    using leads_endScan [OF l, of i r] that by simp
  obtain i st t where c: "c = (i, st, t)" by (cases c)
  show ?thesis
    using l by (auto simp: watch_one_def c Let_def split: prod.split option.split sum.split bool.split
        intro: e leads_stop_on [OF e])
qed

lemma leads_watchdog:
  assumes l: "leads env a s"
  shows "leads env a (snd (failStalledScans env s))"
proof -
  let ?p = "pruneDeadRunners s"
  have lp: "leads env a ?p" by (rule leads_prune [OF l])
  have f: "leads env a x \<Longrightarrow> fold (watch_one env stored) cs (w, x) = (w', s') \<Longrightarrow> leads env a s'" for stored cs w x w' s'
  proof (induction cs arbitrary: w x)
    case (Cons c cs)
    obtain w1 x1 where one: "watch_one env stored c (w, x) = (w1, x1)" by fastforce
    with Cons leads_watch_one [OF Cons.prems(1), of stored c w] show ?case by simp
  qed simp
  show ?thesis
    using lp f [OF lp] by (auto simp: failStalledScans_def Let_def split: prod.split intro!: leads_simple)
qed

lemma leads_late_oob: "leads env a s \<Longrightarrow> leads env a (recordLateCallback i u r s)"
proof -
  assume l: "leads env a s"
  have "leads env a (s\<lparr>db := d\<rparr>)" if "recordLateOobCallback i u (db s) = (b, d)" for b d
    by (rule leads_db_ops(2) [OF l that])
  then show ?thesis using l by (auto simp: recordLateCallback_def split: prod.split bool.split intro!: leads_fields)
qed

lemma leads_oob_retry: "leads env a s \<Longrightarrow> leads env a (oob_retry i s)"
proof -
  assume l: "leads env a s"
  have "leads env a (s\<lparr>db := d\<rparr>)" if "recordLateOobCallback r u (db s) = (b, d)" for r u b d
    by (rule leads_db_ops(2) [OF l that])
  then show ?thesis using l by (auto simp: oob_retry_def Let_def split: prod.split bool.split intro!: leads_fields)
qed

lemma leads_client:
  assumes l: "leads env a s"
  shows "leads env a (snd (ConnectClientHandler env r s))"
proof -
  let ?s1 = "\<lambda>i. add_client i (next_socket s) (accept_socket (next_socket s) [''client'', i] empty_attachment s)"
  have l1: "leads env a (?s1 i)" for i by (intro leads_simple leads_accept_socket l empty_capacity)
  have "users_kept x d" if "ended_event r' sc x = (m, d)" for r' sc x m d
    using that users_kept_ops(8) [of x r' "s_id sc"]
    by (auto simp: ended_event_def Let_def split: if_splits prod.splits option.splits)
  then have "leads env a ((?s1 i)\<lparr>db := d\<rparr>)" if "ended_event r' sc (db (?s1 i)) = (m, d)" for i r' sc m d
    using leads_db [OF l1] that by blast
  then show ?thesis
    using l l1 by (auto simp: ConnectClientHandler_def Let_def split: option.split prod.split intro!: leads_send)
qed

lemma leads_revoke: "leads env a s \<Longrightarrow> leads env a (snd (RevokeUserHandler u s))"
  by (auto simp: RevokeUserHandler_def Let_def revoke_socket_def intro!: leads_fields leads_fold leads_if leads_simple leads_close)

lemma leads_parse: "leads env a s \<Longrightarrow> leads env a (snd (ParseHandler env cached q s))"
  by (auto simp: ParseHandler_def Let_def split: option.split intro!: leads_send leads_fields)

lemma leads_request:
  assumes l: "leads env a s" and ok: "from_worker s (Request r)"
  shows "leads env a (snd (handle_request env r s))"
proof (cases r)
  case (Oob path)
  have "leads env a (snd (OobHandler path s))"
    using l by (auto simp: OobHandler_def Let_def split: option.split intro!: leads_late_oob leads_send)
  with Oob show ?thesis by simp
next
  case (Command p)
  have "leads env a (snd (CommandHandler p s))"
    using l by (auto simp: CommandHandler_def split: option.split intro!: leads_stop_unassigned leads_send)
  with Command show ?thesis by simp
next
  case (Dispatch p)
  with leads_dispatch [OF l] ok show ?thesis by simp
next
  case Watchdog_pass
  with leads_watchdog [OF l] show ?thesis by (auto split: prod.split sum.split)
qed (use l leads_revoke leads_parse leads_start leads_connect leads_client leads_prune in
    \<open>auto simp: SseHandler_def SseSendHandler_def SseOwnerHandler_def enqueue_def sse_cancel_def ControlRunHandler_def
      RunnersHandler_def RestartRunnerHandler_def Let_def split: sum.split option.split intro!: leads_fields leads_send\<close>)

section \<open>Reachable states\<close>

lemma find_append: "find P (xs @ ys) = (case find P xs of Some x \<Rightarrow> Some x | None \<Rightarrow> find P ys)"
  by (induction xs) auto

lemma users_kept_create: "users_kept d (snd (createScan i p t prof st u trig d))"
  by (auto simp: users_kept_def createScan_def getScan_def new_scan_def scan_exists_def list_ex_iff find_append)

lemma step_leads: "coord_inv env s \<Longrightarrow> from_worker s e \<Longrightarrow> leads env s (step env e s)"
proof -
  assume inv: "coord_inv env s" and ok: "from_worker s e"
  note l = leads_refl [OF inv]
  show ?thesis
  proof (cases e)
    case (Request r)
    with leads_request [OF l] ok show ?thesis by simp
  next
    case (Message ws m)
    with leads_handleMessage [OF l] l show ?thesis by simp
  next
    case (Pong ws)
    with l show ?thesis by (auto simp: proper_socket_def intro!: leads_set_socket)
  next
    case (New_scan i p t prof u trig)
    have "users_kept (db s) (snd (createScan i p t prof ''queued'' u trig (db s)))" by (rule users_kept_create)
    with New_scan leads_db [OF l] show ?thesis by simp
  next
    case (Change_status i from_st to_st)
    with leads_db [OF l users_kept_ops(2)] show ?thesis by simp
  next
    case (Confirm_dispatched i)
    with leads_on_db [OF l users_kept_ops(4)] show ?thesis by simp
  next
    case (Mark_failed i reason)
    with leads_on_db [OF l users_kept_ops(4)] show ?thesis by simp
  next
    case (Set_config p name doc)
    have "users_kept d (set_scan_config p name doc d)" for d by (rule users_kept_scans) (simp add: set_scan_config_def)
    with Set_config leads_on_db [OF l] show ?thesis by simp
  qed (use l leads_socket_gone leads_close leads_run_task leads_consume leads_oob_retry leads_hibernate leads_elapse in
      \<open>auto simp: auth_timeout_def parse_timeout_def sse_cancel_def intro!: leads_fields\<close>)
qed

lemma follows_leads: "follows env a s \<Longrightarrow> coord_inv env a \<Longrightarrow> leads env a s"
proof (induction rule: follows.induct)
  case (stay s)
  then show ?case by (rule leads_refl)
next
  case (event a s e)
  then have l: "leads env a s" by simp
  from step_leads [OF leads_inv [OF l] event.hyps(2)] leads_trans [OF l] show ?case by blast
qed

lemma interleaved_well_behaved: "interleaved env others \<Longrightarrow> well_behaved env others"
  using follows_leads by (auto simp: interleaved_def well_behaved_def)

lemma coord_reach_inv: "coord_reach env s \<Longrightarrow> coord_inv env s"
proof (induction rule: coord_reach.induct)
  case (init d t)
  then show ?case by (simp add: coord_inv_def new_object_def)
next
  case (step s e)
  then show ?case using step_leads leads_inv by blast
next
  case (pass s others ws)
  from leads_dispatchPass [OF interleaved_well_behaved [OF pass.hyps(2)] pass.IH pass.hyps(3)] show ?case by (rule leads_inv)
next
  case (resume s others ws ids)
  have "leads env s x \<Longrightarrow> leads env s (others i 0 x)" for i x
    by (rule leads_others [OF interleaved_well_behaved [OF resume.hyps(2)]])
  from leads_resumeRuns [of env s "\<lambda>i. others i 0", OF this leads_refl [OF resume.IH]] show ?case by (rule leads_inv)
qed

lemma coord_reach_run: "\<forall>e \<in> set es. \<forall>s. from_worker s e \<Longrightarrow> coord_reach env s \<Longrightarrow> coord_reach env (fold (step env) es s)"
  by (induction es arbitrary: s) (auto intro: coord_reach.step)

end
