(* ===== verification/Coord_Frames.thy ===== *)
theory Coord_Frames
  imports Coordinator
begin

text \<open>
  What the operations leave alone: the events being stored, the delivery tracker and the MCP streams.
  Only the handlers that are about them touch them.
\<close>

definition side :: "coord \<Rightarrow> (nat option \<times> body) list \<times> body list \<times> tracker \<times> (string \<times> string) list \<times> (string \<times> string) list" where
  "side s = (tasks s, findings_queue s, delivery s, sseStreams s, sse_sent s)"

named_theorems side_simps \<open>operations that keep the side\<close>

lemma side_fields [side_simps]:
  "side (s\<lparr>runners := x1\<rparr>) = side s" "side (s\<lparr>clients := x2\<rparr>) = side s" "side (s\<lparr>jobs := x3\<rparr>) = side s"
  "side (s\<lparr>pendingChallenges := x4\<rparr>) = side s" "side (s\<lparr>pendingParses := x5\<rparr>) = side s"
  "side (s\<lparr>pendingParseUrls := x6\<rparr>) = side s" "side (s\<lparr>pendingParseRunners := x7\<rparr>) = side s"
  "side (s\<lparr>oobHandOvers := x8\<rparr>) = side s" "side (s\<lparr>storage := x9\<rparr>) = side s" "side (s\<lparr>r2 := x10\<rparr>) = side s"
  "side (s\<lparr>ids_drawn := x11\<rparr>) = side s" "side (s\<lparr>db := x12\<rparr>) = side s" "side (s\<lparr>sockets := x13\<rparr>) = side s"
  "side (s\<lparr>next_socket := x14\<rparr>) = side s" "side (s\<lparr>oobRetries := x15\<rparr>) = side s" "side (s\<lparr>now := x16\<rparr>) = side s"
  "side (s\<lparr>d1_down := x17\<rparr>) = side s" "side (s\<lparr>r2_down := x18\<rparr>) = side s" "side (s\<lparr>queue_down := x19\<rparr>) = side s"
  by (simp_all add: side_def)

lemma side_fold: "(\<And>x s. side (f x s) = side s) \<Longrightarrow> side (fold f xs s) = side s"
  by (induction xs arbitrary: s) auto

lemma side_basic [side_simps]:
  "side (set_socket ws f s) = side s" "side (send ws m s) = side s" "side (close_ws ws s) = side s"
  "side (set_att ws a s) = side s" "side (set_job i ws s) = side s" "side (del_job i s) = side s"
  "side (del_runner ws s) = side s" "side (on_db g s) = side s" "side (put k v s) = side s" "side (del_keys ks s) = side s"
  by (auto simp: set_socket_def send_def close_ws_def set_att_def set_job_def del_job_def del_runner_def on_db_def put_def
      del_keys_def side_fields split: option.split)

lemma side_state [side_simps]:
  "side (clearScanState i s) = side s" "side (markScanFinished i s) = side s" "side (recordJobRunner i idn s) = side s"
  "side (forgetJobRunner i s) = side s" "side (noteOobHandOver i s) = side s" "side (drop_jobs_of ws s) = side s"
  "side (drop_runner ws s) = side s" "side (delete_config ref s) = side s" "side (add_client i ws s) = side s"
  "side (accept_socket ws ts a s) = side s"
  by (auto simp: clearScanState_def markScanFinished_def Let_def recordJobRunner_def forgetJobRunner_def noteOobHandOver_def
      drop_jobs_of_def drop_runner_def delete_config_def add_client_def accept_socket_def side_fields side_basic split: option.split)

lemma side_prune [side_simps]: "side (pruneDeadRunners s) = side s"
  unfolding pruneDeadRunners_def by (rule side_fold) (simp add: prune_one_def side_simps)

lemma side_failScan [side_simps]: "side (failScan i ref s) = side s"
  by (auto simp: failScan_def Let_def side_simps split: prod.split)

lemma side_assign [side_simps]: "side (snd (assign_run ws i m s)) = side s"
  by (auto simp: assign_run_def Let_def side_simps split: option.split)

lemma side_after_dispatch [side_simps]: "side (after_dispatch ws i ref alone s) = side s"
  by (simp add: after_dispatch_def Let_def alone_def side_simps)

lemma side_send_scan: "side (pass_state (send_scan env alone ws scan ref c s)) = side s"
proof -
  have "side s1 = side s" if "assign_run ws i m s = (b, s1)" for i m b s1
    using side_assign [of ws i m s] that by simp
  then show ?thesis by (auto simp: send_scan_def Let_def side_simps split: prod.split bool.split)
qed

lemma side_dispatch_scan: "side (pass_state (dispatch_scan env alone snap recent owners ws x s)) = side s"
  using side_send_scan
  by (auto simp: dispatch_scan_def Let_def alone_def [abs_def] side_simps split: found_config.split option.split)

lemma side_pass_scans: "side (pass_scans env alone snap recent owners ws xs s) = side s"
proof (induction xs arbitrary: s)
  case (Cons x xs)
  from side_dispatch_scan [of env snap recent owners ws x s] Cons show ?case
    by (cases "dispatch_scan env alone snap recent owners ws x s") auto
qed simp

lemma side_dispatch_queued [side_simps]: "side (dispatch_queued env ws s) = side s"
  by (simp add: dispatch_queued_def checkAndDispatchQueuedScans_def Let_def dispatchPass_def side_pass_scans side_simps)

lemma side_release [side_simps]: "side (releaseJob ws i s) = side s"
  by (auto simp: releaseJob_def side_simps split: option.split)

lemma side_take_over [side_simps]: "side (take_over ws i s) = side s"
  by (auto simp: take_over_def side_simps split: option.split)

lemma side_resume_one: "side (snd (resume_one quiet snap identity ws i st)) = side (snd st)"
  by (cases st) (auto simp: resume_one_def Let_def quiet_def side_simps)

lemma side_resumeRuns [side_simps]: "side (snd (resumeRuns quiet ws ids s)) = side s"
proof -
  have "side (snd (fold (resume_one quiet snap identity ws) xs st)) = side (snd st)" for snap identity xs st
    by (induction xs arbitrary: st) (simp_all add: side_resume_one)
  then have "side s1 = side s" if "fold (resume_one quiet snap identity ws) xs (r, s) = (r', s1)" for snap identity xs r r' s1
    using that by (metis snd_conv)
  then show ?thesis by (auto simp: resumeRuns_def Let_def side_simps split: option.split prod.split)
qed

lemma side_resumed: "resumeRuns quiet ws ids s = (v, s') \<Longrightarrow> side s' = side s"
  using side_resumeRuns [of ws ids s] by simp

lemma side_authenticate [side_simps]: "side (authenticate env ws s) = side s"
  by (auto simp: authenticate_def Let_def side_simps dest!: side_resumed split: option.split sum.split prod.split)

lemma side_challenge [side_simps]: "side (handle_challenge env ws m s) = side s"
  by (auto simp: handle_challenge_def fail_auth_def side_simps split: option.split)

lemma side_broadcast [side_simps]: "side (broadcast i m s) = side s"
  unfolding broadcast_def by (rule side_fold) (simp add: side_simps)

lemma side_acks [side_simps]: "side (send_acks acks s) = side s"
  unfolding send_acks_def by (rule side_fold) (simp add: side_simps)

lemma side_tell [side_simps]: "side (tell_clients r i t p s) = side s"
  by (simp add: tell_clients_def side_simps)

lemma side_finish [side_simps]: "side (finish_run env ws i s) = side s"
  by (auto simp: finish_run_def Let_def side_simps split: option.split)

lemma side_note_oob [side_simps]: "side (note_oob i p s) = side s"
  by (simp add: note_oob_def Let_def side_simps)

lemma side_close [side_simps]: "side (handleClose ws s) = side s"
  by (auto simp: handleClose_def Let_def side_simps split: option.split)

lemma side_connect [side_simps]: "side (ConnectRunnerHandler env c s) = side s"
proof -
  have "side (connect_keyed env c k u x) = side x" for k u x
    by (simp add: connect_keyed_def Let_def side_simps)
  moreover have "side (connect_token env c u x) = side x" for u x
    by (auto simp: connect_token_def Let_def side_simps dest!: side_resumed split: prod.split sum.split)
  ultimately show ?thesis by (simp add: ConnectRunnerHandler_def Let_def side_simps)
qed

end
