(* ===== verification/Redelivery.thy ===== *)
theory Redelivery
  imports Scans_Ended
begin

text \<open>
  Run events reach the tables at least once: agents replay them, the findings queue redelivers
  them, and the coordinator falls back to writing them itself. What such a transport needs of the
  consumer is the locale \<open>event_log\<close>; the findings consumer meets it for sequenced events.
\<close>

section \<open>At-least-once delivery\<close>

locale event_log =
  fixes handle :: "'m list \<Rightarrow> 's \<Rightarrow> ('e + 'r list) \<times> 's"
    and known :: "'s \<Rightarrow> 'm \<Rightarrow> bool"
    and stable :: "'m \<Rightarrow> bool"
  assumes stores: "\<lbrakk>\<forall>m \<in> set ms. stable m; handle ms s = (Inr rs, s'); m \<in> set ms\<rbrakk> \<Longrightarrow> known s' m"
    and keeps: "known s m \<Longrightarrow> known (snd (handle ms s)) m"
    and skips: "\<forall>m \<in> set ms. known s m \<Longrightarrow> handle ms s = (Inr [], s)"
begin

definition deliver :: "'m list list \<Rightarrow> 's \<Rightarrow> 's" where
  "deliver batches s = fold (\<lambda>ms. snd \<circ> handle ms) batches s"

lemma deliver_simps [simp]:
  "deliver [] s = s" "deliver (ms # bs) s = deliver bs (snd (handle ms s))"
  by (simp_all add: deliver_def)

lemma deliver_keeps: "known s m \<Longrightarrow> known (deliver batches s) m"
  by (induction batches arbitrary: s) (auto intro: keeps)

lemma known_batch: "\<forall>m \<in> set ms. known s m \<Longrightarrow> snd (handle ms s) = s"
  by (simp add: skips)

lemma repeats_vanish:
  assumes "\<forall>ms \<in> set repeats. \<forall>m \<in> set ms. known s m"
  shows "deliver repeats s = s"
  using assms by (induction repeats) (auto simp: known_batch)

text \<open>
  Once a batch went through, its messages have no effect any more, however they are regrouped,
  and whatever was handled in the meantime.
\<close>

theorem delivered_once:
  assumes "\<forall>m \<in> set ms. stable m" "handle ms s = (Inr rs, s1)" "set again \<subseteq> set ms"
  shows "handle again (deliver others s1) = (Inr [], deliver others s1)"
proof (rule skips)
  have "known s1 m" if "m \<in> set ms" for m by (rule stores [OF assms(1,2) that])
  with assms(3) show "\<forall>m \<in> set again. known (deliver others s1) m" by (blast intro: deliver_keeps)
qed

end

section \<open>The findings consumer\<close>

definition event_known :: "scans_db \<Rightarrow> body \<Rightarrow> bool" where
  "event_known db b = (\<exists>i. storedEventId b = Some i \<and> (event_stored db i \<or> \<not> scan_exists db (b_scan b)))"

lemma fire_all_reads [simp]:
  "event_stored (fire_all ended db) = event_stored db" "scan_exists (fire_all ended db) = scan_exists db"
  by (simp_all add: fun_eq_iff event_stored_def scan_exists_def)

lemma process_keeps_known: "event_known db b \<Longrightarrow> event_known (snd (processFindingsQueueMessages rt bodies db)) b"
proof -
  assume k: "event_known db b"
  let ?db0 = "db\<lparr>next_uuid := next_uuid db + a_uuids (prepare rt db bodies)\<rparr>"
  have start: "event_stored ?db0 = event_stored db" "scan_exists ?db0 = scan_exists db"
    by (simp_all add: fun_eq_iff event_stored_def scan_exists_def)
  have "event_known (snd (run_stmts qs ?db0)) b" for qs
    using k run_stmts_stored [of ?db0 _ qs] rows_step_exists [OF run_stmts_rows, of qs ?db0] start
    by (auto simp: event_known_def)
  then show ?thesis
    using k by (auto simp: processFindingsQueueMessages_def Let_def split_beta event_known_def)
qed

interpretation findings: event_log "processFindingsQueueMessages rt" event_known sequenced for rt
proof
  fix ms s rs s' m
  assume "\<forall>m \<in> set ms. sequenced m" "processFindingsQueueMessages rt ms s = (Inr rs, s')" "m \<in> set ms"
  from process_stores [OF this] show "event_known s' m" by (simp add: event_known_def)
next
  fix s m ms
  assume "event_known s m"
  then show "event_known (snd (processFindingsQueueMessages rt ms s)) m" by (rule process_keeps_known)
next
  fix ms s
  assume "\<forall>m \<in> set ms. event_known s m"
  then have "idle_acc (prepare rt s ms)"
    unfolding prepare_def by (intro replay_is_idle) (simp_all add: event_known_def)
  then show "processFindingsQueueMessages rt ms s = (Inr [], s)" by (rule idle_batch)
qed

end
