(* ===== verification/Isolation.thy ===== *)
theory Isolation
  imports Redelivery
begin

text \<open>
  A batch of the findings queue mixes the events of every tenant. Its statements reach only the
  scans its messages name: the rows, events and findings of any other scan stay as they are. The
  one statement that could do otherwise is the progress row, found by its id alone, so the ids of
  progress rows are part of the invariant.
\<close>

section \<open>What a statement may touch\<close>

definition progress_id :: "string \<Rightarrow> progress_kind \<Rightarrow> string" where
  "progress_id scanId kind = scanId @ '':'' @ kind_name kind"

definition own_progress :: "scans_db \<Rightarrow> bool" where
  "own_progress db = (\<forall>e \<in> set (scan_events db). \<forall>sc kind. e_id e = progress_id sc kind \<longrightarrow> e_scan e = sc)"

definition scan_part :: "string \<Rightarrow> scans_db \<Rightarrow> scan_row option \<times> event_row list \<times> finding_row list" where
  "scan_part i db = (getScan db i, filter (\<lambda>e. e_scan e = i) (scan_events db), filter (\<lambda>f. f_scan f = i) (findings db))"

fun scan_of :: "scan_stmt \<Rightarrow> string" where
  "scan_of (Insert_event i scanId t p) = scanId"
| "scan_of (Upsert_progress i scanId t p) = scanId"
| "scan_of (Complete_scan scanId p) = scanId"
| "scan_of (Set_checkpoint scanId p) = scanId"
| "scan_of (Fail_scan scanId r) = scanId"
| "scan_of (Insert_finding f) = f_scan f"

fun well_named :: "scan_stmt \<Rightarrow> bool" where
  "well_named (Insert_event i scanId t p) = (\<forall>sc kind. i = progress_id sc kind \<longrightarrow> scanId = sc)"
| "well_named (Upsert_progress i scanId t p) = (\<exists>kind. i = progress_id scanId kind)"
| "well_named _ = True"

lemma kind_no_colon: "CHR '':'' \<notin> set (kind_name kind)"
  by (cases kind) auto

lemma progress_id_inj: "progress_id a k = progress_id b l \<Longrightarrow> a = b"
  using last_sep_unique [of a "CHR '':''" "kind_name k" b "kind_name l"] kind_no_colon
  by (simp add: progress_id_def)

lemma getScan_update:
  "(\<And>s. P s \<Longrightarrow> s_id s \<noteq> i) \<Longrightarrow> (\<And>s. s_id (f s) = s_id s) \<Longrightarrow> getScan (snd (update_scans P f db)) i = getScan db i"
proof -
  assume "\<And>s. P s \<Longrightarrow> s_id s \<noteq> i" "\<And>s. s_id (f s) = s_id s"
  then have "find (\<lambda>s. s_id s = i) (map (\<lambda>s. if P s then f s else s) xs) = find (\<lambda>s. s_id s = i) xs" for xs
    by (induction xs) auto
  then show ?thesis by (simp add: getScan_def update_scans_def)
qed

lemma update_scans_reads [simp]:
  "scan_events (snd (update_scans P f db)) = scan_events db" "findings (snd (update_scans P f db)) = findings db"
  by (simp_all add: update_scans_def)

lemma getScan_reads:
  "getScan (db\<lparr>scan_events := es\<rparr>) i = getScan db i" "getScan (db\<lparr>findings := fs\<rparr>) i = getScan db i"
  by (simp_all add: getScan_def)

lemma filter_update_events:
  assumes "\<forall>e \<in> set es. e_id e = d \<longrightarrow> e_scan e \<noteq> i"
  shows "filter (\<lambda>e. e_scan e = i) (map (\<lambda>e. if e_id e = d \<and> Q e then e\<lparr>e_type := t, e_payload := p, e_created := c\<rparr> else e) es)
    = filter (\<lambda>e. e_scan e = i) es"
  using assms by (induction es) auto

lemma run_stmt_isolated:
  assumes "well_named q" "own_progress db" "scan_of q \<noteq> i"
  shows "scan_part i (snd (run_stmt q db)) = scan_part i db" "own_progress (snd (run_stmt q db))"
proof -
  have same: "getScan (add_event a b c d db) i = getScan db i" "getScan (update_event a c d db) i = getScan db i"
    "getScan (insert_finding f db) i = getScan db i" "findings (add_event a b c d db) = findings db"
    "findings (update_event a c d db) = findings db" "scan_events (insert_finding f db) = scan_events db" for a b c d f
    by (simp_all add: getScan_def add_event_def update_event_def insert_finding_def)
  have up: "filter (\<lambda>e. e_scan e = i) (scan_events (update_event d t p db)) = filter (\<lambda>e. e_scan e = i) (scan_events db)"
    if "d = progress_id sc kind" "sc \<noteq> i" for d t p sc kind
    unfolding update_event_def
    using that assms(2) by (simp add: own_progress_def) (rule filter_update_events, auto)
  show "scan_part i (snd (run_stmt q db)) = scan_part i db"
    using assms(1,3)
    by (cases q) (auto simp: scan_part_def same up getScan_reads add_event_def insert_finding_def intro!: getScan_update)
  show "own_progress (snd (run_stmt q db))"
  proof (cases q)
    case (Insert_event a b c d)
    with assms(1,2) show ?thesis by (auto simp: own_progress_def add_event_def)
  next
    case (Upsert_progress a b c d)
    have "own_progress (update_event a c d db)"
    proof -
      have "\<exists>e \<in> set (scan_events db). e_id x = e_id e \<and> e_scan x = e_scan e"
        if "x \<in> set (scan_events (update_event a c d db))" for x
        using that by (auto simp: update_event_def)
      with assms(2) show ?thesis unfolding own_progress_def by metis
    qed
    moreover from Upsert_progress assms(1) have "\<forall>sc kind. a = progress_id sc kind \<longrightarrow> b = sc" using progress_id_inj by auto
    then have "own_progress (add_event a b c d db)" using assms(2) by (auto simp: own_progress_def add_event_def)
    ultimately show ?thesis using Upsert_progress assms(2) by simp
  next
    case (Insert_finding f)
    with assms(2) show ?thesis by (auto simp: own_progress_def same)
  qed (use assms(2) in \<open>simp_all add: own_progress_def\<close>)
qed

lemma run_stmts_isolated:
  "\<forall>q \<in> set qs. well_named q \<and> scan_of q \<noteq> i \<Longrightarrow> own_progress db \<Longrightarrow>
   scan_part i (snd (run_stmts qs db)) = scan_part i db \<and> own_progress (snd (run_stmts qs db))"
proof (induction qs arbitrary: db)
  case (Cons q qs)
  from run_stmt_isolated [of q db i] Cons show ?case by (simp add: split_beta Let_def)
qed simp

section \<open>What a batch prepares\<close>

definition about :: "string set \<Rightarrow> batch_acc \<Rightarrow> bool" where
  "about S acc = (\<forall>q \<in> set (a_stmts acc). well_named q \<and> scan_of q \<in> S)"

lemma about_fields [simp]:
  "about S (acc\<lparr>a_uuids := n\<rparr>) = about S acc" "about S (acc\<lparr>a_seen := xs\<rparr>) = about S acc"
  "about S (acc\<lparr>a_bad := b\<rparr>) = about S acc" "about S (acc\<lparr>a_coalesced := m\<rparr>) = about S acc"
  "about S (acc\<lparr>a_terminal := ts\<rparr>) = about S acc"
  by (simp_all add: about_def)

lemma about_push [simp]: "about S (push q acc) \<longleftrightarrow> about S acc \<and> well_named q \<and> scan_of q \<in> S"
  by (auto simp: about_def push_def)

lemma about_push_terminal [simp]: "about S (push_terminal q sc p ev acc) \<longleftrightarrow> about S acc \<and> well_named q \<and> scan_of q \<in> S"
  by (simp add: push_terminal_def)

lemma about_progress: "about S acc \<Longrightarrow> b_scan b \<in> S \<Longrightarrow> about S (push_progress kind b acc)"
proof -
  assume a: "about S acc" and b: "b_scan b \<in> S"
  let ?q = "Upsert_progress (b_scan b @ '':'' @ kind_name kind) (b_scan b) (event_type (b_type b))
    (coalesced_payload kind (b_payload b) (eventOrder b))"
  have q: "well_named ?q" "scan_of ?q \<in> S" using b by (auto simp: progress_id_def)
  have "about S (acc\<lparr>a_stmts := (a_stmts acc)[n := ?q]\<rparr>)" for n
    using a q set_update_subset_insert [of "a_stmts acc" n ?q] unfolding about_def by (auto simp del: well_named.simps)
  with a q show ?thesis
    by (auto simp: push_progress_def Let_def simp del: well_named.simps scan_of.simps split: option.split)
qed

lemma finding_scan: "sanitizeRunnerFinding rt u sc raw = Some (f, n) \<Longrightarrow> f_scan f = sc"
  by (auto simp: sanitizeRunnerFinding_def Let_def split: if_splits option.splits prod.splits json.splits)

lemma about_findings: "about S acc \<Longrightarrow> sc \<in> S \<Longrightarrow> about S (push_findings rt db sc raws acc)"
  by (induction raws arbitrary: acc) (auto split: option.split dest: finding_scan)

lemma about_outcome: "about S acc \<Longrightarrow> b_scan b \<in> S \<Longrightarrow> about S (push_outcome rt b p acc)"
  by (auto simp: push_outcome_def Let_def split: option.split)

lemma event_id_no_progress: "eventIdFor r e n \<noteq> progress_id sc kind" if "1 \<le> n"
proof
  assume "eventIdFor r e n = progress_id sc kind"
  then have "(''ev:'' @ r @ '':'' @ e) @ CHR '':'' # show_int n = sc @ CHR '':'' # kind_name kind"
    by (simp add: eventIdFor_def progress_id_def)
  from last_sep_unique [OF this] show_int_no_colon [of n] kind_no_colon that have k: "show_int n = kind_name kind" by auto
  have "\<forall>c \<in> set (show_int n). is_digit c"
    using that by (auto simp: show_int_def dest: nat_digits_is_digit)
  with k show False by (cases kind) (auto simp: is_digit_def)
qed

lemma about_message:
  assumes "about S acc" "b_scan b \<in> S" "\<And>n. CHR '':'' \<notin> set (uuid_of db n)"
  shows "about S (push_message rt db b acc)"
proof -
  have stored: "well_named (Insert_event i (b_scan b) t p)" if "storedEventId b = Some i" for i t p
    using that seq_of_bounds by (auto simp: storedEventId_def eventOrder_def event_id_no_progress split: if_splits option.splits)
  have drawn: "well_named (Insert_event (uuid_of db n) sc t p)" for n sc t p
  proof -
    have "uuid_of db n \<noteq> progress_id x k" for x k using assms(3) [of n] by (auto simp: progress_id_def)
    then show ?thesis by simp
  qed
  show ?thesis
    unfolding push_message_def Let_def
    using assms(1,2) stored drawn
    by (auto simp del: well_named.simps intro!: about_progress about_findings about_outcome split: option.split prod.split)
qed

lemma about_prepare:
  assumes "\<And>n. CHR '':'' \<notin> set (uuid_of db n)"
  shows "about (b_scan ` set bodies) (prepare rt db bodies)"
proof -
  have "about S (foldl (batch_step rt db) acc bs)" if "about S acc" "b_scan ` set bs \<subseteq> S" for S acc bs
    using that
  proof (induction bs arbitrary: acc)
    case (Cons b bs)
    have "about S (batch_step rt db acc b)"
      unfolding batch_step_def using Cons.prems assms by (auto intro!: about_message split: option.split)
    with Cons show ?case by simp
  qed simp
  moreover have "about S empty_acc" for S by (simp add: about_def empty_acc_def)
  ultimately show ?thesis by (simp add: prepare_def)
qed

lemma scan_part_cong:
  "scans a = scans b \<Longrightarrow> scan_events a = scan_events b \<Longrightarrow> findings a = findings b \<Longrightarrow> scan_part i a = scan_part i b"
  by (simp add: scan_part_def getScan_def)

lemma fire_all_findings [simp]: "findings (fire_all ended db) = findings db"
proof (induction ended arbitrary: db)
  case (Cons e ended)
  obtain i h where e: "e = (i, h)" by (cases e)
  have "fire_all (e # ended) db = fire_all ended (case h of None \<Rightarrow> db | Some (p, ev) \<Rightarrow> fire p ev i db)"
    by (simp add: fire_all_def e)
  with Cons.IH show ?case by (cases h) (auto simp: fire_def)
qed (simp add: fire_all_def)

lemma process_isolated:
  assumes "\<And>n. CHR '':'' \<notin> set (uuid_of db n)" "own_progress db" "i \<notin> b_scan ` set bodies"
  shows "scan_part i (snd (processFindingsQueueMessages rt bodies db)) = scan_part i db"
    and "own_progress (snd (processFindingsQueueMessages rt bodies db))"
proof -
  let ?acc = "prepare rt db bodies"
  let ?db0 = "db\<lparr>next_uuid := next_uuid db + a_uuids ?acc\<rparr>"
  have "\<forall>q \<in> set (a_stmts ?acc). well_named q \<and> scan_of q \<noteq> i"
    using about_prepare [OF assms(1), of bodies rt] assms(3) by (auto simp: about_def)
  moreover have "own_progress ?db0" "scan_part i ?db0 = scan_part i db"
    using assms(2) by (simp_all add: own_progress_def scan_part_def getScan_def)
  ultimately have r: "scan_part i (snd (run_stmts (a_stmts ?acc) ?db0)) = scan_part i db"
    "own_progress (snd (run_stmts (a_stmts ?acc) ?db0))"
    using run_stmts_isolated [of "a_stmts ?acc" i ?db0] by auto
  show "scan_part i (snd (processFindingsQueueMessages rt bodies db)) = scan_part i db"
    using r(1) by (auto simp: processFindingsQueueMessages_def Let_def split_beta
        intro!: trans [OF scan_part_cong r(1)])
  show "own_progress (snd (processFindingsQueueMessages rt bodies db))"
    using r(2) assms(2) by (auto simp: processFindingsQueueMessages_def Let_def split_beta own_progress_def)
qed

end
