(* ===== verification/Scan_Claims.thy ===== *)
theory Scan_Claims
  imports Isolation Delivery Scan_Config_Store Runner_Access
begin

text \<open>
  What holds of runner events on their way into the tables, of what users see of them, and of the
  configuration a scan is started with. Each property with hypotheses is applied to a small
  database.
\<close>

section \<open>A database to run on\<close>

definition demo_scan :: "string \<Rightarrow> string \<Rightarrow> string \<Rightarrow> scan_row" where
  "demo_scan i user status = \<lparr>s_id = i, s_project = ''p1'', s_target = units ''https://t'', s_profile = ''default'',
     s_status = status, s_user = Some user, s_summary = None, s_checkpoint = None, s_failure = None,
     s_created = 100, s_completed = None, s_changed = None, s_trigger = ''manual'', s_report = None\<rparr>"

definition demo_tables :: scans_db where
  "demo_tables = \<lparr>scans = [demo_scan ''run1'' ''ann'' ''dispatched'', demo_scan ''run2'' ''bob'' ''dispatched'',
       demo_scan ''run3'' ''ann'' ''completed''],
     scan_events = [], findings = [], oob_pending = [], user_keys = [], scan_configs = [], fired = [],
     db_clock = 1000, uuid_of = (\<lambda>n. replicate (Suc n) (CHR ''u'')), next_uuid = 0\<rparr>"

definition demo_runtime :: runtime where
  "demo_runtime = \<lparr>stringify = (\<lambda>j. units ''{}''), parse_json = (\<lambda>t. None), to_text = (\<lambda>j. []), parse_url = (\<lambda>t. None)\<rparr>"

definition typed :: "string \<Rightarrow> json" where
  "typed t = JObj [(units ''type'', JStr (units t))]"

definition demo_event :: "string \<Rightarrow> string \<Rightarrow> rat \<Rightarrow> body" where
  "demo_event i t n = \<lparr>b_scan = i, b_type = Some (JStr (units ''event'')), b_payload = Some (typed t),
     b_exec = Some (JStr (units ''x1'')), b_seq = Some (JNum n)\<rparr>"

section \<open>Ends, replays, tenants\<close>

text \<open>
  C8. The first terminal event of a scan wins: once a scan has ended, no runner events, in whatever
  batches they arrive, change its status, when it ended, the failure it shows or its statistics.
\<close>

theorem first_end_wins:
  assumes "getScan db i = Some s" and "\<not> is_active s"
  shows "\<exists>s'. getScan (fold (\<lambda>bodies d. snd (processFindingsQueueMessages rt bodies d)) batches db) i = Some s' \<and> outcome s' = outcome s"
  using assms
proof (induction batches arbitrary: db s)
  case (Cons bodies batches)
  from process_keeps_ended [OF Cons.prems, of rt bodies]
  obtain s1 where s1: "getScan (snd (processFindingsQueueMessages rt bodies db)) i = Some s1" "outcome s1 = outcome s" by blast
  then have "\<not> is_active s1" using Cons.prems(2) by (simp add: outcome_def is_active_def)
  from Cons.IH [OF s1(1) this] s1(2) show ?case by simp
qed simp

theorem first_end_wins_witness:
  "\<exists>s'. getScan (fold (\<lambda>bodies d. snd (processFindingsQueueMessages demo_runtime bodies d))
       [[demo_event ''run3'' ''error'' 1], [demo_event ''run3'' ''complete'' 2]] demo_tables) ''run3'' = Some s' \<and>
     outcome s' = outcome (demo_scan ''run3'' ''ann'' ''completed'')"
  by (rule first_end_wins) code_simp+

text \<open>
  C9. At-least-once delivery has the effects of exactly-once: after a batch of sequenced events was
  processed, delivering any of them again, regrouped, repeated and after any other batches, ends no
  scan and changes nothing at all in the tables.
\<close>

theorem redelivery_changes_nothing:
  assumes "\<forall>b \<in> set bodies. sequenced b"
    and "processFindingsQueueMessages rt bodies db = (Inr ended, db1)"
    and "set again \<subseteq> set bodies"
  shows "processFindingsQueueMessages rt again (fold (\<lambda>ms. snd \<circ> processFindingsQueueMessages rt ms) others db1)
    = (Inr [], fold (\<lambda>ms. snd \<circ> processFindingsQueueMessages rt ms) others db1)"
  using findings.delivered_once [OF assms] by (simp add: findings.deliver_def)

theorem redelivery_changes_nothing_witness:
  "\<exists>db1. processFindingsQueueMessages demo_runtime [demo_event ''run1'' ''complete'' 1, demo_event ''run2'' ''error'' 1] demo_tables
       = (Inr [''run1'', ''run2''], db1) \<and>
     processFindingsQueueMessages demo_runtime [demo_event ''run2'' ''error'' 1, demo_event ''run2'' ''error'' 1]
       (snd (processFindingsQueueMessages demo_runtime [demo_event ''run1'' ''result'' 2] db1))
     = (Inr [], snd (processFindingsQueueMessages demo_runtime [demo_event ''run1'' ''result'' 2] db1))"
proof -
  let ?first = "[demo_event ''run1'' ''complete'' 1, demo_event ''run2'' ''error'' 1]"
  have s: "\<forall>b \<in> set ?first. sequenced b" by code_simp
  have "fst (processFindingsQueueMessages demo_runtime ?first demo_tables) = Inr [''run1'', ''run2'']" by code_simp
  then obtain db1 where p: "processFindingsQueueMessages demo_runtime ?first demo_tables = (Inr [''run1'', ''run2''], db1)"
    by (metis prod.collapse)
  have "set [demo_event ''run2'' ''error'' 1, demo_event ''run2'' ''error'' 1] \<subseteq> set ?first" by simp
  from redelivery_changes_nothing [OF s p this, of "[[demo_event ''run1'' ''result'' 2]]"] p show ?thesis by auto
qed

text \<open>
  What a batch reports as ended is exact: every scan once, precisely those that were active
  before it and are not after it; and its webhooks are for these scans only, at most one for each.
\<close>

theorem reported_ends_are_exact:
  assumes "processFindingsQueueMessages rt bodies db = (Inr ended, db')"
  shows "distinct ended \<and> (i \<in> set ended \<longleftrightarrow> has_active db i \<and> \<not> has_active db' i) \<and>
    (\<exists>hs. fired db' = fired db @ hs \<and> distinct (map (snd \<circ> snd) hs) \<and> set (map (snd \<circ> snd) hs) \<subseteq> set ended)"
  using process_reports [OF assms] by blast

theorem reported_ends_are_exact_witness:
  "''run1'' \<in> set [''run1''] \<longleftrightarrow> has_active demo_tables ''run1'' \<and>
     \<not> has_active (snd (processFindingsQueueMessages demo_runtime
        [demo_event ''run1'' ''complete'' 1, demo_event ''run1'' ''error'' 2] demo_tables)) ''run1''"
proof -
  let ?r = "processFindingsQueueMessages demo_runtime [demo_event ''run1'' ''complete'' 1, demo_event ''run1'' ''error'' 2] demo_tables"
  have "fst ?r = Inr [''run1'']" by code_simp
  then have "?r = (Inr [''run1''], snd ?r)" by (metis prod.collapse)
  from reported_ends_are_exact [OF this, of "''run1''"] show ?thesis by blast
qed

text \<open>
  Tenants are isolated in the shared findings queue: a batch leaves the row, the events and the
  findings of every scan that none of its messages names exactly as they were, whatever the messages
  contain and whatever ids they claim.
\<close>

theorem batches_touch_named_scans_only:
  assumes "\<And>n. CHR '':'' \<notin> set (uuid_of db n)" and "own_progress db" and "i \<notin> b_scan ` set bodies"
  shows "scan_part i (snd (processFindingsQueueMessages rt bodies db)) = scan_part i db
    \<and> own_progress (snd (processFindingsQueueMessages rt bodies db))"
  using process_isolated [OF assms] by blast

theorem batches_touch_named_scans_only_witness:
  "scan_part ''run2'' (snd (processFindingsQueueMessages demo_runtime [demo_event ''run1'' ''complete'' 1] demo_tables))
     = scan_part ''run2'' demo_tables"
proof -
  have "CHR '':'' \<notin> set (uuid_of demo_tables n)" for n by (simp add: demo_tables_def)
  moreover have "own_progress demo_tables" by (simp add: own_progress_def demo_tables_def)
  moreover have "''run2'' \<notin> b_scan ` set [demo_event ''run1'' ''complete'' 1]" by code_simp
  ultimately show ?thesis using batches_touch_named_scans_only by blast
qed

text \<open>
  Two events are stored under the same id only if they are the same event of the same
  execution of the same scan: no runner can forge an id that hides another run's event.
\<close>

theorem stored_ids_identify_events:
  assumes "storedEventId b = Some i" and "storedEventId b' = Some i"
  shows "b_scan b = b_scan b' \<and> eventOrder b = eventOrder b'"
proof -
  from assms(1) obtain e n where b: "eventOrder b = Some (e, n)" "i = eventIdFor (b_scan b) e n"
    by (auto simp: storedEventId_def split: if_splits option.splits)
  from assms(2) obtain e' n' where b': "eventOrder b' = Some (e', n')" "i = eventIdFor (b_scan b') e' n'"
    by (auto simp: storedEventId_def split: if_splits option.splits)
  have ok: "isValidId x \<and> 0 \<le> k" if "eventOrder c = Some (x, k)" for c x k
    using that exec_of_valid seq_of_bounds by (fastforce simp: eventOrder_def split: option.splits)
  from event_id_inj [of "b_scan b" e n "b_scan b'" e' n'] b b' ok [OF b(1)] ok [OF b'(1)] show ?thesis by simp
qed

theorem stored_ids_identify_events_witness:
  "b_scan (demo_event ''run1'' ''result'' 7) = b_scan (demo_event ''run1'' ''checkpoint'' 7)
   \<and> eventOrder (demo_event ''run1'' ''result'' 7) = eventOrder (demo_event ''run1'' ''checkpoint'' 7)"
  by (rule stored_ids_identify_events [where i = "''ev:run1:x1:7''"]) code_simp+

end
