(* ===== verification/Coord_Demo.thy ===== *)
theory Coord_Demo
  imports Coordinator Scan_Claims
begin

text \<open>A small deployment to run the coordinator on: two users with a runner each, and a shared runner.\<close>

definition demo_env :: env where
  "demo_env = \<lparr>AUTH_ENABLED = Some ''true'', VERSION = None, JWT_SECRET = None, ALLOW_PRIVATE_IPS = None,
     js_rt = demo_runtime, verifies = (\<lambda>k s n. True), new_id = (\<lambda>n. replicate (Suc n) (CHR ''i''))\<rparr>"

definition private_runner :: "string \<Rightarrow> string option \<Rightarrow> connect_params" where
  "private_runner u claims = \<lparr>c_publicKey = None, c_shared = False, c_userId = Some u, c_name = None, c_version = None,
     c_heartbeat = True, c_resume = claims\<rparr>"

definition shared_runner :: connect_params where
  "shared_runner = \<lparr>c_publicKey = None, c_shared = True, c_userId = None, c_name = None, c_version = None,
     c_heartbeat = True, c_resume = None\<rparr>"

definition queued_for :: "string \<Rightarrow> string \<Rightarrow> event" where
  "queued_for i u = New_scan i ''p1'' (units ''https://t'') ''default'' (Some u) ''manual''"

definition empty_tables :: scans_db where
  "empty_tables = demo_tables\<lparr>scans := []\<rparr>"

definition demo_begin :: coord where
  "demo_begin = new_object empty_tables 1000000"

definition demo_after :: "event list \<Rightarrow> coord" where
  "demo_after es = fold (step demo_env) es demo_begin"

definition no_dispatch :: "event \<Rightarrow> bool" where
  "no_dispatch e = (case e of Request (Dispatch p) \<Rightarrow> p = None | _ \<Rightarrow> True)"

lemma demo_after_reach: "list_all no_dispatch es \<Longrightarrow> coord_reach demo_env (demo_after es)"
  unfolding demo_after_def demo_begin_def
proof (rule coord_reach_run)
  assume "list_all no_dispatch es"
  moreover have "no_dispatch e \<Longrightarrow> from_worker s e" for e s
    by (cases e) (auto simp: no_dispatch_def split: object_request.splits)
  ultimately show "\<forall>e \<in> set es. \<forall>s. from_worker s e" by (simp add: list_all_iff)
qed (rule coord_reach.init, simp add: empty_tables_def)

definition two_owners :: "event list" where
  "two_owners = [queued_for ''runa'' ''ann'', queued_for ''runb'' ''bob'', Request (Connect_runner (private_runner ''ann'' None)),
     Request (Connect_runner shared_runner)]"

end
