(* ===== verification/Coord_Claims.thy ===== *)
theory Coord_Claims
  imports Coord_Demo
begin

text \<open>
  What holds in every state the coordinator can reach, whatever requests, messages, outages and
  hibernations led there and whatever ran while a dispatch pass or a resumption waited; and what its
  handlers do.
\<close>

section \<open>Tenants and runners\<close>

lemma reach_socket:
  assumes "coord_reach env s" "(ws, k) \<in> set (sockets s)"
  shows "within_capacity (att k)" "m \<in> set (outbox k) \<Longrightarrow> proper_wire env (db s) (tags k) m"
  using coord_reach_inv [OF assms(1)] assms(2) by (auto simp: coord_inv_def proper_socket_def)

text \<open>
  C10. A runner that belongs to a user is only ever sent that user's scans: in every reachable state,
  with authentication on, each scan dispatched to a runner that is not an operator's shared one is a
  scan of the runner's owner, and no directly started run goes to it.
\<close>

theorem private_runners_serve_their_owner:
  assumes "coord_reach env s" and "(ws, k) \<in> set (sockets s)"
    and "\<not> auth_disabled env" and "\<not> isSharedRunnerTags (tags k)" and "m \<in> set (outbox k)"
  shows "case m of
      Job_dispatch runId config key \<Rightarrow> \<exists>sc. getScan (db s) runId = Some sc \<and> isRunnerOwnedBy (tags k) (s_user sc)
    | Start_run runId config \<Rightarrow> False
    | _ \<Rightarrow> True"
  using reach_socket(2) [OF assms(1,2,5)] assms(3,4) by (cases m) (auto simp: owner_matches_def)

definition ann_gets_hers :: coord where
  "ann_gets_hers = demo_after [queued_for ''runa'' ''ann'', queued_for ''runb'' ''bob'',
     Request (Connect_runner (private_runner ''ann'' None))]"

lemma ann_gets_hers_reach: "coord_reach demo_env ann_gets_hers"
  unfolding ann_gets_hers_def by (rule demo_after_reach) code_simp

definition only_socket :: "coord \<Rightarrow> socket" where
  "only_socket s = snd (hd (sockets s))"

lemma only_socket_in: "sockets s \<noteq> [] \<Longrightarrow> (fst (hd (sockets s)), only_socket s) \<in> set (sockets s)"
  by (simp add: only_socket_def)

fun dispatched_run :: "wire \<Rightarrow> string option" where
  "dispatched_run (Job_dispatch i c k) = Some i"
| "dispatched_run _ = None"

lemma dispatched_runD: "dispatched_run m = Some i \<Longrightarrow> \<exists>c key. m = Job_dispatch i c key"
  by (cases m) auto

theorem private_runners_serve_their_owner_witness:
  "map dispatched_run (outbox (only_socket ann_gets_hers)) = [Some ''runa''] \<and>
   (\<exists>sc. getScan (db ann_gets_hers) ''runa'' = Some sc \<and> isRunnerOwnedBy (tags (only_socket ann_gets_hers)) (s_user sc))"
proof
  show sent: "map dispatched_run (outbox (only_socket ann_gets_hers)) = [Some ''runa'']" by code_simp
  then obtain m where m: "m \<in> set (outbox (only_socket ann_gets_hers))" "dispatched_run m = Some ''runa''" by auto
  from dispatched_runD [OF m(2)] obtain c key where mm: "m = Job_dispatch ''runa'' c key" by blast
  have ne: "sockets ann_gets_hers \<noteq> []" by code_simp
  have p: "\<not> isSharedRunnerTags (tags (only_socket ann_gets_hers))" "\<not> auth_disabled demo_env" by code_simp+
  from private_runners_serve_their_owner [OF ann_gets_hers_reach only_socket_in [OF ne] p(2,1) m(1)]
  show "\<exists>sc. getScan (db ann_gets_hers) ''runa'' = Some sc \<and> isRunnerOwnedBy (tags (only_socket ann_gets_hers)) (s_user sc)"
    by (simp add: mm)
qed

text \<open>
  C26. No configuration that ever reaches a shared runner lets it scan private addresses, by whichever
  path it was sent (queue, dispatch request, direct start), unless the operator opted in.
\<close>

theorem shared_runners_stay_guarded:
  assumes "coord_reach env s" and "(ws, k) \<in> set (sockets s)" and "isSharedRunnerTags (tags k)"
    and "ALLOW_PRIVATE_IPS env \<noteq> Some ''true''" and "m \<in> set (outbox k)"
  shows "case m of
      Job_dispatch runId config key \<Rightarrow> \<not> go_allows_private_ips config
    | Start_run runId config \<Rightarrow> \<not> go_allows_private_ips config
    | _ \<Rightarrow> True"
  using reach_socket(2) [OF assms(1,2,5)] assms(3,4) by (cases m) auto

definition shared_gets_one :: coord where
  "shared_gets_one = demo_after [queued_for ''runa'' ''ann'', Request (Connect_runner shared_runner)]"

lemma shared_gets_one_reach: "coord_reach demo_env shared_gets_one"
  unfolding shared_gets_one_def by (rule demo_after_reach) code_simp

theorem shared_runners_stay_guarded_witness:
  "\<exists>c key. outbox (only_socket shared_gets_one) = [Job_dispatch ''runa'' c key] \<and> \<not> go_allows_private_ips c"
proof -
  have "map dispatched_run (outbox (only_socket shared_gets_one)) = [Some ''runa'']" by code_simp
  then obtain m where m: "outbox (only_socket shared_gets_one) = [m]" "dispatched_run m = Some ''runa''" by auto
  from dispatched_runD [OF m(2)] obtain c key where mm: "m = Job_dispatch ''runa'' c key" by blast
  have ne: "sockets shared_gets_one \<noteq> []" by code_simp
  have p: "isSharedRunnerTags (tags (only_socket shared_gets_one))" "ALLOW_PRIVATE_IPS demo_env \<noteq> Some ''true''" by code_simp+
  have "m \<in> set (outbox (only_socket shared_gets_one))" using m by simp
  from shared_runners_stay_guarded [OF shared_gets_one_reach only_socket_in [OF ne] p this] m mm show ?thesis by simp
qed

text \<open>
  No runner ever holds more than ten scans at once, so what is stored with its socket stays
  bounded.
\<close>

theorem runners_hold_at_most_ten:
  assumes "coord_reach env s" and "(ws, k) \<in> set (sockets s)" and "att k = Attached a"
  shows "length (listed (activeJobs a)) \<le> MAX_ACTIVE_JOBS_PER_RUNNER"
  using reach_socket(1) [OF assms(1,2)] assms(3) by (simp add: within_capacity_def)

theorem runners_hold_at_most_ten_witness:
  "\<exists>a. att (only_socket ann_gets_hers) = Attached a \<and> length (listed (activeJobs a)) \<le> MAX_ACTIVE_JOBS_PER_RUNNER
     \<and> listed (activeJobs a) = [''runa'']"
proof -
  have ne: "sockets ann_gets_hers \<noteq> []"
    and a: "case att (only_socket ann_gets_hers) of Attached a \<Rightarrow> listed (activeJobs a) = [''runa''] | _ \<Rightarrow> False"
    by code_simp+
  then obtain a where a: "att (only_socket ann_gets_hers) = Attached a" "listed (activeJobs a) = [''runa'']"
    by (auto split: raw_attachment.splits)
  from runners_hold_at_most_ten [OF ann_gets_hers_reach only_socket_in [OF ne] a(1)] a show ?thesis by blast
qed

end
