(* ===== verification/Event_Claims.thy ===== *)
theory Event_Claims
  imports Coord_Frames Coord_Claims
begin

text \<open>Who may report events and write into MCP streams, and how connections come and go.\<close>

section \<open>Runner events\<close>

lemma tasks_of_side: "side s' = side s \<Longrightarrow> tasks s' = tasks s"
  by (simp add: side_def)

lemma start_persisting_tasks:
  "\<exists>p. tasks (start_persisting ws i b place terminal s) = tasks s @ [(p, b)]"
proof (cases place)
  case None
  then show ?thesis by (simp add: start_persisting_def)
next
  case (Some en)
  obtain e n where en: "en = (e, n)" by (cases en)
  have "tasks (send_acks acks x) = tasks x" for acks x by (rule tasks_of_side) (rule side_acks)
  with Some en show ?thesis by (auto simp: start_persisting_def Let_def split: prod.split)
qed

lemma set_data_kind: "payload_is (Some (JObj (set_prop ''data'' x (entries v)))) k = payload_is (Some v) k"
  by (simp add: payload_is_def jprop_def set_prop_def)

lemma shown_payload_kind:
  assumes p: "payload_is (jprop msg ''payload'') ''runner_log''"
  shows "payload_is (shown_payload rt msg) ''runner_log''"
proof -
  obtain v where v: "jprop msg ''payload'' = Some v" using p by (cases "jprop msg ''payload''") (auto simp: payload_is_def)
  have "shown_payload rt msg = Some v \<or> (\<exists>x. shown_payload rt msg = Some (JObj (set_prop ''data'' x (entries v))))"
    using p unfolding shown_payload_def Let_def v by (simp split: option.split json.split) blast
  with p v set_data_kind show ?thesis by (elim disjE exE) simp_all
qed

lemma take_event_tasks:
  "\<exists>p b. tasks (take_event env ws i msg place s) = tasks s @ [(p, b)] \<and> b_scan b = i \<and> b_payload b = shown_payload (js_rt env) msg"
proof -
  let ?b = "\<lparr>b_scan = i, b_type = jprop msg ''type'', b_payload = shown_payload (js_rt env) msg,
     b_exec = (if place = None then None else jprop msg ''exec''), b_seq = (if place = None then None else jprop msg ''seq'')\<rparr>"
  let ?s1 = "if is_text (jprop msg ''type'') ''event'' \<and> payload_is (shown_payload (js_rt env) msg) ''oob_pending''
    then note_oob i (shown_payload (js_rt env) msg) s else s"
  let ?s2 = "start_persisting ws i ?b place (ends_run msg) ?s1"
  have "tasks (take_event env ws i msg place s) = tasks ?s2"
    by (rule tasks_of_side) (simp add: take_event_def Let_def side_simps)
  moreover have "tasks ?s1 = tasks s" by (rule tasks_of_side) (simp add: side_simps)
  ultimately show ?thesis using start_persisting_tasks [of ws i ?b place "ends_run msg" ?s1] by fastforce
qed

text \<open>What a message of connection \<open>ws\<close> may do to the list of events being stored.\<close>

definition reports :: "coord \<Rightarrow> nat \<Rightarrow> coord \<Rightarrow> bool" where
  "reports s ws s' =
     (tasks s' = tasks s \<or>
      (\<exists>p b. tasks s' = tasks s @ [(p, b)] \<and>
         (b_scan b \<in> set (active_of s ws) \<or>
          b_scan b \<in> set (recent_of s ws) \<and> payload_is (b_payload b) ''runner_log'')))"

lemma reports_same: "tasks s' = tasks s \<Longrightarrow> reports s ws s'"
  by (simp add: reports_def)

lemma reports_side: "side s' = side s \<Longrightarrow> reports s ws s'"
  by (rule reports_same) (rule tasks_of_side)

lemma reports_event:
  assumes "may_report s ws i msg" "tasks x = tasks s"
  shows "reports s ws (take_event env ws i msg place x)"
proof -
  have may: "i \<in> set (active_of s ws) \<or> i \<in> set (recent_of s ws) \<and> payload_is (jprop msg ''payload'') ''runner_log''"
    using assms(1) unfolding may_report_def by blast
  obtain p b where b: "tasks (take_event env ws i msg place x) = tasks s @ [(p, b)]" "b_scan b = i"
      "b_payload b = shown_payload (js_rt env) msg"
    using take_event_tasks [of env ws i msg place x] assms(2) by auto
  show ?thesis
  proof (cases "i \<in> set (active_of s ws)")
    case True
    with b show ?thesis unfolding reports_def by blast
  next
    case False
    with may have r: "i \<in> set (recent_of s ws)" "payload_is (b_payload b) ''runner_log''"
      unfolding b(3) using shown_payload_kind by blast+
    with b(1,2) show ?thesis unfolding reports_def by blast
  qed
qed

lemma acks_tasks [simp]: "tasks (send_acks acks x) = tasks x"
  by (rule tasks_of_side) (rule side_acks)

lemma reports_handle_event: "reports s ws (handle_event env ws msg s)"
  by (simp add: handle_event_def Let_def reports_event reports_same split: option.split prod.split seq_verdict.split)

lemma reports_others: "reports s ws (handle_parse_result ws msg s)" "reports s ws (handle_ack_request ws msg s)"
  by (auto simp: handle_parse_result_def handle_ack_request_def intro!: reports_same split: option.split prod.split)

text \<open>
  C27. A runner's message makes the coordinator store at most one event, and only one of a run the
  connection holds, or a late log line of a run it completed: naming another tenant's run gains
  nothing. This holds for every message of every connection, authenticated or not.
\<close>

theorem runners_report_only_their_runs:
  "tasks (handleMessage env ws m s) = tasks s \<or>
   (\<exists>p b. tasks (handleMessage env ws m s) = tasks s @ [(p, b)] \<and>
      (b_scan b \<in> set (active_of s ws) \<or>
       b_scan b \<in> set (recent_of s ws) \<and> payload_is (b_payload b) ''runner_log''))"
proof -
  have "reports s ws (handleMessage env ws m s)"
    unfolding handleMessage_def Let_def
    by (simp add: reports_handle_event reports_others reports_side side_simps split: option.split)
  then show ?thesis by (simp add: reports_def)
qed

section \<open>MCP streams\<close>

definition streams :: "coord \<Rightarrow> (string \<times> string) list \<times> (string \<times> string) list" where
  "streams s = (sseStreams s, sse_sent s)"

lemma streams_of_side: "side s' = side s \<Longrightarrow> streams s' = streams s"
  by (simp add: side_def streams_def)

lemma streams_fields: "streams (s\<lparr>tasks := x1\<rparr>) = streams s" "streams (s\<lparr>findings_queue := x2\<rparr>) = streams s"
  "streams (s\<lparr>delivery := x3\<rparr>) = streams s"
  by (simp_all add: streams_def)

lemma side_records: "side s' = side s \<longleftrightarrow> tasks s' = tasks s \<and> findings_queue s' = findings_queue s \<and> delivery s' = delivery s \<and>
  sseStreams s' = sseStreams s \<and> sse_sent s' = sse_sent s"
  by (auto simp: side_def)

lemmas streams_side = side_simps [THEN streams_of_side]

lemma streams_take_event: "streams (take_event env ws i msg place s) = streams s"
proof -
  have "streams (start_persisting ws i b place terminal x) = streams x" for b terminal x
    by (auto simp: start_persisting_def Let_def streams_side streams_fields split: option.split prod.split)
  then show ?thesis by (simp add: take_event_def Let_def streams_side)
qed

lemma streams_message: "streams (handleMessage env ws m s) = streams s"
proof -
  have "streams (handle_event env ws msg s) = streams s" for msg
    by (auto simp: handle_event_def Let_def streams_take_event streams_side streams_fields
        split: option.split prod.split seq_verdict.split)
  moreover have "streams (handle_parse_result ws msg s) = streams s" for msg
    by (auto simp: handle_parse_result_def streams_def split: option.split)
  moreover have "streams (handle_ack_request ws msg s) = streams s" for msg
    by (auto simp: handle_ack_request_def streams_side streams_fields split: option.split prod.split)
  ultimately show ?thesis
    by (simp add: handleMessage_def Let_def streams_side split: option.split)
qed

lemma streams_fold: "(\<And>x s. streams (f x s) = streams s) \<Longrightarrow> streams (fold f xs s) = streams s"
  by (induction xs arbitrary: s) auto

lemma streams_run_task: "streams (run_task env i s) = streams s"
proof -
  have p: "streams (persist_event env b x) = streams x" for b x
    by (auto simp: persist_event_def write_to_d1_def streams_side streams_fields)
  have t: "streams (settled_task n x) = streams x" for n x
  proof -
    have "streams (fold (\<lambda>(r, e, n). put (deliveredSeqKey r) (St_mark e n)) written x) = streams x" for written x
      by (rule streams_fold) (auto simp: streams_side)
    then show ?thesis by (auto simp: settled_task_def Let_def streams_side streams_fields split: prod.split)
  qed
  show ?thesis by (auto simp: run_task_def Let_def p t streams_fields split: prod.split option.split)
qed

lemma streams_consume: "streams (consume_findings env k s) = streams s"
  by (auto simp: consume_findings_def Let_def streams_side streams_fields streams_def split: prod.split sum.split)

lemma streams_requests:
  "streams (snd (DispatchHandler env undisturbed p s)) = streams s"
  "streams (snd (CommandHandler q s)) = streams s" "streams (snd (StartRunHandler env r b s)) = streams s"
  "streams (snd (ControlRunHandler r a s)) = streams s" "streams (snd (failStalledScans env s)) = streams s"
  "streams (snd (OobHandler path s)) = streams s" "streams (snd (ParseHandler env cached pb s)) = streams s"
  "streams (snd (ConnectClientHandler env r s)) = streams s" "streams (snd (RestartRunnerHandler env c u s)) = streams s"
proof -
  have as: "streams s1 = streams x" if "assign_run ws i m x = (b, s1)" for ws i m x b s1
    using streams_of_side [OF side_assign, of ws i m x] that by simp
  have d: "streams (snd (dispatch_to_runner env p c x)) = streams x" for p c x
    by (auto simp: dispatch_to_runner_def Let_def streams_side dest!: as split: option.split prod.split bool.split)
  have "streams (snd (check_and_dispatch env undisturbed p c x)) = streams x" for p c x
    by (auto simp: check_and_dispatch_def Let_def d undisturbed_def streams_side)
  then show "streams (snd (DispatchHandler env undisturbed p s)) = streams s"
    by (auto simp: DispatchHandler_def Let_def streams_side undisturbed_def split: option.split sum.split)
  have "streams (stop_unassigned i x) = streams x" for i x
    by (auto simp: stop_unassigned_def Let_def streams_side split: prod.split)
  then show "streams (snd (CommandHandler q s)) = streams s"
    by (auto simp: CommandHandler_def streams_side split: option.split)
  show "streams (snd (StartRunHandler env r b s)) = streams s"
    by (auto simp: StartRunHandler_def Let_def streams_side dest!: as split: option.split prod.split bool.split)
  show "streams (snd (ControlRunHandler r a s)) = streams s"
    by (auto simp: ControlRunHandler_def streams_side split: option.split)
  have e: "streams s1 = streams x" if "endScan env i r x = (v, s1)" for i r x v s1
    using that by (auto simp: endScan_def Let_def streams_side split: if_splits prod.splits sum.splits)
  have "streams (stopOnRunner ws i x) = streams x" for ws i x by (simp add: stopOnRunner_def streams_side)
  then have "streams (snd (watch_one env stored c st)) = streams (snd st)" for stored c st
    by (cases st; cases c) (auto simp: watch_one_def Let_def dest!: e split: option.split prod.split sum.split bool.split)
  then have "streams (snd (fold (watch_one env stored) cs st)) = streams (snd st)" for stored cs st
    by (induction cs arbitrary: st) auto
  then have "streams s1 = streams x" if "fold (watch_one env stored) cs (w, x) = (w1, s1)" for stored cs w x w1 s1
    using that by (metis snd_conv)
  then show "streams (snd (failStalledScans env s)) = streams s"
    by (auto simp: failStalledScans_def Let_def streams_side split: prod.split)
  show "streams (snd (OobHandler path s)) = streams s"
    by (auto simp: OobHandler_def Let_def recordLateCallback_def streams_side split: option.split prod.split bool.split)
  show "streams (snd (ParseHandler env cached pb s)) = streams s"
    by (auto simp: ParseHandler_def Let_def streams_side split: option.split)
  show "streams (snd (ConnectClientHandler env r s)) = streams s"
    by (auto simp: ConnectClientHandler_def Let_def streams_side split: option.split prod.split)
  show "streams (snd (RestartRunnerHandler env c u s)) = streams s"
    by (auto simp: RestartRunnerHandler_def streams_side split: option.split)
qed

lemma sent_of_streams: "streams s' = streams s \<Longrightarrow> sse_sent s' = sse_sent s"
  by (simp add: streams_def)

lemma sent_of_side: "side s' = side s \<Longrightarrow> sse_sent s' = sse_sent s"
  by (simp add: side_def)

lemma sent_revoke: "sse_sent (snd (RevokeUserHandler u s)) = sse_sent s"
proof -
  have "side (fold (revoke_socket t) xs x) = side x" for t xs x
    by (rule side_fold) (simp add: revoke_socket_def side_simps)
  then have "sse_sent (fold (revoke_socket t) xs x) = sse_sent x" for t xs x by (rule sent_of_side)
  then show ?thesis by (simp add: RevokeUserHandler_def Let_def)
qed

lemma sent_hibernate: "sse_sent (hibernate s) = sse_sent s"
proof -
  have j: "side (fold (\<lambda>i. set_job i ws) xs x) = side x" for ws xs x by (rule side_fold) (simp add: side_simps)
  have "side (rebuild_one ws x) = side x" for ws x
    by (auto simp: rebuild_one_def Let_def j side_simps split: raw_attachment.split option.split)
  then have "side (fold rebuild_one xs x) = side x" for xs x by (rule side_fold)
  then have "sse_sent (fold rebuild_one xs x) = sse_sent x" for xs x by (rule sent_of_side)
  then show ?thesis by (auto simp: hibernate_def reconstructState_def wiped_def split: option.split)
qed

lemma sent_oob: "sse_sent (oob_retry i s) = sse_sent s"
  by (auto simp: oob_retry_def Let_def split: prod.split bool.split)

definition written_by :: "object_request \<Rightarrow> coord \<Rightarrow> string \<Rightarrow> string \<Rightarrow> bool" where
  "written_by r s c text =
     (case r of
        Sse_send shut c' u body \<Rightarrow> c' = Some c \<and> body = text \<and> given u \<and> map_of (sseStreams s) c = u
      | Sse c' u origin \<Rightarrow> c' = Some c \<and> text = origin @ ''/api/mcp/message?connectionId='' @ c
      | _ \<Rightarrow> False)"

lemmas request_keeps_sent = streams_requests [THEN sent_of_streams] sent_revoke
  side_connect [THEN sent_of_side] side_prune [THEN sent_of_side]

lemma sent_request:
  "sse_sent (snd (handle_request env r s)) = sse_sent s \<or>
   (\<exists>c text. sse_sent (snd (handle_request env r s)) = sse_sent s @ [(c, text)] \<and> written_by r s c text)"
proof (cases r)
  case (Sse c u origin)
  then show ?thesis by (cases c) (auto simp: SseHandler_def enqueue_def written_by_def given_def)
next
  case (Sse_send shut c u body)
  then show ?thesis
    by (cases c) (auto simp: SseSendHandler_def ownedStream_def enqueue_def sse_cancel_def written_by_def given_def split: sum.split)
next
  case Watchdog_pass
  have "sse_sent x = sse_sent s" if "failStalledScans env s = (v, x)" for v x
    using sent_of_streams [OF streams_requests(5), of env s] that by simp
  with Watchdog_pass show ?thesis by (auto split: prod.split sum.split)
qed (simp_all add: request_keeps_sent SseOwnerHandler_def RunnersHandler_def Let_def)

text \<open>
  Only the user who opened an MCP stream writes into it: whatever happens to the coordinator, a
  message enters a stream only by the request that opens it (the endpoint announcement) or by a send
  request of the user it was opened by.
\<close>

theorem only_the_opener_writes:
  "sse_sent (step env e s) = sse_sent s \<or>
   (\<exists>r c text. e = Request r \<and> sse_sent (step env e s) = sse_sent s @ [(c, text)] \<and> written_by r s c text)"
proof (cases e)
  case (Request r)
  with sent_request [of env r s] show ?thesis by auto
next
  case (Message ws m)
  then show ?thesis by (simp add: sent_of_streams [OF streams_message])
next
  case (Task_done i)
  then show ?thesis by (simp add: sent_of_streams [OF streams_run_task])
next
  case (Consume_findings k)
  then show ?thesis by (simp add: sent_of_streams [OF streams_consume])
next
  case (Socket_gone ws)
  have "side (socket_gone ws s) = side s" by (simp add: socket_gone_def Let_def side_simps)
  from sent_of_side [OF this] Socket_gone show ?thesis by simp
next
  case Hibernate
  then show ?thesis by (simp add: sent_hibernate)
next
  case (Auth_timeout ws)
  have "side (auth_timeout ws s) = side s" by (simp add: auth_timeout_def side_simps)
  from sent_of_side [OF this] Auth_timeout show ?thesis by simp
next
  case (Connection_lost ws)
  then show ?thesis by (simp add: sent_of_side [OF side_basic(3)])
next
  case (Pong ws)
  then show ?thesis by (simp add: sent_of_side [OF side_basic(1)])
next
  case (Confirm_dispatched i)
  then show ?thesis by (simp add: sent_of_side [OF side_basic(8)])
next
  case (Mark_failed i reason)
  then show ?thesis by (simp add: sent_of_side [OF side_basic(8)])
next
  case (Set_config p name doc)
  then show ?thesis by (simp add: sent_of_side [OF side_basic(8)])
qed (auto simp: sent_oob parse_timeout_def sse_cancel_def elapse_def Let_def)

end
