(* ===== verification/Lifecycle_Claims.thy ===== *)
theory Lifecycle_Claims
  imports Event_Claims
begin

text \<open>How runners come, go silent, come back and are told to stop.\<close>

section \<open>Going silent\<close>

lemma expired_close: "isHeartbeatExpired (close_ws ws (drop_runner ws s)) v = isHeartbeatExpired s v"
  by (auto simp: isHeartbeatExpired_def close_ws_def drop_runner_def drop_jobs_of_def set_socket_def socket_of_def att_of_def
      split: option.split raw_attachment.split)

lemma expired_prune_one: "isHeartbeatExpired (prune_one ws s) v = isHeartbeatExpired s v"
  by (simp add: prune_one_def expired_close)

lemma close_fields [simp]:
  "runners (close_ws ws s) = runners s" "jobs (close_ws ws s) = jobs s" "pendingChallenges (close_ws ws s) = pendingChallenges s"
  "storage (close_ws ws s) = storage s" "now (close_ws ws s) = now s" "db (close_ws ws s) = db s"
  by (auto simp: close_ws_def set_socket_def split: option.split)

lemma drop_fields [simp]:
  "runners (drop_runner ws s) = sdel ws (runners s)" "jobs (drop_runner ws s) = filter (\<lambda>e. snd e \<noteq> ws) (jobs s)"
  "storage (drop_runner ws s) = storage s" "db (drop_runner ws s) = db s" "now (drop_runner ws s) = now s"
  by (simp_all add: drop_runner_def drop_jobs_of_def)

lemma prune_fold:
  "runners (fold prune_one xs s) = filter (\<lambda>r. \<not> (r \<in> set xs \<and> isHeartbeatExpired s r)) (runners s) \<and>
   jobs (fold prune_one xs s) = filter (\<lambda>e. \<not> (snd e \<in> set xs \<and> isHeartbeatExpired s (snd e))) (jobs s) \<and>
   db (fold prune_one xs s) = db s \<and> storage (fold prune_one xs s) = storage s \<and> now (fold prune_one xs s) = now s \<and>
   (\<forall>v. isHeartbeatExpired (fold prune_one xs s) v = isHeartbeatExpired s v)"
proof (induction xs arbitrary: s)
  case (Cons x xs)
  have one: "runners (prune_one x s) = filter (\<lambda>r. \<not> (r = x \<and> isHeartbeatExpired s r)) (runners s)"
    "jobs (prune_one x s) = filter (\<lambda>e. \<not> (snd e = x \<and> isHeartbeatExpired s (snd e))) (jobs s)"
    "db (prune_one x s) = db s" "storage (prune_one x s) = storage s" "now (prune_one x s) = now s"
    by (auto simp: prune_one_def sdel_def intro!: filter_cong)
  show ?case
    using Cons [of "prune_one x s"] by (auto simp: one expired_prune_one intro!: filter_cong)
qed simp

text \<open>
  Dropping silent runners removes exactly those whose heartbeat is overdue, with every scan they
  held, and nothing else: every other runner keeps its place and its scans, no runner that remains
  is overdue, and neither the tables nor the storage change.
\<close>

theorem silent_runners_are_dropped:
  "runners (pruneDeadRunners s) = filter (\<lambda>r. \<not> isHeartbeatExpired s r) (runners s) \<and>
   jobs (pruneDeadRunners s) =
     filter (\<lambda>e. \<not> (isHeartbeatExpired s (snd e) \<and> snd e \<in> set (runners s @ jkeys (pendingChallenges s)))) (jobs s) \<and>
   list_all (\<lambda>r. \<not> isHeartbeatExpired (pruneDeadRunners s) r) (runners (pruneDeadRunners s)) \<and>
   db (pruneDeadRunners s) = db s \<and> storage (pruneDeadRunners s) = storage s"
proof -
  have r: "runners (pruneDeadRunners s) = filter (\<lambda>r. \<not> isHeartbeatExpired s r) (runners s)"
    using prune_fold [of "runners s @ jkeys (pendingChallenges s)" s]
    by (auto simp: pruneDeadRunners_def intro!: filter_cong)
  then show ?thesis
    using prune_fold [of "runners s @ jkeys (pendingChallenges s)" s]
    by (auto simp: pruneDeadRunners_def list_all_iff intro!: filter_cong)
qed

section \<open>Rebuilding the memory\<close>

text \<open>The connections that count as runners after a restart of the object.\<close>

definition serves :: "coord \<Rightarrow> nat \<Rightarrow> bool" where
  "serves s ws =
     (''runner'' \<in> set (tags_of s ws) \<or>
      ''runner-pending'' \<in> set (tags_of s ws) \<and> (case att_of s ws of Attached a \<Rightarrow> authenticated a | _ \<Rightarrow> False))"

lemma set_job_fields [simp]:
  "runners (set_job i ws s) = runners s" "tags_of (set_job i ws s) = tags_of s" "att_of (set_job i ws s) = att_of s"
  "jobs (set_job i ws s) = jset i ws (jobs s)"
  by (simp_all add: set_job_def fun_eq_iff tags_of_def att_of_def socket_of_def)

lemma set_jobs_fields [simp]:
  "runners (fold (\<lambda>i. set_job i ws) xs s) = runners s" "tags_of (fold (\<lambda>i. set_job i ws) xs s) = tags_of s"
  "att_of (fold (\<lambda>i. set_job i ws) xs s) = att_of s"
  by (induction xs arbitrary: s) simp_all

lemma set_jobs_jobs:
  "map_of (jobs (fold (\<lambda>i. set_job i ws) xs s)) i = (if i \<in> set xs then Some ws else map_of (jobs s) i)"
  by (induction xs arbitrary: s) simp_all

lemma rebuild_reads:
  "tags_of (rebuild_one ws s) = tags_of s" "att_of (rebuild_one ws s) = att_of s"
proof -
  have c: "tags_of (add_client r w x) = tags_of x" "att_of (add_client r w x) = att_of x" for r w x
    by (simp_all add: add_client_def fun_eq_iff tags_of_def att_of_def socket_of_def)
  have f: "tags_of (x\<lparr>runners := y\<rparr>) = tags_of x" "att_of (x\<lparr>runners := y\<rparr>) = att_of x"
    "tags_of (x\<lparr>pendingChallenges := z\<rparr>) = tags_of x" "att_of (x\<lparr>pendingChallenges := z\<rparr>) = att_of x" for x y z
    by (simp_all add: fun_eq_iff tags_of_def att_of_def socket_of_def)
  show "tags_of (rebuild_one ws s) = tags_of s" "att_of (rebuild_one ws s) = att_of s"
    by (simp_all add: rebuild_one_def Let_def c f split: raw_attachment.split option.split)
qed

lemma rebuild_effect:
  "set (runners (rebuild_one ws s)) = (if serves s ws then insert ws (set (runners s)) else set (runners s))"
  "map_of (jobs (rebuild_one ws s)) i =
     (if serves s ws \<and> i \<in> set (active_of s ws) then Some ws else map_of (jobs s) i)"
proof -
  have c: "runners (add_client r w x) = runners x" "jobs (add_client r w x) = jobs x" for r w x
    by (simp_all add: add_client_def)
  have e: "listed (activeJobs empty_attachment) = []" by (simp add: listed_def empty_attachment_def)
  show "set (runners (rebuild_one ws s)) = (if serves s ws then insert ws (set (runners s)) else set (runners s))"
    by (cases "att_of s ws") (auto simp: rebuild_one_def Let_def serves_def sadd_def c split: option.split)
  show "map_of (jobs (rebuild_one ws s)) i =
     (if serves s ws \<and> i \<in> set (active_of s ws) then Some ws else map_of (jobs s) i)"
    by (cases "att_of s ws")
      (auto simp: rebuild_one_def Let_def serves_def c set_jobs_jobs active_of_def read_att_def e split: option.split)
qed

lemma rebuild_fold:
  "set (runners (fold rebuild_one xs s)) = set (runners s) \<union> {ws \<in> set xs. serves s ws} \<and>
   (case map_of (jobs (fold rebuild_one xs s)) i of
      None \<Rightarrow> map_of (jobs s) i = None \<and> (\<forall>ws \<in> set xs. \<not> (serves s ws \<and> i \<in> set (active_of s ws)))
    | Some ws \<Rightarrow> map_of (jobs s) i = Some ws \<or> ws \<in> set xs \<and> serves s ws \<and> i \<in> set (active_of s ws))"
proof (induction xs arbitrary: s)
  case Nil
  then show ?case by (simp split: option.split)
next
  case (Cons x xs)
  let ?s = "rebuild_one x s"
  have same: "serves ?s ws = serves s ws" "active_of ?s ws = active_of s ws" for ws
    by (simp_all add: serves_def active_of_def read_att_def rebuild_reads)
  from Cons [of ?s] show ?case
    by (auto simp: same rebuild_effect split: option.splits if_splits)
qed

text \<open>
  C30. After hibernation or a restart nothing about running scans is lost: the object's memory is
  rebuilt from its sockets so that its runners are exactly the authenticated runner connections, a
  scan is assigned precisely when such a connection holds it, and then to one that does.
\<close>

theorem memory_is_rebuilt_from_sockets:
  assumes "reconstructState s = Some s'"
  shows "set (runners s') = {ws \<in> set (jkeys (sockets s)). serves s ws} \<and>
    (case map_of (jobs s') i of
       None \<Rightarrow> \<not> (\<exists>ws. ws \<in> set (jkeys (sockets s)) \<and> serves s ws \<and> i \<in> set (active_of s ws))
     | Some ws \<Rightarrow> serves s ws \<and> i \<in> set (active_of s ws))"
proof -
  have s': "s' = fold rebuild_one (jkeys (sockets s)) (wiped s)"
    using assms by (simp add: reconstructState_def split: if_splits)
  have w: "tags_of (wiped s) = tags_of s" "att_of (wiped s) = att_of s" "runners (wiped s) = []" "jobs (wiped s) = []"
    by (simp_all add: wiped_def fun_eq_iff tags_of_def att_of_def socket_of_def)
  then have same: "serves (wiped s) ws = serves s ws" "active_of (wiped s) ws = active_of s ws" for ws
    by (simp_all add: serves_def active_of_def read_att_def)
  from rebuild_fold [of "jkeys (sockets s)" "wiped s" i] show ?thesis
    unfolding s' by (auto simp: same w split: option.splits)
qed

theorem memory_is_rebuilt_from_sockets_witness:
  "\<exists>s'. reconstructState ann_gets_hers = Some s' \<and> set (runners s') = {ws \<in> set (jkeys (sockets ann_gets_hers)). serves ann_gets_hers ws} \<and>
     map_of (jobs s') ''runa'' = Some 0"
proof -
  have "case reconstructState ann_gets_hers of None \<Rightarrow> False | Some x \<Rightarrow> map_of (jobs x) ''runa'' = Some 0" by code_simp
  then obtain s' where s': "reconstructState ann_gets_hers = Some s'" "map_of (jobs s') ''runa'' = Some 0"
    by (auto split: option.splits)
  from memory_is_rebuilt_from_sockets [OF s'(1)] s' show ?thesis by blast
qed

end
