(* ===== verification/Dispatch_Claims.thy ===== *)
theory Dispatch_Claims
  imports Lifecycle_Claims
begin

text \<open>Resumption, the watchdog, revocation, and dispatching while other events run.\<close>

section \<open>Resuming\<close>

lemma resume_one_accepts:
  assumes "resume_one others snap identity ws j (r, s) = (r', s')"
  shows "set (r_accepted r') \<subseteq> set (r_accepted r) \<union>
    {i. i = j \<and> text_at snap (jobRunnerKey i) = Some identity \<and> i \<notin> set (runs_at snap FINISHED_SCANS_KEY)}"
    and "length (r_accepted r') \<le> Suc (length (r_accepted r))"
  using assms by (auto simp: resume_one_def Let_def split: if_splits)

lemma resume_fold_accepts:
  "fold (resume_one others snap identity ws) ids (r, s) = (r', s') \<Longrightarrow>
   set (r_accepted r') \<subseteq> set (r_accepted r) \<union>
     {i \<in> set ids. text_at snap (jobRunnerKey i) = Some identity \<and> i \<notin> set (runs_at snap FINISHED_SCANS_KEY)} \<and>
   length (r_accepted r') \<le> length (r_accepted r) + length ids"
proof (induction ids arbitrary: r s)
  case (Cons j ids)
  obtain r1 s1 where one: "resume_one others snap identity ws j (r, s) = (r1, s1)" by fastforce
  from resume_one_accepts [OF one] Cons.IH [of r1 s1] Cons.prems one show ?case by force
qed simp

lemma db_release [simp]: "db (releaseJob ws i s) = db s" "jobs (releaseJob ws i s) = jobs s"
  by (auto simp: releaseJob_def set_att_def set_socket_def split: option.split)

lemma take_over_fields: "db (take_over ws i s) = db s" "jobs (take_over ws i s) = jset i ws (jobs s)"
  by (auto simp: take_over_def set_job_def split: option.split)

lemma forget_fields: "db (forgetJobRunner i s) = db s" "jobs (forgetJobRunner i s) = jobs s"
  by (simp_all add: forgetJobRunner_def del_keys_def)

lemma quiet_one:
  assumes "resume_one quiet snap identity ws j (r, s) = (r', s')"
  shows "db s' = db s" and "map_of (jobs s) i = Some ws \<Longrightarrow> map_of (jobs s') i = Some ws"
    and "i \<in> set (r_accepted r') \<Longrightarrow> i \<in> set (r_accepted r) \<or>
      map_of (jobs s') i = Some ws \<and> (\<exists>st \<in> set RESUMABLE_STATUSES. getScanStatus (db s) i = Some st)"
  using assms
  by (auto simp: resume_one_def Let_def quiet_def take_over_fields forget_fields split: if_splits)

lemma quiet_fold:
  "fold (resume_one quiet snap identity ws) ids (r, s) = (r', s') \<Longrightarrow>
   db s' = db s \<and> (map_of (jobs s) i = Some ws \<longrightarrow> map_of (jobs s') i = Some ws) \<and>
   (i \<in> set (r_accepted r') \<longrightarrow> i \<in> set (r_accepted r) \<or>
      map_of (jobs s') i = Some ws \<and> (\<exists>st \<in> set RESUMABLE_STATUSES. getScanStatus (db s) i = Some st))"
proof (induction ids arbitrary: r s)
  case (Cons j ids)
  obtain r1 s1 where one: "resume_one quiet snap identity ws j (r, s) = (r1, s1)" by fastforce
  from quiet_one(1) [OF one] quiet_one(2,3) [OF one, where i = i] Cons.IH [of r1 s1] Cons.prems one show ?case by auto
qed simp

lemma jobs_set_att [simp]: "jobs (set_att ws a s) = jobs s"
  by (auto simp: set_att_def set_socket_def split: option.split)


text \<open>A runner whose connection drops and comes back, with another user's runner claiming the same run.\<close>

definition ann_drops :: coord where
  "ann_drops = demo_after [queued_for ''runa'' ''ann'', Request (Connect_runner (private_runner ''ann'' None)), Socket_gone 0,
     Request (Connect_runner (private_runner ''bob'' (Some ''runa''))), Request (Connect_runner (private_runner ''ann'' None))]"


section \<open>The watchdog\<close>

lemma now_fields [simp]:
  "now (send ws m s) = now s" "now (del_job i s) = now s" "now (set_att ws a s) = now s"
  "now (clearScanState i s) = now s" "now (forgetJobRunner i s) = now s"
  by (auto simp: send_def set_socket_def del_job_def set_att_def clearScanState_def forgetJobRunner_def del_keys_def split: option.split)

lemma now_broadcast [simp]: "now (broadcast i m s) = now s"
proof -
  have "now (fold (\<lambda>c. send c w) xs x) = now x" for w xs x by (induction xs arbitrary: x) simp_all
  then show ?thesis by (simp add: broadcast_def)
qed

lemma now_endScan: "endScan env i r s = (v, s') \<Longrightarrow> now s' = now s"
  by (auto simp: endScan_def Let_def split: if_splits prod.splits sum.splits)

lemma now_stop [simp]: "now (stopOnRunner ws i s) = now s"
  by (auto simp: stopOnRunner_def releaseJob_def split: option.split)

definition long_enough :: "(string \<times> int) list \<Rightarrow> int \<Rightarrow> string \<times> string \<times> int \<Rightarrow> bool" where
  "long_enough stored t c =
     (fst (snd c) = ''dispatched'' \<and> int SILENT_OWNED_MINUTES \<le> snd (snd c) \<or>
      (\<exists>since. map_of stored (fst c) = Some since \<and> UNOWNED_GRACE_MS \<le> t - since))"

lemma watch_one_failed:
  assumes "watch_one env stored c (w, s) = (w', s')"
  shows "now s' = now s" and "set (w_failed w') \<subseteq> set (w_failed w) \<union> {i. i = fst c \<and> long_enough stored (now s) c}"
proof -
  obtain i st mins where c: "c = (i, st, mins)" by (cases c)
  have grace: "0 < UNOWNED_GRACE_MS" by (simp add: UNOWNED_GRACE_MS_def)
  show "now s' = now s"
    using assms by (auto simp: watch_one_def c Let_def dest: now_endScan split: option.splits prod.splits sum.splits bool.splits if_splits)
  show "set (w_failed w') \<subseteq> set (w_failed w) \<union> {i. i = fst c \<and> long_enough stored (now s) c}"
    using assms grace
    by (auto simp: watch_one_def c Let_def long_enough_def split: option.splits prod.splits sum.splits bool.splits if_splits)
qed

lemma watch_fold_failed:
  "fold (watch_one env stored) cs (w, s) = (w', s') \<Longrightarrow>
   set (w_failed w') \<subseteq> set (w_failed w) \<union> {i. \<exists>c \<in> set cs. i = fst c \<and> long_enough stored (now s) c}"
proof (induction cs arbitrary: w s)
  case (Cons c cs)
  obtain w1 s1 where one: "watch_one env stored c (w, s) = (w1, s1)" by fastforce
  from watch_one_failed [OF one] Cons.IH [of w1 s1] Cons.prems one show ?case by auto
qed simp

lemma stalled_candidate:
  assumes "(i, st, mins) \<in> set (select_stalled d P minutes limit)"
  shows "\<exists>sc \<in> set (scans d). s_id sc = i \<and> s_status sc = st \<and> mins = idle_minutes d sc \<and> P sc \<and> int minutes \<le> mins"
proof -
  from assms have "(i, st, mins) \<in> (\<lambda>s. (s_id s, s_status s, idle_minutes d s)) `
      set (filter (\<lambda>s. P s \<and> last_activity d s < db_clock d - 60 * int (max 1 minutes)) (scans d))"
    unfolding select_stalled_def using set_take_subset by fastforce
  then obtain sc where sc: "sc \<in> set (scans d)" "P sc" "last_activity d sc < db_clock d - 60 * int (max 1 minutes)"
    "s_id sc = i" "s_status sc = st" "mins = idle_minutes d sc" by auto
  from sc(3) have "int minutes * 60 \<le> db_clock d - last_activity d sc" by simp
  then have "int minutes \<le> idle_minutes d sc" unfolding idle_minutes_def by (metis nonzero_mult_div_cancel_right zdiv_mono1 zero_less_numeral zero_neq_numeral)
  with sc show ?thesis by blast
qed


definition abandoned :: coord where
  "abandoned = demo_after [queued_for ''runa'' ''ann'', Request (Connect_runner (private_runner ''ann'' None)), Socket_gone 0,
     Elapse 1000000, Request Watchdog_pass, Elapse 300000]"


end
