(* ===== verification/Message_Claims.thy ===== *)
theory Message_Claims
  imports Scan_Claims
begin

text \<open>
  Acknowledged delivery, the texts users see, the configuration of a scan and late out-of-band
  callbacks.
\<close>

section \<open>Acknowledgements\<close>


definition exec1 :: "json option" where "exec1 = Some (JStr (units ''x1''))"
definition seq1 :: "rat \<Rightarrow> json option" where "seq1 n = Some (JNum n)"

text \<open>One event, terminal, whose acknowledgement waits until its write is done.\<close>

definition tracked_one :: tracker where
  "tracked_one = snd (snd (settle 0 (snd (processed 4 ''run1'' ''x1'' 1 True
     (snd (persisted ''run1'' (snd (accept ''run1'' exec1 (seq1 1) None no_deliveries))))))))"

lemma tracked_one_delivers: "delivers tracked_one"
proof -
  let ?t1 = "snd (accept ''run1'' exec1 (seq1 1) None no_deliveries)"
  let ?t2 = "snd (persisted ''run1'' ?t1)"
  let ?t3 = "snd (processed 4 ''run1'' ''x1'' 1 True ?t2)"
  have a: "fst (accept ''run1'' exec1 (seq1 1) None no_deliveries) = New ''x1'' 1" by code_simp
  have "delivers ?t3"
    using delivers.event [OF delivers.start, of "''run1''" exec1 "seq1 1" None "''x1''" 1 ?t1 0 ?t2 4 True
        "fst (processed 4 ''run1'' ''x1'' 1 True ?t2)" ?t3] a
    by (auto simp: prod_eq_iff persisted_def accept_def no_deliveries_def split: option.splits if_splits)
  then show ?thesis unfolding tracked_one_def by (rule delivers.done_one) (simp add: prod_eq_iff)
qed


text \<open>
  The mark the coordinator writes to its storage never covers an event that could still be lost:
  when a run's mark is written, every event of the run accepted so far has settled.
\<close>

theorem stored_mark_covers_settled_events:
  assumes "delivers t" and "settle p t = (written, sent, t')" and "(r, m) \<in> set written"
    and "(p', r, m') \<in> set (h_accepted t')"
  shows "p' \<in> set (h_settled t')"
  using written_covers [OF delivers_tracked [OF assms(1)] assms(2-4)] .

definition two_accepted :: tracker where
  "two_accepted = snd (persisted ''run1'' (snd (accept ''run1'' exec1 (seq1 1) None no_deliveries)))"

theorem stored_mark_covers_settled_events_witness:
  "\<exists>t. delivers t \<and> fst (settle 0 t) = [(''run1'', (''x1'', 1))] \<and> 0 \<in> set (h_settled (snd (snd (settle 0 t))))"
proof -
  let ?t1 = "snd (accept ''run1'' exec1 (seq1 1) None no_deliveries)"
  let ?t2 = "snd (persisted ''run1'' ?t1)"
  let ?t3 = "snd (processed 4 ''run1'' ''x1'' 1 False ?t2)"
  have a: "accept ''run1'' exec1 (seq1 1) None no_deliveries = (New ''x1'' 1, ?t1)" by code_simp
  have b: "persisted ''run1'' ?t1 = (0, ?t2)" by code_simp
  have d: "delivers ?t3" by (rule delivers.event [OF delivers.start a b]) (simp add: prod_eq_iff)
  have w: "fst (settle 0 ?t3) = [(''run1'', (''x1'', 1))]" by code_simp
  have h: "(0, ''run1'', (''x1'', 1)) \<in> set (h_accepted (snd (snd (settle 0 ?t3))))" by code_simp
  have "0 \<in> set (h_settled (snd (snd (settle 0 ?t3))))"
    by (rule stored_mark_covers_settled_events [OF d, where written = "fst (settle 0 ?t3)" and r = "''run1''"
          and m = "(''x1'', 1)" and sent = "fst (snd (settle 0 ?t3))"])
      (use w h in \<open>simp_all add: prod_eq_iff\<close>)
  with d w show ?thesis by blast
qed

section \<open>What users see\<close>

text \<open>
  The reason shown for a failed scan is one bounded line whatever a runner sends: at most 500 code
  units, without control characters, line breaks or escape sequences, and with no white space but
  single spaces' character.
\<close>

theorem runner_errors_are_one_bounded_line:
  "length (runnerErrorText rt payload) \<le> MAX_RUNNER_MESSAGE_LENGTH \<and>
   list_all (\<lambda>c. \<not> u_control c \<and> u_ws c = (c = 32)) (runnerErrorText rt payload)"
proof -
  have "runnerErrorText rt payload = [] \<or> (\<exists>raw. runnerErrorText rt payload = sanitizeRunnerText rt raw MAX_RUNNER_MESSAGE_LENGTH)"
    using error_text_shape [of rt payload] by (simp add: error_shape_def)
  then show ?thesis
  proof (elim disjE exE)
    fix raw
    assume r: "runnerErrorText rt payload = sanitizeRunnerText rt raw MAX_RUNNER_MESSAGE_LENGTH"
    have "length (sanitizeRunnerText rt raw MAX_RUNNER_MESSAGE_LENGTH) \<le> MAX_RUNNER_MESSAGE_LENGTH"
      unfolding sanitizeRunnerText_def by (rule bounded_length) (simp add: MAX_RUNNER_MESSAGE_LENGTH_def)
    moreover have "u_ws 32" by (simp add: u_ws_def)
    ultimately show ?thesis
      unfolding r list_all_iff using sanitized_clean [of _ rt raw MAX_RUNNER_MESSAGE_LENGTH] by blast
  qed simp
qed

text \<open>
  A URL in a runner's text keeps nothing of its user, password, path, query or fragment but
  whether it has one: two URLs that agree in scheme and host and in what they have are shown as the
  same text.
\<close>

theorem shown_urls_reveal_no_secret:
  assumes "new_url a = Some u" and "new_url b = Some v"
    and "u_protocol u = u_protocol v" and "u_host u = u_host v"
    and "(u_username u = [] \<and> u_password u = []) = (u_username v = [] \<and> u_password v = [])"
    and "(u_search u \<noteq> [] \<or> 63 \<in> set a) = (u_search v \<noteq> [] \<or> 63 \<in> set b)"
    and "(u_hash u = []) = (u_hash v = [])"
    and "(u_pathname u = [] \<or> u_pathname u = units ''/'') = (u_pathname v = [] \<or> u_pathname v = units ''/'')"
  shows "redactUrl new_url a = redactUrl new_url b"
  by (rule redaction_hides [OF assms])

definition demo_url :: "string \<Rightarrow> url" where
  "demo_url secret = \<lparr>u_protocol = units ''https:'', u_host = units ''h'', u_username = units secret, u_password = units secret,
     u_pathname = units (''/'' @ secret), u_search = units (''?k='' @ secret), u_hash = []\<rparr>"

theorem shown_urls_reveal_no_secret_witness:
  "redactUrl (\<lambda>t. Some (demo_url (if t = units ''https://a@h'' then ''a'' else ''other''))) (units ''https://a@h'')
   = redactUrl (\<lambda>t. Some (demo_url (if t = units ''https://a@h'' then ''a'' else ''other''))) (units ''https://b@h'')"
  by (rule shown_urls_reveal_no_secret [OF refl refl]) code_simp+

section \<open>Scan configurations\<close>

text \<open>
  A configuration written for a run is read back unchanged under the key that is returned; the
  key is accepted for that run and for no other; no other object is affected; and once deleted the
  key is not found.
\<close>

theorem config_round_trip:
  assumes "isValidRunId runId" and "is_uuid uuid"
  shows "\<exists>key r2'. writeScanConfig uuid runId config r2 = (Inr key, r2') \<and>
    getScanConfig False r2' key = Inr config \<and>
    (isScanConfigKeyForRun key j \<longleftrightarrow> j = runId) \<and>
    (k \<noteq> key \<longrightarrow> getScanConfig False r2' k = getScanConfig False r2 k) \<and>
    getScanConfig False (deleteScanConfig False key r2') key = Inl Not_found"
proof -
  let ?key = "scan_config_key runId uuid"
  have own: "isScanConfigKeyForRun ?key runId"
    using written_key_is_for_run assms(1,2) by (simp add: isValidRunId_def)
  then have valid: "isValidScanConfigKey ?key" by (simp add: isScanConfigKeyForRun_def)
  have "isScanConfigKeyForRun ?key j \<longleftrightarrow> j = runId" using own key_of_one_run by blast
  then show ?thesis
    using assms valid
    by (intro exI [of _ ?key] exI [of _ "jset ?key (Document config) r2"])
      (simp add: writeScanConfig_def getScanConfig_def deleteScanConfig_def Let_def)
qed

theorem config_round_trip_witness:
  "\<exists>key r2'. writeScanConfig (replicate 36 (CHR ''a'')) ''run1'' (typed ''c'') [] = (Inr key, r2') \<and>
    getScanConfig False r2' key = Inr (typed ''c'') \<and>
    (isScanConfigKeyForRun key ''run2'' \<longleftrightarrow> ''run2'' = ''run1'') \<and>
    (''k'' \<noteq> key \<longrightarrow> getScanConfig False r2' ''k'' = getScanConfig False [] ''k'') \<and>
    getScanConfig False (deleteScanConfig False key r2') key = Inl Not_found"
proof (rule config_round_trip)
  show "isValidRunId ''run1''" "is_uuid (replicate 36 (CHR ''a''))" by code_simp+
qed

text \<open>
  A shared runner is never told to scan private addresses, unless the operator opted in: of the
  configuration it receives, no key that Go's case-insensitive decoder could take for the switch
  enables it; every entry of the configuration that the decoder would not take for its security
  section arrives unchanged.
\<close>

theorem shared_runners_get_no_private_access:
  assumes "isSharedRunnerTags tags" and "env \<noteq> Some ''true''"
  shows "\<not> go_allows_private_ips (configForRunner (JObj kvs) tags env) \<and>
    (goJsonFold (units k) \<noteq> units ''security'' \<longrightarrow> jprop (configForRunner (JObj kvs) tags env) k = jprop (JObj kvs) k)"
proof
  show "\<not> go_allows_private_ips (configForRunner (JObj kvs) tags env)" by (rule shared_config_is_guarded [OF assms])
  have "goJsonFold (units ''security'') = units ''security''"
    by (simp add: goJsonFold_def units_def upper_unit_def lower_unit_def)
  moreover have "map_of (filter (\<lambda>e. goJsonFold (fst e) \<noteq> units ''security'') m) x =
      (if goJsonFold x \<noteq> units ''security'' then map_of m x else None)"
    for m :: "(ustring \<times> json) list" and x
    by (induction m) auto
  ultimately show "goJsonFold (units k) \<noteq> units ''security'' \<longrightarrow> jprop (configForRunner (JObj kvs) tags env) k = jprop (JObj kvs) k"
    using assms by (auto simp: configForRunner_def jprop_def set_prop_def Let_def)
qed

definition sly_config :: "(ustring \<times> json) list" where
  "sly_config = [(units ''base_url'', JStr (units ''https://t'')),
     (units ''Security'', JObj [(units ''ALLOW_private_ips'', JBool True)])]"

lemma base_url_folds: "goJsonFold (units ''base_url'') \<noteq> units ''security''"
  by (simp add: goJsonFold_def units_def upper_unit_def lower_unit_def)

theorem shared_runners_get_no_private_access_witness:
  "\<not> go_allows_private_ips (configForRunner (JObj sly_config) (token_tags True ''r'' ''v1.0.0'' []) None) \<and>
   jprop (configForRunner (JObj sly_config) (token_tags True ''r'' ''v1.0.0'' []) None) ''base_url'' = Some (JStr (units ''https://t''))"
proof -
  have "isSharedRunnerTags (token_tags True ''r'' ''v1.0.0'' [])" by code_simp
  from shared_runners_get_no_private_access [OF this, of None sly_config "''base_url''"]
  have "\<not> go_allows_private_ips (configForRunner (JObj sly_config) (token_tags True ''r'' ''v1.0.0'' []) None)"
    "jprop (configForRunner (JObj sly_config) (token_tags True ''r'' ''v1.0.0'' []) None) ''base_url'' = jprop (JObj sly_config) ''base_url''"
    using base_url_folds by auto
  moreover have "jprop (JObj sly_config) ''base_url'' = Some (JStr (units ''https://t''))" by code_simp
  ultimately show ?thesis by simp
qed

end
