(* ===== verification/Version_Order.thy ===== *)
theory Version_Order
  imports Message_Claims
begin

text \<open>
  The version comparison against what it is meant to compute: release numbers component by
  component, missing ones as zero, a pre-release below its release. Then the bounds of stored
  out-of-band tokens.
\<close>

section \<open>Versions\<close>

definition release_text :: "nat list \<Rightarrow> string" where
  "release_text ns = join ''.'' (map nat_digits ns)"

definition version_text :: "nat list \<Rightarrow> string option \<Rightarrow> string" where
  "version_text ns pre = ''v'' @ release_text ns @ (case pre of None \<Rightarrow> [] | Some p \<Rightarrow> ''-'' @ p)"

definition pad_to :: "nat \<Rightarrow> nat list \<Rightarrow> nat list" where
  "pad_to k ns = ns @ replicate (k - length ns) 0"

definition precedes :: "nat list \<times> string option \<Rightarrow> nat list \<times> string option \<Rightarrow> bool" where
  "precedes a b =
     (let k = max (length (fst a)) (length (fst b)); x = pad_to k (fst a); y = pad_to k (fst b)
      in ord_class.lexordp x y \<or>
         (x = y \<and> (case (snd a, snd b) of
            (Some p, None) \<Rightarrow> True | (Some p, Some q) \<Rightarrow> string_less p q | _ \<Rightarrow> False)))"

definition plain_version :: "nat list \<times> string option \<Rightarrow> bool" where
  "plain_version v = (fst v \<noteq> [] \<and> (case snd v of None \<Rightarrow> True | Some p \<Rightarrow> p \<noteq> [] \<and> CHR ''-'' \<notin> set p))"

lemma digits_only: "c \<in> set (release_text ns) \<Longrightarrow> is_digit c \<or> c = CHR ''.''"
proof (induction ns)
  case (Cons n ns)
  then show ?case by (cases ns) (auto simp: release_text_def dest: nat_digits_is_digit)
qed (simp add: release_text_def)

lemma split_release: "ns \<noteq> [] \<Longrightarrow> split_on (CHR ''.'') (release_text ns) = map nat_digits ns"
proof (induction ns)
  case (Cons n ns)
  have dot: "CHR ''.'' \<notin> set (nat_digits n)" using nat_digits_is_digit [of "CHR ''.''" n] by (auto simp: is_digit_def)
  show ?case
  proof (cases ns)
    case Nil
    with dot show ?thesis by (simp add: release_text_def split_on_no_sep)
  next
    case (Cons m ms)
    then have "release_text (n # ns) = nat_digits n @ CHR ''.'' # release_text ns" by (simp add: release_text_def)
    with Cons.IH Cons show ?thesis by (simp add: split_on_append [OF dot])
  qed
qed simp

lemma part_number_digits: "part_number (nat_digits n) = Some n"
  using nat_digits_is_digit by (auto simp: part_number_def list_all_iff dec_val_nat_digits)

lemma no_dash: "CHR ''-'' \<notin> set (release_text ns)"
  using digits_only by (fastforce simp: is_digit_def)

lemma version_parts:
  assumes "plain_version (ns, pre)"
  shows "release_and_pre (strip_v (version_text ns pre)) = (release_text ns, pre)"
proof -
  from assms have "ns \<noteq> []" by (simp add: plain_version_def)
  then obtain n rest where ns: "ns = n # rest" by (cases ns) auto
  obtain c cs where c: "nat_digits n = c # cs" by (metis nat_digits.simps append_is_Nil_conv list.exhaust not_Cons_self2)
  have "c \<noteq> CHR ''.''" using nat_digits_is_digit [of c n] c by (auto simp: is_digit_def)
  moreover obtain ds where "release_text ns = c # ds" using ns c by (cases rest) (auto simp: release_text_def)
  ultimately have "strip_v (version_text ns pre) = release_text ns @ (case pre of None \<Rightarrow> [] | Some p \<Rightarrow> ''-'' @ p)"
    by (auto simp: version_text_def split: option.split)
  then show ?thesis
    using assms no_dash [of ns]
    by (auto simp: release_and_pre_def plain_version_def split_on_no_sep split_on_append split: option.split)
qed

lemma compare_missing:
  "compare_parts rr cr (map Some xs) [] = (if xs = replicate (length xs) 0 then None else Some False)"
  "compare_parts rr cr [] (map Some ys) = (if ys = replicate (length ys) 0 then None else Some True)"
proof -
  show "compare_parts rr cr (map Some xs) [] = (if xs = replicate (length xs) 0 then None else Some False)"
    by (induction xs) auto
  show "compare_parts rr cr [] (map Some ys) = (if ys = replicate (length ys) 0 then None else Some True)"
    by (induction ys) auto
qed

lemma lexordp_zeros:
  fixes xs :: "nat list"
  shows "\<not> ord_class.lexordp xs (replicate (length xs) 0)"
    and "ord_class.lexordp (replicate (length xs) 0) xs \<longleftrightarrow> xs \<noteq> replicate (length xs) 0"
  by (induction xs) auto

lemma compare_parts_padded:
  "compare_parts rr cr (map Some xs) (map Some ys) =
     (let k = max (length xs) (length ys); x = pad_to k xs; y = pad_to k ys
      in if x = y then None else Some (ord_class.lexordp x y))"
proof (induction xs ys rule: list_induct2')
  case (2 x xs)
  then show ?case using compare_missing(1) [of rr cr "x # xs"] lexordp_zeros(1) [of "x # xs"]
    by (simp add: pad_to_def Let_def del: compare_parts.simps)
next
  case (3 y ys)
  then show ?case using compare_missing(2) [of rr cr "y # ys"] lexordp_zeros(2) [of "y # ys"]
    by (auto simp: pad_to_def Let_def simp del: compare_parts.simps)
next
  case (4 x xs y ys)
  then show ?case by (auto simp: pad_to_def Let_def)
qed (simp add: pad_to_def)

text \<open>
  C31. On versions of the form v1.2.3 or v1.2.3-beta the comparison is the intended order: a runner is
  reported as outdated exactly when its release precedes the coordinator's, number by number with
  missing numbers as zero, or the releases are equal and its pre-release precedes.
\<close>

theorem version_comparison_is_the_release_order:
  assumes "plain_version (xs, p)" and "plain_version (ys, q)"
  shows "isVersionOutdated (version_text xs p) (version_text ys q) = precedes (xs, p) (ys, q)"
proof -
  have dev: "version_text zs r \<noteq> ''dev''" for zs r by (simp add: version_text_def)
  have parts: "map part_number (split_on (CHR ''.'') (release_text zs)) = map Some zs" if "plain_version (zs, r)" for zs r
    using that by (simp add: plain_version_def split_release part_number_digits o_def)
  have given: "pre_given r \<longleftrightarrow> r \<noteq> None" if "plain_version (zs, r)" for zs r
    using that by (auto simp: plain_version_def pre_given_def)
  let ?k = "max (length xs) (length ys)"
  have unfolded: "isVersionOutdated (version_text xs p) (version_text ys q) =
      (case compare_parts (release_text xs) (release_text ys) (map Some xs) (map Some ys) of
         Some verdict \<Rightarrow> verdict
       | None \<Rightarrow> (case (p, q) of (Some a, None) \<Rightarrow> True | (Some a, Some b) \<Rightarrow> string_less a b | _ \<Rightarrow> False))"
    unfolding isVersionOutdated_def version_parts [OF assms(1)] version_parts [OF assms(2)] prod.case Let_def
      parts [OF assms(1)] parts [OF assms(2)] given [OF assms(1)] given [OF assms(2)]
    by (simp add: dev) (cases p; cases q; simp split: option.split)
  show ?thesis
  proof (cases "pad_to ?k xs = pad_to ?k ys")
    case True
    then have "\<not> ord_class.lexordp (pad_to ?k xs) (pad_to ?k ys)" by (simp add: lexordp_irreflexive')
    with True show ?thesis
      unfolding unfolded by (simp add: compare_parts_padded precedes_def Let_def)
  next
    case False
    then show ?thesis
      unfolding unfolded by (simp add: compare_parts_padded precedes_def Let_def)
  qed
qed

theorem version_comparison_is_the_release_order_witness:
  "isVersionOutdated (version_text [1, 9] (Some ''beta'')) (version_text [1, 10, 0] None) = precedes ([1, 9], Some ''beta'') ([1, 10, 0], None)
   \<and> precedes ([1, 9], Some ''beta'') ([1, 10, 0], None) \<and> version_text [1, 9] (Some ''beta'') = ''v1.9-beta''"
proof
  show "isVersionOutdated (version_text [1, 9] (Some ''beta'')) (version_text [1, 10, 0] None)
      = precedes ([1, 9], Some ''beta'') ([1, 10, 0], None)"
    by (rule version_comparison_is_the_release_order) code_simp+
qed code_simp

section \<open>Out-of-band tokens\<close>

lemma insert_oob_count:
  "oob_count (insert_oob i t db) j \<le> oob_count db j + (if j = i then 1 else 0)"
  "j \<noteq> i \<Longrightarrow> oob_count (insert_oob i t db) j = oob_count db j"
  by (auto simp: oob_count_def insert_oob_def)

lemma fold_insert_oob:
  "oob_count (fold (insert_oob i) ts db) i \<le> oob_count db i + length ts"
  "j \<noteq> i \<Longrightarrow> oob_count (fold (insert_oob i) ts db) j = oob_count db j"
proof -
  show "oob_count (fold (insert_oob i) ts db) i \<le> oob_count db i + length ts"
  proof (induction ts arbitrary: db)
    case (Cons t ts)
    from Cons [of "insert_oob i t db"] insert_oob_count(1) [of i t db i] show ?case by simp
  qed simp
  show "j \<noteq> i \<Longrightarrow> oob_count (fold (insert_oob i) ts db) j = oob_count db j"
    by (induction ts arbitrary: db) (simp_all add: insert_oob_count)
qed

lemma length_map_filter: "length (List.map_filter f xs) \<le> length xs"
  by (induction xs) (auto simp: map_filter_simps split: option.split)

text \<open>
  What a runner hands over for late callbacks is bounded whatever it sends: at most 100 tokens of
  one event are considered, and a scan never holds more than 2000; other scans' tokens are untouched.
\<close>

theorem oob_tokens_are_bounded:
  "length (sanitizeOobPending data) \<le> MAX_OOB_TOKENS_PER_EVENT \<and>
   oob_count (storeOobPending i tokens db) i \<le> max (oob_count db i) MAX_OOB_TOKENS_PER_SCAN \<and>
   (j \<noteq> i \<longrightarrow> oob_count (storeOobPending i tokens db) j = oob_count db j)"
proof (intro conjI impI)
  show "length (sanitizeOobPending data) \<le> MAX_OOB_TOKENS_PER_EVENT"
    unfolding sanitizeOobPending_def by (auto split: option.split intro!: order_trans [OF length_map_filter])
  let ?ts = "take (MAX_OOB_TOKENS_PER_SCAN - oob_count db i) tokens"
  have "oob_count (fold (insert_oob i) ?ts db) i \<le> oob_count db i + (MAX_OOB_TOKENS_PER_SCAN - oob_count db i)"
    by (rule order_trans [OF fold_insert_oob(1)]) simp
  also have "\<dots> \<le> max (oob_count db i) MAX_OOB_TOKENS_PER_SCAN" by simp
  finally show "oob_count (storeOobPending i tokens db) i \<le> max (oob_count db i) MAX_OOB_TOKENS_PER_SCAN"
    by (simp add: storeOobPending_def)
  show "oob_count (storeOobPending i tokens db) j = oob_count db j" if "j \<noteq> i"
    using that by (simp add: storeOobPending_def fold_insert_oob)
qed

theorem oob_tokens_are_bounded_witness:
  "oob_count (storeOobPending ''run1'' [(''tok'', [], [])] demo_tables) ''run2'' = 0 \<and>
   oob_count (storeOobPending ''run1'' [(''tok'', [], [])] demo_tables) ''run1'' = 1"
proof
  have "oob_count demo_tables ''run2'' = 0" by code_simp
  with oob_tokens_are_bounded [of None "''run1''" "[(''tok'', [], [])]" demo_tables "''run2''"]
  show "oob_count (storeOobPending ''run1'' [(''tok'', [], [])] demo_tables) ''run2'' = 0" by simp
qed code_simp

text \<open>
  A late callback is reported at most once: if it is recorded, the scan has its finding and the
  token is consumed, so the same callback again finds nothing; if it is not, nothing changed. Every
  other token stays.
\<close>

theorem late_callbacks_count_once:
  "(case recordLateOobCallback i token db of
      (False, d) \<Rightarrow> d = db
    | (True, d) \<Rightarrow> fst (recordLateOobCallback i token d) = False \<and>
        ''oob-'' @ i @ ''-'' @ token \<in> f_id ` set (findings d)) \<and>
   filter (\<lambda>r. oob_key r \<noteq> (i, token)) (oob_pending (snd (recordLateOobCallback i token db)))
     = filter (\<lambda>r. oob_key r \<noteq> (i, token)) (oob_pending db)"
proof
  let ?rows = "filter (\<lambda>r. o_scan r = i \<and> o_token r = token) (oob_pending db)"
  have stays: "x \<in> f_id ` set (findings d) \<Longrightarrow> x \<in> f_id ` set (findings (fold (\<lambda>r. insert_finding (oob_finding r)) rs d))" for x rs d
    by (induction rs arbitrary: d) (auto simp: insert_finding_def)
  have found: "''oob-'' @ i @ ''-'' @ token \<in> f_id ` set (findings (fold (\<lambda>r. insert_finding (oob_finding r)) rs d))"
    if "rs \<noteq> []" "\<forall>r \<in> set rs. o_scan r = i \<and> o_token r = token" for rs d
  proof -
    note given = that
    obtain r rest where rs: "rs = r # rest" by (metis given(1) list.exhaust)
    have "f_id (oob_finding r) = ''oob-'' @ i @ ''-'' @ token" using given(2) rs by (simp add: oob_finding_def)
    then have "''oob-'' @ i @ ''-'' @ token \<in> f_id ` set (findings (insert_finding (oob_finding r) d))"
      by (force simp: insert_finding_def)
    from stays [OF this, of rest] rs show ?thesis by simp
  qed
  define d where "d = (fold (\<lambda>r. insert_finding (oob_finding r)) ?rows db)
    \<lparr>oob_pending := filter (\<lambda>r. \<not> (o_scan r = i \<and> o_token r = token)) (oob_pending db)\<rparr>"
  let ?ok = "list_ex (\<lambda>r. o_created r > db_clock db - OOB_PENDING_DAYS * 86400) ?rows \<and> scan_exists db i"
  have gone: "filter (\<lambda>r. o_scan r = i \<and> o_token r = token) (oob_pending d) = []" by (simp add: d_def)
  have again: "fst (recordLateOobCallback i token d) = False"
    unfolding recordLateOobCallback_def gone Let_def by simp
  have mine: "\<forall>r \<in> set ?rows. o_scan r = i \<and> o_token r = token" by simp
  have fd: "findings d = findings (fold (\<lambda>r. insert_finding (oob_finding r)) ?rows db)" by (simp add: d_def)
  have f: "''oob-'' @ i @ ''-'' @ token \<in> f_id ` set (findings d)" if ok: ?ok
  proof -
    have "?rows \<noteq> []" using ok by (cases ?rows) simp_all
    from found [OF this mine] show ?thesis unfolding fd .
  qed
  have r: "recordLateOobCallback i token db = (if ?ok then (True, d) else (False, db))"
    unfolding recordLateOobCallback_def Let_def d_def by (cases ?ok) (simp_all only: simp_thms if_True if_False)
  show "case recordLateOobCallback i token db of
      (False, d) \<Rightarrow> d = db
    | (True, d) \<Rightarrow> fst (recordLateOobCallback i token d) = False \<and> ''oob-'' @ i @ ''-'' @ token \<in> f_id ` set (findings d)"
    using again f unfolding r by (cases ?ok) (simp_all only: if_True if_False prod.case bool.case simp_thms)
  show "filter (\<lambda>r. oob_key r \<noteq> (i, token)) (oob_pending (snd (recordLateOobCallback i token db)))
     = filter (\<lambda>r. oob_key r \<noteq> (i, token)) (oob_pending db)"
    by (auto simp: recordLateOobCallback_def Let_def oob_key_def intro!: filter_cong)
qed

end
