(* ===== verification/Auth_Db.thy ===== *)
theory Auth_Db
  imports Prelude
begin

text \<open>
  \<open>repositories/auth.ts\<close> and the session cache: the tables of users, login challenges, failed logins
  and request limits, one definition per statement the services use. \<open>clock_ms\<close> is \<open>Date.now()\<close>; times
  written as text keep whole seconds.
\<close>

record account_row =
  u_id :: string
  u_name :: string
  u_password :: string
  u_email :: "string option"
  u_email_verified :: bool
  u_api_key :: "string option"
  u_public_key :: "string option"
  u_delete_at :: "int option"
  u_2fa :: bool
  u_2fa_secret :: "string option"
  u_2fa_counter :: "int option"
  u_interactive :: bool
  u_plan :: string

record challenge_row =
  ch_token :: string
  ch_user :: string
  ch_challenge :: string
  ch_difficulty :: nat
  ch_expires :: int

text \<open>What the session cache holds, with the time an entry expires.\<close>

datatype cached =
    C_session string string
  | C_email string string
  | C_text string
  | C_user string

record auth_db =
  users :: "account_row list"
  login_challenges :: "challenge_row list"
  login_attempts :: "(string \<times> nat \<times> int option) list"
  rate_limits :: "(string \<times> nat \<times> int) list"
  login_history :: "(string \<times> string) list"
  spent_challenges :: "string list"
  session_cache :: "(string \<times> cached \<times> int) list"
  clock_ms :: int
  drawn :: nat

section \<open>Statements\<close>

definition on_users :: "(account_row \<Rightarrow> bool) \<Rightarrow> (account_row \<Rightarrow> account_row) \<Rightarrow> auth_db \<Rightarrow> auth_db" where
  "on_users P f d = d\<lparr>users := map (\<lambda>u. if P u then f u else u) (users d)\<rparr>"

definition find_user :: "(account_row \<Rightarrow> bool) \<Rightarrow> (auth_db, account_row option) comp" where
  "find_user P = reads (\<lambda>d. find P (users d))"

definition getUserById :: "string \<Rightarrow> (auth_db, account_row option) comp" where
  "getUserById userId = find_user (\<lambda>u. u_id u = userId)"

definition getUserByUsername :: "string \<Rightarrow> (auth_db, account_row option) comp" where
  "getUserByUsername username = find_user (\<lambda>u. u_name u = username)"

definition updateUserApiKey :: "string \<Rightarrow> string \<Rightarrow> (auth_db, unit) comp" where
  "updateUserApiKey userId hashed = writes (on_users (\<lambda>u. u_id u = userId) (\<lambda>u. u\<lparr>u_api_key := Some hashed\<rparr>))"

text \<open>The unique index on public keys makes the update throw.\<close>

definition updateUserPublicKey :: "string \<Rightarrow> string option \<Rightarrow> (auth_db, unit) comp" where
  "updateUserPublicKey userId key = (\<lambda>d.
     if key \<noteq> None \<and> list_ex (\<lambda>u. u_id u = userId) (users d) \<and> list_ex (\<lambda>u. u_id u \<noteq> userId \<and> u_public_key u = key) (users d)
     then (Inl ConstraintFailed, d)
     else (Inr (), on_users (\<lambda>u. u_id u = userId) (\<lambda>u. u\<lparr>u_public_key := key\<rparr>) d))"

definition isPublicKeyTakenByOther :: "string \<Rightarrow> string \<Rightarrow> (auth_db, bool) comp" where
  "isPublicKeyTakenByOther key userId = reads (\<lambda>d. list_ex (\<lambda>u. u_public_key u = Some key \<and> u_id u \<noteq> userId) (users d))"

definition updateUserTwoFactorSecret :: "string \<Rightarrow> string option \<Rightarrow> bool \<Rightarrow> (auth_db, unit) comp" where
  "updateUserTwoFactorSecret userId secret enabled =
     writes (on_users (\<lambda>u. u_id u = userId)
       (\<lambda>u. if secret = None then u\<lparr>u_2fa_secret := None, u_2fa := enabled, u_2fa_counter := None\<rparr>
            else u\<lparr>u_2fa_secret := secret, u_2fa := enabled\<rparr>))"

definition fresher :: "int \<Rightarrow> account_row \<Rightarrow> bool" where
  "fresher counter u = (case u_2fa_counter u of None \<Rightarrow> True | Some c \<Rightarrow> c < counter)"

definition consumeTotpCounter :: "string \<Rightarrow> int \<Rightarrow> (auth_db, bool) comp" where
  "consumeTotpCounter userId counter = (\<lambda>d.
     (Inr (list_ex (\<lambda>u. u_id u = userId \<and> fresher counter u) (users d)),
      on_users (\<lambda>u. u_id u = userId \<and> fresher counter u) (\<lambda>u. u\<lparr>u_2fa_counter := Some counter\<rparr>) d))"

definition consumePasskeyChallenge :: "string \<Rightarrow> (auth_db, bool) comp" where
  "consumePasskeyChallenge challenge = (\<lambda>d.
     if challenge \<in> set (spent_challenges d) then (Inr False, d)
     else (Inr True, d\<lparr>spent_challenges := challenge # spent_challenges d\<rparr>))"

definition verifyUserEmail :: "string \<Rightarrow> (auth_db, unit) comp" where
  "verifyUserEmail userId = writes (on_users (\<lambda>u. u_id u = userId) (\<lambda>u. u\<lparr>u_email_verified := True\<rparr>))"

definition verifyApiKey :: "string \<Rightarrow> string \<Rightarrow> (auth_db, string option) comp" where
  "verifyApiKey hashedToken plainToken =
     bind_comp (find_user (\<lambda>u. u_api_key u = Some hashedToken)) (\<lambda>user.
     case user of
       Some u \<Rightarrow> ret (Some (u_id u))
     | None \<Rightarrow>
         bind_comp (find_user (\<lambda>u. u_api_key u = Some plainToken)) (\<lambda>plain.
         case plain of
           None \<Rightarrow> ret None
         | Some u \<Rightarrow> bind_comp (updateUserApiKey (u_id u) hashedToken) (\<lambda>_. ret (Some (u_id u)))))"

section \<open>Challenges\<close>

text \<open>A time as it is written: its whole seconds.\<close>

definition seconds :: "int \<Rightarrow> int" where
  "seconds ms = ms div 1000"

definition createLoginChallenge :: "string \<Rightarrow> string \<Rightarrow> string \<Rightarrow> nat \<Rightarrow> int \<Rightarrow> (auth_db, unit) comp" where
  "createLoginChallenge token username challenge difficulty expires =
     writes (\<lambda>d. d\<lparr>login_challenges := login_challenges d @
       [\<lparr>ch_token = token, ch_user = username, ch_challenge = challenge, ch_difficulty = difficulty, ch_expires = expires\<rparr>]\<rparr>)"

definition getAndConsumeChallenge :: "string option \<Rightarrow> string option \<Rightarrow> (auth_db, challenge_row option) comp" where
  "getAndConsumeChallenge token expectedUsername = (\<lambda>d.
     case token of
       None \<Rightarrow> (Inr None, d)
     | Some t \<Rightarrow>
         if t = [] then (Inr None, d)
         else let row = find (\<lambda>r. ch_token r = t \<and> (case expectedUsername of None \<Rightarrow> True | Some n \<Rightarrow> n = [] \<or> ch_user r = n))
                          (login_challenges d)
              in (Inr row, if row = None then d else d\<lparr>login_challenges := filter (\<lambda>r. ch_token r \<noteq> t) (login_challenges d)\<rparr>))"

section \<open>Limits\<close>

text \<open>\<open>tidy\<close>: this request is one of those that clean up expired limits.\<close>

definition checkIpRateLimit :: "bool \<Rightarrow> string \<Rightarrow> nat \<Rightarrow> int \<Rightarrow> (auth_db, bool) comp" where
  "checkIpRateLimit tidy key maxAttempts windowSeconds = (\<lambda>d0.
     let d = (if tidy then d0\<lparr>rate_limits := filter (\<lambda>(_, _, r). seconds (clock_ms d0) \<le> r) (rate_limits d0)\<rparr> else d0);
         reset = seconds (clock_ms d + windowSeconds * 1000)
     in case map_of (rate_limits d) key of
          None \<Rightarrow> (Inr False, d\<lparr>rate_limits := rate_limits d @ [(key, 1, reset)]\<rparr>)
        | Some (attempts, reset_at) \<Rightarrow>
            if reset_at * 1000 < clock_ms d then (Inr False, d\<lparr>rate_limits := jset key (1, reset) (rate_limits d)\<rparr>)
            else if maxAttempts \<le> attempts then (Inr True, d)
            else (Inr False, d\<lparr>rate_limits := jset key (Suc attempts, reset_at) (rate_limits d)\<rparr>))"

definition LOCKOUT_MINUTES :: int where "LOCKOUT_MINUTES = 15"

text \<open>Whether the account is locked, and until when; a lock that is over clears the counter.\<close>

definition checkLoginRateLimit :: "string \<Rightarrow> (auth_db, int option) comp" where
  "checkLoginRateLimit username = (\<lambda>d.
     case map_of (login_attempts d) username of
       Some (_, Some locked_until) \<Rightarrow>
         if clock_ms d < locked_until * 1000 then (Inr (Some locked_until), d)
         else (Inr None, d\<lparr>login_attempts := jset username (0, None) (login_attempts d)\<rparr>)
     | _ \<Rightarrow> (Inr None, d))"

definition recordFailedLogin :: "string \<Rightarrow> (auth_db, unit) comp" where
  "recordFailedLogin username = (\<lambda>d.
     let lockedUntil = seconds (clock_ms d + LOCKOUT_MINUTES * 60 * 1000)
     in (Inr (), d\<lparr>login_attempts := jset username
           (case map_of (login_attempts d) username of
              None \<Rightarrow> (1, None)
            | Some (n, _) \<Rightarrow> (n + 1, if 5 \<le> n + 1 then Some lockedUntil else None)) (login_attempts d)\<rparr>))"

definition resetLoginAttempts :: "string \<Rightarrow> (auth_db, unit) comp" where
  "resetLoginAttempts username = writes (\<lambda>d. d\<lparr>login_attempts := jdel username (login_attempts d)\<rparr>)"

definition recordLoginHistory :: "string \<Rightarrow> string \<Rightarrow> (auth_db, unit) comp" where
  "recordLoginHistory userId status = writes (\<lambda>d. d\<lparr>login_history := login_history d @ [(userId, status)]\<rparr>)"

section \<open>The session cache\<close>

definition cache_get :: "string \<Rightarrow> (auth_db, cached option) comp" where
  "cache_get key = reads (\<lambda>d. case map_of (session_cache d) key of
     None \<Rightarrow> None | Some (v, expires) \<Rightarrow> if clock_ms d < expires then Some v else None)"

definition cache_put :: "string \<Rightarrow> cached \<Rightarrow> int \<Rightarrow> (auth_db, unit) comp" where
  "cache_put key v ttl = writes (\<lambda>d. d\<lparr>session_cache := jset key (v, clock_ms d + ttl * 1000) (session_cache d)\<rparr>)"

definition cache_delete :: "string \<Rightarrow> (auth_db, unit) comp" where
  "cache_delete key = writes (\<lambda>d. d\<lparr>session_cache := jdel key (session_cache d)\<rparr>)"

end
