(* ===== verification/Totp.thy ===== *)
theory Totp
  imports Prelude "HOL-Library.Word"
begin

text \<open>
  \<open>utils/totp.ts\<close>: base32, the one-time codes and the encryption of their secret. Bytes are 8-bit
  words, and the shift register of the base32 routines is the 32-bit integer JavaScript computes with.
  Web Crypto is the record \<open>web_crypto\<close>; random bytes are arguments.
\<close>

unbundle bit_operations_syntax

section \<open>Base32\<close>

definition ALPHABET :: string where "ALPHABET = ''ABCDEFGHIJKLMNOPQRSTUVWXYZ234567''"

fun index_of :: "char \<Rightarrow> string \<Rightarrow> nat option" where
  "index_of c [] = None"
| "index_of c (x # xs) = (if x = c then Some 0 else map_option Suc (index_of c xs))"

definition to_upper_char :: "char \<Rightarrow> char" where
  "to_upper_char c = (if is_lower c then char_of (of_char c - 32 :: nat) else c)"

definition clean_base32 :: "string \<Rightarrow> string" where
  "clean_base32 input = rev (dropWhile (\<lambda>c. c = CHR ''='') (rev (map to_upper_char input)))"

text \<open>The bytes written to the buffer, which is exactly as long as they need.\<close>

fun decode_chars :: "string \<Rightarrow> nat \<Rightarrow> 32 word \<Rightarrow> 8 word list res" where
  "decode_chars [] bits value = Inr []"
| "decode_chars (c # cs) bits value =
     (case index_of c ALPHABET of
        None \<Rightarrow> Inl (Error (''Invalid Base32 character: '' @ [c]))
      | Some idx \<Rightarrow>
          let v = push_bit 5 value OR word_of_nat idx; n = bits + 5
          in if 8 \<le> n then
               (case decode_chars cs (n - 8) v of
                  Inl e \<Rightarrow> Inl e
                | Inr bs \<Rightarrow> Inr (ucast (drop_bit (n - 8) v AND 0xff) # bs))
             else decode_chars cs n v)"

definition base32Decode :: "string \<Rightarrow> 8 word list res" where
  "base32Decode input = decode_chars (clean_base32 input) 0 0"

text \<open>The inner loop: whole groups of five bits leave the register.\<close>

fun emit :: "nat \<Rightarrow> 32 word \<Rightarrow> string" where
  "emit bits value =
     (if 5 \<le> bits then ALPHABET ! unat (drop_bit (bits - 5) value AND 31) # emit (bits - 5) value else [])"

declare emit.simps [simp del]

fun encode_bytes :: "8 word list \<Rightarrow> nat \<Rightarrow> 32 word \<Rightarrow> string" where
  "encode_bytes [] bits value =
     (if 0 < bits then [ALPHABET ! unat (push_bit (5 - bits) value AND 31)] else [])"
| "encode_bytes (b # bs) bits value =
     (let v = push_bit 8 value OR ucast b; n = bits + 8
      in emit n v @ encode_bytes bs (n mod 5) v)"

definition base32Encode :: "8 word list \<Rightarrow> string" where
  "base32Encode buffer = encode_bytes buffer 0 0"

section \<open>The secret at rest\<close>

record web_crypto =
  hmac :: "8 word list \<Rightarrow> 8 word list \<Rightarrow> 8 word list"
  seal :: "string \<Rightarrow> 8 word list \<Rightarrow> 8 word list \<Rightarrow> string \<Rightarrow> 8 word list"
  unseal :: "string \<Rightarrow> 8 word list \<Rightarrow> 8 word list \<Rightarrow> 8 word list \<Rightarrow> string option"

definition hex_char :: "nat \<Rightarrow> char" where
  "hex_char d = char_of (if d < 10 then 48 + d else 87 + d)"

text \<open>\<open>b.toString(16).padStart(2, '0')\<close>.\<close>

definition hex_byte :: "8 word \<Rightarrow> string" where
  "hex_byte b = [hex_char (unat b div 16), hex_char (unat b mod 16)]"

definition to_hex :: "8 word list \<Rightarrow> string" where
  "to_hex bs = concat (map hex_byte bs)"

definition hex_digit_of :: "char \<Rightarrow> nat option" where
  "hex_digit_of c = (let n = of_char c :: nat in
     if 48 \<le> n \<and> n \<le> 57 then Some (n - 48) else if 97 \<le> n \<and> n \<le> 102 then Some (n - 87)
     else if 65 \<le> n \<and> n \<le> 70 then Some (n - 55) else None)"

fun hex_pairs :: "string \<Rightarrow> 8 word list option" where
  "hex_pairs [] = Some []"
| "hex_pairs [c] = None"
| "hex_pairs (c # d # s) = (case (hex_digit_of c, hex_digit_of d, hex_pairs s) of
     (Some x, Some y, Some bs) \<Rightarrow> Some (word_of_nat (16 * x + y) # bs) | _ \<Rightarrow> None)"

definition hexToUint8Array :: "string \<Rightarrow> 8 word list res" where
  "hexToUint8Array hex = (case if hex = [] then None else hex_pairs hex of
     None \<Rightarrow> Inl (Error ''Invalid hex string'') | Some bs \<Rightarrow> Inr bs)"

definition encryptTOTPSecret :: "web_crypto \<Rightarrow> 8 word list \<Rightarrow> 8 word list \<Rightarrow> string \<Rightarrow> string \<Rightarrow> string" where
  "encryptTOTPSecret wc salt iv secret password =
     to_hex salt @ '':'' @ to_hex iv @ '':'' @ to_hex (seal wc password salt iv secret)"

definition decryptTOTPSecret :: "web_crypto \<Rightarrow> string \<Rightarrow> string \<Rightarrow> string res" where
  "decryptTOTPSecret wc encryptedString password =
     (case split_on (CHR '':'') encryptedString of
        [a, b, c] \<Rightarrow>
          (case (hexToUint8Array a, hexToUint8Array b, hexToUint8Array c) of
             (Inr salt, Inr iv, Inr ciphertext) \<Rightarrow>
               (case unseal wc password salt iv ciphertext of Some s \<Rightarrow> Inr s | None \<Rightarrow> Inl (Error ''OperationError''))
           | _ \<Rightarrow> Inl (Error ''Invalid hex string''))
      | _ \<Rightarrow> Inl (Error ''Invalid encrypted format''))"

definition generateTOTPSecret :: "8 word list \<Rightarrow> string" where
  "generateTOTPSecret bytes = base32Encode bytes"

section \<open>Codes\<close>

text \<open>Eight bytes: zero, and the counter as \<open>setUint32\<close> stores it, modulo 2^32 and high byte first.\<close>

definition counter_bytes :: "int \<Rightarrow> 8 word list" where
  "counter_bytes counter =
     (let w = word_of_int counter :: 32 word
      in [0, 0, 0, 0, ucast (drop_bit 24 w), ucast (drop_bit 16 w), ucast (drop_bit 8 w), ucast w])"

definition byte_at :: "8 word list \<Rightarrow> nat \<Rightarrow> 32 word" where
  "byte_at bs i = (if i < length bs then ucast (bs ! i) else 0)"

definition pad_code :: "nat \<Rightarrow> string" where
  "pad_code n = (let d = show_nat n in replicate (6 - length d) (CHR ''0'') @ d)"

definition totp_code :: "web_crypto \<Rightarrow> 8 word list \<Rightarrow> int \<Rightarrow> string" where
  "totp_code wc key counter =
     (let sig = hmac wc key (counter_bytes counter);
          offset = unat (byte_at sig (length sig - 1) AND 0x0f);
          binary = push_bit 24 (byte_at sig offset AND 0x7f) OR push_bit 16 (byte_at sig (offset + 1) AND 0xff) OR
            push_bit 8 (byte_at sig (offset + 2) AND 0xff) OR (byte_at sig (offset + 3) AND 0xff)
      in pad_code (unat binary mod 1000000))"

text \<open>\<open>Math.floor(Date.now() / 1000 / timeStep)\<close>.\<close>

definition time_counter :: "int \<Rightarrow> int \<Rightarrow> int" where
  "time_counter now_ms timeStep = now_ms div (1000 * timeStep)"

definition generateTOTP :: "web_crypto \<Rightarrow> int \<Rightarrow> string \<Rightarrow> string res" where
  "generateTOTP wc now_ms secret = (case base32Decode secret of
     Inl e \<Rightarrow> Inl e | Inr key \<Rightarrow> Inr (totp_code wc key (time_counter now_ms 30)))"

definition matchTOTP :: "web_crypto \<Rightarrow> int \<Rightarrow> string \<Rightarrow> string \<Rightarrow> int option res" where
  "matchTOTP wc now_ms secret token =
     (let cleanToken = trim token
      in if length cleanToken \<noteq> 6 \<or> \<not> list_all is_digit cleanToken then Inr None
         else case base32Decode secret of
                Inl e \<Rightarrow> Inl e
              | Inr key \<Rightarrow>
                  let c = time_counter now_ms 30
                  in Inr (find (\<lambda>counter. totp_code wc key counter = cleanToken) [c - 1, c, c + 1]))"

definition verifyTOTP :: "web_crypto \<Rightarrow> int \<Rightarrow> string \<Rightarrow> string \<Rightarrow> bool res" where
  "verifyTOTP wc now_ms secret token = (case matchTOTP wc now_ms secret token of
     Inl e \<Rightarrow> Inl e | Inr m \<Rightarrow> Inr (m \<noteq> None))"

end
