(* ===== verification/Auth_Service.thy ===== *)
theory Auth_Service
  imports Auth_Db Totp
begin

text \<open>
  \<open>services/auth.ts\<close> and the password checks of \<open>utils/auth.ts\<close>: logging in with a solved challenge, a
  password and a second factor, managing the second factor, exchange codes and e-mail verification.
  Web Crypto, the token library, Turnstile and the sources of randomness are fields of \<open>auth_env\<close>.
\<close>

record auth_env =
  JWT_SECRET :: "string option"
  TURNSTILE_SECRET :: "string option"
  has_cache :: bool
  web_crypto_of :: web_crypto
  pbkdf2 :: "string \<Rightarrow> 8 word list \<Rightarrow> nat \<Rightarrow> 8 word list"
  sha256_hex :: "string \<Rightarrow> string"
  sign_jwt :: "string \<Rightarrow> int \<Rightarrow> int \<Rightarrow> string \<Rightarrow> string"
  turnstile_ok :: "string \<Rightarrow> string \<Rightarrow> bool"
  random_uuid :: "nat \<Rightarrow> string"
  random_bytes :: "nat \<Rightarrow> nat \<Rightarrow> 8 word list"
  date_text :: "int \<Rightarrow> string"
  tidies :: "nat \<Rightarrow> bool"

definition lift_res :: "'a res \<Rightarrow> ('s, 'a) comp" where
  "lift_res r = (\<lambda>s. (r, s))"

text \<open>Drawing \<open>n\<close> random values: the number drawn before.\<close>

definition draw :: "nat \<Rightarrow> (auth_db, nat) comp" where
  "draw n = (\<lambda>d. (Inr (drawn d), d\<lparr>drawn := drawn d + n\<rparr>))"

definition some_text :: "string option \<Rightarrow> bool" where
  "some_text v = (v \<noteq> None \<and> v \<noteq> Some [])"

section \<open>Passwords\<close>

text \<open>The hexadecimal pairs of a text, read as \<open>parseInt(byte, 16)\<close> into a byte array.\<close>

fun read_pairs :: "string \<Rightarrow> 8 word list" where
  "read_pairs [] = []"
| "read_pairs [c] = [case hex_digit_of c of Some x \<Rightarrow> word_of_nat x | None \<Rightarrow> 0]"
| "read_pairs (c # d # s) =
     (case hex_digit_of c of
        None \<Rightarrow> 0
      | Some x \<Rightarrow> (case hex_digit_of d of Some y \<Rightarrow> word_of_nat (16 * x + y) | None \<Rightarrow> word_of_nat x)) # read_pairs s"

definition parse_count :: "string \<Rightarrow> nat option" where
  "parse_count s = (let t = takeWhile is_digit (trim_start s) in if t = [] then None else Some (dec_val t))"

definition hashPassword :: "auth_env \<Rightarrow> 8 word list \<Rightarrow> string \<Rightarrow> string" where
  "hashPassword env salt password =
     show_nat 100000 @ '':'' @ to_hex salt @ '':'' @ to_hex (pbkdf2 env password salt 100000)"

definition verifyPassword :: "auth_env \<Rightarrow> string \<Rightarrow> string \<Rightarrow> bool res" where
  "verifyPassword env password storedHash =
     (let (iterations, saltHex, expectedHashHex) =
        (case split_on (CHR '':'') storedHash of
           [a, b, c] \<Rightarrow> (parse_count a, b, c)
         | a # b # _ \<Rightarrow> (Some 600000, a, b)
         | [a] \<Rightarrow> (Some 600000, a, [])
         | [] \<Rightarrow> (None, [], []))
      in if saltHex = [] \<or> expectedHashHex = [] then Inr False
         else case iterations of
                None \<Rightarrow> Inl (Error ''OperationError'')
              | Some n \<Rightarrow> Inr (read_pairs expectedHashHex = pbkdf2 env password (read_pairs saltHex) n))"

text \<open>\<open>verifyTurnstile\<close>: only the operator's dummy secret skips the request.\<close>

definition verifyTurnstile :: "auth_env \<Rightarrow> string \<Rightarrow> string \<Rightarrow> bool" where
  "verifyTurnstile env token secret =
     (if secret = ''1x00000000000000000000000000000000'' then True else turnstile_ok env token secret)"

definition is_test :: "auth_env \<Rightarrow> bool" where
  "is_test env = (JWT_SECRET env = Some ''test-secret'')"

definition assert_human :: "auth_env \<Rightarrow> string option \<Rightarrow> (auth_db, unit) comp" where
  "assert_human env turnstileToken =
     (if \<not> some_text turnstileToken then throw (Error ''Missing Turnstile token|403'')
      else refuse_if (\<not> verifyTurnstile env (the turnstileToken) (the (TURNSTILE_SECRET env))) ''Turnstile verification failed|403'')"

section \<open>Logging in\<close>

record login_body =
  l_token :: "string option"
  l_username :: "string option"
  l_password :: string
  l_nonce :: string
  l_code :: "string option"

datatype login_result = Two_factor_required | Session string

definition limit_requests :: "auth_env \<Rightarrow> string \<Rightarrow> nat \<Rightarrow> string \<Rightarrow> (auth_db, unit) comp" where
  "limit_requests env key n msg =
     bind_comp (draw 1) (\<lambda>k. bind_comp (checkIpRateLimit (tidies env k) key n 60) (\<lambda>limited. refuse_if limited msg))"

definition loginStep1 :: "auth_env \<Rightarrow> string \<Rightarrow> string \<Rightarrow> string option \<Rightarrow> (auth_db, string \<times> string) comp" where
  "loginStep1 env username clientIp turnstileToken =
     bind_comp (limit_requests env (''ip:'' @ clientIp) 30 ''Too many requests. Please try again later.|429'') (\<lambda>_.
     bind_comp (limit_requests env ''system'' 100 ''System busy. Please try again later.|429'') (\<lambda>_.
     bind_comp (if some_text (TURNSTILE_SECRET env) \<and> \<not> is_test env then assert_human env turnstileToken else ret ()) (\<lambda>_.
     bind_comp (draw 2) (\<lambda>k.
     let token = ''verified_'' @ random_uuid env k; challenge = random_uuid env (k + 1) in
     bind_comp (reads (\<lambda>d. seconds (clock_ms d + 300000))) (\<lambda>expires.
     bind_comp (createLoginChallenge token (trim username) challenge 3 expires) (\<lambda>_.
     ret (token, challenge)))))))"

definition solved :: "auth_env \<Rightarrow> challenge_row \<Rightarrow> string \<Rightarrow> bool" where
  "solved env row nonce = starts_with (sha256_hex env (ch_challenge row @ nonce)) (replicate (ch_difficulty row) (CHR ''0''))"

text \<open>The user a login is for: the one the spent challenge was made for.\<close>

definition login_name :: "auth_env \<Rightarrow> login_body \<Rightarrow> string option \<Rightarrow> (auth_db, string) comp" where
  "login_name env body turnstileToken =
     (if is_test env \<and> \<not> some_text (l_token body) \<and> some_text (l_username body) then ret (the (l_username body))
      else
        bind_comp
          (if some_text (TURNSTILE_SECRET env) \<and> \<not> is_test env then
             (case l_token body of
                None \<Rightarrow> throw TypeError
              | Some t \<Rightarrow> if starts_with t ''verified_'' then ret () else assert_human env turnstileToken)
           else ret ()) (\<lambda>_.
        bind_comp (getAndConsumeChallenge (l_token body) None) (\<lambda>row.
        case row of
          None \<Rightarrow> throw (Error ''Session expired or invalid login token|401'')
        | Some r \<Rightarrow>
            bind_comp (reads clock_ms) (\<lambda>now.
            bind_comp (refuse_if (ch_expires r * 1000 < now) ''Session expired|401'') (\<lambda>_.
            bind_comp (refuse_if (\<not> solved env r (l_nonce body)) ''Proof of work verification failed|403'') (\<lambda>_.
            ret (ch_user r)))))))"

definition failed_login :: "string \<Rightarrow> string \<Rightarrow> string \<Rightarrow> (auth_db, 'a) comp" where
  "failed_login username userId status =
     bind_comp (recordFailedLogin username) (\<lambda>_.
     bind_comp (checkLoginRateLimit username) (\<lambda>locked.
     bind_comp (recordLoginHistory userId (if locked \<noteq> None then ''locked'' else status)) (\<lambda>_.
     throw (Error ''Invalid credentials|401''))))"

definition acceptTotp :: "auth_env \<Rightarrow> string \<Rightarrow> string \<Rightarrow> string \<Rightarrow> (auth_db, bool) comp" where
  "acceptTotp env userId secret code =
     bind_comp (reads clock_ms) (\<lambda>now.
     bind_comp (lift_res (matchTOTP (web_crypto_of env) now secret code)) (\<lambda>counter.
     case counter of None \<Rightarrow> ret False | Some c \<Rightarrow> consumeTotpCounter userId c))"

definition SESSION_SECONDS :: int where "SESSION_SECONDS = 604800"

definition open_session :: "auth_env \<Rightarrow> string \<Rightarrow> string \<Rightarrow> (auth_db, login_result) comp" where
  "open_session env username userId =
     bind_comp (resetLoginAttempts username) (\<lambda>_.
     bind_comp (recordLoginHistory userId ''success'') (\<lambda>_.
     bind_comp (reads (\<lambda>d. seconds (clock_ms d))) (\<lambda>now.
     if some_text (JWT_SECRET env)
     then ret (Session (sign_jwt env userId now (now + SESSION_SECONDS) (the (JWT_SECRET env))))
     else throw (Error ''Internal server error: auth not configured|500''))))"

definition login_second_factor :: "auth_env \<Rightarrow> login_body \<Rightarrow> string \<Rightarrow> account_row \<Rightarrow> (auth_db, login_result) comp" where
  "login_second_factor env body username u =
     (if \<not> some_text (l_code body) then ret Two_factor_required
      else if \<not> some_text (u_2fa_secret u) then throw (Error ''Internal server error: 2FA configured incorrectly|500'')
      else case decryptTOTPSecret (web_crypto_of env) (the (u_2fa_secret u)) (l_password body) of
             Inl _ \<Rightarrow> failed_login username (u_id u) ''failed_password''
           | Inr secret \<Rightarrow>
               bind_comp (acceptTotp env (u_id u) secret (the (l_code body))) (\<lambda>ok.
               if ok then open_session env username (u_id u) else failed_login username (u_id u) ''failed_2fa''))"

definition check_password :: "auth_env \<Rightarrow> login_body \<Rightarrow> string \<Rightarrow> (auth_db, login_result) comp" where
  "check_password env body username =
     bind_comp (getUserByUsername username) (\<lambda>user.
     case user of
       None \<Rightarrow> bind_comp (recordFailedLogin username) (\<lambda>_. throw (Error ''Invalid credentials|401''))
     | Some u \<Rightarrow>
         if \<not> u_interactive u then throw (Error ''Interactive login is disabled for service accounts|403'')
         else bind_comp (lift_res (verifyPassword env (l_password body) (u_password u))) (\<lambda>valid.
              if \<not> valid then failed_login username (u_id u) ''failed_password''
              else if u_2fa u then login_second_factor env body username u
              else open_session env username (u_id u)))"

definition login :: "auth_env \<Rightarrow> login_body \<Rightarrow> string \<Rightarrow> string option \<Rightarrow> (auth_db, login_result) comp" where
  "login env body clientIp turnstileToken =
     bind_comp (limit_requests env (''ip:'' @ clientIp) 30 ''Too many requests. Please try again later.|429'') (\<lambda>_.
     bind_comp (login_name env body turnstileToken) (\<lambda>username.
     bind_comp (checkLoginRateLimit username) (\<lambda>locked.
     case locked of
       Some t \<Rightarrow> throw (Error (''Account temporarily locked due to too many failed attempts|429|'' @ date_text env t))
     | None \<Rightarrow> check_password env body username)))"

section \<open>The second factor\<close>

definition checked_user :: "string \<Rightarrow> (auth_db, account_row \<times> account_row option) comp" where
  "checked_user userId =
     bind_comp (getUserById userId) (\<lambda>user.
     case user of
       None \<Rightarrow> throw (Error ''User not found|404'')
     | Some u \<Rightarrow> bind_comp (getUserByUsername (u_name u)) (\<lambda>p. ret (u, p)))"

definition setup2FA :: "auth_env \<Rightarrow> string \<Rightarrow> string \<Rightarrow> (auth_db, string) comp" where
  "setup2FA env userId password =
     bind_comp (getUserById userId) (\<lambda>user.
     case user of
       None \<Rightarrow> throw (Error ''User not found|404'')
     | Some u \<Rightarrow>
         bind_comp (refuse_if (u_2fa u) ''2FA is already enabled. Disable it first.|400'') (\<lambda>_.
         bind_comp (getUserByUsername (u_name u)) (\<lambda>p.
         case p of
           None \<Rightarrow> throw (Error ''User not found|404'')
         | Some userPass \<Rightarrow>
             bind_comp (lift_res (verifyPassword env password (u_password userPass))) (\<lambda>valid.
             bind_comp (refuse_if (\<not> valid) ''Invalid password|401'') (\<lambda>_.
             bind_comp (draw 3) (\<lambda>k.
             let secret = generateTOTPSecret (random_bytes env k 10) in
             bind_comp (updateUserTwoFactorSecret userId
               (Some (encryptTOTPSecret (web_crypto_of env) (random_bytes env (k + 1) 16) (random_bytes env (k + 2) 12) secret password)) False) (\<lambda>_.
             ret secret)))))))"

text \<open>What \<open>verify2FA\<close> and \<open>disable2FA\<close> check alike: the password, the stored secret, a fresh code.\<close>

definition prove_second_factor :: "auth_env \<Rightarrow> string \<Rightarrow> account_row \<Rightarrow> string \<Rightarrow> string \<Rightarrow> (auth_db, unit) comp" where
  "prove_second_factor env userId userPass password code =
     bind_comp (lift_res (verifyPassword env password (u_password userPass))) (\<lambda>valid.
     bind_comp (refuse_if (\<not> valid) ''Invalid password or 2FA code|401'') (\<lambda>_.
     case decryptTOTPSecret (web_crypto_of env) (the (u_2fa_secret userPass)) password of
       Inl _ \<Rightarrow> throw (Error ''Invalid password or 2FA code|401'')
     | Inr secret \<Rightarrow>
         bind_comp (acceptTotp env userId secret code) (\<lambda>ok. refuse_if (\<not> ok) ''Invalid password or 2FA code|401'')))"

definition verify2FA :: "auth_env \<Rightarrow> string \<Rightarrow> string \<Rightarrow> string \<Rightarrow> (auth_db, unit) comp" where
  "verify2FA env userId password code =
     bind_comp (checked_user userId) (\<lambda>(u, p).
     case p of
       None \<Rightarrow> throw (Error ''2FA has not been set up. Call setup endpoint first.|400'')
     | Some userPass \<Rightarrow>
         if \<not> some_text (u_2fa_secret userPass) then throw (Error ''2FA has not been set up. Call setup endpoint first.|400'')
         else bind_comp (prove_second_factor env userId userPass password code) (\<lambda>_.
              updateUserTwoFactorSecret userId (u_2fa_secret userPass) True))"

definition disable2FA :: "auth_env \<Rightarrow> string \<Rightarrow> string \<Rightarrow> string \<Rightarrow> (auth_db, unit) comp" where
  "disable2FA env userId password code =
     bind_comp (checked_user userId) (\<lambda>(u, p).
     case p of
       None \<Rightarrow> throw (Error ''2FA is not enabled|400'')
     | Some userPass \<Rightarrow>
         if \<not> u_2fa userPass \<or> \<not> some_text (u_2fa_secret userPass) then throw (Error ''2FA is not enabled|400'')
         else bind_comp (prove_second_factor env userId userPass password code) (\<lambda>_.
              updateUserTwoFactorSecret userId None False))"

section \<open>Keys, exchange codes, e-mail\<close>

definition updatePublicKey :: "string \<Rightarrow> string option \<Rightarrow> (auth_db, string option) comp" where
  "updatePublicKey userId publicKey =
     (let val = (if some_text publicKey then Some (to_lower (the publicKey)) else None);
          conflict = Error ''This public key is already registered to another account|409'' in
      bind_comp (case val of None \<Rightarrow> ret False | Some k \<Rightarrow> isPublicKeyTakenByOther k userId) (\<lambda>taken.
      if taken then throw conflict
      else (\<lambda>d. case updateUserPublicKey userId val d of (Inl _, d') \<Rightarrow> (Inl conflict, d') | (Inr _, d') \<Rightarrow> (Inr val, d'))))"

definition OAUTH_EXCHANGE_TTL_SECONDS :: int where "OAUTH_EXCHANGE_TTL_SECONDS = 60"

definition issueExchangeCode :: "auth_env \<Rightarrow> string \<Rightarrow> (auth_db, string \<times> string) comp" where
  "issueExchangeCode env jwtToken =
     bind_comp (refuse_if (\<not> has_cache env) ''Internal server error: SESSION_CACHE is not configured|500'') (\<lambda>_.
     bind_comp (draw 2) (\<lambda>k.
     let exchangeCode = random_uuid env k; binding = to_hex (random_bytes env (k + 1) 32) in
     bind_comp (cache_put (''oauth_code:'' @ exchangeCode) (C_session jwtToken binding) OAUTH_EXCHANGE_TTL_SECONDS) (\<lambda>_.
     ret (exchangeCode, binding))))"

text \<open>The binding is compared in constant time by its digest, which here is equality.\<close>

definition exchangeOauthToken :: "auth_env \<Rightarrow> string \<Rightarrow> string option \<Rightarrow> (auth_db, string) comp" where
  "exchangeOauthToken env code browserBinding =
     bind_comp (refuse_if (\<not> has_cache env) ''Internal server error: SESSION_CACHE is not configured|500'') (\<lambda>_.
     bind_comp (cache_get (''oauth_code:'' @ code)) (\<lambda>stored.
     case stored of
       None \<Rightarrow> throw (Error ''Invalid or expired exchange code|400'')
     | Some entry \<Rightarrow>
         bind_comp (cache_delete (''oauth_code:'' @ code)) (\<lambda>_.
         case entry of
           C_session token binding \<Rightarrow>
             if some_text browserBinding \<and> browserBinding = Some binding then ret token
             else throw (Error ''Invalid or expired exchange code|400'')
         | _ \<Rightarrow> throw (Error ''Invalid or expired exchange code|400''))))"

definition createEmailVerificationToken :: "auth_env \<Rightarrow> string \<Rightarrow> string \<Rightarrow> (auth_db, string) comp" where
  "createEmailVerificationToken env userId email =
     bind_comp (draw 1) (\<lambda>k.
     let token = random_uuid env k in
     bind_comp (if has_cache env then cache_put (''email_verify:'' @ token) (C_email userId email) 86400 else ret ()) (\<lambda>_.
     ret token))"

definition verifyEmail :: "auth_env \<Rightarrow> string \<Rightarrow> (auth_db, string) comp" where
  "verifyEmail env token =
     bind_comp (refuse_if (trim token = []) ''Invalid verification token|400'') (\<lambda>_.
     bind_comp (refuse_if (\<not> has_cache env) ''Session cache unavailable|500'') (\<lambda>_.
     bind_comp (cache_get (''email_verify:'' @ token)) (\<lambda>data.
     case data of
       None \<Rightarrow> throw (Error ''Invalid or expired verification token|400'')
     | Some entry \<Rightarrow>
         bind_comp (cache_delete (''email_verify:'' @ token)) (\<lambda>_.
         case entry of
           C_email userId email \<Rightarrow> bind_comp (verifyUserEmail userId) (\<lambda>_. ret email)
         | _ \<Rightarrow> throw (Error ''Invalid token data|400'')))))"

section \<open>Requests\<close>

datatype auth_request =
    Login_step1 string string "string option"
  | Login login_body string "string option"
  | Setup_2fa string string
  | Verify_2fa string string string
  | Disable_2fa string string string
  | Set_public_key string "string option"
  | Oauth_session string
  | Exchange string "string option"
  | Send_verification string string
  | Verify_email string
  | Time_passes int

fun auth_step :: "auth_env \<Rightarrow> auth_request \<Rightarrow> auth_db \<Rightarrow> auth_db" where
  "auth_step env (Login_step1 n ip t) d = snd (loginStep1 env n ip t d)"
| "auth_step env (Login b ip t) d = snd (login env b ip t d)"
| "auth_step env (Setup_2fa i p) d = snd (setup2FA env i p d)"
| "auth_step env (Verify_2fa i p c) d = snd (verify2FA env i p c d)"
| "auth_step env (Disable_2fa i p c) d = snd (disable2FA env i p c d)"
| "auth_step env (Set_public_key i k) d = snd (updatePublicKey i k d)"
| "auth_step env (Oauth_session j) d = snd (issueExchangeCode env j d)"
| "auth_step env (Exchange c b) d = snd (exchangeOauthToken env c b d)"
| "auth_step env (Send_verification i e) d = snd (createEmailVerificationToken env i e d)"
| "auth_step env (Verify_email t) d = snd (verifyEmail env t d)"
| "auth_step env (Time_passes ms) d = d\<lparr>clock_ms := clock_ms d + max 0 ms\<rparr>"

end
