(* ===== verification/Auth_Claims.thy ===== *)
theory Auth_Claims
  imports Auth_Service
begin

text \<open>What a session takes, how often a code or a password can be tried, and one-time secrets.\<close>

section \<open>What the steps of a login change\<close>

lemma limit_requests_keeps:
  assumes "limit_requests env key n msg d = (r, d')"
  shows "users d' = users d" "login_attempts d' = login_attempts d" "login_challenges d' = login_challenges d"
    "clock_ms d' = clock_ms d" "r \<noteq> Inl (Error msg) \<Longrightarrow> r = Inr ()"
  using assms
  by (auto simp: limit_requests_def bind_comp_def draw_def checkIpRateLimit_def Let_def refuse_if_def throw_def ret_def
      split: option.splits if_splits prod.splits)

lemma assert_human_keeps: "snd (assert_human env t d) = d"
  by (simp add: assert_human_def refuse_if_def throw_def ret_def)

lemma challenge_keeps:
  assumes "getAndConsumeChallenge t e d = (r, d')"
  shows "users d' = users d" "login_attempts d' = login_attempts d" "clock_ms d' = clock_ms d"
  using assms by (auto simp: getAndConsumeChallenge_def Let_def split: option.splits if_splits)

lemma login_name_keeps:
  assumes "login_name env body t d = (r, d')"
  shows "users d' = users d \<and> login_attempts d' = login_attempts d \<and> clock_ms d' = clock_ms d"
proof -
  define g where "g = (if some_text (TURNSTILE_SECRET env) \<and> \<not> is_test env then
             (case l_token body of
                None \<Rightarrow> throw TypeError
              | Some t' \<Rightarrow> if starts_with t' ''verified_'' then ret () else assert_human env t)
           else ret ())"
  have g: "snd (g x) = x" for x :: auth_db
    using assert_human_keeps by (auto simp: g_def throw_def ret_def split: option.split)
  have "users d2 = users d \<and> login_attempts d2 = login_attempts d \<and> clock_ms d2 = clock_ms d"
    if "getAndConsumeChallenge (l_token body) None d = (q, d2)" for q d2 using challenge_keeps [OF that] by simp
  moreover have "g d = (q, d2) \<Longrightarrow> d2 = d" for q d2 using g [of d] by simp
  ultimately show ?thesis
    using assms unfolding login_name_def g_def [symmetric]
    by (auto simp: bind_comp_def ret_def throw_def reads_def refuse_if_def split: if_splits prod.splits sum.splits option.splits)
qed

lemma login_name_accepts:
  assumes "login_name env body t d = (Inr n, d')"
  shows "is_test env \<or> (\<exists>r \<in> set (login_challenges d). l_token body = Some (ch_token r) \<and> ch_user r = n \<and>
    clock_ms d \<le> ch_expires r * 1000 \<and> solved env r (l_nonce body) \<and> r \<notin> set (login_challenges d'))"
proof (cases "is_test env")
  case False
  then obtain d1 r where g: "getAndConsumeChallenge (l_token body) None d1 = (Inr (Some r), d')" "d1 = d"
    "clock_ms d' \<le> ch_expires r * 1000" "solved env r (l_nonce body)" "n = ch_user r"
    using assms assert_human_keeps [of env t d]
    by (auto simp: login_name_def run_simps not_less split: if_splits option.splits)
  from g(1,2) have "r \<in> set (login_challenges d)" "l_token body = Some (ch_token r)" "r \<notin> set (login_challenges d')"
    by (auto simp: getAndConsumeChallenge_def Let_def split: option.splits if_splits dest: find_Some)
  with g challenge_keeps(3) [OF g(1)] show ?thesis by auto
qed simp

text \<open>The outcomes of a password check: a refused guess, which is counted; a session; anything else.\<close>

lemma failed_login_counts:
  assumes "failed_login m i st d = (r, d')"
  shows "r = Inl (Error ''Invalid credentials|401'')"
    and "login_attempts d' = login_attempts (snd (recordFailedLogin m d))"
proof -
  have lock: "clock_ms d < seconds (clock_ms d + LOCKOUT_MINUTES * 60 * 1000) * 1000"
    by (simp add: seconds_def LOCKOUT_MINUTES_def)
  show "r = Inl (Error ''Invalid credentials|401'')" "login_attempts d' = login_attempts (snd (recordFailedLogin m d))"
    using assms lock
    by (auto simp: failed_login_def bind_comp_def recordFailedLogin_def Let_def checkLoginRateLimit_def recordLoginHistory_def
        writes_def throw_def split: option.splits if_splits)
qed

lemma failed_login_run [run_simps]: "\<not> failed_login m i st d = (Inr x, d')"
  using failed_login_counts(1) [of m i st d "Inr x" d'] by auto

lemma accepted_totp:
  assumes "acceptTotp env i secret code d = (Inr True, d')"
  shows "\<exists>c u. matchTOTP (web_crypto_of env) (clock_ms d) secret code = Inr (Some c) \<and> u \<in> set (users d) \<and> u_id u = i \<and> fresher c u \<and>
    d' = on_users (\<lambda>u. u_id u = i \<and> fresher c u) (\<lambda>u. u\<lparr>u_2fa_counter := Some c\<rparr>) d"
  using assms
  by (auto simp: acceptTotp_def run_simps lift_res_def consumeTotpCounter_def list_ex_iff split: option.splits)

lemma opened_session:
  assumes "open_session env m i d = (Inr x, d')"
  shows "users d' = users d \<and> (\<exists>key. JWT_SECRET env = Some key \<and>
    x = Session (sign_jwt env i (seconds (clock_ms d)) (seconds (clock_ms d) + SESSION_SECONDS) key))"
  using assms
  by (auto simp: open_session_def run_simps resetLoginAttempts_def recordLoginHistory_def writes_def reads_def some_text_def
      split: if_splits)

text \<open>What a user proves to be let in.\<close>

definition proves :: "auth_env \<Rightarrow> login_body \<Rightarrow> auth_db \<Rightarrow> account_row \<Rightarrow> auth_db \<Rightarrow> bool" where
  "proves env body d u d' \<longleftrightarrow> u_interactive u \<and> verifyPassword env (l_password body) (u_password u) = Inr True \<and>
     (u_2fa u \<longrightarrow> (\<exists>secret code c. l_code body = Some code \<and>
        decryptTOTPSecret (web_crypto_of env) (the (u_2fa_secret u)) (l_password body) = Inr secret \<and>
        matchTOTP (web_crypto_of env) (clock_ms d) secret code = Inr (Some c) \<and>
        (\<exists>v \<in> set (users d). u_id v = u_id u \<and> fresher c v) \<and>
        (\<forall>v \<in> set (users d'). u_id v = u_id u \<longrightarrow> \<not> fresher c v)))"

lemma consumed_not_fresh:
  assumes "v \<in> set (users (on_users (\<lambda>u. u_id u = i \<and> fresher c u) (\<lambda>u. u\<lparr>u_2fa_counter := Some c\<rparr>) d))" and "u_id v = i"
  shows "\<not> fresher c v"
proof -
  have n: "\<not> fresher c (w\<lparr>u_2fa_counter := Some c\<rparr>)" for w by (simp add: fresher_def)
  from assms(1) have "v \<in> u_2fa_counter_update (\<lambda>_. Some c) ` (set (users d) \<inter> {u. u_id u = i \<and> fresher c u}) \<or>
      v \<in> set (users d) \<and> (u_id v = i \<longrightarrow> \<not> fresher c v)" by (simp add: on_users_def)
  with assms(2) n show ?thesis by blast
qed

lemma second_factor_session:
  assumes "login_second_factor env body m u d = (Inr (Session s), d')"
  shows "\<exists>secret code c key. l_code body = Some code \<and>
        decryptTOTPSecret (web_crypto_of env) (the (u_2fa_secret u)) (l_password body) = Inr secret \<and>
        matchTOTP (web_crypto_of env) (clock_ms d) secret code = Inr (Some c) \<and>
        (\<exists>v \<in> set (users d). u_id v = u_id u \<and> fresher c v) \<and>
        (\<forall>v \<in> set (users d'). u_id v = u_id u \<longrightarrow> \<not> fresher c v) \<and> JWT_SECRET env = Some key \<and>
        s = sign_jwt env (u_id u) (seconds (clock_ms d)) (seconds (clock_ms d) + SESSION_SECONDS) key"
proof -
  from assms obtain code where code: "l_code body = Some code"
    by (auto simp: login_second_factor_def some_text_def run_simps split: if_splits)
  from assms obtain secret where secret: "decryptTOTPSecret (web_crypto_of env) (the (u_2fa_secret u)) (l_password body) = Inr secret"
    by (auto simp: login_second_factor_def run_simps split: if_splits sum.splits)
  with assms code obtain ok d1 where a: "acceptTotp env (u_id u) secret code d = (Inr ok, d1)"
    "(if ok then open_session env m (u_id u) else failed_login m (u_id u) ''failed_2fa'') d1 = (Inr (Session s), d')"
    by (auto simp: login_second_factor_def run_simps split: if_splits)
  have ok: ok
  proof (rule ccontr)
    assume "\<not> ok"
    with a(2) show False by (simp add: failed_login_run)
  qed
  with a(1) have "acceptTotp env (u_id u) secret code d = (Inr True, d1)" by simp
  from accepted_totp [OF this] obtain c v where c: "matchTOTP (web_crypto_of env) (clock_ms d) secret code = Inr (Some c)"
    "v \<in> set (users d)" "u_id v = u_id u" "fresher c v"
    "d1 = on_users (\<lambda>w. u_id w = u_id u \<and> fresher c w) (\<lambda>w. w\<lparr>u_2fa_counter := Some c\<rparr>) d" by blast
  from ok a(2) have o: "open_session env m (u_id u) d1 = (Inr (Session s), d')" by simp
  have "clock_ms d1 = clock_ms d" by (simp add: c(5) on_users_def)
  with opened_session [OF o] code secret c consumed_not_fresh [of _ "u_id u" c d] show ?thesis by auto
qed

lemma password_session:
  assumes "check_password env body m d = (Inr (Session s), d')"
  shows "\<exists>u key. u \<in> set (users d) \<and> u_name u = m \<and> proves env body d u d' \<and> JWT_SECRET env = Some key \<and>
    s = sign_jwt env (u_id u) (seconds (clock_ms d)) (seconds (clock_ms d) + SESSION_SECONDS) key"
proof -
  from assms obtain u where u: "find (\<lambda>u. u_name u = m) (users d) = Some u" and i: "u_interactive u"
    by (auto simp: check_password_def getUserByUsername_def find_user_def reads_def run_simps split: option.splits if_splits)
  with assms have v: "verifyPassword env (l_password body) (u_password u) = Inr True"
    and r: "(if u_2fa u then login_second_factor env body m u else open_session env m (u_id u)) d = (Inr (Session s), d')"
    by (auto simp: check_password_def getUserByUsername_def find_user_def reads_def run_simps lift_res_def split: if_splits)
  have "\<exists>key. proves env body d u d' \<and> JWT_SECRET env = Some key \<and>
      s = sign_jwt env (u_id u) (seconds (clock_ms d)) (seconds (clock_ms d) + SESSION_SECONDS) key"
  proof (cases "u_2fa u")
    case True
    with second_factor_session [of env body m u d s d'] r i v show ?thesis unfolding proves_def by auto
  next
    case False
    with opened_session [of env m "u_id u" d "Session s" d'] r i v show ?thesis by (auto simp: proves_def)
  qed
  with find_Some [OF u] show ?thesis by blast
qed

lemma not_locked:
  assumes "checkLoginRateLimit m d = (Inr None, d')"
  shows "users d' = users d" "clock_ms d' = clock_ms d"
    "\<not> (\<exists>n t. map_of (login_attempts d) m = Some (n, Some t) \<and> clock_ms d < t * 1000)"
  using assms by (auto simp: checkLoginRateLimit_def split: option.splits if_splits)


section \<open>Codes are used up\<close>

text \<open>No step up to \<open>c\<close> is accepted of the user any more.\<close>

definition spent :: "int \<Rightarrow> string \<Rightarrow> auth_db \<Rightarrow> bool" where
  "spent c i d \<longleftrightarrow> (\<forall>u \<in> set (users d). u_id u = i \<longrightarrow> \<not> fresher c u)"

lemma keeps_same_users: "(\<And>d. users (snd (m d)) = users d) \<Longrightarrow> keeps (spent c i) m"
  by (simp add: keeps_def spent_def)

lemma keeps_case_sum [keeps_rules]:
  "(\<And>e. keeps P (f e)) \<Longrightarrow> (\<And>x. keeps P (g x)) \<Longrightarrow> keeps P (case r of Inl e \<Rightarrow> f e | Inr x \<Rightarrow> g x)"
  by (cases r) auto

lemma keeps_case_prod [keeps_rules]: "(\<And>a b. keeps P (f a b)) \<Longrightarrow> keeps P (case p of (a, b) \<Rightarrow> f a b)"
  by (cases p) auto

lemma keeps_case_cached [keeps_rules]:
  "(\<And>a b. keeps P (f a b)) \<Longrightarrow> (\<And>a b. keeps P (g a b)) \<Longrightarrow> (\<And>a. keeps P (h a)) \<Longrightarrow> (\<And>a. keeps P (k a)) \<Longrightarrow>
   keeps P (case v of C_session a b \<Rightarrow> f a b | C_email a b \<Rightarrow> g a b | C_text a \<Rightarrow> h a | C_user a \<Rightarrow> k a)"
  by (cases v) auto

lemma keeps_lift [keeps_rules]: "keeps P (lift_res r)"
  by (simp add: keeps_def lift_res_def)

lemma spent_update:
  "(\<And>u. \<not> fresher c u \<Longrightarrow> Q u \<Longrightarrow> \<not> fresher c (f u) \<and> u_id (f u) = u_id u) \<Longrightarrow> (\<And>u. u_id (f u) = u_id u) \<Longrightarrow>
   spent c i d \<Longrightarrow> spent c i (on_users Q f d)"
  by (auto simp: spent_def on_users_def)

lemma spent_statements [keeps_rules]:
  "keeps (spent c i) (draw how)" "keeps (spent c i) (checkIpRateLimit tidy key k w)" "keeps (spent c i) (checkLoginRateLimit m)"
  "keeps (spent c i) (recordFailedLogin m)" "keeps (spent c i) (resetLoginAttempts m)" "keeps (spent c i) (recordLoginHistory j st)"
  "keeps (spent c i) (createLoginChallenge t n ch df e)" "keeps (spent c i) (getAndConsumeChallenge tok want)"
  "keeps (spent c i) (cache_get key)" "keeps (spent c i) (cache_put key v ttl)" "keeps (spent c i) (cache_delete key)"
  "keeps (spent c i) (find_user Q)"
  by (rule keeps_same_users,
      auto simp: draw_def checkIpRateLimit_def checkLoginRateLimit_def recordFailedLogin_def resetLoginAttempts_def recordLoginHistory_def
        createLoginChallenge_def getAndConsumeChallenge_def cache_get_def cache_put_def cache_delete_def find_user_def reads_def writes_def
        Let_def split: option.splits prod.splits)+

lemma spent_consume [keeps_rules]: "keeps (spent c i) (consumeTotpCounter j k)"
proof -
  have "\<not> fresher c u \<Longrightarrow> fresher k u \<Longrightarrow> \<not> fresher c (u\<lparr>u_2fa_counter := Some k\<rparr>)" for u
    by (auto simp: fresher_def split: option.splits)
  then show ?thesis
    by (auto simp: keeps_def consumeTotpCounter_def intro!: spent_update)
qed

lemma spent_secret [keeps_rules]: "secret \<noteq> None \<or> j \<noteq> i \<Longrightarrow> keeps (spent c i) (updateUserTwoFactorSecret j secret e)"
  by (auto simp: updateUserTwoFactorSecret_def keeps_def writes_def spent_def on_users_def fresher_def)

lemma spent_email [keeps_rules]: "keeps (spent c i) (verifyUserEmail j)"
  by (auto simp: verifyUserEmail_def keeps_def writes_def spent_def on_users_def fresher_def)

lemma spent_key [keeps_rules]: "keeps (spent c i) (updateUserPublicKey j k)"
  by (auto simp: updateUserPublicKey_def keeps_def spent_def on_users_def fresher_def)

lemmas login_parts = login_def login_name_def limit_requests_def assert_human_def check_password_def login_second_factor_def
  failed_login_def open_session_def acceptTotp_def getUserByUsername_def getUserById_def Let_def

lemma spent_login [keeps_rules]: "keeps (spent c i) (login env b ip t)" "keeps (spent c i) (loginStep1 env n ip t)"
  unfolding login_parts loginStep1_def by (intro keeps_rules allI impI)+

lemma spent_second_factor [keeps_rules]:
  "keeps (spent c i) (setup2FA env j p)" "keeps (spent c i) (prove_second_factor env j u p code)" "keeps (spent c i) (checked_user j)"
  unfolding setup2FA_def prove_second_factor_def checked_user_def login_parts by (intro keeps_rules; simp)+

lemma keeps_cond: "(b \<Longrightarrow> keeps P m) \<Longrightarrow> (\<not> b \<Longrightarrow> keeps P m') \<Longrightarrow> keeps P (if b then m else m')"
  by simp

lemma spent_verify [keeps_rules]: "keeps (spent c i) (verify2FA env j p code)"
  unfolding verify2FA_def
  by (intro keeps_bind spent_second_factor keeps_case_prod keeps_case_option keeps_throw keeps_cond spent_secret)
    (auto simp: some_text_def)

lemma spent_disable: "j \<noteq> i \<Longrightarrow> keeps (spent c i) (disable2FA env j p code)"
  unfolding disable2FA_def by (intro keeps_rules) auto

lemma spent_others [keeps_rules]:
  "keeps (spent c i) (issueExchangeCode env j)" "keeps (spent c i) (exchangeOauthToken env code b)"
  "keeps (spent c i) (createEmailVerificationToken env u e)" "keeps (spent c i) (verifyEmail env tok)"
  unfolding issueExchangeCode_def exchangeOauthToken_def createEmailVerificationToken_def verifyEmail_def Let_def
  by (intro keeps_rules)+

lemma spent_public_key: "keeps (spent c i) (updatePublicKey j k)"
proof -
  have "keeps (spent c i) (\<lambda>d. case updateUserPublicKey j v d of (Inl _, d') \<Rightarrow> (Inl x, d') | (Inr _, d') \<Rightarrow> (Inr v, d'))" for v x
    using spent_key [of c i j v] by (auto simp: keeps_def split: prod.splits sum.splits)
  moreover have "keeps (spent c i) (isPublicKeyTakenByOther k' j)" for k' by (simp add: isPublicKeyTakenByOther_def keeps_reads)
  ultimately show ?thesis unfolding updatePublicKey_def Let_def by (intro keeps_rules) auto
qed

definition disables :: "string \<Rightarrow> auth_request \<Rightarrow> bool" where
  "disables i r = (case r of Disable_2fa j _ _ \<Rightarrow> j = i | _ \<Rightarrow> False)"

lemma spent_step:
  assumes "spent c i d" and "\<not> disables i r"
  shows "spent c i (auth_step env r d)"
proof (cases r)
  case (Disable_2fa j p code)
  with assms(2) have "j \<noteq> i" by (simp add: disables_def)
  from spent_disable [OF this, of c env p code] Disable_2fa assms(1) show ?thesis by (simp add: keeps_def)
next
  case (Time_passes ms)
  with assms(1) show ?thesis by (simp add: spent_def)
qed (use assms(1) spent_public_key [of c i] keeps_rules in \<open>simp_all add: keeps_def\<close>)

lemma spent_run: "spent c i d \<Longrightarrow> list_all (\<lambda>r. \<not> disables i r) rs \<Longrightarrow> spent c i (fold (auth_step env) rs d)"
  by (induction rs arbitrary: d) (auto intro: spent_step)


section \<open>Guessing passwords\<close>

definition refused :: js_error where "refused = Error ''Invalid credentials|401''"

lemma decode_error: "decode_chars cs n v = Inl e \<Longrightarrow> e \<noteq> refused"
  by (induction cs n v rule: decode_chars.induct) (auto simp: refused_def Let_def split: option.splits if_splits sum.splits)

lemma match_error: "matchTOTP wc t secret code = Inl e \<Longrightarrow> e \<noteq> refused"
  by (auto simp: matchTOTP_def base32Decode_def Let_def split: if_splits sum.splits dest: decode_error)

lemma password_error: "verifyPassword env p h = Inl e \<Longrightarrow> e \<noteq> refused"
  by (auto simp: verifyPassword_def refused_def split: prod.splits if_splits option.splits)

lemma accept_totp_keeps:
  assumes "acceptTotp env i secret code d = (r, d')"
  shows "login_attempts d' = login_attempts d \<and> clock_ms d' = clock_ms d \<and> r \<noteq> Inl refused"
  using assms
  by (auto simp: acceptTotp_def bind_comp_def reads_def lift_res_def ret_def consumeTotpCounter_def on_users_def
      split: sum.splits option.splits dest: match_error)

lemma attempts_of_failure: "login_attempts d = login_attempts x \<Longrightarrow> clock_ms d = clock_ms x \<Longrightarrow>
  login_attempts (snd (recordFailedLogin m d)) = login_attempts (snd (recordFailedLogin m x))"
  by (simp add: recordFailedLogin_def Let_def split: option.split)

text \<open>A refused guess is counted, a session clears the counter, anything else leaves it.\<close>

definition counted :: "string \<Rightarrow> auth_db \<Rightarrow> login_result res \<Rightarrow> auth_db \<Rightarrow> bool" where
  "counted m d r d' \<longleftrightarrow>
     (r = Inl refused \<and> login_attempts d' = login_attempts (snd (recordFailedLogin m d)) \<or>
      (\<exists>s. r = Inr (Session s)) \<and> login_attempts d' = jdel m (login_attempts d) \<or> r \<noteq> Inl refused \<and> login_attempts d' = login_attempts d)"

lemma counted_failure: "failed_login m i st x = (r, d') \<Longrightarrow> login_attempts x = login_attempts d \<Longrightarrow> clock_ms x = clock_ms d \<Longrightarrow> counted m d r d'"
  using failed_login_counts [of m i st x r d'] attempts_of_failure [of x d m] by (simp add: counted_def refused_def)

lemma counted_session:
  assumes "open_session env m i x = (r, d')" and "some_text (JWT_SECRET env)" and "login_attempts x = login_attempts d"
  shows "counted m d r d'"
  using assms
  by (auto simp: open_session_def bind_comp_def resetLoginAttempts_def recordLoginHistory_def writes_def reads_def ret_def counted_def)

lemma counted_second_factor:
  assumes "login_second_factor env body m u d = (r, d')" and jwt: "some_text (JWT_SECRET env)"
  shows "counted m d r d'"
proof (cases "some_text (l_code body) \<and> some_text (u_2fa_secret u)")
  case True
  show ?thesis
  proof (cases "decryptTOTPSecret (web_crypto_of env) (the (u_2fa_secret u)) (l_password body)")
    case (Inl e)
    with assms(1) True show ?thesis by (auto simp: login_second_factor_def intro: counted_failure)
  next
    case (Inr secret)
    obtain q d1 where a: "acceptTotp env (u_id u) secret (the (l_code body)) d = (q, d1)" by fastforce
    note k = accept_totp_keeps [OF a]
    show ?thesis
    proof (cases q)
      case (Inl e)
      with assms(1) True Inr a have "r = Inl e" "d' = d1" by (auto simp: login_second_factor_def bind_comp_def)
      with k Inl show ?thesis by (simp add: counted_def)
    next
      case (Inr ok)
      with assms(1) True a \<open>decryptTOTPSecret _ _ _ = Inr secret\<close>
      have "(if ok then open_session env m (u_id u) else failed_login m (u_id u) ''failed_2fa'') d1 = (r, d')"
        by (simp add: login_second_factor_def bind_comp_def)
      with k jwt show ?thesis by (auto split: if_splits intro: counted_session counted_failure)
    qed
  qed
next
  case False
  with assms(1) show ?thesis
    by (auto simp: login_second_factor_def ret_def throw_def counted_def refused_def split: if_splits)
qed

lemma counted_password:
  assumes "check_password env body m d = (r, d')" and jwt: "some_text (JWT_SECRET env)"
  shows "counted m d r d'"
proof (cases "find (\<lambda>u. u_name u = m) (users d)")
  case None
  with assms(1) show ?thesis
    by (auto simp: check_password_def getUserByUsername_def find_user_def reads_def bind_comp_def recordFailedLogin_def throw_def
        counted_def refused_def Let_def)
next
  case (Some u)
  show ?thesis
  proof (cases "u_interactive u")
    case True
    show ?thesis
    proof (cases "verifyPassword env (l_password body) (u_password u)")
      case (Inl e)
      with assms(1) Some True password_error [OF Inl] show ?thesis
        by (auto simp: check_password_def getUserByUsername_def find_user_def reads_def bind_comp_def lift_res_def counted_def)
    next
      case (Inr ok)
      with assms(1) Some True have "(if \<not> ok then failed_login m (u_id u) ''failed_password''
          else if u_2fa u then login_second_factor env body m u else open_session env m (u_id u)) d = (r, d')"
        by (simp add: check_password_def getUserByUsername_def find_user_def reads_def bind_comp_def lift_res_def)
      with jwt show ?thesis by (auto split: if_splits intro: counted_session counted_failure counted_second_factor)
    qed
  next
    case False
    with assms(1) Some show ?thesis
      by (auto simp: check_password_def getUserByUsername_def find_user_def reads_def bind_comp_def throw_def counted_def refused_def)
  qed
qed

text \<open>The user a login is for, when it gets as far as that.\<close>

definition login_for :: "auth_env \<Rightarrow> login_body \<Rightarrow> string \<Rightarrow> string option \<Rightarrow> auth_db \<Rightarrow> string option" where
  "login_for env body ip tt d =
     (case bind_comp (limit_requests env (''ip:'' @ ip) 30 ''Too many requests. Please try again later.|429'')
        (\<lambda>_. login_name env body tt) d of (Inr m, _) \<Rightarrow> Some m | _ \<Rightarrow> None)"

definition guess :: "auth_env \<Rightarrow> string \<Rightarrow> auth_request \<Rightarrow> auth_db \<Rightarrow> bool" where
  "guess env n r d = (case r of
     Login body ip tt \<Rightarrow> login_for env body ip tt d = Some n \<and> fst (login env body ip tt d) = Inl refused | _ \<Rightarrow> False)"

definition enters :: "auth_env \<Rightarrow> string \<Rightarrow> auth_request \<Rightarrow> auth_db \<Rightarrow> bool" where
  "enters env n r d = (case r of
     Login body ip tt \<Rightarrow> login_for env body ip tt d = Some n \<and>
       (case fst (login env body ip tt d) of Inr (Session _) \<Rightarrow> True | _ \<Rightarrow> False)
   | _ \<Rightarrow> False)"

fun guesses :: "auth_env \<Rightarrow> string \<Rightarrow> auth_request list \<Rightarrow> auth_db \<Rightarrow> nat" where
  "guesses env n [] d = 0"
| "guesses env n (r # rs) d = (if guess env n r d then 1 else 0) + guesses env n rs (auth_step env r d)"

fun nobody_enters :: "auth_env \<Rightarrow> string \<Rightarrow> auth_request list \<Rightarrow> auth_db \<Rightarrow> bool" where
  "nobody_enters env n [] d = True"
| "nobody_enters env n (r # rs) d = (\<not> enters env n r d \<and> nobody_enters env n rs (auth_step env r d))"

text \<open>How many guesses are left until a time, and the counters the tables can hold.\<close>

definition left_until :: "int \<Rightarrow> string \<Rightarrow> auth_db \<Rightarrow> nat" where
  "left_until T n d = (case map_of (login_attempts d) n of
     None \<Rightarrow> 5 | Some (k, None) \<Rightarrow> 5 - k | Some (k, Some l) \<Rightarrow> if T < l * 1000 then 0 else 5)"

definition counters_ok :: "auth_db \<Rightarrow> bool" where
  "counters_ok d \<longleftrightarrow> (\<forall>n k. map_of (login_attempts d) n = Some (k, None) \<longrightarrow> k < 5)"

lemma left_until_eq: "login_attempts d' = login_attempts d \<Longrightarrow> left_until T n d' = left_until T n d"
  "login_attempts d' = login_attempts d \<Longrightarrow> counters_ok d' = counters_ok d"
  by (simp_all add: left_until_def counters_ok_def)

lemma left_after_failure:
  assumes "counters_ok d" and "T \<le> clock_ms d + 899000" and "\<not> (\<exists>k l. map_of (login_attempts d) m = Some (k, Some l))"
  shows "Suc (left_until T m (snd (recordFailedLogin m d))) = left_until T m d"
    and "n \<noteq> m \<Longrightarrow> left_until T n (snd (recordFailedLogin m d)) = left_until T n d"
    and "counters_ok (snd (recordFailedLogin m d))"
proof -
  have lock: "T < seconds (clock_ms d + LOCKOUT_MINUTES * 60 * 1000) * 1000"
    using assms(2) by (simp add: seconds_def LOCKOUT_MINUTES_def)
  show "Suc (left_until T m (snd (recordFailedLogin m d))) = left_until T m d"
  proof (cases "map_of (login_attempts d) m")
    case None
    then show ?thesis by (simp add: left_until_def recordFailedLogin_def Let_def)
  next
    case (Some e)
    with assms(3) obtain k where e: "e = (k, None)" by (cases e; cases "snd e") auto
    with Some assms(1) have "k < 5" by (simp add: counters_ok_def)
    then consider "k = 4" | "k < 4" by linarith
    then show ?thesis using Some e lock by cases (auto simp: left_until_def recordFailedLogin_def Let_def)
  qed
  show "n \<noteq> m \<Longrightarrow> left_until T n (snd (recordFailedLogin m d)) = left_until T n d"
    by (simp add: left_until_def recordFailedLogin_def Let_def)
  show "counters_ok (snd (recordFailedLogin m d))"
    using assms(1) by (auto simp: counters_ok_def recordFailedLogin_def Let_def split: option.splits)
qed

lemma unlocked:
  assumes "checkLoginRateLimit m d = (Inr None, d')" and "counters_ok d" and "clock_ms d \<le> T"
  shows "left_until T n d' = left_until T n d" "counters_ok d'" "\<not> (\<exists>k l. map_of (login_attempts d') m = Some (k, Some l))"
  using assms by (auto simp: checkLoginRateLimit_def left_until_def counters_ok_def split: option.splits if_splits)

section \<open>Time\<close>

lemma clock_statements:
  "keeps (\<lambda>d. clock_ms d = t) (draw how)" "keeps (\<lambda>d. clock_ms d = t) (checkIpRateLimit tidy key k w)"
  "keeps (\<lambda>d. clock_ms d = t) (checkLoginRateLimit m)" "keeps (\<lambda>d. clock_ms d = t) (recordFailedLogin m)"
  "keeps (\<lambda>d. clock_ms d = t) (resetLoginAttempts m)" "keeps (\<lambda>d. clock_ms d = t) (recordLoginHistory j st)"
  "keeps (\<lambda>d. clock_ms d = t) (createLoginChallenge tk u ch df e)" "keeps (\<lambda>d. clock_ms d = t) (getAndConsumeChallenge tok want)"
  "keeps (\<lambda>d. clock_ms d = t) (cache_get key)" "keeps (\<lambda>d. clock_ms d = t) (cache_put key v ttl)"
  "keeps (\<lambda>d. clock_ms d = t) (cache_delete key)" "keeps (\<lambda>d. clock_ms d = t) (find_user Q)"
  "keeps (\<lambda>d. clock_ms d = t) (consumeTotpCounter j c)" "keeps (\<lambda>d. clock_ms d = t) (updateUserTwoFactorSecret j sec en)"
  "keeps (\<lambda>d. clock_ms d = t) (verifyUserEmail j)" "keeps (\<lambda>d. clock_ms d = t) (isPublicKeyTakenByOther pk j)"
  "keeps (\<lambda>d. clock_ms d = t) (\<lambda>d. case updateUserPublicKey j pk2 d of (Inl _, d') \<Rightarrow> (Inl x, d') | (Inr _, d') \<Rightarrow> (Inr y, d'))"
  by (auto simp: keeps_def draw_def checkIpRateLimit_def checkLoginRateLimit_def recordFailedLogin_def resetLoginAttempts_def
      recordLoginHistory_def createLoginChallenge_def getAndConsumeChallenge_def cache_get_def cache_put_def cache_delete_def
      find_user_def reads_def writes_def Let_def consumeTotpCounter_def updateUserTwoFactorSecret_def verifyUserEmail_def
      isPublicKeyTakenByOther_def updateUserPublicKey_def on_users_def split: option.splits prod.splits sum.splits)

lemma clock_services:
  "keeps (\<lambda>d. clock_ms d = t) (login env b ip tt)" "keeps (\<lambda>d. clock_ms d = t) (loginStep1 env u ip tt)"
  "keeps (\<lambda>d. clock_ms d = t) (setup2FA env j p)" "keeps (\<lambda>d. clock_ms d = t) (verify2FA env j p code)"
  "keeps (\<lambda>d. clock_ms d = t) (disable2FA env j p code)" "keeps (\<lambda>d. clock_ms d = t) (updatePublicKey j pk)"
  "keeps (\<lambda>d. clock_ms d = t) (issueExchangeCode env tok)" "keeps (\<lambda>d. clock_ms d = t) (exchangeOauthToken env code bind)"
  "keeps (\<lambda>d. clock_ms d = t) (createEmailVerificationToken env u e)" "keeps (\<lambda>d. clock_ms d = t) (verifyEmail env tok)"
  unfolding login_parts loginStep1_def setup2FA_def verify2FA_def disable2FA_def prove_second_factor_def checked_user_def
    updatePublicKey_def issueExchangeCode_def exchangeOauthToken_def createEmailVerificationToken_def verifyEmail_def
  by (intro keeps_rules clock_statements)+

lemma clock_step: "clock_ms d \<le> clock_ms (auth_step env r d)"
  by (cases r) (use clock_services [of "clock_ms d"] in \<open>auto simp: keeps_def\<close>)

lemma clock_run: "clock_ms d \<le> clock_ms (fold (auth_step env) rs d)"
proof (induction rs arbitrary: d)
  case (Cons r rs)
  from clock_step [of d env r] Cons [of "auth_step env r d"] show ?case by simp
qed simp

section \<open>The bound\<close>

lemma login_step:
  assumes "login env body ip tt d = (r, d')" and jwt: "some_text (JWT_SECRET env)" and ok: "counters_ok d"
    and T: "clock_ms d \<le> T" "T \<le> clock_ms d + 899000"
  shows "counters_ok d' \<and>
    (if login_for env body ip tt d = Some n \<and> (\<exists>s. r = Inr (Session s)) then True
     else left_until T n d' + (if login_for env body ip tt d = Some n \<and> r = Inl refused then 1 else 0) = left_until T n d)"
proof -
  let ?lim = "limit_requests env (''ip:'' @ ip) 30 ''Too many requests. Please try again later.|429''"
  obtain q1 d1 where l: "?lim d = (q1, d1)" by fastforce
  note k1 = limit_requests_keeps [OF l]
  show ?thesis
  proof (cases q1)
    case (Inl e)
    with assms(1) l have "d' = d1" "login_for env body ip tt d = None" by (auto simp: login_def login_for_def bind_comp_def)
    with k1 ok left_until_eq [of d1 d] show ?thesis by simp
  next
    case (Inr unit)
    obtain q2 d2 where nm: "login_name env body tt d1 = (q2, d2)" by fastforce
    have k2: "login_attempts d2 = login_attempts d" "clock_ms d2 = clock_ms d" using login_name_keeps [OF nm] k1 by auto
    show ?thesis
    proof (cases q2)
      case (Inl e)
      with assms(1) l nm Inr have "d' = d2" "login_for env body ip tt d = None"
        by (auto simp: login_def login_for_def bind_comp_def)
      with k2 ok left_until_eq [of d2 d] show ?thesis by simp
    next
      case Inr2: (Inr m)
      then have m: "login_for env body ip tt d = Some m" using l nm Inr by (simp add: login_for_def bind_comp_def)
      obtain q3 d3 where ck: "checkLoginRateLimit m d2 = (q3, d3)" by fastforce
      have ok2: "counters_ok d2" using ok left_until_eq(2) [OF k2(1)] by simp
      show ?thesis
      proof (cases "q3 = Inr None")
        case True
        with assms(1) l nm Inr Inr2 ck have p: "check_password env body m d3 = (r, d')"
          by (simp add: login_def bind_comp_def)
        have T2: "clock_ms d2 \<le> T" using T k2 by simp
        note u = unlocked [OF ck [unfolded True] ok2 T2]
        have c3: "clock_ms d3 = clock_ms d" using not_locked(2) [OF ck [unfolded True]] k2 by simp
        have T3: "T \<le> clock_ms d3 + 899000" using T c3 by simp
        note f = left_after_failure [OF u(2) T3 u(3)]
        have e: "left_until T n d3 = left_until T n d" for n using u(1) T k2 left_until_eq(1) [OF k2(1)] by simp
        from counted_password [OF p jwt] consider
            "r = Inl refused" "login_attempts d' = login_attempts (snd (recordFailedLogin m d3))"
          | s where "r = Inr (Session s)" "login_attempts d' = jdel m (login_attempts d3)"
          | "r \<noteq> Inl refused" "login_attempts d' = login_attempts d3" "\<not> (\<exists>s. r = Inr (Session s))"
          | s where "r = Inr (Session s)" "login_attempts d' = login_attempts d3"
          by (auto simp: counted_def)
        then show ?thesis
        proof cases
          case 1
          have "counters_ok d'" using f(3) left_until_eq(2) [OF 1(2)] T k2 u(2) by simp
          moreover have "left_until T n d' + (if m = n then 1 else 0) = left_until T n d"
            using f(1) f(2) [of n] e [of n] left_until_eq(1) [OF 1(2)] by auto
          ultimately show ?thesis using 1(1) m by simp
        next
          case 2
          have "counters_ok d'" using u(2) T k2 by (auto simp: counters_ok_def 2(2))
          moreover have "m \<noteq> n \<Longrightarrow> left_until T n d' = left_until T n d" using e [of n] by (simp add: left_until_def 2(2))
          ultimately show ?thesis using 2(1) m by (auto simp: refused_def)
        next
          case 3
          with u(2) T k2 e [of n] left_until_eq [OF 3(2)] m show ?thesis by auto
        next
          case 4
          with u(2) T k2 e [of n] left_until_eq [OF 4(2)] m show ?thesis by (auto simp: refused_def)
        qed
      next
        case False
        then obtain x where x: "q3 = Inr (Some x)" "d3 = d2"
          using ck by (auto simp: checkLoginRateLimit_def split: option.splits if_splits)
        with assms(1) l nm Inr Inr2 ck have "d' = d2" "r \<noteq> Inl refused" "\<not> (\<exists>s. r = Inr (Session s))"
          by (auto simp: login_def bind_comp_def throw_def refused_def)
        with ok2 left_until_eq(1) [OF k2(1)] show ?thesis by simp
      qed
    qed
  qed
qed

lemma attempts_kept:
  assumes "\<And>body ip tt. r \<noteq> Login body ip tt"
  shows "login_attempts (auth_step env r d) = login_attempts d"
proof -
  let ?P = "\<lambda>x. login_attempts x = login_attempts d"
  have s: "keeps ?P (draw how)" "keeps ?P (checkIpRateLimit tidy key k w)" "keeps ?P (createLoginChallenge tk u ch df e)"
    "keeps ?P (cache_get key)" "keeps ?P (cache_put key v ttl)" "keeps ?P (cache_delete key)" "keeps ?P (find_user Q)"
    "keeps ?P (consumeTotpCounter j c)" "keeps ?P (updateUserTwoFactorSecret j sec en)" "keeps ?P (verifyUserEmail j)"
    "keeps ?P (isPublicKeyTakenByOther pk j)"
    "keeps ?P (\<lambda>d. case updateUserPublicKey j pk2 d of (Inl _, d') \<Rightarrow> (Inl x, d') | (Inr _, d') \<Rightarrow> (Inr y, d'))"
    for how tidy key k w tk u ch df e v ttl Q j c sec en pk pk2 x y
    by (auto simp: keeps_def draw_def checkIpRateLimit_def createLoginChallenge_def cache_get_def cache_put_def cache_delete_def
      find_user_def reads_def writes_def Let_def consumeTotpCounter_def updateUserTwoFactorSecret_def verifyUserEmail_def
      isPublicKeyTakenByOther_def updateUserPublicKey_def on_users_def split: option.splits prod.splits sum.splits)
  have "keeps ?P (loginStep1 env u ip tt)" "keeps ?P (setup2FA env j p)" "keeps ?P (verify2FA env j p code)"
    "keeps ?P (disable2FA env j p code)" "keeps ?P (updatePublicKey j pk)" "keeps ?P (issueExchangeCode env tok)"
    "keeps ?P (exchangeOauthToken env code bind)" "keeps ?P (createEmailVerificationToken env u e)" "keeps ?P (verifyEmail env tok)"
    for u ip tt j p code pk tok bind e
    unfolding loginStep1_def limit_requests_def assert_human_def acceptTotp_def getUserByUsername_def getUserById_def Let_def
      setup2FA_def verify2FA_def disable2FA_def prove_second_factor_def checked_user_def
      updatePublicKey_def issueExchangeCode_def exchangeOauthToken_def createEmailVerificationToken_def verifyEmail_def
    by (intro keeps_rules s)+
  note kept = this
  show ?thesis
  proof (cases r)
    case (Login body ip tt)
    with assms show ?thesis by blast
  qed (use kept in \<open>simp_all add: keeps_def\<close>)
qed

lemma guess_step:
  assumes "some_text (JWT_SECRET env)" and "counters_ok d" and "clock_ms d \<le> T" and "T \<le> clock_ms d + 899000"
    and "\<not> enters env n r d"
  shows "counters_ok (auth_step env r d) \<and>
    left_until T n (auth_step env r d) + (if guess env n r d then 1 else 0) = left_until T n d"
proof (cases "\<exists>body ip tt. r = Login body ip tt")
  case True
  then obtain body ip tt where r: "r = Login body ip tt" by blast
  obtain v d' where l: "login env body ip tt d = (v, d')" by fastforce
  have "\<not> (login_for env body ip tt d = Some n \<and> (\<exists>s. v = Inr (Session s)))"
    using assms(5) by (auto simp: enters_def r l)
  note step = login_step [OF l assms(1-4), of n, unfolded if_not_P [OF this]]
  have "auth_step env r d = d'" "guess env n r d \<longleftrightarrow> login_for env body ip tt d = Some n \<and> v = Inl refused"
    by (simp_all add: r l guess_def)
  with step show ?thesis by (simp only:)
next
  case False
  then have "\<not> guess env n r d" by (auto simp: guess_def split: auth_request.split)
  moreover have k: "login_attempts (auth_step env r d) = login_attempts d" using False by (intro attempts_kept) auto
  ultimately show ?thesis using assms(2) left_until_eq(1) [OF k, of T n] left_until_eq(2) [OF k] by simp
qed

lemma guesses_bound:
  assumes "some_text (JWT_SECRET env)"
  shows "counters_ok d \<Longrightarrow> clock_ms (fold (auth_step env) rs d) \<le> T \<Longrightarrow> T \<le> clock_ms d + 899000 \<Longrightarrow> nobody_enters env n rs d \<Longrightarrow>
    guesses env n rs d \<le> left_until T n d"
proof (induction rs arbitrary: d)
  case (Cons r rs)
  have "clock_ms d \<le> T" using clock_run [of d env "r # rs"] Cons.prems by simp
  from guess_step [OF assms Cons.prems(1) this Cons.prems(3), of n r] Cons.prems(4)
  have s: "counters_ok (auth_step env r d)" "left_until T n (auth_step env r d) + (if guess env n r d then 1 else 0) = left_until T n d"
    by auto
  have "T \<le> clock_ms (auth_step env r d) + 899000" using clock_step [of d env r] Cons.prems(3) by simp
  with Cons.IH [OF s(1)] Cons.prems s(2) show ?case by simp
qed simp

inductive auth_reach :: "auth_env \<Rightarrow> auth_db \<Rightarrow> bool" for env where
  start: "login_attempts d = [] \<Longrightarrow> auth_reach env d"
| request: "auth_reach env d \<Longrightarrow> auth_reach env (auth_step env r d)"

lemma reach_counters: "auth_reach env d \<Longrightarrow> counters_ok d"
proof (induction rule: auth_reach.induct)
  case (request d r)
  show ?case
  proof (cases "\<exists>body ip tt. r = Login body ip tt")
    case True
    then obtain body ip tt where r: "r = Login body ip tt" by blast
    have c: "keeps counters_ok (draw how)" "keeps counters_ok (checkIpRateLimit tidy key q w)"
      "keeps counters_ok (getAndConsumeChallenge tok want)" "keeps counters_ok (find_user Q)"
      "keeps counters_ok (consumeTotpCounter j cc)" "keeps counters_ok (recordLoginHistory j st)"
      for how tidy key q w tok want Q j cc st
      by (simp_all add: keeps_def counters_ok_def draw_def checkIpRateLimit_def getAndConsumeChallenge_def find_user_def reads_def writes_def Let_def
          consumeTotpCounter_def recordLoginHistory_def on_users_def split: option.split prod.split)
    have "keeps counters_ok (checkLoginRateLimit m)" "keeps counters_ok (recordFailedLogin m)" "keeps counters_ok (resetLoginAttempts m)" for m
      by (auto simp: keeps_def counters_ok_def checkLoginRateLimit_def recordFailedLogin_def resetLoginAttempts_def writes_def Let_def
          split: option.splits)
    then have "keeps counters_ok (login env body ip tt)" unfolding login_parts by (intro keeps_rules c)+
    with request.IH show ?thesis by (simp add: r keeps_def)
  next
    case False
    then have k: "login_attempts (auth_step env r d) = login_attempts d" by (intro attempts_kept) auto
    with request.IH left_until_eq(2) [OF k] show ?thesis by simp
  qed
qed (simp add: counters_ok_def)


section \<open>A small deployment\<close>

definition demo_auth :: auth_env where
  "demo_auth = \<lparr>JWT_SECRET = Some ''key'', TURNSTILE_SECRET = None, has_cache = True,
     web_crypto_of = \<lparr>hmac = (\<lambda>k m. replicate 20 0), seal = (\<lambda>p s i m. 0 # map (\<lambda>c. word_of_nat (of_char c)) m),
       unseal = (\<lambda>p s i c. Some (map (\<lambda>b. char_of (unat b)) (tl c)))\<rparr>,
     pbkdf2 = (\<lambda>p s n. map (\<lambda>c. word_of_nat (of_char c)) p), sha256_hex = (\<lambda>s. ''000ab''),
     sign_jwt = (\<lambda>i t e k. i), turnstile_ok = (\<lambda>t s. False), random_uuid = (\<lambda>n. show_nat n), random_bytes = (\<lambda>n k. replicate k 1),
     date_text = show_int, tidies = (\<lambda>k. False)\<rparr>"

definition ann_row :: account_row where
  "ann_row = \<lparr>u_id = ''u1'', u_name = ''ann'', u_password = hashPassword demo_auth [7] ''pw'', u_email = None, u_email_verified = False,
     u_api_key = None, u_public_key = None, u_delete_at = None, u_2fa = True,
     u_2fa_secret = Some (encryptTOTPSecret (web_crypto_of demo_auth) [1] [2] ''AEBAG'' ''pw''), u_2fa_counter = None,
     u_interactive = True, u_plan = ''Free''\<rparr>"

definition ann_db :: auth_db where
  "ann_db = \<lparr>users = [ann_row], login_challenges = map (\<lambda>i. \<lparr>ch_token = ''verified_'' @ show_nat i, ch_user = ''ann'', ch_challenge = ''c'',
       ch_difficulty = 3, ch_expires = 2000000000\<rparr>) [0, 1, 2], login_attempts = [], rate_limits = [], login_history = [],
     spent_challenges = [], session_cache = [], clock_ms = 1700000000000, drawn = 0\<rparr>"

definition ann_login :: "nat \<Rightarrow> string \<Rightarrow> login_body" where
  "ann_login i pw = \<lparr>l_token = Some (''verified_'' @ show_nat i), l_username = None, l_password = pw, l_nonce = ''n'', l_code = Some ''000000''\<rparr>"


definition after_code :: auth_db where
  "after_code = snd (acceptTotp demo_auth ''u1'' ''AEBAG'' ''000000'' ann_db)"

definition a_minute :: "auth_request list" where
  "a_minute = [Time_passes 60000]"



end
