(* ===== verification/Ssrf.thy ===== *)
theory Ssrf
  imports Prelude "HOL-Library.Word"
begin

text \<open>
  \<open>utils/ssrf.ts\<close>: which hosts the Worker may be sent to. What the Worker asks of the outside is the
  record \<open>internet\<close>: the URL parser, DNS over HTTPS and \<open>fetch\<close>, each of which may answer
  differently at every hop.
\<close>

unbundle bit_operations_syntax

section \<open>Addresses\<close>

text \<open>Four bytes; eight 16-bit words.\<close>

type_synonym ipv4 = "8 word list"
type_synonym ipv6 = "16 word list"

definition parse_byte :: "string \<Rightarrow> 8 word option" where
  "parse_byte p =
     (if p = [] \<or> \<not> list_all is_digit p then None
      else if 255 < dec_val p \<or> 1 < length p \<and> hd p = CHR ''0'' then None
      else Some (word_of_nat (dec_val p)))"

fun all_some :: "'a option list \<Rightarrow> 'a list option" where
  "all_some [] = Some []"
| "all_some (x # xs) = (case (x, all_some xs) of (Some y, Some ys) \<Rightarrow> Some (y # ys) | _ \<Rightarrow> None)"

definition parseIPv4 :: "string \<Rightarrow> ipv4 option" where
  "parseIPv4 ip =
     (let parts = split_on (CHR ''.'') ip
      in if length parts \<noteq> 4 then None else all_some (map parse_byte parts))"

definition hex_val :: "char \<Rightarrow> nat option" where
  "hex_val c = (let n = of_char c :: nat in
     if is_digit c then Some (n - 48)
     else if 97 \<le> n \<and> n \<le> 102 then Some (n - 87)
     else if 65 \<le> n \<and> n \<le> 70 then Some (n - 55) else None)"

text \<open>\<open>/^[0-9a-fA-F]{1,4}$/\<close> and \<open>parseInt(h, 16)\<close>.\<close>

definition parse_group :: "string \<Rightarrow> 16 word option" where
  "parse_group h =
     (if h = [] \<or> 4 < length h then None
      else case all_some (map hex_val h) of
             None \<Rightarrow> None
           | Some ds \<Rightarrow> Some (word_of_nat (foldl (\<lambda>n d. 16 * n + d) 0 ds)))"

text \<open>\<open>n.toString(16)\<close>.\<close>

definition hex_digit :: "nat \<Rightarrow> char" where
  "hex_digit d = char_of (if d < 10 then 48 + d else 87 + d)"

fun hex_digits :: "nat \<Rightarrow> string" where
  "hex_digits n = (if n < 16 then [hex_digit n] else hex_digits (n div 16) @ [hex_digit (n mod 16)])"

declare hex_digits.simps [simp del]

text \<open>\<open>s.split('::')\<close>.\<close>

fun split_double :: "string \<Rightarrow> string list" where
  "split_double [] = [[]]"
| "split_double [c] = [[c]]"
| "split_double (c # d # s) =
     (if c = CHR '':'' \<and> d = CHR '':'' then [] # split_double s
      else (case split_double (d # s) of [] \<Rightarrow> [[c]] | w # ws \<Rightarrow> (c # w) # ws))"

definition strip_brackets :: "string \<Rightarrow> string" where
  "strip_brackets s =
     (if starts_with s ''['' \<and> ends_with s '']'' then take (length s - 1 - 1) (drop 1 s) else s)"

text \<open>An IPv4 address after the last colon becomes the two groups it stands for.\<close>

definition after_colon :: "string \<Rightarrow> string" where
  "after_colon s = rev (takeWhile (\<lambda>c. c \<noteq> CHR '':'') (rev s))"

definition embedded_ipv4 :: "string \<Rightarrow> string option" where
  "embedded_ipv4 s =
     (let v4 = after_colon s; before = take (length s - length v4 - 1) s
      in if CHR '':'' \<in> set s \<and> CHR ''.'' \<in> set v4 then
           (case parseIPv4 v4 of
              Some [b0, b1, b2, b3] \<Rightarrow>
                Some (before @ '':'' @ hex_digits (256 * unat b0 + unat b1) @ '':'' @ hex_digits (256 * unat b2 + unat b3))
            | _ \<Rightarrow> None)
         else Some s)"

definition parse_groups :: "string \<Rightarrow> ipv6 option" where
  "parse_groups part = (if part = [] then Some [] else all_some (map parse_group (split_on (CHR '':'') part)))"

definition parseIPv6 :: "string \<Rightarrow> ipv6 option" where
  "parseIPv6 ipStr =
     (case embedded_ipv4 (strip_brackets (trim ipStr)) of
        None \<Rightarrow> None
      | Some str \<Rightarrow>
          (case split_double str of
             [a] \<Rightarrow> (case parse_groups a of Some left \<Rightarrow> if length left = 8 then Some left else None | None \<Rightarrow> None)
           | [a, b] \<Rightarrow>
               (case (parse_groups a, parse_groups b) of
                  (Some left, Some right) \<Rightarrow>
                    if 8 < length left + length right then None
                    else Some (left @ replicate (8 - (length left + length right)) 0 @ right)
                | _ \<Rightarrow> None)
           | _ \<Rightarrow> None))"

definition isBlockedIPv4 :: "ipv4 \<Rightarrow> bool" where
  "isBlockedIPv4 b =
     (let b0 = b ! 0; b1 = b ! 1; b2 = b ! 2 in
      b0 = 0 \<or> b0 = 10 \<or> b0 = 100 \<and> 64 \<le> b1 \<and> b1 \<le> 127 \<or> b0 = 127 \<or> b0 = 169 \<and> b1 = 254 \<or>
      b0 = 172 \<and> 16 \<le> b1 \<and> b1 \<le> 31 \<or> b0 = 192 \<and> b1 = 0 \<and> b2 = 0 \<or> b0 = 192 \<and> b1 = 0 \<and> b2 = 2 \<or>
      b0 = 192 \<and> b1 = 168 \<or> b0 = 198 \<and> (b1 = 18 \<or> b1 = 19) \<or> b0 = 198 \<and> b1 = 51 \<and> b2 = 100 \<or>
      b0 = 203 \<and> b1 = 0 \<and> b2 = 113 \<or> 224 \<le> b0)"

text \<open>The bytes of two words of an IPv6 address.\<close>

definition v4_in :: "16 word \<Rightarrow> 16 word \<Rightarrow> ipv4" where
  "v4_in h l = [ucast (drop_bit 8 h AND 0xff), ucast (h AND 0xff), ucast (drop_bit 8 l AND 0xff), ucast (l AND 0xff)]"

definition isBlockedIPv6 :: "ipv6 \<Rightarrow> bool" where
  "isBlockedIPv6 w =
     (if w ! 0 = 0 \<and> w ! 1 = 0 \<and> w ! 2 = 0 \<and> w ! 3 = 0 \<and> w ! 4 = 0 \<and> w ! 5 = 0 \<and> w ! 6 = 0 \<and> w ! 7 = 1 then True
      else if list_all (\<lambda>x. x = 0) w then True
      else if w ! 0 AND 0xffc0 = 0xfe80 then True
      else if w ! 0 AND 0xfe00 = 0xfc00 then True
      else if w ! 0 AND 0xffc0 = 0xfec0 then True
      else if w ! 0 AND 0xff00 = 0xff00 then True
      else if w ! 0 = 0 \<and> w ! 1 = 0 \<and> w ! 2 = 0 \<and> w ! 3 = 0 \<and> w ! 4 = 0 \<and> w ! 5 = 0xffff then isBlockedIPv4 (v4_in (w ! 6) (w ! 7))
      else if w ! 0 = 0 \<and> w ! 1 = 0 \<and> w ! 2 = 0 \<and> w ! 3 = 0 \<and> w ! 4 = 0 \<and> w ! 5 = 0 \<and> (w ! 6 \<noteq> 0 \<or> 1 < w ! 7)
      then isBlockedIPv4 (v4_in (w ! 6) (w ! 7))
      else if w ! 0 = 0x2002 then isBlockedIPv4 (v4_in (w ! 1) (w ! 2))
      else False)"

section \<open>Names\<close>

definition plain_host :: "string \<Rightarrow> string" where
  "plain_host hostname =
     (let h = trim (to_lower hostname) in if ends_with h ''.'' then take (length h - 1) h else h)"

definition isBlockedHostname :: "string \<Rightarrow> bool" where
  "isBlockedHostname hostname =
     (let host = plain_host hostname in
      host = ''localhost'' \<or> ends_with host ''.localhost'' \<or> ends_with host ''.local'' \<or> ends_with host ''.internal'' \<or>
      ends_with host ''.lan'' \<or> ends_with host ''.corp'' \<or> ends_with host ''.home'' \<or> ends_with host ''.arpa'' \<or>
      host = ''instance-data'' \<or> ends_with host ''.instance-data'' \<or> host = ''metadata.azure.com'' \<or>
      CHR ''.'' \<notin> set host)"

section \<open>The outside\<close>

text \<open>A lookup is rejected, answered with an error status, or with a document that may not parse.\<close>

datatype dns_reply = Rejected | Not_ok | Unparsable | Answered js

record target =
  t_protocol :: string
  t_hostname :: string

text \<open>\<open>fetch\<close> fails, or gives a status and its \<open>location\<close> header.\<close>

record web_reply =
  status_of :: nat
  location_of :: "string option"

record internet =
  new_url :: "string \<Rightarrow> target option"
  join_url :: "string \<Rightarrow> string \<Rightarrow> string option"
  lookup :: "nat \<Rightarrow> string \<Rightarrow> nat \<Rightarrow> dns_reply"
  fetch :: "nat \<Rightarrow> string \<Rightarrow> string \<Rightarrow> string option \<Rightarrow> web_reply option"

definition answer_ip :: "nat \<Rightarrow> js \<Rightarrow> string option" where
  "answer_ip t ans = (case ans of
     Obj kvs \<Rightarrow> (case (map_of kvs ''type'', map_of kvs ''data'') of
       (Some (Num n), Some (Str ip)) \<Rightarrow> if n = of_nat t then Some ip else None | _ \<Rightarrow> None)
   | _ \<Rightarrow> None)"

definition extractDohIps :: "js \<Rightarrow> nat \<Rightarrow> string list" where
  "extractDohIps payload t = (case payload of
     Obj kvs \<Rightarrow> (case map_of kvs ''Answer'' of Some (Arr xs) \<Rightarrow> List.map_filter (answer_ip t) xs | _ \<Rightarrow> [])
   | _ \<Rightarrow> [])"

text \<open>The addresses of one lookup, \<open>None\<close> when its document throws.\<close>

definition dns_ips :: "nat \<Rightarrow> dns_reply \<Rightarrow> string list option" where
  "dns_ips t r = (case r of Answered d \<Rightarrow> Some (extractDohIps d t) | Unparsable \<Rightarrow> None | _ \<Rightarrow> Some [])"

definition example_host :: "string \<Rightarrow> bool" where
  "example_host host =
     (host = ''example.com'' \<or> ends_with host ''.example.com'' \<or> host = ''example.org'' \<or> ends_with host ''.example.org'' \<or>
      host = ''example.net'' \<or> ends_with host ''.example.net'')"

definition resolveHostIPs :: "internet \<Rightarrow> nat \<Rightarrow> string \<Rightarrow> string list" where
  "resolveHostIPs net hop hostname =
     (let host = plain_host hostname; rawV6 = strip_brackets host
      in if parseIPv4 host \<noteq> None then [host]
         else if parseIPv6 rawV6 \<noteq> None then [rawV6]
         else if example_host host then [''93.184.216.34'']
         else let a = lookup net hop host 1; aaaa = lookup net hop host 28
              in if a = Rejected \<or> aaaa = Rejected then []
                 else case dns_ips 1 a of
                        None \<Rightarrow> []
                      | Some v4 \<Rightarrow> v4 @ (case dns_ips 28 aaaa of None \<Rightarrow> [] | Some v6 \<Rightarrow> v6))"

section \<open>Checks\<close>

definition isBlockedIp :: "string \<Rightarrow> bool" where
  "isBlockedIp ip = (case parseIPv4 ip of
     Some v4 \<Rightarrow> isBlockedIPv4 v4
   | None \<Rightarrow> (case parseIPv6 (strip_brackets ip) of Some v6 \<Rightarrow> isBlockedIPv6 v6 | None \<Rightarrow> False))"

definition assertPublicHost :: "internet \<Rightarrow> nat \<Rightarrow> string \<Rightarrow> string \<Rightarrow> bool \<Rightarrow> unit res" where
  "assertPublicHost net hop hostname error requireResolution =
     (if isBlockedHostname hostname then Inl (Error error)
      else if isBlockedIp hostname then Inl (Error error)
      else let ips = resolveHostIPs net hop hostname
           in if requireResolution \<and> ips = [] then Inl (Error error)
              else if list_ex isBlockedIp ips then Inl (Error error) else Inr ())"

record ssrf_env =
  ALLOW_PRIVATE_WEBHOOKS :: "string option"
  ALLOW_PRIVATE_PROXY_TARGETS :: "string option"

definition validateWebhookUrl :: "internet \<Rightarrow> ssrf_env \<Rightarrow> nat \<Rightarrow> string \<Rightarrow> target res" where
  "validateWebhookUrl net env hop u =
     (if u = [] then Inl (Error ''URL is required and must be a string|400'')
      else case new_url net u of
        None \<Rightarrow> Inl (Error ''Invalid URL format|400'')
      | Some parsed \<Rightarrow>
          if t_protocol parsed \<noteq> ''http:'' \<and> t_protocol parsed \<noteq> ''https:''
          then Inl (Error ''URL protocol must be http or https|400'')
          else if ALLOW_PRIVATE_WEBHOOKS env = Some ''true'' then Inr parsed
          else if parseIPv4 (t_hostname parsed) \<noteq> None \<or> parseIPv6 (strip_brackets (t_hostname parsed)) \<noteq> None
          then Inl (Error ''Webhook URL must use a domain name, direct IP addresses are not permitted|400'')
          else case assertPublicHost net hop (t_hostname parsed)
                      ''Webhook URL cannot target private, loopback, or reserved network addresses|400'' False of
                 Inl e \<Rightarrow> Inl e
               | Inr _ \<Rightarrow> Inr parsed)"

definition validateProxyTargetUrl :: "internet \<Rightarrow> ssrf_env \<Rightarrow> string \<Rightarrow> target res" where
  "validateProxyTargetUrl net env u =
     (case new_url net u of
        None \<Rightarrow> Inl (Error ''Invalid target url|400'')
      | Some parsed \<Rightarrow>
          if t_protocol parsed \<noteq> ''http:'' \<and> t_protocol parsed \<noteq> ''https:''
          then Inl (Error ''Only HTTP and HTTPS protocols are allowed|400'')
          else if ALLOW_PRIVATE_PROXY_TARGETS env = Some ''true'' then Inr parsed
          else case assertPublicHost net 0 (t_hostname parsed)
                      ''Target cannot be a private, loopback, or reserved network address|403'' True of
                 Inl e \<Rightarrow> Inl e
               | Inr _ \<Rightarrow> Inr parsed)"

section \<open>Fetching\<close>

text \<open>
  The loop over the hops, with those left; what was fetched is returned with the outcome, in order,
  each with the method and the body it was sent with.
\<close>

type_synonym sent = "nat \<times> string \<times> string \<times> string option"

definition is_redirect :: "nat \<Rightarrow> bool" where
  "is_redirect st = (st \<in> {301, 302, 303, 307, 308})"

fun follow :: "internet \<Rightarrow> ssrf_env \<Rightarrow> nat \<Rightarrow> nat \<Rightarrow> string \<Rightarrow> string \<Rightarrow> string option \<Rightarrow> web_reply res \<times> sent list" where
  "follow net env hop 0 u meth body = (Inl (Error ''Too many redirects''), [])"
| "follow net env hop (Suc left) u meth body =
     (case validateWebhookUrl net env hop u of
        Inl e \<Rightarrow> (Inl e, [])
      | Inr _ \<Rightarrow>
          (case fetch net hop u meth body of
             None \<Rightarrow> (Inl TypeError, [(hop, u, meth, body)])
           | Some res \<Rightarrow>
               if is_redirect (status_of res) then
                 (case location_of res of
                    None \<Rightarrow> (Inl (Error ''Redirect response missing Location header''), [(hop, u, meth, body)])
                  | Some loc \<Rightarrow>
                      if loc = [] then (Inl (Error ''Redirect response missing Location header''), [(hop, u, meth, body)])
                      else (case join_url net loc u of
                              None \<Rightarrow> (Inl TypeError, [(hop, u, meth, body)])
                            | Some next_u \<Rightarrow>
                                let to_get = (status_of res = 303 \<or> (status_of res = 301 \<or> status_of res = 302) \<and> meth = ''POST'');
                                    (r, out) = follow net env (Suc hop) left next_u (if to_get then ''GET'' else meth) (if to_get then None else body)
                                in (r, (hop, u, meth, body) # out)))
               else (Inr res, [(hop, u, meth, body)])))"

definition safeFetchWebhook :: "internet \<Rightarrow> ssrf_env \<Rightarrow> string \<Rightarrow> string option \<Rightarrow> string option \<Rightarrow> nat \<Rightarrow> web_reply res \<times> sent list" where
  "safeFetchWebhook net env targetUrl meth body maxRedirects =
     follow net env 0 (Suc maxRedirects) targetUrl (case meth of Some m \<Rightarrow> if m = [] then ''POST'' else m | None \<Rightarrow> ''POST'') body"

end
