(* ===== verification/Ssrf_Claims.thy ===== *)
theory Ssrf_Claims
  imports Ssrf
begin

text \<open>The address checks against the networks they name, and where a webhook can be sent.\<close>

unbundle bit_operations_syntax

section \<open>Networks\<close>

text \<open>An address as its bits, the most significant first, and the network of a prefix length.\<close>

definition word_bits :: "'a::len word \<Rightarrow> bool list" where
  "word_bits w = map (bit w) (rev [0..<LENGTH('a)])"

definition in_network :: "'a::len word list \<Rightarrow> 'a word list \<times> nat \<Rightarrow> bool" where
  "in_network a n = (take (snd n) (concat (map word_bits a)) = take (snd n) (concat (map word_bits (fst n))))"

text \<open>The networks of the comments in \<open>isBlockedIPv4\<close>, the last two as one.\<close>

definition reserved_ipv4 :: "(ipv4 \<times> nat) list" where
  "reserved_ipv4 = [([0, 0, 0, 0], 8), ([10, 0, 0, 0], 8), ([100, 64, 0, 0], 10), ([127, 0, 0, 0], 8), ([169, 254, 0, 0], 16),
     ([172, 16, 0, 0], 12), ([192, 0, 0, 0], 24), ([192, 0, 2, 0], 24), ([192, 168, 0, 0], 16), ([198, 18, 0, 0], 15),
     ([198, 51, 100, 0], 24), ([203, 0, 113, 0], 24), ([224, 0, 0, 0], 3)]"

definition reserved_ipv6 :: "(ipv6 \<times> nat) list" where
  "reserved_ipv6 = [([0, 0, 0, 0, 0, 0, 0, 0], 128), ([0, 0, 0, 0, 0, 0, 0, 1], 128), ([0xfe80, 0, 0, 0, 0, 0, 0, 0], 10),
     ([0xfc00, 0, 0, 0, 0, 0, 0, 0], 7), ([0xfec0, 0, 0, 0, 0, 0, 0, 0], 10), ([0xff00, 0, 0, 0, 0, 0, 0, 0], 8)]"

lemma word_bits_eq: "word_bits v = word_bits w \<longleftrightarrow> v = w"
proof
  assume "word_bits v = word_bits w"
  then have "n < LENGTH('a) \<Longrightarrow> bit v n = bit w n" for n :: nat by (simp add: word_bits_def)
  then show "v = w" by (rule bit_word_eqI)
qed simp

lemma length_word_bits [simp]: "length (word_bits (w :: 'a::len word)) = LENGTH('a)"
  by (simp add: word_bits_def)

lemma take_word_bits:
  fixes w c :: "'a::len word"
  assumes "k \<le> LENGTH('a)"
  shows "take k (word_bits w) = take k (word_bits c) \<longleftrightarrow> unat w div 2 ^ (LENGTH('a) - k) = unat c div 2 ^ (LENGTH('a) - k)"
proof -
  let ?m = "LENGTH('a) - k"
  have "take k (word_bits v) = map (\<lambda>i. bit v (LENGTH('a) - Suc i)) [0..<k]" for v :: "'a word"
    using assms by (intro nth_equalityI) (simp_all add: word_bits_def rev_nth)
  then have "take k (word_bits w) = take k (word_bits c) \<longleftrightarrow> (\<forall>i<k. bit w (LENGTH('a) - Suc i) = bit c (LENGTH('a) - Suc i))"
    by auto
  also have "\<dots> \<longleftrightarrow> drop_bit ?m w = drop_bit ?m c"
  proof
    assume l: "\<forall>i<k. bit w (LENGTH('a) - Suc i) = bit c (LENGTH('a) - Suc i)"
    show "drop_bit ?m w = drop_bit ?m c"
    proof (rule bit_word_eqI)
      fix n
      show "bit (drop_bit ?m w) n = bit (drop_bit ?m c) n"
      proof (cases "n < k")
        case True
        have "LENGTH('a) - Suc (k - Suc n) = ?m + n" using True assms by simp
        with l [rule_format, of "k - Suc n"] True show ?thesis by (simp add: bit_drop_bit_eq)
      next
        case False
        then have "LENGTH('a) \<le> ?m + n" by simp
        then show ?thesis by (auto simp: bit_drop_bit_eq dest: bit_imp_le_length)
      qed
    qed
  next
    assume e: "drop_bit ?m w = drop_bit ?m c"
    show "\<forall>i<k. bit w (LENGTH('a) - Suc i) = bit c (LENGTH('a) - Suc i)"
    proof (intro allI impI)
      fix i assume "i < k"
      with assms have "LENGTH('a) - Suc i = ?m + (k - Suc i)" by simp
      with arg_cong [OF e, of "\<lambda>x. bit x (k - Suc i)"] show "bit w (LENGTH('a) - Suc i) = bit c (LENGTH('a) - Suc i)"
        by (simp add: bit_drop_bit_eq)
    qed
  qed
  also have "\<dots> \<longleftrightarrow> unat w div 2 ^ ?m = unat c div 2 ^ ?m"
  proof -
    have "unat (drop_bit ?m v) = unat v div 2 ^ ?m" for v :: "'a word"
      by (simp only: unat_drop_bit_eq) (simp only: drop_bit_eq_div)
    then show ?thesis by (simp only: word_unat_eq_iff)
  qed
  finally show ?thesis .
qed

lemma div_is: "0 < d \<Longrightarrow> n div d = q \<longleftrightarrow> q * d \<le> n \<and> n < Suc q * d" for n d q :: nat
  by (metis div_less_iff_less_mult div_nat_eqI less_eq_div_iff_mult_less_eq mult.commute not_less_eq_eq not_less order.refl le_antisym lessI)

lemma byte_prefixes:
  "take 2 (word_bits w) = take 2 (word_bits (64 :: 8 word)) \<longleftrightarrow> 64 \<le> w \<and> w \<le> 127"
  "take 4 (word_bits w) = take 4 (word_bits (16 :: 8 word)) \<longleftrightarrow> 16 \<le> w \<and> w \<le> 31"
  "take 7 (word_bits w) = take 7 (word_bits (18 :: 8 word)) \<longleftrightarrow> 18 \<le> w \<and> w \<le> 19"
  "take 3 (word_bits w) = take 3 (word_bits (224 :: 8 word)) \<longleftrightarrow> 224 \<le> w" for w :: "8 word"
proof -
  have "unat w < 2 ^ LENGTH(8)" by (rule unsigned_less)
  then have lt: "unat w < 256" by simp
  have div: "take k (word_bits w) = take k (word_bits c) \<longleftrightarrow> unat w div 2 ^ (8 - k) = unat c div 2 ^ (8 - k)"
    if "k \<le> 8" for k and c :: "8 word" using take_word_bits [of k w c] that by simp
  show "take 2 (word_bits w) = take 2 (word_bits (64 :: 8 word)) \<longleftrightarrow> 64 \<le> w \<and> w \<le> 127"
    using div [of 2 64] div_is [of 64 "unat w" 1] unfolding word_le_nat_alt by auto
  show "take 4 (word_bits w) = take 4 (word_bits (16 :: 8 word)) \<longleftrightarrow> 16 \<le> w \<and> w \<le> 31"
    using div [of 4 16] div_is [of 16 "unat w" 1] unfolding word_le_nat_alt by auto
  show "take 7 (word_bits w) = take 7 (word_bits (18 :: 8 word)) \<longleftrightarrow> 18 \<le> w \<and> w \<le> 19"
    using div [of 7 18] div_is [of 2 "unat w" 9] unfolding word_le_nat_alt by auto
  show "take 3 (word_bits w) = take 3 (word_bits (224 :: 8 word)) \<longleftrightarrow> 224 \<le> w"
    using div [of 3 224] div_is [of 32 "unat w" 7] lt unfolding word_le_nat_alt by auto
qed

lemma four_bytes: "length b = 4 \<Longrightarrow> \<exists>b0 b1 b2 b3. b = [b0, b1, b2, b3]"
  by (auto simp: numeral_eq_Suc length_Suc_conv)

lemma networks:
  "in_network [b0, b1, b2, b3] ([c0, c1, c2, c3], 8) \<longleftrightarrow> b0 = c0"
  "in_network [b0, b1, b2, b3] ([c0, c1, c2, c3], 16) \<longleftrightarrow> b0 = c0 \<and> b1 = c1"
  "in_network [b0, b1, b2, b3] ([c0, c1, c2, c3], 24) \<longleftrightarrow> b0 = c0 \<and> b1 = c1 \<and> b2 = c2"
  "in_network [b0, b1, b2, b3] ([c0, 64, c2, c3], 10) \<longleftrightarrow> b0 = c0 \<and> 64 \<le> b1 \<and> b1 \<le> 127"
  "in_network [b0, b1, b2, b3] ([c0, 16, c2, c3], 12) \<longleftrightarrow> b0 = c0 \<and> 16 \<le> b1 \<and> b1 \<le> 31"
  "in_network [b0, b1, b2, b3] ([c0, 18, c2, c3], 15) \<longleftrightarrow> b0 = c0 \<and> 18 \<le> b1 \<and> b1 \<le> 19"
  "in_network [b0, b1, b2, b3] ([224, c1, c2, c3], 3) \<longleftrightarrow> 224 \<le> b0"
  for b0 b1 b2 b3 c0 c1 c2 c3 :: "8 word"
  by (simp_all add: in_network_def word_bits_eq byte_prefixes)

lemma blocked_ipv4:
  assumes "length b = 4"
  shows "isBlockedIPv4 b = list_ex (in_network b) reserved_ipv4"
proof -
  from four_bytes [OF assms] obtain b0 b1 b2 b3 where b: "b = [b0, b1, b2, b3]" by blast
  have "isBlockedIPv4 b \<longleftrightarrow> b0 = 0 \<or> b0 = 10 \<or> b0 = 100 \<and> 64 \<le> b1 \<and> b1 \<le> 127 \<or> b0 = 127 \<or> b0 = 169 \<and> b1 = 254 \<or>
      b0 = 172 \<and> 16 \<le> b1 \<and> b1 \<le> 31 \<or> b0 = 192 \<and> b1 = 0 \<and> b2 = 0 \<or> b0 = 192 \<and> b1 = 0 \<and> b2 = 2 \<or>
      b0 = 192 \<and> b1 = 168 \<or> b0 = 198 \<and> (b1 = 18 \<or> b1 = 19) \<or> b0 = 198 \<and> b1 = 51 \<and> b2 = 100 \<or>
      b0 = 203 \<and> b1 = 0 \<and> b2 = 113 \<or> 224 \<le> b0"
    by (simp add: b isBlockedIPv4_def)
  moreover have r: "(b1 = 18 \<or> b1 = 19) \<longleftrightarrow> 18 \<le> b1 \<and> b1 \<le> 19"
    unfolding word_le_nat_alt word_unat_eq_iff by auto
  ultimately show ?thesis by (simp add: b reserved_ipv4_def networks)
qed

lemma eq16: "v = w \<longleftrightarrow> list_all (\<lambda>n. bit v n = bit w n) [0..<16]" for v w :: "16 word"
  by (auto simp: list_all_iff intro: bit_word_eqI)

lemma group_prefixes:
  "take 10 (word_bits w) = take 10 (word_bits (0xfe80 :: 16 word)) \<longleftrightarrow> w AND 0xffc0 = 0xfe80"
  "take 7 (word_bits w) = take 7 (word_bits (0xfc00 :: 16 word)) \<longleftrightarrow> w AND 0xfe00 = 0xfc00"
  "take 10 (word_bits w) = take 10 (word_bits (0xfec0 :: 16 word)) \<longleftrightarrow> w AND 0xffc0 = 0xfec0"
  "take 8 (word_bits w) = take 8 (word_bits (0xff00 :: 16 word)) \<longleftrightarrow> w AND 0xff00 = 0xff00"
  for w :: "16 word"
  by (auto simp: word_bits_def upt_rec eq16 bit_and_iff)

lemma eight_words: "length w = 8 \<Longrightarrow> \<exists>a b c d e f g h. w = [a, b, c, d, e, f, g, h]"
  by (auto simp: numeral_eq_Suc length_Suc_conv)

lemma networks6:
  "in_network [a, b, c, d, e, f, g, h] (n, 128) \<longleftrightarrow> [a, b, c, d, e, f, g, h] = n"
  if "length n = 8" for a b c d e f g h :: "16 word" and n :: ipv6
  using eight_words [OF that] by (auto simp: in_network_def word_bits_eq)

lemma networks6_prefix:
  "in_network [a, b, c, d, e, f, g, h] ([0xfe80, n1, n2, n3, n4, n5, n6, n7], 10) \<longleftrightarrow> a AND 0xffc0 = 0xfe80"
  "in_network [a, b, c, d, e, f, g, h] ([0xfc00, n1, n2, n3, n4, n5, n6, n7], 7) \<longleftrightarrow> a AND 0xfe00 = 0xfc00"
  "in_network [a, b, c, d, e, f, g, h] ([0xfec0, n1, n2, n3, n4, n5, n6, n7], 10) \<longleftrightarrow> a AND 0xffc0 = 0xfec0"
  "in_network [a, b, c, d, e, f, g, h] ([0xff00, n1, n2, n3, n4, n5, n6, n7], 8) \<longleftrightarrow> a AND 0xff00 = 0xff00"
  "in_network [a, b, c, d, e, f, g, h] ([n0, n1, n2, n3, n4, n5, n6, n7], 96) \<longleftrightarrow> [a, b, c, d, e, f] = [n0, n1, n2, n3, n4, n5]"
  "in_network [a, b, c, d, e, f, g, h] ([n0, n1, n2, n3, n4, n5, n6, n7], 16) \<longleftrightarrow> a = n0"
  for a b c d e f g h n0 n1 n2 n3 n4 n5 n6 n7 :: "16 word"
  by (simp_all add: in_network_def word_bits_eq group_prefixes)

text \<open>The IPv4 address an IPv6 address stands for: mapped, compatible, or a 6to4 gateway.\<close>

definition ipv4_within :: "ipv6 \<Rightarrow> ipv4 option" where
  "ipv4_within w =
     (if in_network w ([0, 0, 0, 0, 0, 0xffff, 0, 0], 96) \<or> in_network w ([0, 0, 0, 0, 0, 0, 0, 0], 96)
      then Some (v4_in (w ! 6) (w ! 7))
      else if in_network w ([0x2002, 0, 0, 0, 0, 0, 0, 0], 16) then Some (v4_in (w ! 1) (w ! 2)) else None)"

lemma blocked_ipv6:
  assumes "length w = 8"
  shows "isBlockedIPv6 w \<longleftrightarrow> list_ex (in_network w) reserved_ipv6 \<or>
    (case ipv4_within w of None \<Rightarrow> False | Some b \<Rightarrow> list_ex (in_network b) reserved_ipv4)"
proof -
  from eight_words [OF assms] obtain a b c d e f g h where w: "w = [a, b, c, d, e, f, g, h]" by blast
  have v4: "list_ex (in_network (v4_in x y)) reserved_ipv4 = isBlockedIPv4 (v4_in x y)" for x y
    by (simp add: blocked_ipv4 v4_in_def)
  have zero: "isBlockedIPv4 (v4_in 0 1)" "isBlockedIPv4 (v4_in 0 0)" by (simp_all add: v4_in_def isBlockedIPv4_def)
  have one: "\<not> 1 < h \<longleftrightarrow> h = 0 \<or> h = 1"
    unfolding word_less_nat_alt word_unat_eq_iff by auto
  show ?thesis
    using zero one
    by (simp add: w isBlockedIPv6_def reserved_ipv6_def ipv4_within_def networks6 networks6_prefix v4; blast)
qed

section \<open>Text\<close>

definition show_ipv4 :: "ipv4 \<Rightarrow> string" where
  "show_ipv4 b = join ''.'' (map (\<lambda>x. nat_digits (unat x)) b)"

lemma digits_of_dec: "list_all is_digit p \<Longrightarrow> p \<noteq> [] \<Longrightarrow> (length p = 1 \<or> hd p \<noteq> CHR ''0'') \<Longrightarrow> nat_digits (dec_val p) = p"
proof (induction p rule: rev_induct)
  case (snoc c p)
  have d: "digit_val c < 10" "char_of (48 + digit_val c) = c"
    using snoc.prems(1) by (auto simp: is_digit_def digit_val_def Let_def)
  show ?case
  proof (cases "p = []")
    case True
    with d show ?thesis by (subst nat_digits.simps) (simp add: dec_val_def)
  next
    case False
    with snoc have ih: "nat_digits (dec_val p) = p" by (auto simp: hd_append)
    have "hd p \<noteq> CHR ''0''" using snoc.prems False by (auto simp: hd_append)
    have "0 < dec_val p"
    proof (rule ccontr)
      assume "\<not> 0 < dec_val p"
      moreover have "char_of (48 :: nat) = CHR ''0''" by code_simp
      ultimately have "p = ''0''" using ih by (subst (asm) nat_digits.simps) simp
      with \<open>hd p \<noteq> CHR ''0''\<close> show False by simp
    qed
    with d ih show ?thesis by (subst nat_digits.simps) (simp add: dec_val_append)
  qed
qed simp

lemma parse_byte_digits: "parse_byte p = Some x \<longleftrightarrow> p = nat_digits (unat x)"
proof
  assume "parse_byte p = Some x"
  then have p: "p \<noteq> []" "list_all is_digit p" "dec_val p \<le> 255" "length p = 1 \<or> hd p \<noteq> CHR ''0''" "x = word_of_nat (dec_val p)"
    by (auto simp: parse_byte_def le_Suc_eq split: if_splits dest: less_SucE) (cases p; auto)+
  then have "unat x = dec_val p" by (simp add: unat_of_nat)
  with digits_of_dec [OF p(2,1,4)] show "p = nat_digits (unat x)" by simp
next
  assume p: "p = nat_digits (unat x)"
  have "unat x < 2 ^ LENGTH(8)" by (rule unsigned_less)
  then have le: "unat x \<le> 255" by simp
  have zero: "nat_digits n = CHR ''0'' # q \<Longrightarrow> q = []" for n q
  proof (induction n arbitrary: q rule: nat_digits.induct)
    case (1 n)
    show ?case
    proof (cases "n < 10")
      case True
      with "1.prems" show ?thesis by (subst (asm) nat_digits.simps) simp
    next
      case False
      from "1.prems" False have e: "nat_digits (n div 10) @ [char_of (48 + n mod 10)] = CHR ''0'' # q"
        by (subst (asm) nat_digits.simps) simp
      then obtain r where r: "nat_digits (n div 10) = CHR ''0'' # r" by (cases "nat_digits (n div 10)") auto
      with "1.IH" [OF False, of r] have "nat_digits (n div 10) = ''0''" by simp
      then have "dec_val (nat_digits (n div 10)) = 0" by (simp only:) code_simp
      with False show ?thesis by (simp add: dec_val_nat_digits)
    qed
  qed
  have "list_all is_digit p" by (auto simp: p list_all_iff intro: nat_digits_is_digit)
  moreover have "\<not> (1 < length p \<and> hd p = CHR ''0'')"
    using zero [of "unat x" "tl p"] by (cases p) (auto simp: p)
  ultimately show "parse_byte p = Some x" using le by (simp add: parse_byte_def p dec_val_nat_digits)
qed

lemma all_some_map: "all_some (map f xs) = Some ys \<longleftrightarrow> list_all2 (\<lambda>x y. f x = Some y) xs ys"
proof (induction xs arbitrary: ys)
  case (Cons x xs)
  show ?case by (cases ys) (auto simp flip: Cons.IH split: option.splits)
qed (auto simp: list_all2_conv_all_nth)

lemma no_dot: "CHR ''.'' \<notin> set (nat_digits n)"
  using nat_digits_is_digit [of "CHR ''.''" n] by (auto simp: is_digit_def Let_def)

lemma parsed_ipv4: "parseIPv4 s = Some b \<longleftrightarrow> length b = 4 \<and> s = show_ipv4 b"
proof
  assume a: "parseIPv4 s = Some b"
  then have "list_all2 (\<lambda>p x. p = nat_digits (unat x)) (split_on (CHR ''.'') s) b" "length (split_on (CHR ''.'') s) = 4"
    by (auto simp: parseIPv4_def Let_def all_some_map parse_byte_digits split: if_splits)
  then have e: "split_on (CHR ''.'') s = map (\<lambda>x. nat_digits (unat x)) b" and l: "length b = 4"
    by (auto simp: list_all2_conv_all_nth intro: nth_equalityI)
  from join_split_on [of "CHR ''.''" s] e l show "length b = 4 \<and> s = show_ipv4 b" by (simp add: show_ipv4_def)
next
  assume "length b = 4 \<and> s = show_ipv4 b"
  then have l: "length b = 4" and s: "s = join ''.'' (map (\<lambda>x. nat_digits (unat x)) b)" by (simp_all add: show_ipv4_def)
  have "split_on (CHR ''.'') s = map (\<lambda>x. nat_digits (unat x)) b"
    unfolding s by (rule split_join) (use l no_dot in auto)
  then show "parseIPv4 s = Some b"
    using l by (simp add: parseIPv4_def all_some_map parse_byte_digits list_all2_conv_all_nth)
qed

section \<open>Properties\<close>

text \<open>
  C24. The address checks are exactly the networks they name. An IPv4 address has one spelling only
  (four decimal bytes without leading zeros, so no octal or short form passes as another address), and
  it is refused precisely when it lies in one of the reserved networks; an IPv6 address precisely when
  it lies in one of the reserved IPv6 networks or stands for a refused IPv4 address.
\<close>

theorem address_checks_are_the_reserved_networks:
  "(parseIPv4 s = Some b \<longleftrightarrow> length b = 4 \<and> s = show_ipv4 b) \<and>
   isBlockedIPv4 [b0, b1, b2, b3] = list_ex (in_network [b0, b1, b2, b3]) reserved_ipv4 \<and>
   isBlockedIPv6 [w0, w1, w2, w3, w4, w5, w6, w7] =
     (list_ex (in_network [w0, w1, w2, w3, w4, w5, w6, w7]) reserved_ipv6 \<or>
      (case ipv4_within [w0, w1, w2, w3, w4, w5, w6, w7] of
         None \<Rightarrow> False | Some v \<Rightarrow> list_ex (in_network v) reserved_ipv4))"
  using parsed_ipv4 [of s b] blocked_ipv4 [of "[b0, b1, b2, b3]"] blocked_ipv6 [of "[w0, w1, w2, w3, w4, w5, w6, w7]"] by simp

section \<open>Where a webhook goes\<close>

text \<open>A host the checks take for public at a hop.\<close>

definition public_host :: "internet \<Rightarrow> nat \<Rightarrow> string \<Rightarrow> bool" where
  "public_host net hop host \<longleftrightarrow> parseIPv4 host = None \<and> parseIPv6 (strip_brackets host) = None \<and> \<not> isBlockedHostname host \<and>
     (\<forall>ip \<in> set (resolveHostIPs net hop host). \<not> isBlockedIp ip)"

definition public_url :: "internet \<Rightarrow> nat \<Rightarrow> string \<Rightarrow> bool" where
  "public_url net hop u \<longleftrightarrow>
     (\<exists>t. new_url net u = Some t \<and> t_protocol t \<in> {''http:'', ''https:''} \<and> public_host net hop (t_hostname t))"

lemma validated_webhook:
  "validateWebhookUrl net env hop u = Inr t \<Longrightarrow> ALLOW_PRIVATE_WEBHOOKS env \<noteq> Some ''true'' \<Longrightarrow> public_url net hop u"
  by (auto simp: validateWebhookUrl_def assertPublicHost_def Let_def public_url_def public_host_def list_ex_iff
      split: if_splits option.splits sum.splits)

lemma followed:
  assumes "ALLOW_PRIVATE_WEBHOOKS env \<noteq> Some ''true''"
  shows "follow net env hop left u meth body = (r, out) \<Longrightarrow>
    length out \<le> left \<and> map fst out = [hop..<hop + length out] \<and>
    list_all (\<lambda>(h, v, _, b). public_url net h v \<and> (b = None \<or> b = body)) out \<and>
    (\<forall>res. r = Inr res \<longrightarrow> \<not> is_redirect (status_of res))"
proof (induction left arbitrary: hop u meth body r out)
  case (Suc left)
  have ok: "validateWebhookUrl net env hop u = Inr t \<Longrightarrow> public_url net hop u" for t
    by (rule validated_webhook [OF _ assms])
  have up: "[hop..<Suc (hop + n)] = hop # [Suc hop..<Suc (hop + n)]" for n by (simp add: upt_conv_Cons del: upt_Suc)
  have one: "[hop..<Suc hop] = [hop]" by simp
  from Suc.prems show ?case
    by (auto simp: up one Let_def simp del: upt_Suc dest!: ok Suc.IH split: sum.splits option.splits if_splits prod.splits elim!: list.pred_mono_strong)
qed simp


text \<open>A receiver that redirects to an internal name: the webhook stops there.\<close>

definition demo_net :: internet where
  "demo_net = \<lparr>new_url = (\<lambda>u. Some \<lparr>t_protocol = ''https:'', t_hostname = drop 8 u\<rparr>), join_url = (\<lambda>loc base. Some loc),
     lookup = (\<lambda>hop host t. if t = 1 then Answered (Obj [(''Answer'', Arr [Obj [(''type'', Num 1), (''data'', Str ''93.184.216.34'')]])]) else Not_ok),
     fetch = (\<lambda>hop u m b. Some (if hop = 0 then \<lparr>status_of = 302, location_of = Some ''https://metadata.internal''\<rparr>
                                    else \<lparr>status_of = 200, location_of = None\<rparr>))\<rparr>"

definition strict :: ssrf_env where
  "strict = \<lparr>ALLOW_PRIVATE_WEBHOOKS = None, ALLOW_PRIVATE_PROXY_TARGETS = None\<rparr>"

definition hooked :: "web_reply res \<times> sent list" where
  "hooked = safeFetchWebhook demo_net strict ''https://hooks.acme.io'' None (Some ''b'') 5"


section \<open>A target that is refused although it is public\<close>

text \<open>
  \<open>validateProxyTargetUrl\<close> is meant to accept public address literals. An IPv6 literal has no dot,
  so the rule for single-label names refuses every one of them.
\<close>

lemma public_ipv6_targets_are_refused:
  "CHR ''.'' \<notin> set host \<Longrightarrow> new_url net u = Some \<lparr>t_protocol = ''https:'', t_hostname = host\<rparr> \<Longrightarrow>
   ALLOW_PRIVATE_PROXY_TARGETS env \<noteq> Some ''true'' \<Longrightarrow>
   validateProxyTargetUrl net env u = Inl (Error ''Target cannot be a private, loopback, or reserved network address|403'')"
proof -
  assume h: "CHR ''.'' \<notin> set host" and u: "new_url net u = Some \<lparr>t_protocol = ''https:'', t_hostname = host\<rparr>"
    and e: "ALLOW_PRIVATE_PROXY_TARGETS env \<noteq> Some ''true''"
  have low: "c = CHR ''.''" if "to_lower_char c = CHR ''.''" for c
  proof (cases "is_upper c")
    case True
    then have "65 \<le> (of_char c :: nat)" "(of_char c :: nat) \<le> 90" by (auto simp: is_upper_def Let_def)
    moreover from True that have "of_char (char_of (of_char c + 32 :: nat)) = (of_char (CHR ''.'') :: nat)"
      by (simp add: to_lower_char_def)
    ultimately show ?thesis by simp
  qed (use that in \<open>simp add: to_lower_char_def\<close>)
  have "set (plain_host host) \<subseteq> to_lower_char ` set host"
    using set_dropWhileD set_take_subset
    by (fastforce simp: plain_host_def Let_def trim_def trim_end_def trim_start_def to_lower_def dest: in_set_takeD set_dropWhileD split: if_splits)
  then have "CHR ''.'' \<notin> set (plain_host host)" using h low [OF sym] by (fastforce elim!: imageE)
  then have "isBlockedHostname host" by (simp add: isBlockedHostname_def Let_def)
  then show ?thesis using u e by (simp add: validateProxyTargetUrl_def assertPublicHost_def)
qed

end
