(* ===== verification/Totp_Claims.thy ===== *)
theory Totp_Claims
  imports Totp Ssrf_Claims
begin

text \<open>Base32 as a stream of bits, and the secret of the second factor from setup to login.\<close>

unbundle bit_operations_syntax

section \<open>The register\<close>

text \<open>The lowest bits of a word, the most significant first.\<close>

definition low_bits :: "nat \<Rightarrow> 32 word \<Rightarrow> bool list" where
  "low_bits n v = map (bit v) (rev [0..<n])"

lemma low_bits_length [simp]: "length (low_bits n v) = n"
  by (simp add: low_bits_def)

lemma low_bits_0 [simp]: "low_bits 0 v = []"
  by (simp add: low_bits_def)

lemma low_bits_nth: "i < n \<Longrightarrow> low_bits n v ! i = bit v (n - Suc i)"
  by (simp add: low_bits_def rev_nth)

lemma push_byte:
  assumes "n \<le> 24"
  shows "low_bits (n + 8) (push_bit 8 v OR ucast b) = low_bits n v @ word_bits (b :: 8 word)"
proof (rule nth_equalityI)
  fix i assume "i < length (low_bits (n + 8) (push_bit 8 v OR ucast b))"
  then show "low_bits (n + 8) (push_bit 8 v OR ucast b) ! i = (low_bits n v @ word_bits b) ! i"
    using assms
    by (auto simp: low_bits_nth nth_append word_bits_def rev_nth bit_or_iff bit_push_bit_iff bit_unsigned_iff
        Suc_diff_Suc dest: bit_imp_le_length)
qed simp

lemma push_group:
  assumes "n \<le> 27" and "idx < 32"
  shows "low_bits (n + 5) (push_bit 5 v OR word_of_nat idx) = low_bits n v @ low_bits 5 (word_of_nat idx)"
proof (rule nth_equalityI)
  fix i assume i: "i < length (low_bits (n + 5) (push_bit 5 v OR word_of_nat idx))"
  have "bit (word_of_nat idx :: 32 word) m \<Longrightarrow> m < 5" for m
  proof (rule ccontr)
    assume b: "bit (word_of_nat idx :: 32 word) m" and m: "\<not> m < 5"
    from b have "bit idx m" by (simp only: bit_of_nat_iff)
    then have "odd (idx div 2 ^ m)" by (simp add: bit_iff_odd)
    moreover have "(2 :: nat) ^ 5 \<le> 2 ^ m" using m by (intro power_increasing) simp_all
    then have "idx div 2 ^ m = 0" using assms(2) by simp
    ultimately show False by simp
  qed
  then have small: "\<not> bit (word_of_nat idx :: 32 word) m" if "5 \<le> m" for m using that by (meson not_le)
  show "low_bits (n + 5) (push_bit 5 v OR word_of_nat idx) ! i = (low_bits n v @ low_bits 5 (word_of_nat idx)) ! i"
  proof (cases "i < n")
    case True
    then have "n + 5 - Suc i - 5 = n - Suc i" "5 \<le> n + 5 - Suc i" by simp_all
    with True assms(1) small [of "n + 5 - Suc i"] show ?thesis
      by (auto simp: low_bits_nth nth_append bit_or_iff bit_push_bit_iff)
  next
    case False
    with i have "n + 5 - Suc i = 5 - Suc (i - n)" "n + 5 - Suc i < 5" by simp_all
    with False i show ?thesis by (simp add: low_bits_nth nth_append bit_or_iff bit_push_bit_iff)
  qed
qed simp

text \<open>What leaves the register: its highest bits of those in use.\<close>

lemma top_bits: "m \<le> n \<Longrightarrow> low_bits n v = low_bits (n - m) (drop_bit m v) @ low_bits m v"
  by (rule nth_equalityI) (auto simp: low_bits_nth nth_append bit_drop_bit_eq)

lemma low_bits_mask: "k \<le> n \<Longrightarrow> low_bits k (v AND mask n) = low_bits k v"
  by (rule nth_equalityI) (auto simp: low_bits_nth bit_and_iff bit_mask_iff dest: bit_imp_le_length)

lemma byte_out: "word_bits (ucast (v AND 0xff) :: 8 word) = low_bits 8 v" for v :: "32 word"
proof (rule nth_equalityI)
  fix i assume "i < length (word_bits (ucast (v AND 0xff) :: 8 word))"
  then have i: "i < 8" by simp
  have "(0xff :: 32 word) = mask 8" by (simp add: mask_numeral)
  then have m: "bit (0xff :: 32 word) (7 - i)" by (simp only: bit_mask_iff) auto
  have "word_bits (ucast (v AND 0xff) :: 8 word) ! i = bit (ucast (v AND 0xff) :: 8 word) (7 - i)"
    using i by (simp add: word_bits_def rev_nth)
  also have "\<dots> = bit v (7 - i)" by (simp only: bit_word_ucast_iff bit_and_iff m) auto
  finally show "word_bits (ucast (v AND 0xff) :: 8 word) ! i = low_bits 8 v ! i"
    using i by (simp add: low_bits_nth)
qed simp

section \<open>The alphabet\<close>

lemma index_of_nth: "distinct xs \<Longrightarrow> i < length xs \<Longrightarrow> index_of (xs ! i) xs = Some i"
  by (induction xs arbitrary: i) (auto simp: nth_Cons in_set_conv_nth split: nat.split)

lemma alphabet: "length ALPHABET = 32" "distinct ALPHABET" "list_all (\<lambda>c. to_upper_char c = c \<and> c \<noteq> CHR ''='') ALPHABET"
  by code_simp+

lemma alphabet_index: "i < 32 \<Longrightarrow> index_of (ALPHABET ! i) ALPHABET = Some i"
  by (simp add: index_of_nth alphabet)

lemma clean_encoded: "set s \<subseteq> set ALPHABET \<Longrightarrow> clean_base32 s = s"
proof -
  assume s: "set s \<subseteq> set ALPHABET"
  with alphabet(3) have m: "map to_upper_char s = s" and e: "\<forall>c \<in> set s. c \<noteq> CHR ''=''"
    by (auto simp: list_all_iff intro!: map_idI)
  have "dropWhile (\<lambda>c. c = CHR ''='') (rev s) = rev s"
    using e by (cases "rev s") (auto dest: arg_cong [of _ _ set])
  with m show ?thesis by (simp add: clean_base32_def)
qed

section \<open>Encoding\<close>

text \<open>The groups of five bits a text stands for.\<close>

definition group_bits :: "nat \<Rightarrow> bool list" where
  "group_bits i = low_bits 5 (word_of_nat i)"

definition spells :: "string \<Rightarrow> nat list \<Rightarrow> bool" where
  "spells s is \<longleftrightarrow> s = map ((!) ALPHABET) is \<and> list_all (\<lambda>i. i < 32) is"

lemma mask_31: "unat (v AND 31 :: 32 word) < 32"
proof -
  have "(31 :: 32 word) = mask 5" by (simp add: mask_numeral)
  then have "unat (v AND 31) = take_bit 5 (unat v)" by (simp only: flip: take_bit_eq_mask) (simp add: unsigned_take_bit_eq)
  then show ?thesis using take_bit_nat_less_exp [of 5 "unat v"] by simp
qed

lemma group_of_mask: "group_bits (unat (v AND 31 :: 32 word)) = low_bits 5 v"
proof -
  have m: "(31 :: 32 word) = mask 5" by (simp add: mask_numeral)
  have "low_bits 5 (v AND 31) = low_bits 5 v" by (simp only: m low_bits_mask order.refl)
  then show ?thesis by (simp add: group_bits_def)
qed

lemma emitted:
  "n \<le> 32 \<Longrightarrow> \<exists>gs. spells (emit n v) gs \<and> low_bits n v = concat (map group_bits gs) @ low_bits (n mod 5) v"
proof (induction n v rule: emit.induct)
  case (1 n v)
  show ?case
  proof (cases "5 \<le> n")
    case True
    have "n - 5 \<le> 32" using "1.prems" by simp
    from "1.IH" [OF True this] obtain gs' where gs': "spells (emit (n - 5) v) gs'"
      "low_bits (n - 5) v = concat (map group_bits gs') @ low_bits ((n - 5) mod 5) v" by blast
    let ?i = "unat (drop_bit (n - 5) v AND 31)"
    have "low_bits n v = low_bits 5 (drop_bit (n - 5) v) @ low_bits (n - 5) v"
      using top_bits [of "n - 5" n v] True by simp
    moreover have "(n - 5) mod 5 = n mod 5" using True by (metis le_mod_geq)
    ultimately have "low_bits n v = concat (map group_bits (?i # gs')) @ low_bits (n mod 5) v"
      using gs'(2) by (simp add: group_of_mask)
    moreover have "spells (emit n v) (?i # gs')"
      using True gs'(1) mask_31 by (subst emit.simps) (auto simp: spells_def)
    ultimately show ?thesis by blast
  next
    case False
    then have "spells (emit n v) []" by (subst emit.simps) (simp add: spells_def)
    with False show ?thesis by (auto intro!: exI [of _ "[]"])
  qed
qed

lemma encoded:
  "n < 5 \<Longrightarrow> \<exists>gs pad. spells (encode_bytes bs n v) gs \<and> length pad < 5 \<and>
     concat (map group_bits gs) = low_bits n v @ concat (map word_bits bs) @ pad"
proof (induction bs arbitrary: n v)
  case Nil
  show ?case
  proof (cases "n = 0")
    case True
    then show ?thesis by (auto simp: spells_def intro!: exI [of _ "[]"])
  next
    case False
    let ?w = "push_bit (5 - n) v"
    have "low_bits 5 ?w = low_bits n v @ replicate (5 - n) False"
    proof (rule nth_equalityI)
      fix i assume "i < length (low_bits 5 ?w)"
      then have i: "i < 5" by simp
      have "low_bits 5 ?w ! i \<longleftrightarrow> i < n \<and> bit v (n - Suc i)"
        using i Nil by (auto simp: low_bits_nth bit_push_bit_iff)
      then show "low_bits 5 ?w ! i = (low_bits n v @ replicate (5 - n) False) ! i"
        using i by (simp add: nth_append low_bits_nth)
    qed (use Nil in simp)
    with False Nil show ?thesis
      by (intro exI [of _ "[unat (?w AND 31)]"] exI [of _ "replicate (5 - n) False"])
        (simp add: spells_def group_of_mask mask_31)
  qed
next
  case (Cons b bs)
  let ?v = "push_bit 8 v OR ucast b"
  have "n + 8 \<le> 32" using Cons.prems by simp
  from emitted [OF this, of ?v] obtain gs1 where
    e: "spells (emit (n + 8) ?v) gs1" "low_bits (n + 8) ?v = concat (map group_bits gs1) @ low_bits ((n + 8) mod 5) ?v" by blast
  have "(n + 8) mod 5 < 5" by simp
  from Cons.IH [OF this, of ?v] obtain gs2 pad where
    r: "spells (encode_bytes bs ((n + 8) mod 5) ?v) gs2" "length pad < 5"
      "concat (map group_bits gs2) = low_bits ((n + 8) mod 5) ?v @ concat (map word_bits bs) @ pad" by blast
  have "concat (map group_bits (gs1 @ gs2)) = low_bits n v @ concat (map word_bits (b # bs)) @ pad"
    using e(2) r(3) push_byte [of n v b] Cons.prems by simp
  moreover have "spells (encode_bytes (b # bs) n v) (gs1 @ gs2)"
    using e(1) r(1) by (simp add: spells_def Let_def)
  ultimately show ?case using r(2) by blast
qed

section \<open>Decoding\<close>

lemma decoded:
  "list_all (\<lambda>i. i < 32) gs \<Longrightarrow> n < 8 \<Longrightarrow>
   \<exists>bs rest. decode_chars (map ((!) ALPHABET) gs) n v = Inr bs \<and> length rest < 8 \<and>
     low_bits n v @ concat (map group_bits gs) = concat (map word_bits bs) @ rest"
proof (induction gs arbitrary: n v)
  case (Cons i gs)
  let ?v = "push_bit 5 v OR word_of_nat i"
  from Cons.prems have i: "i < 32" by simp
  have low: "low_bits (n + 5) ?v = low_bits n v @ group_bits i"
    using push_group [of n i v] i Cons.prems by (simp add: group_bits_def)
  show ?case
  proof (cases "8 \<le> n + 5")
    case True
    have "list_all (\<lambda>i. i < 32) gs" "n + 5 - 8 < 8" using Cons.prems by simp_all
    from Cons.IH [OF this, of ?v] obtain bs rest where
      d: "decode_chars (map ((!) ALPHABET) gs) (n + 5 - 8) ?v = Inr bs" "length rest < 8"
        "low_bits (n + 5 - 8) ?v @ concat (map group_bits gs) = concat (map word_bits bs) @ rest" by blast
    let ?b = "ucast (drop_bit (n + 5 - 8) ?v AND 0xff) :: 8 word"
    have "low_bits (n + 5) ?v = word_bits ?b @ low_bits (n + 5 - 8) ?v"
      using top_bits [of "n + 5 - 8" "n + 5" ?v] True by (simp add: byte_out)
    with low d(3) have "low_bits n v @ concat (map group_bits (i # gs)) = concat (map word_bits (?b # bs)) @ rest"
      by simp (metis append.assoc)
    moreover have "decode_chars (map ((!) ALPHABET) (i # gs)) n v = Inr (?b # bs)"
      using True d(1) by (simp add: alphabet_index [OF i] Let_def)
    ultimately show ?thesis using d(2) by blast
  next
    case False
    then have "list_all (\<lambda>i. i < 32) gs" "n + 5 < 8" using Cons.prems by simp_all
    from Cons.IH [OF this, of ?v] obtain bs rest where
      d: "decode_chars (map ((!) ALPHABET) gs) (n + 5) ?v = Inr bs" "length rest < 8"
        "low_bits (n + 5) ?v @ concat (map group_bits gs) = concat (map word_bits bs) @ rest" by blast
    with low False show ?thesis
      by (intro exI [of _ bs] exI [of _ rest]) (simp add: alphabet_index [OF i] Let_def)
  qed
qed simp

lemma spells_alphabet: "spells s is \<Longrightarrow> set s \<subseteq> set ALPHABET"
  by (auto simp: spells_def list_all_iff alphabet)

lemma word_lists_eq:
  "length as = length bs \<Longrightarrow> concat (map word_bits as) = concat (map word_bits bs) \<Longrightarrow> as = bs"
  for as bs :: "8 word list"
proof (induction as bs rule: list_induct2)
  case (Cons a as b bs)
  from Cons.prems have "word_bits a = word_bits b \<and> concat (map word_bits as) = concat (map word_bits bs)" by simp
  with Cons.IH show ?case by (simp add: word_bits_eq)
qed simp

lemma length_word_lists: "length (concat (map word_bits bs)) = 8 * length bs" for bs :: "8 word list"
  by (induction bs) simp_all

lemma base32_inverse: "base32Decode (base32Encode bs) = Inr bs"
proof -
  from encoded [of 0 bs 0] obtain gs pad where
    e: "spells (base32Encode bs) gs" "length pad < 5" "concat (map group_bits gs) = concat (map word_bits bs) @ pad"
    by (auto simp: base32Encode_def)
  then have s: "base32Encode bs = map ((!) ALPHABET) gs" and lt: "list_all (\<lambda>i. i < 32) gs" by (simp_all add: spells_def)
  have "(0 :: nat) < 8" by simp
  from decoded [OF lt this, of 0] obtain bs' rest where
    d: "decode_chars (base32Encode bs) 0 0 = Inr bs'" "length rest < 8" "concat (map group_bits gs) = concat (map word_bits bs') @ rest"
    by (auto simp: s)
  from e(3) d(3) have eq: "concat (map word_bits bs) @ pad = concat (map word_bits bs') @ rest" by simp
  have "8 * length bs + length pad = 8 * length bs' + length rest"
    using arg_cong [OF eq, of length] by (simp only: length_append length_word_lists)
  with e(2) d(2) have l: "length bs = length bs'" by simp
  with eq have "concat (map word_bits bs) = concat (map word_bits bs')"
    by (simp add: length_word_lists append_eq_append_conv)
  with word_lists_eq [OF l] d(1) clean_encoded [OF spells_alphabet [OF e(1)]] show ?thesis
    by (simp add: base32Decode_def)
qed

section \<open>At rest\<close>

lemma hex_digits_inverse: "d < 16 \<Longrightarrow> hex_digit_of (hex_char d) = Some d"
proof -
  have "list_all (\<lambda>d. hex_digit_of (hex_char d) = Some d) [0..<16]" by code_simp
  then show "d < 16 \<Longrightarrow> ?thesis" by (simp add: list_all_iff)
qed

lemma hex_inverse: "hex_pairs (to_hex bs) = Some bs"
proof (induction bs)
  case (Cons b bs)
  have "unat b < 2 ^ LENGTH(8)" by (rule unsigned_less)
  then have "unat b div 16 < 16" "unat b mod 16 < 16" by simp_all
  moreover have "word_of_nat (16 * (unat b div 16) + unat b mod 16) = b" by simp
  ultimately show ?case using Cons by (simp add: to_hex_def hex_byte_def hex_digits_inverse)
qed (simp add: to_hex_def)

lemma hex_char_colon: "d < 16 \<Longrightarrow> hex_char d \<noteq> CHR '':''"
proof -
  have "list_all (\<lambda>d. hex_char d \<noteq> CHR '':'') [0..<16]" by code_simp
  then show "d < 16 \<Longrightarrow> ?thesis" by (simp add: list_all_iff)
qed

lemma to_hex_colon: "CHR '':'' \<notin> set (to_hex bs)"
proof (induction bs)
  case (Cons b bs)
  have "unat b < 2 ^ LENGTH(8)" by (rule unsigned_less)
  then have "unat b div 16 < 16" "unat b mod 16 < 16" by simp_all
  from hex_char_colon [OF this(1)] hex_char_colon [OF this(2)] Cons show ?case
    by (auto simp: to_hex_def hex_byte_def)
qed (simp add: to_hex_def)

lemma to_hex_Nil: "to_hex bs = [] \<longleftrightarrow> bs = []"
  by (cases bs) (simp_all add: to_hex_def hex_byte_def)

lemma secret_inverse:
  assumes "salt \<noteq> []" "iv \<noteq> []" "seal wc password salt iv secret \<noteq> []"
    and "unseal wc password salt iv (seal wc password salt iv secret) = Some secret"
  shows "decryptTOTPSecret wc (encryptTOTPSecret wc salt iv secret password) password = Inr secret"
proof -
  have split: "split_on (CHR '':'') (encryptTOTPSecret wc salt iv secret password)
      = [to_hex salt, to_hex iv, to_hex (seal wc password salt iv secret)]"
    by (simp add: encryptTOTPSecret_def split_on_append split_on_no_sep to_hex_colon)
  show ?thesis by (simp add: decryptTOTPSecret_def split hexToUint8Array_def to_hex_Nil assms hex_inverse)
qed

section \<open>Codes\<close>

lemma length_nat_digits: "n < 10 ^ k \<Longrightarrow> 0 < k \<Longrightarrow> length (nat_digits n) \<le> k"
proof (induction k arbitrary: n)
  case (Suc k)
  show ?case
  proof (cases "n < 10")
    case True
    then show ?thesis by (subst nat_digits.simps) simp
  next
    case False
    with Suc.prems have "n div 10 < 10 ^ k" "0 < k" by (auto simp: less_mult_imp_div_less mult.commute intro: gr0I)
    from Suc.IH [OF this] False show ?thesis by (subst nat_digits.simps) simp
  qed
qed simp

lemma dropWhile_none: "\<forall>c \<in> set s. \<not> P c \<Longrightarrow> dropWhile P s = s"
  by (cases s) auto

lemma trim_digits: "list_all is_digit s \<Longrightarrow> trim s = s"
  by (simp add: trim_def trim_start_def trim_end_def list_all_iff dropWhile_none digit_not_ws)

lemma code_shape: "length (totp_code wc key c) = 6 \<and> list_all is_digit (totp_code wc key c)"
proof -
  have shape: "length (pad_code (m mod 1000000)) = 6 \<and> list_all is_digit (pad_code (m mod 1000000))" for m
  proof
    have "m mod 1000000 < 10 ^ 6" by simp
    from length_nat_digits [OF this] show "length (pad_code (m mod 1000000)) = 6"
      by (simp add: pad_code_def show_nat_def Let_def)
    show "list_all is_digit (pad_code (m mod 1000000))"
      by (auto simp: pad_code_def show_nat_def Let_def list_all_iff intro: nat_digits_is_digit) (simp add: is_digit_def)
  qed
  show ?thesis unfolding totp_code_def Let_def by (rule shape)
qed

lemma match_code:
  assumes "base32Decode secret = Inr key" and "\<bar>c - time_counter now_ms 30\<bar> \<le> 1"
  shows "\<exists>c'. matchTOTP wc now_ms secret (totp_code wc key c) = Inr (Some c') \<and> \<bar>c' - time_counter now_ms 30\<bar> \<le> 1 \<and>
    totp_code wc key c' = totp_code wc key c"
proof -
  let ?t = "time_counter now_ms 30" and ?code = "totp_code wc key c"
  have m: "matchTOTP wc now_ms secret ?code = Inr (find (\<lambda>k. totp_code wc key k = ?code) [?t - 1, ?t, ?t + 1])"
    using code_shape [of wc key c] by (simp only: matchTOTP_def Let_def trim_digits assms(1)) simp
  have "c \<in> set [?t - 1, ?t, ?t + 1]" using assms(2) by auto
  then have "find (\<lambda>k. totp_code wc key k = ?code) [?t - 1, ?t, ?t + 1] \<noteq> None"
    by (metis (mono_tags, lifting) find_None_iff)
  then obtain c' where f: "find (\<lambda>k. totp_code wc key k = ?code) [?t - 1, ?t, ?t + 1] = Some c'" by blast
  from find_Some [OF f] have "\<bar>c' - ?t\<bar> \<le> 1" "totp_code wc key c' = ?code" by auto
  with m f show ?thesis by auto
qed

text \<open>
  C25. A second factor works from setup to login: whatever random bytes a secret is made of, its base32
  text decodes to them, what is stored decrypts under the same password to that text, and a code the
  user's device computes within a time step of the server's clock is accepted. Web Crypto is assumed
  to decrypt what it encrypted, and AES-GCM to add its tag.
\<close>

theorem enrolled_second_factor_verifies:
  assumes "\<And>p s i m. unseal wc p s i (seal wc p s i m) = Some m" and "\<And>p s i m. seal wc p s i m \<noteq> []"
    and "salt \<noteq> []" and "iv \<noteq> []"
    and "generateTOTP wc device_ms (generateTOTPSecret bytes) = Inr code"
    and "\<bar>time_counter device_ms 30 - time_counter now_ms 30\<bar> \<le> 1"
  shows "base32Decode (generateTOTPSecret bytes) = Inr bytes \<and>
    decryptTOTPSecret wc (encryptTOTPSecret wc salt iv (generateTOTPSecret bytes) password) password = Inr (generateTOTPSecret bytes) \<and>
    (\<exists>c. matchTOTP wc now_ms (generateTOTPSecret bytes) code = Inr (Some c) \<and> \<bar>c - time_counter now_ms 30\<bar> \<le> 1)"
proof -
  have d: "base32Decode (generateTOTPSecret bytes) = Inr bytes" by (simp add: generateTOTPSecret_def base32_inverse)
  with assms(5) have c: "code = totp_code wc bytes (time_counter device_ms 30)" by (simp add: generateTOTP_def)
  from match_code [OF d assms(6), of wc] secret_inverse [OF assms(3,4,2,1)] d show ?thesis by (auto simp: c)
qed

text \<open>A toy cipher and a keyed checksum, to run the routines.\<close>

definition demo_crypto :: web_crypto where
  "demo_crypto = \<lparr>hmac = (\<lambda>k m. map (\<lambda>i. foldl (+) (word_of_nat i) (k @ m)) [0..<20]),
     seal = (\<lambda>p s i m. 0 # map (\<lambda>c. word_of_nat (of_char c)) m),
     unseal = (\<lambda>p s i c. Some (map (\<lambda>b. char_of (unat b)) (tl c)))\<rparr>"

theorem enrolled_second_factor_verifies_witness:
  "base32Encode [1, 2, 3] = ''AEBAG'' \<and>
   (\<exists>code c. generateTOTP demo_crypto 1700000000000 (generateTOTPSecret [1, 2, 3]) = Inr code \<and>
     matchTOTP demo_crypto 1700000015000 (generateTOTPSecret [1, 2, 3]) code = Inr (Some c))"
proof (intro conjI)
  have rt: "unseal demo_crypto p s i (seal demo_crypto p s i m) = Some m" for p s i m
    by (simp add: demo_crypto_def comp_def unat_of_nat)
  have ne: "seal demo_crypto p s i m \<noteq> []" for p s i m by (simp add: demo_crypto_def)
  have d: "base32Decode (generateTOTPSecret [1, 2, 3]) = Inr [1, 2, 3]" by (simp add: generateTOTPSecret_def base32_inverse)
  then obtain code where g: "generateTOTP demo_crypto 1700000000000 (generateTOTPSecret [1, 2, 3]) = Inr code"
    by (simp add: generateTOTP_def)
  have t: "\<bar>time_counter 1700000000000 30 - time_counter 1700000015000 30\<bar> \<le> 1" by (simp add: time_counter_def)
  have "[0 :: 8 word] \<noteq> []" by simp
  from enrolled_second_factor_verifies [OF rt ne this this g t] g
  show "\<exists>code c. generateTOTP demo_crypto 1700000000000 (generateTOTPSecret [1, 2, 3]) = Inr code \<and>
     matchTOTP demo_crypto 1700000015000 (generateTOTPSecret [1, 2, 3]) code = Inr (Some c)" by blast
qed code_simp+

end
