(* ===== verification/Runners_Service.thy ===== *)
theory Runners_Service
  imports Coordinator Rbac_Repo Auth_Db
begin

text \<open>
  \<open>services/runners.ts\<close> and \<open>repositories/runners.ts\<close>: what the Worker checks before it passes a
  request on to the coordinator, and how a scan gets into the queue. The Worker's state joins the
  accounts, the permissions, the tickets of event streams, the coordinator object and the scan queue;
  an operation on one of these parts is lifted to the whole.
\<close>

section \<open>The Worker's state\<close>

record ticket_row =
  tk_hash :: string
  tk_user :: string
  tk_run :: string
  tk_expires :: int

record scan_message =
  m_runId :: string
  m_configKey :: string
  m_userPublicKey :: string
  m_target :: json
  m_profile :: json
  m_projectId :: string
  m_userId :: "string option"

text \<open>The schedule columns of \<open>scan_configs\<close>; a row's document is the table's, by project and name.\<close>

record schedule_row =
  sch_id :: string
  sch_project :: string
  sch_name :: string
  sch_cron :: "string option"
  sch_last_run :: "int option"

record worker =
  accounts :: auth_db
  access :: rbac
  ws_tickets :: "ticket_row list"
  schedules :: "schedule_row list"
  object :: coord
  scan_queue :: "scan_message list"
  draws :: nat

text \<open>
  \<open>hash_key\<close> is \<open>hashApiKey\<close>, \<open>random_id\<close> and \<open>random_hex\<close> the sources of randomness,
  \<open>column_text\<close> and \<open>column_name\<close> what a text column holds of a bound value (\<open>None\<close> where D1
  refuses to bind it).
\<close>

record worker_env =
  obj_env :: env
  SHARED_RUNNER_TOKEN :: "string option"
  LIMIT_ANONYMOUS :: "string option"
  hash_key :: "string \<Rightarrow> string"
  random_id :: "nat \<Rightarrow> string"
  random_hex :: "nat \<Rightarrow> string"
  column_text :: "json \<Rightarrow> ustring option"
  column_name :: "json \<Rightarrow> string option"

definition on_accounts :: "(auth_db, 'a) comp \<Rightarrow> (worker, 'a) comp" where
  "on_accounts m = (\<lambda>w. let (r, a) = m (accounts w) in (r, w\<lparr>accounts := a\<rparr>))"

definition on_access :: "(rbac, 'a) comp \<Rightarrow> (worker, 'a) comp" where
  "on_access m = (\<lambda>w. let (r, a) = m (access w) in (r, w\<lparr>access := a\<rparr>))"

definition draw_one :: "(worker, nat) comp" where
  "draw_one = (\<lambda>w. (Inr (draws w), w\<lparr>draws := Suc (draws w)\<rparr>))"

text \<open>A request of the coordinator object.\<close>

definition ask :: "worker_env \<Rightarrow> object_request \<Rightarrow> (worker, response) comp" where
  "ask env r = (\<lambda>w. let (resp, s) = handle_request (obj_env env) r (object w) in (Inr resp, w\<lparr>object := s\<rparr>))"

definition worker_now :: "worker \<Rightarrow> int" where
  "worker_now w = clock_ms (accounts w) div 1000"

section \<open>Tickets in the tables\<close>

text \<open>The two statements of \<open>createStreamTicket\<close> are one batch; the hash is the primary key.\<close>

definition createStreamTicket :: "string \<Rightarrow> string \<Rightarrow> string \<Rightarrow> int \<Rightarrow> nat \<Rightarrow> (worker, bool) comp" where
  "createStreamTicket ticketHash userId runId expiresAt maxLive = (\<lambda>w.
     let live = filter (\<lambda>t. \<not> (tk_user t = userId \<and> tk_expires t \<le> worker_now w)) (ws_tickets w)
     in if maxLive \<le> length (filter (\<lambda>t. tk_user t = userId) live) then (Inr False, w\<lparr>ws_tickets := live\<rparr>)
        else if ticketHash \<in> set (map tk_hash live) then (Inl ConstraintFailed, w)
        else (Inr True, w\<lparr>ws_tickets := live @
                [\<lparr>tk_hash = ticketHash, tk_user = userId, tk_run = runId, tk_expires = expiresAt\<rparr>]\<rparr>))"

definition consumeStreamTicket :: "string \<Rightarrow> (worker, ticket_row option) comp" where
  "consumeStreamTicket ticketHash = (\<lambda>w.
     (Inr (find (\<lambda>t. tk_hash t = ticketHash) (ws_tickets w)),
      w\<lparr>ws_tickets := filter (\<lambda>t. tk_hash t \<noteq> ticketHash) (ws_tickets w)\<rparr>))"

definition STREAM_TICKET_TTL_SECONDS :: int where "STREAM_TICKET_TTL_SECONDS = 30"
definition MAX_LIVE_STREAM_TICKETS :: nat where "MAX_LIVE_STREAM_TICKETS = 20"
definition MIN_SHARED_RUNNER_TOKEN_LENGTH :: nat where "MIN_SHARED_RUNNER_TOKEN_LENGTH = 32"

definition ticket_char :: "char \<Rightarrow> bool" where
  "ticket_char c = (is_digit c \<or> c \<in> set ''abcdef'')"

definition is_ticket :: "string \<Rightarrow> bool" where
  "is_ticket t = (length t = 64 \<and> list_all ticket_char t)"

definition redeemStreamTicket :: "worker_env \<Rightarrow> string \<Rightarrow> string \<Rightarrow> (worker, string option) comp" where
  "redeemStreamTicket env ticket runId =
     (if \<not> is_ticket ticket then ret None
      else bind_comp (consumeStreamTicket (hash_key env ticket)) (\<lambda>stored w.
           case stored of
             None \<Rightarrow> (Inr None, w)
           | Some t \<Rightarrow> (Inr (if tk_run t \<noteq> runId \<or> tk_expires t \<le> worker_now w then None else Some (tk_user t)), w)))"

section \<open>Access to a scan\<close>

definition checkScanAccess :: "string \<Rightarrow> string \<Rightarrow> string \<Rightarrow> (worker, unit) comp" where
  "checkScanAccess scanId userId perm =
     bind_comp (refuse_if (\<not> isValidRunId scanId \<or> userId \<noteq> [] \<and> \<not> isValidRunId userId) ''Run/Scan not found|404'') (\<lambda>_.
     bind_comp (reads (\<lambda>w. getScan (db (object w)) scanId)) (\<lambda>scan.
     case scan of
       None \<Rightarrow> throw (Error ''Run/Scan not found|404'')
     | Some sc \<Rightarrow>
         if s_project sc = [] then refuse_if (s_user sc \<noteq> Some userId) ''Forbidden|403''
         else bind_comp (on_access (checkPermission userId (s_project sc) perm)) (\<lambda>hasAccess.
              refuse_if (\<not> hasAccess) ''Forbidden|403'')))"

definition READ_SCANS :: string where "READ_SCANS = ''get:/api/projects/:id/scans''"
definition WRITE_SCANS :: string where "WRITE_SCANS = ''post:/api/projects/:id/scans''"

text \<open>What every command on a run checks first.\<close>

definition may_use :: "worker_env \<Rightarrow> string \<Rightarrow> string option \<Rightarrow> string \<Rightarrow> (worker, unit) comp" where
  "may_use env runId userId perm =
     bind_comp (refuse_if (AUTH_ENABLED (obj_env env) = Some ''true'' \<and> \<not> given userId) ''Unauthorized|401'') (\<lambda>_.
     if given userId then checkScanAccess runId (the userId) perm else ret ())"

section \<open>Runners connecting\<close>

definition isSharedRunnerToken :: "worker_env \<Rightarrow> string \<Rightarrow> bool" where
  "isSharedRunnerToken env token = (case SHARED_RUNNER_TOKEN env of
     None \<Rightarrow> False
   | Some expected \<Rightarrow> MIN_SHARED_RUNNER_TOKEN_LENGTH \<le> length expected \<and> hash_key env token = hash_key env expected)"

text \<open>Who a runner is: a shared one, or an account; \<open>Inl\<close> is the refusal.\<close>

datatype runner_is = Shared_runner | Runner_of string

definition by_public_key :: "string \<Rightarrow> (auth_db, account_row option) comp" where
  "by_public_key key = find_user (\<lambda>u. u_public_key u = Some key)"

definition by_api_key :: "string \<Rightarrow> (auth_db, account_row option) comp" where
  "by_api_key key = find_user (\<lambda>u. u_api_key u = Some key)"

text \<open>An API key is stored hashed; one still stored as it was issued is hashed when it is used.\<close>

definition token_user :: "worker_env \<Rightarrow> string \<Rightarrow> (auth_db, account_row option) comp" where
  "token_user env token =
     bind_comp (by_api_key (hash_key env token)) (\<lambda>user.
     if user = None \<and> starts_with token ''swazz_live_'' then
       bind_comp (by_api_key token) (\<lambda>plain.
       case plain of
         None \<Rightarrow> ret None
       | Some u \<Rightarrow> bind_comp (updateUserApiKey (u_id u) (hash_key env token)) (\<lambda>_. ret (Some u)))
     else ret user)"

definition identify_runner ::
  "worker_env \<Rightarrow> string option \<Rightarrow> string option \<Rightarrow> (auth_db, response + runner_is \<times> string option) comp" where
  "identify_runner env token publicKey =
     (if auth_disabled (obj_env env) then ret (Inr (Runner_of ''anon-dev-user'', publicKey))
      else if \<not> given publicKey \<and> given token \<and> isSharedRunnerToken env (the token) then ret (Inr (Shared_runner, publicKey))
      else if given publicKey then
        (let key = to_lower (the publicKey) in
         bind_comp (by_public_key key) (\<lambda>user. case user of
           None \<Rightarrow> ret (Inl (401, ''Unauthorized: Invalid public key''))
         | Some u \<Rightarrow> ret (Inr (Runner_of (u_id u), Some key))))
      else if given token then
        bind_comp (token_user env (the token)) (\<lambda>user. case user of
           None \<Rightarrow> ret (Inl (401, ''Unauthorized: Invalid runner token''))
         | Some u \<Rightarrow> ret (Inr (Runner_of (u_id u), publicKey)))
      else ret (Inl (401, ''Unauthorized: Missing token or X-Runner-Public-Key header'')))"

definition delete_requested_at :: "string \<Rightarrow> (auth_db, int option) comp" where
  "delete_requested_at userId =
     bind_comp (getUserById userId) (\<lambda>user. ret (case user of None \<Rightarrow> None | Some u \<Rightarrow> u_delete_at u))"

text \<open>\<open>q\<close> is what the client put into the query: the three parameters the coordinator trusts are replaced.\<close>

definition trusted_params :: "runner_is \<Rightarrow> string option \<Rightarrow> connect_params \<Rightarrow> connect_params" where
  "trusted_params who publicKey q =
     q\<lparr>c_publicKey := (if given publicKey then publicKey else None),
       c_shared := (who = Shared_runner),
       c_userId := (case who of Shared_runner \<Rightarrow> None | Runner_of u \<Rightarrow> if u = [] then None else Some u)\<rparr>"

definition connect ::
  "worker_env \<Rightarrow> bool \<Rightarrow> string option \<Rightarrow> string option \<Rightarrow> connect_params \<Rightarrow> (worker, response) comp" where
  "connect env upgrade token publicKey q =
     (if \<not> upgrade then ret (426, ''Expected Upgrade: websocket'')
      else bind_comp (on_accounts (identify_runner env token publicKey)) (\<lambda>who. case who of
             Inl refusal \<Rightarrow> ret refusal
           | Inr (i, key) \<Rightarrow>
               bind_comp (case i of Shared_runner \<Rightarrow> ret None | Runner_of u \<Rightarrow> on_accounts (delete_requested_at u)) (\<lambda>deletion.
               if deletion \<noteq> None then ret (403, ''Forbidden: Account is scheduled for deletion'')
               else ask env (Connect_runner (trusted_params i key q)))))"

definition getRunners :: "worker_env \<Rightarrow> string option \<Rightarrow> (worker, visible_runner list) comp" where
  "getRunners env userId =
     bind_comp (refuse_if (\<not> given userId) ''Unauthorized|401'') (\<lambda>_ w.
     let (infos, s) = RunnersHandler (object w)
     in (Inr (if auth_disabled (obj_env env) then map Mine infos else filterRunnersForUser infos (the userId)),
         w\<lparr>object := s\<rparr>))"

definition restartRunner :: "worker_env \<Rightarrow> string \<Rightarrow> string option \<Rightarrow> (worker, string) comp" where
  "restartRunner env connection userId =
     bind_comp (refuse_if (\<not> isValidRunId connection) ''Runner not found|404'') (\<lambda>_.
     bind_comp (refuse_if (\<not> given userId) ''Unauthorized|401'') (\<lambda>_.
     bind_comp (ask env (Restart_runner (Some connection) userId)) (\<lambda>resp.
     if 200 \<le> fst resp \<and> fst resp < 300 then ret ''restarted''
     else throw (Error ((if snd resp = [] then ''Failed to restart runner'' else snd resp) @ ''|'' @ show_nat (fst resp))))))"

section \<open>Event streams\<close>

definition connectClient :: "worker_env \<Rightarrow> string \<Rightarrow> string option \<Rightarrow> bool \<Rightarrow> (worker, response) comp" where
  "connectClient env runId userId upgrade =
     (if \<not> upgrade then ret (426, ''Expected Upgrade: websocket'')
      else if AUTH_ENABLED (obj_env env) = Some ''true'' \<and> \<not> given userId then ret (401, ''Unauthorized'')
      else bind_comp (if given userId then checkScanAccess runId (the userId) READ_SCANS else ret ()) (\<lambda>_.
           ask env (Connect_client (Some runId))))"

definition issueStreamTicket :: "worker_env \<Rightarrow> string \<Rightarrow> string option \<Rightarrow> (worker, string) comp" where
  "issueStreamTicket env runId userId =
     bind_comp (refuse_if (\<not> given userId) ''Unauthorized|401'') (\<lambda>_.
     bind_comp (checkScanAccess runId (the userId) READ_SCANS) (\<lambda>_.
     bind_comp draw_one (\<lambda>k.
     let ticket = random_hex env k in
     bind_comp (reads (\<lambda>w. worker_now w + STREAM_TICKET_TTL_SECONDS)) (\<lambda>expiresAt.
     bind_comp (createStreamTicket (hash_key env ticket) (the userId) runId expiresAt MAX_LIVE_STREAM_TICKETS) (\<lambda>stored.
     if stored then ret ticket else throw (Error ''Too many requests. Please try again later.|429''))))))"

section \<open>Queueing a scan\<close>

record run_body =
  b_runId :: "string option"
  b_projectId :: string
  b_config :: "json option"

text \<open>Which of the waits of \<open>queueRun\<close> fail.\<close>

record faults =
  key_unread :: bool
  insert_fails :: bool
  config_unwritten :: bool
  queue_fails :: bool
  status_unwritten :: bool

definition endpoint_count :: "json \<Rightarrow> nat" where
  "endpoint_count config = (case jprop config ''endpoints'' of
     Some (JArr es) \<Rightarrow> length es
   | Some e \<Rightarrow> (case jprop e ''include'' of Some (JArr es) \<Rightarrow> length es | _ \<Rightarrow> 0)
   | None \<Rightarrow> 0)"

text \<open>\<open>v[0]\<close> of a document.\<close>

definition first_of :: "json \<Rightarrow> json option" where
  "first_of v = (case v of
     JArr (x # _) \<Rightarrow> Some x | JStr (c # _) \<Rightarrow> Some (JStr [c]) | JObj kvs \<Rightarrow> map_of kvs (units ''0'') | _ \<Rightarrow> None)"

definition or_json :: "json option \<Rightarrow> json \<Rightarrow> json" where
  "or_json v d = (if prop_truthy v then the v else d)"

definition target_of :: "json option \<Rightarrow> json" where
  "target_of config = or_json (case config of None \<Rightarrow> None | Some c \<Rightarrow> jprop c ''base_url'') (JStr [])"

definition profile_of :: "json option \<Rightarrow> json" where
  "profile_of config =
     or_json (case config of None \<Rightarrow> None
              | Some c \<Rightarrow> (case jprop c ''profiles'' of None \<Rightarrow> None | Some p \<Rightarrow> if json_truthy p then first_of p else None))
       (JStr (units ''default''))"

text \<open>\<open>body.config || {}\<close>\<close>

definition config_or_empty :: "json option \<Rightarrow> json" where
  "config_or_empty c = or_json c (JObj [])"

definition queue_permission :: "worker_env \<Rightarrow> run_body \<Rightarrow> string option \<Rightarrow> bool \<Rightarrow> (worker, unit) comp" where
  "queue_permission env body userId isAnon =
     (if b_projectId body = [] then ret ()
      else if isAnon then throw (Error ''Forbidden|403'')
      else if AUTH_ENABLED (obj_env env) = Some ''true'' \<and> \<not> given userId then throw (Error ''Unauthorized|401'')
      else if given userId then
        bind_comp (on_access (checkPermission (the userId) (b_projectId body) WRITE_SCANS)) (\<lambda>hasAccess.
        refuse_if (\<not> hasAccess) ''Forbidden|403'')
      else ret ())"

definition user_public_key :: "string \<Rightarrow> (auth_db, string) comp" where
  "user_public_key userId =
     bind_comp (getUserById userId) (\<lambda>user. ret (case user of
       Some u \<Rightarrow> (case u_public_key u of Some k \<Rightarrow> k | None \<Rightarrow> []) | None \<Rightarrow> []))"

text \<open>\<open>createScanRecord\<close>: an id that exists already is refused, a value D1 cannot bind as well.\<close>

definition createScanRecord ::
  "worker_env \<Rightarrow> faults \<Rightarrow> string \<Rightarrow> string \<Rightarrow> json \<Rightarrow> json \<Rightarrow> string option \<Rightarrow> (worker, unit) comp" where
  "createScanRecord env f runId projectId target profile userId = (\<lambda>w.
     case (column_text env target, column_name env profile) of
       (Some t, Some p) \<Rightarrow>
         if insert_fails f then (Inl (Error ''Failed to create scan|500''), w)
         else (case createScan runId projectId t p ''queued'' userId ''manual'' (db (object w)) of
                 (Inl _, _) \<Rightarrow> (Inl (Error ''Run already exists|409''), w)
               | (Inr _, d) \<Rightarrow> (Inr (), w\<lparr>object := (object w)\<lparr>db := d\<rparr>\<rparr>))
     | _ \<Rightarrow> (Inl (Error ''Failed to create scan|500''), w))"

definition SCAN_NOT_QUEUED :: ustring where
  "SCAN_NOT_QUEUED = units ''The scan could not be queued, so it never started. Start it again; if this keeps happening, try again later.''"

text \<open>Writing the configuration and sending the message; false when either fails.\<close>

definition put_and_send :: "worker_env \<Rightarrow> faults \<Rightarrow> string \<Rightarrow> json \<Rightarrow> (string \<Rightarrow> scan_message) \<Rightarrow> (worker, bool) comp" where
  "put_and_send env f runId config msg =
     bind_comp draw_one (\<lambda>k w.
     if config_unwritten f then (Inr False, w)
     else (case writeScanConfig (random_id env k) runId config (r2 (object w)) of
             (Inl _, _) \<Rightarrow> (Inr False, w)
           | (Inr key, store) \<Rightarrow>
               let w1 = w\<lparr>object := (object w)\<lparr>r2 := store\<rparr>\<rparr>
               in if queue_fails f then (Inr False, w1)
                  else (Inr True, w1\<lparr>scan_queue := scan_queue w1 @ [msg key]\<rparr>)))"

definition mark_not_queued :: "faults \<Rightarrow> string \<Rightarrow> (worker, unit) comp" where
  "mark_not_queued f runId =
     writes (\<lambda>w. if status_unwritten f then w
       else w\<lparr>object := on_db (updateScanStatus runId ''failed'' None (Some SCAN_NOT_QUEUED)) (object w)\<rparr>)"

definition queueRun ::
  "worker_env \<Rightarrow> faults \<Rightarrow> run_body \<Rightarrow> string option \<Rightarrow> bool \<Rightarrow> bool \<Rightarrow> (worker, string) comp" where
  "queueRun env f body userId isWebRequest isAnon =
     bind_comp (refuse_if (LIMIT_ANONYMOUS env = Some ''true'' \<and> isWebRequest \<and> isAnon \<and> 50 < endpoint_count (config_or_empty (b_config body)))
       ''Anonymous limit reached: You can only scan up to 50 endpoints.|403'') (\<lambda>_.
     bind_comp (queue_permission env body userId isAnon) (\<lambda>_.
     bind_comp (if given userId \<and> \<not> key_unread f then on_accounts (user_public_key (the userId)) else ret []) (\<lambda>userPublicKey.
     bind_comp (if given (b_runId body) then ret (the (b_runId body)) else bind_comp draw_one (\<lambda>k. ret (random_id env k))) (\<lambda>runId.
     bind_comp (refuse_if (\<not> isValidRunId runId) ''Invalid runId|400'') (\<lambda>_.
     bind_comp (refuse_if (case b_config body of None \<Rightarrow> False | Some c \<Rightarrow> c \<noteq> JNull \<and> \<not> is_object c) ''config must be an object|400'') (\<lambda>_.
     let config = config_or_empty (b_config body); target = target_of (b_config body); profile = profile_of (b_config body) in
     bind_comp (\<lambda>w. (serializeScanConfig (stringify (js_rt (obj_env env))) (Some config), w)) (\<lambda>_.
     bind_comp (createScanRecord env f runId (b_projectId body) target profile userId) (\<lambda>_.
     bind_comp (put_and_send env f runId config (\<lambda>key. \<lparr>m_runId = runId, m_configKey = key, m_userPublicKey = userPublicKey,
       m_target = target, m_profile = profile, m_projectId = b_projectId body, m_userId = userId\<rparr>)) (\<lambda>sent.
     if sent then ret runId
     else bind_comp (mark_not_queued f runId) (\<lambda>_. throw (Error ''Failed to queue scan|500'')))))))))))"

section \<open>Commands\<close>

definition stopRun :: "worker_env \<Rightarrow> string \<Rightarrow> string option \<Rightarrow> (worker, string) comp" where
  "stopRun env runId userId =
     bind_comp (may_use env runId userId WRITE_SCANS) (\<lambda>_.
     bind_comp (ask env (Command (Some (runId, ''stop'')))) (\<lambda>_. ret ''stopped''))"

definition change_status :: "string \<Rightarrow> string list \<Rightarrow> string \<Rightarrow> (worker, bool) comp" where
  "change_status runId from_statuses to_status = (\<lambda>w.
     let (changed, d) = changeActiveStatus runId from_statuses to_status (db (object w))
     in (Inr changed, w\<lparr>object := (object w)\<lparr>db := d\<rparr>\<rparr>))"

definition pauseRun :: "worker_env \<Rightarrow> string \<Rightarrow> string option \<Rightarrow> (worker, string) comp" where
  "pauseRun env runId userId =
     bind_comp (may_use env runId userId WRITE_SCANS) (\<lambda>_.
     bind_comp (ask env (Command (Some (runId, ''pause'')))) (\<lambda>_.
     bind_comp (change_status runId [''queued'', ''dispatched''] ''paused'') (\<lambda>changed.
     if changed then ret ''paused'' else throw (Error ''The scan has already ended|409''))))"

definition resumeRun :: "worker_env \<Rightarrow> string \<Rightarrow> string option \<Rightarrow> (worker, string) comp" where
  "resumeRun env runId userId =
     bind_comp (may_use env runId userId WRITE_SCANS) (\<lambda>_.
     bind_comp (ask env (Command (Some (runId, ''resume'')))) (\<lambda>_.
     bind_comp (change_status runId [''paused''] ''dispatched'') (\<lambda>changed.
     if changed then ret ''resumed'' else throw (Error ''The scan has already ended|409''))))"

section \<open>The queue's consumer\<close>

text \<open>
  The Worker's \<open>queue\<close> handler for one message of \<open>swazz-scan-queue\<close>: \<open>true\<close> when it is
  acknowledged, false when it is left for another delivery. \<open>confirm_fails\<close>: the status is not written.
\<close>

definition dispatch_body_of :: "scan_message \<Rightarrow> dispatch_body" where
  "dispatch_body_of m = \<lparr>p_runId = m_runId m, p_configKey = Some (m_configKey m), p_config = None,
     p_userId = Some (or_else (m_userId m) []), p_userPublicKey = Some (m_userPublicKey m)\<rparr>"

definition consume_scan :: "worker_env \<Rightarrow> bool \<Rightarrow> scan_message \<Rightarrow> (worker, bool) comp" where
  "consume_scan env confirm_fails m =
     bind_comp (ask env (Dispatch (Some (dispatch_body_of m)))) (\<lambda>resp w.
     if 200 \<le> fst resp \<and> fst resp < 300 then
       (if confirm_fails then (Inr False, w)
        else (Inr True, w\<lparr>object := on_db (updateScanStatus (m_runId m) ''dispatched'' None None) (object w)\<rparr>))
     else (Inr (fst resp = 503 \<or> fst resp = 409), w))"

text \<open>A delivery of the queue's \<open>i\<close>th message.\<close>

definition deliver_scan :: "worker_env \<Rightarrow> bool \<Rightarrow> nat \<Rightarrow> worker \<Rightarrow> worker" where
  "deliver_scan env confirm_fails i w =
     (if i < length (scan_queue w) then
        (case consume_scan env confirm_fails (scan_queue w ! i) w of
           (Inr True, w') \<Rightarrow> w'\<lparr>scan_queue := take i (scan_queue w') @ drop (Suc i) (scan_queue w')\<rparr>
         | (_, w') \<Rightarrow> w')
      else w)"

end
