(* ===== verification/Scheduler.thy ===== *)
theory Scheduler
  imports Runners_Service
begin

text \<open>
  \<open>utils/scheduler.ts\<close> and the check of \<open>updateProjectSchedule\<close> (\<open>services/projects.ts\<close>): cron
  expressions in UTC, and the scans a minute's pass queues. Times are milliseconds since the epoch;
  the fields of a \<open>Date\<close> are those of the proleptic Gregorian calendar.
\<close>

section \<open>Dates\<close>

definition day_ms :: int where "day_ms = 86400000"

definition utc_minute :: "int \<Rightarrow> int" where "utc_minute t = t div 60000 mod 60"
definition utc_hour :: "int \<Rightarrow> int" where "utc_hour t = t div 3600000 mod 24"
definition utc_day :: "int \<Rightarrow> int" where "utc_day t = (t div day_ms + 4) mod 7"

text \<open>The day of a 400-year era that begins on 1 March, and its month counted from March.\<close>

definition day_of_year :: "int \<Rightarrow> int" where
  "day_of_year t =
     (let doe = (t div day_ms + 719468) mod 146097;
          yoe = (doe - doe div 1460 + doe div 36524 - doe div 146096) div 365
      in doe - (365 * yoe + yoe div 4 - yoe div 100))"

definition march_month :: "int \<Rightarrow> int" where "march_month t = (5 * day_of_year t + 2) div 153"

definition utc_date :: "int \<Rightarrow> int" where
  "utc_date t = day_of_year t - (153 * march_month t + 2) div 5 + 1"

definition utc_month :: "int \<Rightarrow> int" where
  "utc_month t = (if march_month t < 10 then march_month t + 3 else march_month t - 9)"

section \<open>Cron expressions\<close>

text \<open>\<open>parseInt(s, 10)\<close>.\<close>

definition parse_int :: "string \<Rightarrow> int option" where
  "parse_int s =
     (let t = trim_start s;
          signed = (t \<noteq> [] \<and> (hd t = CHR ''-'' \<or> hd t = CHR ''+''));
          ds = takeWhile is_digit (if signed then tl t else t)
      in if ds = [] then None
         else Some (if signed \<and> hd t = CHR ''-'' then - int (dec_val ds) else int (dec_val ds)))"

definition cron_step :: "string list \<Rightarrow> int option" where
  "cron_step stepSplit = (case stepSplit of
     _ # s # _ \<Rightarrow> if s = [] then Some 1 else parse_int s | _ \<Rightarrow> Some 1)"

definition cron_range :: "string \<Rightarrow> int \<Rightarrow> int \<Rightarrow> int option \<times> int option" where
  "cron_range rangeExpr lo hi =
     (if rangeExpr = ''*'' then (Some lo, Some hi)
      else if CHR ''-'' \<in> set rangeExpr then
        (let r = split_on (CHR ''-'') rangeExpr in (parse_int (r ! 0), parse_int (r ! 1)))
      else (parse_int rangeExpr, parse_int rangeExpr))"

text \<open>A comparison with \<open>NaN\<close> fails, and so does a step of zero.\<close>

definition cron_part :: "string \<Rightarrow> int \<Rightarrow> int \<Rightarrow> int \<Rightarrow> bool" where
  "cron_part part v lo hi =
     (part = ''*'' \<or>
      (let stepSplit = split_on (CHR ''/'') part
       in case (cron_range (hd stepSplit) lo hi, cron_step stepSplit) of
            ((Some a, Some b), Some n) \<Rightarrow> a \<le> v \<and> v \<le> b \<and> n \<noteq> 0 \<and> (v - a) mod \<bar>n\<bar> = 0
          | _ \<Rightarrow> False))"

definition matchCronField :: "string \<Rightarrow> int \<Rightarrow> int \<Rightarrow> int \<Rightarrow> bool" where
  "matchCronField pattern v lo hi =
     (pattern = ''*'' \<or> list_ex (\<lambda>part. cron_part part v lo hi) (split_on (CHR '','') pattern))"

text \<open>\<open>s.split(/\s+/)\<close>\<close>

function split_ws :: "string \<Rightarrow> string list" where
  "split_ws s = (case dropWhile (\<lambda>c. \<not> is_ws c) s of
     [] \<Rightarrow> [s] | c # r \<Rightarrow> takeWhile (\<lambda>c. \<not> is_ws c) s # split_ws (dropWhile is_ws r))"
  by pat_completeness auto

termination split_ws
proof (relation "measure length")
  fix s c r
  assume d: "dropWhile (\<lambda>c. \<not> is_ws c) s = c # r"
  have "length (dropWhile is_ws r) < length (c # r)" using length_dropWhile_le [of is_ws r] by simp
  also have "\<dots> \<le> length s" using d length_dropWhile_le [of "\<lambda>c. \<not> is_ws c" s] by simp
  finally show "(dropWhile is_ws r, s) \<in> measure length" by simp
qed simp

declare split_ws.simps [simp del]

definition cronMatches :: "string \<Rightarrow> int \<Rightarrow> bool" where
  "cronMatches cronExpr date = (case split_ws (trim cronExpr) of
     [mi, h, mday, mo, wday] \<Rightarrow>
       matchCronField mi (utc_minute date) 0 59 \<and> matchCronField h (utc_hour date) 0 23 \<and>
       matchCronField mday (utc_date date) 1 31 \<and> matchCronField mo (utc_month date) 1 12 \<and>
       matchCronField wday (utc_day date) 0 6
   | _ \<Rightarrow> False)"

text \<open>The schedules a project may be given: none, or one with a fixed minute and hour.\<close>

definition single_value :: "string \<Rightarrow> nat \<Rightarrow> bool" where
  "single_value s limit = (s \<noteq> [] \<and> list_all is_digit s \<and> dec_val s \<le> limit)"

definition accepted_schedule :: "string \<Rightarrow> unit res" where
  "accepted_schedule cron =
     (if cron = [] then Inr ()
      else case split_ws (trim cron) of
             [mi, h, _, _, _] \<Rightarrow>
               if single_value mi 59 \<and> single_value h 23 then Inr ()
               else Inl (Error ''Scan schedule cannot be more frequent than once a day (minute and hour fields must be specific single integer constants).|400'')
           | _ \<Rightarrow> Inl (Error ''Invalid cron format. Must have exactly 5 fields.|400''))"

text \<open>A project without a configuration gets an empty one with its schedule.\<close>

definition updateProjectSchedule :: "worker_env \<Rightarrow> string \<Rightarrow> string \<Rightarrow> (worker, string option) comp" where
  "updateProjectSchedule env projectId cron =
     bind_comp (\<lambda>w. (accepted_schedule cron, w)) (\<lambda>_.
     bind_comp draw_one (\<lambda>k w.
     let c = (if cron = [] then None else Some cron);
         is_it = (\<lambda>s. sch_project s = projectId \<and> sch_name s = ''default'')
     in (Inr c,
         if list_ex is_it (schedules w)
         then w\<lparr>schedules := map (\<lambda>s. if is_it s then s\<lparr>sch_cron := c\<rparr> else s) (schedules w)\<rparr>
         else w\<lparr>schedules := schedules w @ [\<lparr>sch_id = random_id env k, sch_project = projectId, sch_name = ''default'',
                  sch_cron = c, sch_last_run = None\<rparr>],
                object := on_db (set_scan_config projectId ''default'' (Some (JObj []))) (object w)\<rparr>)))"

section \<open>A pass\<close>

definition is_due :: "int \<Rightarrow> schedule_row \<Rightarrow> bool" where
  "is_due t s = (case sch_cron s of
     None \<Rightarrow> False
   | Some cron \<Rightarrow> (case sch_last_run s of None \<Rightarrow> True | Some r \<Rightarrow> 50000 \<le> t - r) \<and> cronMatches cron t)"

text \<open>The owners are joined with their accounts in the order of the memberships.\<close>

definition project_owner_accounts :: "worker \<Rightarrow> string \<Rightarrow> account_row list" where
  "project_owner_accounts w projectId =
     List.map_filter (\<lambda>(p, u, role). if p = projectId \<and> role = ''owner'' then find (\<lambda>r. u_id r = u) (Auth_Db.users (accounts w)) else None)
       (members (access w))"

definition getProjectOwnerForScan :: "string \<Rightarrow> worker \<Rightarrow> account_row option" where
  "getProjectOwnerForScan projectId w =
     (case find (\<lambda>u. u_plan u = ''Supporter Plan'') (project_owner_accounts w projectId) of
        Some u \<Rightarrow> Some u
      | None \<Rightarrow> (case project_owner_accounts w projectId of [] \<Rightarrow> None | u # _ \<Rightarrow> Some u))"

text \<open>The scan's row and the schedule's last run are one batch.\<close>

definition triggerScheduledScan ::
  "worker_env \<Rightarrow> faults \<Rightarrow> string \<Rightarrow> schedule_row \<Rightarrow> json \<Rightarrow> json \<Rightarrow> string \<Rightarrow> int \<Rightarrow> (worker, unit) comp" where
  "triggerScheduledScan env f runId s target profile userId nowMs = (\<lambda>w.
     case (column_text env target, column_name env profile) of
       (Some t, Some p) \<Rightarrow>
         if insert_fails f then (Inl (Error ''D1_ERROR''), w)
         else (case createScan runId (sch_project s) t p ''queued'' (Some userId) ''scheduled'' (db (object w)) of
                 (Inl e, _) \<Rightarrow> (Inl e, w)
               | (Inr _, d) \<Rightarrow> (Inr (), w\<lparr>object := (object w)\<lparr>db := d\<rparr>,
                   schedules := map (\<lambda>x. if sch_id x = sch_id s then x\<lparr>sch_last_run := Some nowMs\<rparr> else x) (schedules w)\<rparr>))
     | _ \<Rightarrow> (Inl (Error ''D1_TYPE_ERROR''), w))"

definition scheduled_profile :: "json \<Rightarrow> json" where
  "scheduled_profile config =
     or_json (case jprop config ''settings'' of None \<Rightarrow> None
              | Some st \<Rightarrow> (case jprop st ''profiles'' of None \<Rightarrow> None | Some p \<Rightarrow> if json_truthy p then first_of p else None))
       (JStr (units ''default''))"

definition run_schedule :: "worker_env \<Rightarrow> faults \<Rightarrow> int \<Rightarrow> schedule_row \<Rightarrow> (worker, unit) comp" where
  "run_schedule env f nowMs s =
     bind_comp (reads (getProjectOwnerForScan (sch_project s))) (\<lambda>owner. case owner of
       None \<Rightarrow> ret ()
     | Some u \<Rightarrow>
         bind_comp draw_one (\<lambda>k. let runId = random_id env k in
         bind_comp (refuse_if (\<not> isValidRunId runId) ''Invalid runId|400'') (\<lambda>_.
         bind_comp (reads (\<lambda>w. map_of (scan_configs (db (object w))) (sch_project s, sch_name s))) (\<lambda>doc. case doc of
           Some (Some c) \<Rightarrow>
             (let config = config_or_empty (Some c) in
              bind_comp (\<lambda>w. (serializeScanConfig (stringify (js_rt (obj_env env))) (Some config), w)) (\<lambda>_.
              bind_comp (triggerScheduledScan env f runId s (target_of (Some config)) (scheduled_profile config) (u_id u) nowMs) (\<lambda>_.
              bind_comp (put_and_send env f runId config (\<lambda>key. \<lparr>m_runId = runId, m_configKey = key,
                m_userPublicKey = (case u_public_key u of None \<Rightarrow> [] | Some p \<Rightarrow> p), m_target = target_of (Some config),
                m_profile = scheduled_profile config, m_projectId = sch_project s, m_userId = Some (u_id u)\<rparr>)) (\<lambda>sent.
              if sent then ret () else bind_comp (mark_not_queued f runId) (\<lambda>_. throw (Error ''Failed to queue scan''))))))
         | _ \<Rightarrow> throw (Error ''SyntaxError'')))))"

text \<open>What one schedule throws is caught, and the next one is tried.\<close>

definition handleScheduledScans :: "worker_env \<Rightarrow> (string \<Rightarrow> faults) \<Rightarrow> worker \<Rightarrow> worker" where
  "handleScheduledScans env f w =
     (let t = clock_ms (accounts w)
      in fold (\<lambda>s w. snd (run_schedule env (f (sch_id s)) t s w)) (filter (is_due t) (schedules w)) w)"

end
