(* ===== verification/Worker.thy ===== *)
theory Worker
  imports Scheduler Auth_Service Rbac_Safety
begin

text \<open>
  The Worker and the coordinator together: every request, delivery and scheduled pass as a step of one
  machine, and the proof that whatever the Worker does to the coordinator, its tables and its
  configurations is a run of the coordinator's own machine, with the promise the latter relies on:
  a scan is dispatched under the user it was created for.
\<close>

section \<open>Steps\<close>

datatype worker_event =
    Queue_run faults run_body "string option" bool bool
  | Stop_run string "string option"
  | Pause_run string "string option"
  | Resume_run string "string option"
  | Runner_connects bool "string option" "string option" connect_params
  | Client_connects string "string option" bool
  | List_for "string option"
  | Restart_for string "string option"
  | Issue_ticket string "string option"
  | Redeem_ticket string string
  | Deliver_scan bool nat
  | Set_schedule string string
  | Schedules_run "string \<Rightarrow> faults"
  | Auth auth_env auth_request
  | Rbac request
  | Object event
  | Clock int

text \<open>What reaches the coordinator otherwise than as a dispatch: messages, sockets, timers, other routes.\<close>

fun own_event :: "event \<Rightarrow> bool" where
  "own_event (Request (Dispatch p)) = (p = None)"
| "own_event _ = True"

fun w_step :: "worker_env \<Rightarrow> worker_event \<Rightarrow> worker \<Rightarrow> worker" where
  "w_step env (Queue_run f b u web anon) w = snd (queueRun env f b u web anon w)"
| "w_step env (Stop_run i u) w = snd (stopRun env i u w)"
| "w_step env (Pause_run i u) w = snd (pauseRun env i u w)"
| "w_step env (Resume_run i u) w = snd (resumeRun env i u w)"
| "w_step env (Runner_connects up token key q) w = snd (connect env up token key q w)"
| "w_step env (Client_connects i u up) w = snd (connectClient env i u up w)"
| "w_step env (List_for u) w = snd (getRunners env u w)"
| "w_step env (Restart_for c u) w = snd (restartRunner env c u w)"
| "w_step env (Issue_ticket i u) w = snd (issueStreamTicket env i u w)"
| "w_step env (Redeem_ticket t i) w = snd (redeemStreamTicket env t i w)"
| "w_step env (Deliver_scan c i) w = deliver_scan env c i w"
| "w_step env (Set_schedule p cron) w = snd (updateProjectSchedule env p cron w)"
| "w_step env (Schedules_run f) w = handleScheduledScans env f w"
| "w_step env (Auth aenv r) w = w\<lparr>accounts := auth_step aenv r (accounts w)\<rparr>"
| "w_step env (Rbac r) w = w\<lparr>access := perform r (access w)\<rparr>"
| "w_step env (Object e) w = (if own_event e then w\<lparr>object := step (obj_env env) e (object w)\<rparr> else w)"
| "w_step env (Clock ms) w =
     w\<lparr>accounts := (accounts w)\<lparr>clock_ms := clock_ms (accounts w) + max 0 ms\<rparr>,
       access := (access w)\<lparr>clock := clock (access w) + max 0 ms\<rparr>,
       object := elapse ms (object w)\<rparr>"

definition new_worker :: "auth_db \<Rightarrow> rbac \<Rightarrow> schedule_row list \<Rightarrow> scans_db \<Rightarrow> int \<Rightarrow> worker" where
  "new_worker a r sch d t = \<lparr>accounts = a, access = r, ws_tickets = [], schedules = sch, object = new_object d t,
     scan_queue = [], draws = 0\<rparr>"

inductive worker_reach :: "worker_env \<Rightarrow> worker \<Rightarrow> bool" for env where
  init: "distinct (map s_id (scans d)) \<Longrightarrow> sound r \<Longrightarrow> worker_reach env (new_worker a r sch d t)"
| step: "worker_reach env w \<Longrightarrow> worker_reach env (w_step env e w)"
| pass: "worker_reach env w \<Longrightarrow> interleaved (obj_env env) others \<Longrightarrow> ws < next_socket (object w) \<Longrightarrow>
    worker_reach env (w\<lparr>object := dispatchPass (obj_env env) others ws (object w)\<rparr>)"
| resume: "worker_reach env w \<Longrightarrow> interleaved (obj_env env) others \<Longrightarrow>
    worker_reach env (w\<lparr>object := snd (resumeRuns (\<lambda>runId. others runId 0) ws ids (object w))\<rparr>)"

section \<open>Steps of the Worker are runs of the coordinator\<close>

lemma follows_trans: "follows env b c \<Longrightarrow> follows env a b \<Longrightarrow> follows env a c"
  by (induction rule: follows.induct) (auto intro: follows.event)

lemma follows_one: "from_worker s e \<Longrightarrow> follows env s (step env e s)"
  by (blast intro: follows.intros)

text \<open>Every message in the queue is for a scan that exists, with the scan's user.\<close>

definition queue_ok :: "worker \<Rightarrow> bool" where
  "queue_ok w = (\<forall>m \<in> set (scan_queue w). \<exists>sc. getScan (db (object w)) (m_runId m) = Some sc \<and> s_user sc = m_userId m)"

definition worker_inv :: "worker_env \<Rightarrow> worker \<Rightarrow> bool" where
  "worker_inv env w = (coord_inv (obj_env env) (object w) \<and> queue_ok w \<and> sound (access w))"

definition goes :: "worker_env \<Rightarrow> worker \<Rightarrow> worker \<Rightarrow> bool" where
  "goes env w w' =
     (worker_inv env w \<longrightarrow> follows (obj_env env) (object w) (object w') \<and> queue_ok w' \<and> sound (access w'))"

definition moves :: "worker_env \<Rightarrow> (worker, 'a) comp \<Rightarrow> bool" where
  "moves env m = (\<forall>w. goes env w (snd (m w)))"

named_theorems moves_rules \<open>operations of the Worker that are runs of the coordinator\<close>

lemma follows_sound: "follows e a s \<Longrightarrow> coord_inv e a \<Longrightarrow> coord_inv e s \<and> users_kept (db a) (db s)"
  using follows_leads by (auto simp: leads_def evolves_def)

lemma queue_ok_kept:
  assumes "queue_ok w" "users_kept (db (object w)) (db (object w'))" "set (scan_queue w') \<subseteq> set (scan_queue w)"
  shows "queue_ok w'"
  unfolding queue_ok_def
proof
  fix m assume "m \<in> set (scan_queue w')"
  with assms(1,3) obtain sc where "getScan (db (object w)) (m_runId m) = Some sc" "s_user sc = m_userId m"
    unfolding queue_ok_def by blast
  with assms(2) show "\<exists>sc. getScan (db (object w')) (m_runId m) = Some sc \<and> s_user sc = m_userId m"
    unfolding users_kept_def by fastforce
qed

lemma goes_sound: "goes env w w' \<Longrightarrow> worker_inv env w \<Longrightarrow> worker_inv env w'"
  using follows_sound by (auto simp: goes_def worker_inv_def)

lemma goes_refl [simp]: "goes env w w"
  by (simp add: goes_def worker_inv_def follows.stay)

lemma goes_trans: "goes env a b \<Longrightarrow> goes env b c \<Longrightarrow> goes env a c"
  using goes_sound follows_trans unfolding goes_def by blast

lemma goes_follows:
  assumes "follows (obj_env env) (object w) (object w')" "scan_queue w' = scan_queue w" "access w' = access w"
  shows "goes env w w'"
  unfolding goes_def worker_inv_def using follows_sound [OF assms(1)] queue_ok_kept [of w w'] assms by auto

lemma goes_same: "object w' = object w \<Longrightarrow> scan_queue w' = scan_queue w \<Longrightarrow> access w' = access w \<Longrightarrow> goes env w w'"
  by (rule goes_follows) (simp_all add: follows.stay)

lemma goes_event:
  assumes "from_worker (object w) e" "object w' = step (obj_env env) e (object w)" "scan_queue w' = scan_queue w"
    "access w' = access w"
  shows "goes env w w'"
  by (rule goes_follows) (use follows_one [OF assms(1), of "obj_env env"] assms in simp_all)

lemma moves_ret [moves_rules]: "moves env (ret x)"
  by (simp add: moves_def ret_def)

lemma moves_throw [moves_rules]: "moves env (throw e)"
  by (simp add: moves_def throw_def)

lemma moves_reads [moves_rules]: "moves env (reads f)"
  by (simp add: moves_def reads_def)

lemma moves_refuse [moves_rules]: "moves env (refuse_if b msg)"
  by (simp add: refuse_if_def moves_rules)

lemma moves_draw [moves_rules]: "moves env draw_one"
  by (simp add: moves_def draw_one_def goes_same)

lemma moves_lift [moves_rules]: "moves env (on_accounts m)"
  by (auto simp: moves_def on_accounts_def Let_def split: prod.split intro!: goes_same)

lemma goes_access: "sound (access w) \<longrightarrow> sound a \<Longrightarrow> goes env w (w\<lparr>access := a\<rparr>)"
  by (auto simp: goes_def worker_inv_def queue_ok_def follows.stay)

lemma moves_check [moves_rules]: "moves env (on_access (checkPermission u p perm))"
  using perform_sound [of _ "Check u p perm"]
  by (auto simp: moves_def on_access_def Let_def split: prod.split intro!: goes_access) (metis snd_conv)

lemma moves_pure [moves_rules]: "moves env (\<lambda>w. (f w, w))"
  by (simp add: moves_def)

lemma moves_bind [moves_rules]: "moves env m \<Longrightarrow> (\<And>x. moves env (f x)) \<Longrightarrow> moves env (bind_comp m f)"
  unfolding moves_def bind_comp_def
  by (auto split: prod.split sum.split) (metis goes_trans snd_conv)+

lemma moves_if [moves_rules]: "(b \<Longrightarrow> moves env m) \<Longrightarrow> (\<not> b \<Longrightarrow> moves env n) \<Longrightarrow> moves env (if b then m else n)"
  by simp

lemma moves_option [moves_rules]:
  "moves env n \<Longrightarrow> (\<And>x. moves env (f x)) \<Longrightarrow> moves env (case v of None \<Rightarrow> n | Some x \<Rightarrow> f x)"
  by (simp split: option.split)

lemma moves_let [moves_rules]: "moves env (f x) \<Longrightarrow> moves env (let y = x in f y)"
  by simp

fun is_dispatch :: "object_request \<Rightarrow> bool" where
  "is_dispatch (Dispatch (Some p)) = True"
| "is_dispatch _ = False"

lemma worker_promise: "\<not> is_dispatch r \<Longrightarrow> from_worker s (Request r)"
  by (cases "(s, Request r)" rule: from_worker.cases) auto

lemma own_promise: "own_event e \<Longrightarrow> from_worker s e"
  by (cases "(s, e)" rule: from_worker.cases) auto

lemma goes_ask: "from_worker (object w) (Request r) \<Longrightarrow> goes env w (snd (ask env r w))"
  by (rule goes_event) (auto simp: ask_def Let_def split: prod.split)

lemma moves_ask [moves_rules]: "\<not> is_dispatch r \<Longrightarrow> moves env (ask env r)"
  by (simp add: moves_def goes_ask worker_promise)

section \<open>The operations\<close>

lemma moves_access [moves_rules]: "moves env (checkScanAccess i u p)" "moves env (may_use env' i v p)"
proof -
  show a: "moves env (checkScanAccess i u p)" for u
    unfolding checkScanAccess_def by (intro moves_rules)
  show "moves env (may_use env' i v p)"
    unfolding may_use_def by (intro moves_rules a)
qed

lemma moves_commands:
  "moves env (stopRun env i u)" "moves env (pauseRun env i u)" "moves env (resumeRun env i u)"
proof -
  have c: "moves env (change_status i from_st to_st)" for from_st to_st
    unfolding moves_def
  proof
    fix w
    show "goes env w (snd (change_status i from_st to_st w))"
      by (rule goes_event [of _ "Change_status i from_st to_st"])
        (auto simp: change_status_def Let_def split: prod.split)
  qed
  show "moves env (stopRun env i u)" "moves env (pauseRun env i u)" "moves env (resumeRun env i u)"
    unfolding stopRun_def pauseRun_def resumeRun_def by (intro moves_rules c; simp)+
qed

lemma moves_runner [moves_rules]:
  "moves env (connect env up token key q)" "moves env (connectClient env i u up)" "moves env (restartRunner env c u)"
  "moves env (getRunners env u)"
proof -
  have r: "moves env (case x of Shared_runner \<Rightarrow> m | Runner_of v \<Rightarrow> f v)" if "moves env m" "\<And>v. moves env (f v)"
    for x and m :: "(worker, 'a) comp" and f
    using that by (simp split: runner_is.split)
  show "moves env (connect env up token key q)"
    unfolding connect_def by (auto intro!: moves_rules r split: sum.split)
  show "moves env (connectClient env i u up)" "moves env (restartRunner env c u)"
    unfolding connectClient_def restartRunner_def by (intro moves_rules; simp)+
  have l: "moves env (\<lambda>w. let (infos, s) = RunnersHandler (object w) in (Inr (g infos), w\<lparr>object := s\<rparr>))"
    for g :: "runner_info list \<Rightarrow> visible_runner list"
    unfolding moves_def
  proof
    fix w
    show "goes env w (snd (let (infos, s) = RunnersHandler (object w) in (Inr (g infos), w\<lparr>object := s\<rparr>)))"
      by (rule goes_event [of _ "Request List_runners"]) (auto split: prod.split)
  qed
  show "moves env (getRunners env u)"
    unfolding getRunners_def by (intro moves_rules l [of "\<lambda>infos. if auth_disabled (obj_env env) then map Mine infos else filterRunnersForUser infos (the u)"])
qed

lemma moves_tickets: "moves env (issueStreamTicket env i u)" "moves env (redeemStreamTicket env t i)"
proof -
  have c: "moves env (createStreamTicket h u' i e n)" for h u' e n
    by (auto simp: moves_def createStreamTicket_def Let_def intro!: goes_same)
  show "moves env (issueStreamTicket env i u)"
    unfolding issueStreamTicket_def by (intro moves_rules c)
  have d: "moves env (consumeStreamTicket h)" for h
    by (auto simp: moves_def consumeStreamTicket_def intro!: goes_same)
  have e: "moves env (\<lambda>w. case x of None \<Rightarrow> (Inr None, w) | Some t \<Rightarrow> (Inr (g t w), w))" for x and g :: "ticket_row \<Rightarrow> worker \<Rightarrow> string option"
    by (simp add: moves_def split: option.split)
  show "moves env (redeemStreamTicket env t i)"
    unfolding redeemStreamTicket_def by (intro moves_rules d e)
qed

text \<open>A computation that, when it succeeds, leaves a scan of this user under the id.\<close>

definition known_scan :: "string \<Rightarrow> string option \<Rightarrow> worker \<Rightarrow> bool" where
  "known_scan i u w = (\<exists>sc. getScan (db (object w)) i = Some sc \<and> s_user sc = u)"

definition creates :: "worker_env \<Rightarrow> string \<Rightarrow> string option \<Rightarrow> (worker, 'a) comp \<Rightarrow> bool" where
  "creates env i u m = (moves env m \<and> (\<forall>w x w'. m w = (Inr x, w') \<longrightarrow> known_scan i u w'))"

lemma createScan_known:
  assumes "createScan i p t pr st u trig d = (Inr x, d')"
  shows "\<exists>sc. getScan d' i = Some sc \<and> s_user sc = u"
proof -
  from assms have "\<not> scan_exists d i" "scans d' = scans d @ [new_scan i p t pr st u trig (db_clock d)]"
    by (auto simp: createScan_def split: if_splits)
  then have "getScan d' i = Some (new_scan i p t pr st u trig (db_clock d))"
    by (simp add: getScan_def find_append scan_exists_def list_ex_iff new_scan_def split: option.split)
      (metis (mono_tags, lifting) find_Some_iff nth_mem)
  then show ?thesis by (simp add: new_scan_def)
qed

lemma creates_manual: "creates env i u (createScanRecord env f i p t pr u)"
proof -
  have "goes env w (snd (createScanRecord env f i p t pr u w)) \<and>
      (\<forall>x w'. createScanRecord env f i p t pr u w = (Inr x, w') \<longrightarrow> known_scan i u w')" for w
  proof (cases "column_text env t \<noteq> None \<and> column_name env pr \<noteq> None \<and> \<not> insert_fails f")
    case False
    then show ?thesis by (auto simp: createScanRecord_def split: option.split)
  next
    case True
    then obtain ct cp where c: "column_text env t = Some ct" "column_name env pr = Some cp" "\<not> insert_fails f" by auto
    obtain r d where cs: "createScan i p ct cp ''queued'' u ''manual'' (db (object w)) = (r, d)" by fastforce
    show ?thesis
    proof (cases r)
      case (Inl e)
      then show ?thesis using c cs by (simp add: createScanRecord_def)
    next
      case (Inr x)
      have "goes env w (w\<lparr>object := (object w)\<lparr>db := d\<rparr>\<rparr>)"
        by (rule goes_event [of _ "New_scan i p ct cp u ''manual''"]) (simp_all add: cs)
      with createScan_known [of i p ct cp "''queued''" u "''manual''" "db (object w)" x d] cs c Inr show ?thesis
        by (simp add: createScanRecord_def known_scan_def)
    qed
  qed
  then show ?thesis by (auto simp: creates_def moves_def)
qed

lemma creates_scheduled: "creates env i (Some u) (triggerScheduledScan env f i s t pr u ms)"
proof -
  have "goes env w (snd (triggerScheduledScan env f i s t pr u ms w)) \<and>
      (\<forall>x w'. triggerScheduledScan env f i s t pr u ms w = (Inr x, w') \<longrightarrow> known_scan i (Some u) w')" for w
  proof (cases "column_text env t \<noteq> None \<and> column_name env pr \<noteq> None \<and> \<not> insert_fails f")
    case False
    then show ?thesis by (auto simp: triggerScheduledScan_def split: option.split)
  next
    case True
    then obtain ct cp where c: "column_text env t = Some ct" "column_name env pr = Some cp" "\<not> insert_fails f" by auto
    obtain r d where cs: "createScan i (sch_project s) ct cp ''queued'' (Some u) ''scheduled'' (db (object w)) = (r, d)" by fastforce
    show ?thesis
    proof (cases r)
      case (Inl e)
      then show ?thesis using c cs by (simp add: triggerScheduledScan_def)
    next
      case (Inr x)
      have "goes env w (w\<lparr>object := (object w)\<lparr>db := d\<rparr>, schedules := sch\<rparr>)" for sch
        by (rule goes_event [of _ "New_scan i (sch_project s) ct cp (Some u) ''scheduled''"]) (simp_all add: cs)
      with createScan_known [of i "sch_project s" ct cp "''queued''" "Some u" "''scheduled''" "db (object w)" x d] cs c Inr
      show ?thesis by (simp add: triggerScheduledScan_def known_scan_def)
    qed
  qed
  then show ?thesis by (auto simp: creates_def moves_def)
qed

lemma goes_put_and_send:
  assumes k: "known_scan i u w" and m: "\<And>key. m_runId (msg key) = i \<and> m_userId (msg key) = u"
  shows "goes env w (snd (put_and_send env f i c msg w))"
proof -
  let ?n = "draws w" and ?w0 = "w\<lparr>draws := Suc (draws w)\<rparr>"
  obtain r store where wr: "writeScanConfig (random_id env ?n) i c (r2 (object w)) = (r, store)" by fastforce
  let ?w1 = "?w0\<lparr>object := (object w)\<lparr>r2 := store\<rparr>\<rparr>"
  have g0: "goes env w ?w0" by (simp add: goes_same)
  have g1: "goes env w ?w1" by (rule goes_event [of _ "Write_config i (random_id env ?n) c"]) (simp_all add: wr)
  have g2: "goes env ?w1 (?w1\<lparr>scan_queue := scan_queue w @ [msg key]\<rparr>)" for key
    using k m [of key] by (auto simp: goes_def worker_inv_def queue_ok_def known_scan_def follows.stay)
  show ?thesis
    using g0 g1 goes_trans [OF g1 g2]
    by (auto simp: put_and_send_def bind_comp_def draw_one_def wr Let_def split: sum.split)
qed

lemma moves_mark [moves_rules]: "moves env (mark_not_queued f i)"
  unfolding moves_def
proof
  fix w
  show "goes env w (snd (mark_not_queued f i w))"
    by (cases "status_unwritten f") (auto simp: mark_not_queued_def writes_def intro!: goes_event [of _ "Mark_failed i SCAN_NOT_QUEUED"])
qed

lemma moves_queue:
  assumes "creates env i u m" and "\<And>key. m_runId (msg key) = i \<and> m_userId (msg key) = u" and "\<And>b. moves env (g b)"
  shows "moves env (bind_comp m (\<lambda>_. bind_comp (put_and_send env f i c msg) g))"
  unfolding moves_def
proof
  fix w
  obtain r w1 where m: "m w = (r, w1)" by fastforce
  from assms(1) m have g1: "goes env w w1" unfolding creates_def moves_def by (metis snd_conv)
  show "goes env w (snd (bind_comp m (\<lambda>_. bind_comp (put_and_send env f i c msg) g) w))"
  proof (cases r)
    case (Inl e)
    with m g1 show ?thesis by (simp add: bind_comp_def)
  next
    case (Inr x)
    with assms(1) m have k: "known_scan i u w1" unfolding creates_def by blast
    obtain b w2 where p: "put_and_send env f i c msg w1 = (b, w2)" by fastforce
    from goes_put_and_send [of i u w1 msg env f c] k assms(2) p have g2: "goes env w1 w2" by simp
    from assms(3) have "goes env w2 (snd (g y w2))" for y unfolding moves_def by blast
    with goes_trans [OF goes_trans [OF g1 g2]] goes_trans [OF g1 g2] m p Inr show ?thesis
      by (cases b) (simp_all add: bind_comp_def)
  qed
qed

lemma moves_queueRun [moves_rules]: "moves env (queueRun env f b u web anon)"
proof -
  have q: "moves env (queue_permission env b u anon)" unfolding queue_permission_def by (intro moves_rules)
  show ?thesis
    unfolding queueRun_def Let_def
    by (intro moves_rules q moves_queue [OF creates_manual]) simp
qed

lemma moves_run_schedule [moves_rules]: "moves env (run_schedule env f ms s)"
  unfolding run_schedule_def Let_def
  by (intro moves_rules moves_queue [OF creates_scheduled]) simp

lemma goes_fold: "(\<And>x w. goes env w (g x w)) \<Longrightarrow> goes env w (fold g xs w)"
proof (induction xs arbitrary: w)
  case (Cons x xs)
  from goes_trans [OF Cons.prems Cons.IH [OF Cons.prems]] show ?case by simp
qed simp

lemma goes_consume:
  assumes "m \<in> set (scan_queue w)"
  shows "goes env w (snd (consume_scan env c m w))"
proof -
  let ?r = "Dispatch (Some (dispatch_body_of m))"
  obtain resp s where h: "handle_request (obj_env env) ?r (object w) = (resp, s)" by fastforce
  let ?w1 = "w\<lparr>object := s\<rparr>"
  have g1: "goes env w ?w1"
  proof (cases "queue_ok w")
    case True
    with assms obtain sc where sc: "getScan (db (object w)) (m_runId m) = Some sc" "s_user sc = m_userId m"
      unfolding queue_ok_def by blast
    then have "from_worker (object w) (Request ?r)"
      by (auto simp: dispatch_body_of_def or_else_def given_def)
    from goes_ask [OF this, of env] h show ?thesis by (simp add: ask_def)
  qed (simp add: goes_def worker_inv_def)
  have g2: "goes env ?w1 (?w1\<lparr>object := on_db (updateScanStatus i ''dispatched'' None None) s\<rparr>)" for i
    by (rule goes_event [of _ "Confirm_dispatched i"]) simp_all
  show ?thesis
    using g1 goes_trans [OF g1 g2] h by (auto simp: consume_scan_def bind_comp_def ask_def)
qed

lemma goes_deliver: "goes env w (deliver_scan env c i w)"
proof (cases "i < length (scan_queue w)")
  case True
  obtain r w1 where w1: "consume_scan env c (scan_queue w ! i) w = (r, w1)" by fastforce
  from goes_consume [of "scan_queue w ! i" w env c] True w1 have g1: "goes env w w1" by simp
  have "goes env w1 (w1\<lparr>scan_queue := take i (scan_queue w1) @ drop (Suc i) (scan_queue w1)\<rparr>)"
    unfolding goes_def by (auto simp: worker_inv_def follows.stay dest: in_set_takeD in_set_dropD intro!: queue_ok_kept [of w1])
  from g1 goes_trans [OF g1 this] True w1 show ?thesis
    by (cases r) (auto simp: deliver_scan_def split: bool.split)
qed (simp add: deliver_scan_def)

lemma goes_step: "goes env w (w_step env e w)"
proof (cases e)
  case (Set_schedule p cron)
  have "moves env (updateProjectSchedule env p cron)"
  proof -
    have "goes env x (snd (Inr c, if b then x\<lparr>schedules := s1\<rparr> else
        x\<lparr>schedules := s2, object := on_db (set_scan_config p n doc) (object x)\<rparr>))" for x b s1 s2 n doc and c :: "string option"
      by (cases b) (auto intro: goes_same goes_event [of _ "Set_config p n doc"])
    then show ?thesis unfolding updateProjectSchedule_def Let_def
      by (intro moves_bind moves_draw moves_pure) (simp add: moves_def)
  qed
  with Set_schedule show ?thesis by (simp add: moves_def)
next
  case (Schedules_run f)
  have "goes env w (snd (run_schedule env f' ms s w))" for f' ms s w using moves_run_schedule by (auto simp: moves_def)
  with Schedules_run show ?thesis by (auto simp: handleScheduledScans_def Let_def intro: goes_fold)
next
  case (Object e')
  then show ?thesis by (auto intro!: goes_event [of _ e'] simp: own_promise)
next
  case (Rbac r)
  with perform_sound show ?thesis by (auto intro!: goes_access)
next
  case (Clock ms)
  let ?a = "(access w)\<lparr>clock := clock (access w) + max 0 ms\<rparr>"
  have "goes env w (w\<lparr>access := ?a\<rparr>)" using perform_sound [of "access w" "request.Elapse (max 0 ms)"] by (auto intro!: goes_access)
  moreover have "goes env (w\<lparr>access := ?a\<rparr>) (w_step env (Clock ms) w)"
    by (rule goes_event [of _ "event.Elapse ms"]) simp_all
  ultimately show ?thesis using goes_trans Clock by blast
qed (use moves_queueRun moves_commands moves_runner moves_tickets goes_deliver in \<open>auto simp: moves_def intro: goes_same\<close>)

lemma coord_reach_follows: "follows env a s \<Longrightarrow> coord_reach env a \<Longrightarrow> coord_reach env s"
  by (induction rule: follows.induct) (auto intro: coord_reach.step)

lemma reach_goes: "goes env w w' \<Longrightarrow> coord_reach (obj_env env) (object w) \<and> queue_ok w \<and> sound (access w) \<Longrightarrow>
    coord_reach (obj_env env) (object w') \<and> queue_ok w' \<and> sound (access w')"
  using coord_reach_follows coord_reach_inv by (auto simp: goes_def worker_inv_def)

lemma reach_leads:
  assumes "leads e s s'" "object w = s" "queue_ok w"
  shows "queue_ok (w\<lparr>object := s'\<rparr>)"
  by (rule queue_ok_kept [OF assms(3)]) (use assms(1,2) in \<open>auto simp: leads_def evolves_def\<close>)

lemma worker_sound: "worker_reach env w \<Longrightarrow> coord_reach (obj_env env) (object w) \<and> queue_ok w \<and> sound (access w)"
proof (induction rule: worker_reach.induct)
  case (init d a r sch t)
  then show ?case by (auto simp: new_worker_def queue_ok_def intro: coord_reach.init)
next
  case (step w e)
  then show ?case using reach_goes [OF goes_step] by blast
next
  case (pass w others ws)
  have "leads (obj_env env) (object w) (dispatchPass (obj_env env) others ws (object w))"
    using pass coord_reach_inv by (blast intro: leads_dispatchPass interleaved_well_behaved)
  with pass reach_leads show ?case by (auto intro: coord_reach.pass)
next
  case (resume w others ws ids)
  let ?s = "snd (resumeRuns (\<lambda>runId. others runId 0) ws ids (object w))"
  have inv: "coord_inv (obj_env env) (object w)" using resume coord_reach_inv by blast
  have "leads (obj_env env) (object w) x \<Longrightarrow> leads (obj_env env) (object w) (others i 0 x)" for i x
    by (rule leads_others [OF interleaved_well_behaved [OF resume.hyps(2)]])
  from leads_resumeRuns [of "obj_env env" "object w" "\<lambda>i. others i 0", OF this leads_refl [OF inv]]
  have "leads (obj_env env) (object w) ?s" .
  with resume reach_leads show ?case by (auto intro: coord_reach.resume)
qed

end
