(* ===== verification/Worker_Runners.thy ===== *)
theory Worker_Runners
  imports Rbac_Claims Worker
begin

text \<open>Who a runner's connection belongs to, and who may command a run.\<close>

section \<open>Connecting\<close>

lemma next_socket_prune [simp]: "next_socket (pruneDeadRunners s) = next_socket s"
proof -
  have one: "next_socket (prune_one x s) = next_socket s" for x s
    by (simp add: prune_one_def close_ws_def set_socket_def drop_runner_def drop_jobs_of_def split: option.split)
  have "next_socket (fold prune_one xs s) = next_socket s" for xs and s
    by (induction xs arbitrary: s) (simp_all add: one)
  then show ?thesis by (simp add: pruneDeadRunners_def)
qed

lemma accepted_tags:
  assumes inv: "coord_inv env s" and a: "length (listed (activeJobs x)) \<le> MAX_ACTIVE_JOBS_PER_RUNNER"
    and l: "\<And>s1. leads env (accept_socket (next_socket s) ts x s) s1 \<Longrightarrow> leads env (accept_socket (next_socket s) ts x s) (f s1)"
    and k: "socket_of (f (accept_socket (next_socket s) ts x s)) (next_socket s) = Some k"
  shows "tags k = ts"
proof -
  let ?a = "accept_socket (next_socket s) ts x s"
  have "coord_inv env ?a" by (rule leads_inv [OF leads_accept_socket [OF leads_refl [OF inv] a]])
  from l [OF leads_refl [OF this]] have "evolves ?a (f ?a)" by (simp add: leads_def)
  moreover have "next_socket s < next_socket ?a" by (simp add: accept_socket_def)
  ultimately obtain k0 where "socket_of ?a (next_socket s) = Some k0" "tags k = tags k0"
    using k unfolding evolves_def by blast
  moreover from inv have "next_socket s \<notin> fst ` set (sockets s)" by (fastforce simp: coord_inv_def)
  then have "map_of (sockets s) (next_socket s) = None" by (simp add: map_of_eq_None_iff)
  ultimately show ?thesis by (auto simp: accept_socket_def socket_of_def map_add_def)
qed

lemma token_socket:
  assumes inv: "coord_inv env s" and k: "socket_of (connect_token env c u s) (next_socket s) = Some k"
  shows "tags k = token_tags (c_shared c) (or_else (c_name c) ''Unnamed Runner'') (or_else (c_version c) ''v1.0.0'') u"
proof -
  let ?ts = "token_tags (c_shared c) (or_else (c_name c) ''Unnamed Runner'') (or_else (c_version c) ''v1.0.0'') u"
  let ?x = "empty_attachment\<lparr>authenticated := True, connectionId := Some (new_id env (ids_drawn s)), heartbeat := c_heartbeat c,
    connectedAt := (if c_heartbeat c then Some (now s) else None)\<rparr>"
  let ?ws = "next_socket s" and ?a = "accept_socket (next_socket s) ?ts ?x s"
  let ?f = "\<lambda>s1. case resumeRuns quiet ?ws (Some (parseResumeParam (c_resume c)))
        (s1\<lparr>runners := sadd ?ws (runners s1), ids_drawn := Suc (ids_drawn s1)\<rparr>) of
      (Inl _, s3) \<Rightarrow> s3 | (Inr _, s3) \<Rightarrow> dispatch_queued env ?ws s3"
  have eq: "connect_token env c u s = ?f ?a" by (simp add: connect_token_def Let_def)
  have l: "leads env ?a (?f s1)" if l1: "leads env ?a s1" for s1
  proof -
    obtain v s3 where r: "resumeRuns quiet ?ws (Some (parseResumeParam (c_resume c)))
        (s1\<lparr>runners := sadd ?ws (runners s1), ids_drawn := Suc (ids_drawn s1)\<rparr>) = (v, s3)" by fastforce
    have "leads env ?a (snd (resumeRuns quiet ?ws (Some (parseResumeParam (c_resume c)))
        (s1\<lparr>runners := sadd ?ws (runners s1), ids_drawn := Suc (ids_drawn s1)\<rparr>)))"
      by (intro leads_resumeRuns leads_fields l1) (simp add: quiet_def)
    with r have l3: "leads env ?a s3" by simp
    have "?ws < next_socket ?a" by (simp add: accept_socket_def)
    from leads_dispatch_queued [OF l3 this] l3 r show ?thesis by (cases v) simp_all
  qed
  show ?thesis
    by (rule accepted_tags [OF inv _ l]) (use k eq in \<open>simp_all add: empty_attachment_def listed_def\<close>)
qed

lemma keyed_socket:
  assumes inv: "coord_inv env s" and k: "socket_of (connect_keyed env c key u s) (next_socket s) = Some k"
  shows "tags k = keyed_tags key (or_else (c_name c) ''Unnamed Runner'') (or_else (c_version c) ''v1.0.0'') u"
proof -
  let ?ws = "next_socket s" and ?n = "new_id env (ids_drawn s)"
  let ?ts = "keyed_tags key (or_else (c_name c) ''Unnamed Runner'') (or_else (c_version c) ''v1.0.0'') u"
  let ?cl = "parseResumeParam (c_resume c)"
  let ?x = "empty_attachment\<lparr>nonce := Some ?n, connectionId := Some (new_id env (Suc (ids_drawn s))),
      heartbeat := c_heartbeat c, connectedAt := (if c_heartbeat c then Some (now s) else None),
      resume := (if ?cl = [] then None else Some ?cl)\<rparr>"
  let ?f = "\<lambda>s1. send ?ws (Challenge ?n) (s1\<lparr>pendingChallenges := jset ?ws ?n (pendingChallenges s1), ids_drawn := ids_drawn s1 + 2\<rparr>)"
  have eq: "connect_keyed env c key u s = ?f (accept_socket ?ws ?ts ?x s)" by (simp add: connect_keyed_def Let_def)
  show ?thesis
    by (rule accepted_tags [OF inv, where x = ?x and f = ?f])
      (use k eq in \<open>auto simp: empty_attachment_def listed_def intro!: leads_send leads_fields\<close>)
qed

text \<open>Public keys are stored as the route accepts them, which keeps them apart from the other tags.\<close>

definition hex_key :: "string \<Rightarrow> bool" where
  "hex_key k = (length k = 64 \<and> list_all ticket_char k)"

lemma hex_key_no_tag: "hex_key k \<Longrightarrow> k \<noteq> SHARED_RUNNER_TAG \<and> \<not> starts_with k USER_ID_TAG"
proof -
  assume h: "hex_key k"
  have "\<not> starts_with k USER_ID_TAG"
  proof
    assume "starts_with k USER_ID_TAG"
    then obtain r where "k = CHR ''u'' # r" by (auto simp: starts_with_iff USER_ID_TAG_def)
    with h have "ticket_char (CHR ''u'')" by (simp add: hex_key_def)
    moreover have "\<not> ticket_char (CHR ''u'')" by code_simp
    ultimately show False by simp
  qed
  with h show ?thesis by (auto simp: hex_key_def SHARED_RUNNER_TAG_def)
qed

lemma owner_of_keyed_tags:
  assumes "hex_key key"
  shows "getRunnerOwnerId (keyed_tags key name version u) = (if u = [] then None else Some u)"
    and "\<not> isSharedRunnerTags (keyed_tags key name version u)"
  using hex_key_no_tag [OF assms]
  by (auto simp: getRunnerOwnerId_def keyed_tags_def USER_ID_TAG_def SHARED_RUNNER_TAG_def isSharedRunnerTags_def starts_with_def)

text \<open>The credential a connection presents, as the accounts know it.\<close>

definition credential_of :: "worker_env \<Rightarrow> string option \<Rightarrow> string option \<Rightarrow> account_row \<Rightarrow> bool" where
  "credential_of env token key u =
     (if given key then u_public_key u = Some (to_lower (the key))
      else given token \<and> (u_api_key u = Some (hash_key env (the token)) \<or>
             starts_with (the token) ''swazz_live_'' \<and> u_api_key u = Some (the token)))"

lemma on_users_same:
  assumes "\<And>u. u_id (f u) = u_id u \<and> u_delete_at (f u) = u_delete_at u"
  shows "map (\<lambda>u. (u_id u, u_delete_at u)) (Auth_Db.users (on_users P f a)) = map (\<lambda>u. (u_id u, u_delete_at u)) (Auth_Db.users a)"
  using assms by (simp add: on_users_def)

lemma found_user: "find_user P a = (Inr (Some u), a') \<longleftrightarrow> a' = a \<and> find P (Auth_Db.users a) = Some u"
  by (auto simp: find_user_def reads_def)

lemma token_known:
  assumes "token_user env t a = (Inr (Some u), a')"
  shows "u \<in> set (Auth_Db.users a) \<and> (u_api_key u = Some (hash_key env t) \<or> starts_with t ''swazz_live_'' \<and> u_api_key u = Some t) \<and>
    map (\<lambda>u. (u_id u, u_delete_at u)) (Auth_Db.users a') = map (\<lambda>u. (u_id u, u_delete_at u)) (Auth_Db.users a)"
proof (cases "find (\<lambda>u. u_api_key u = Some (hash_key env t)) (Auth_Db.users a)")
  case (Some v)
  with assms have "u = v" "a' = a"
    by (auto simp: token_user_def by_api_key_def find_user_def bind_reads ret_def)
  with find_Some [OF Some] show ?thesis by simp
next
  case None
  with assms have s: "starts_with t ''swazz_live_''" and
    m: "bind_comp (by_api_key t) (\<lambda>plain. case plain of None \<Rightarrow> ret None
       | Some u \<Rightarrow> bind_comp (updateUserApiKey (u_id u) (hash_key env t)) (\<lambda>_. ret (Some u))) a = (Inr (Some u), a')"
    by (auto simp: token_user_def by_api_key_def find_user_def bind_reads ret_run split: if_splits)
  from m obtain f where f: "find (\<lambda>u. u_api_key u = Some t) (Auth_Db.users a) = Some u"
    and a': "a' = on_users (\<lambda>v. u_id v = u_id u) (\<lambda>v. v\<lparr>u_api_key := Some (hash_key env t)\<rparr>) a"
    by (auto simp: by_api_key_def find_user_def bind_reads run_simps updateUserApiKey_def split: option.splits)
  from find_Some [OF f] s show ?thesis unfolding a' by (subst on_users_same) simp_all
qed

lemma identified:
  assumes "identify_runner env token key a = (Inr (Inr (i, key')), a')" "\<not> auth_disabled (obj_env env)"
  shows "case i of
      Shared_runner \<Rightarrow> \<not> given key \<and> given token \<and> isSharedRunnerToken env (the token) \<and> \<not> given key' \<and> a' = a
    | Runner_of v \<Rightarrow> (\<exists>u \<in> set (Auth_Db.users a). credential_of env token key u \<and> u_id u = v) \<and>
        given key' = given key \<and> (given key \<longrightarrow> key' = Some (to_lower (the key))) \<and>
        map (\<lambda>u. (u_id u, u_delete_at u)) (Auth_Db.users a') = map (\<lambda>u. (u_id u, u_delete_at u)) (Auth_Db.users a)"
proof (cases "given key")
  case True
  with assms obtain u where "find (\<lambda>u. u_public_key u = Some (to_lower (the key))) (Auth_Db.users a) = Some u"
    "i = Runner_of (u_id u)" "key' = Some (to_lower (the key))" "a' = a"
    by (auto simp: identify_runner_def Let_def by_public_key_def find_user_def bind_reads ret_def split: option.splits)
  with True find_Some show ?thesis by (fastforce simp: credential_of_def given_def to_lower_def)
next
  case False
  then show ?thesis
  proof (cases "isSharedRunnerToken env (the token) \<and> given token")
    case True
    with False assms show ?thesis by (auto simp: identify_runner_def ret_def)
  next
    case no: False
    with False assms have t: "given token" and
      m: "bind_comp (token_user env (the token)) (\<lambda>user. case user of
           None \<Rightarrow> ret (Inl (401 :: nat, ''Unauthorized: Invalid runner token'')) | Some u \<Rightarrow> ret (Inr (Runner_of (u_id u), key))) a = (Inr (Inr (i, key')), a')"
      by (auto simp: identify_runner_def ret_run split: if_splits)
    from m obtain u where u: "token_user env (the token) a = (Inr (Some u), a')" "i = Runner_of (u_id u)" "key' = key"
      by (auto simp: run_simps split: option.splits)
    from token_known [OF u(1)] u(2,3) t False show ?thesis by (auto simp: credential_of_def)
  qed
qed

lemma lifted_run: "on_accounts m w = (Inr x, w1) \<longleftrightarrow> (\<exists>a. m (accounts w) = (Inr x, a) \<and> w1 = w\<lparr>accounts := a\<rparr>)"
  by (auto simp: on_accounts_def Let_def split: prod.split)

lemma identify_keeps_response: "identify_runner env token key a = (Inr (Inl (n, m)), a') \<Longrightarrow> n = 401"
  by (auto simp: identify_runner_def Let_def ret_run run_simps split: if_splits option.splits)

lemma connect_runs:
  assumes "connect env up token key q w = (Inr (101, t), w')"
  obtains i key' a' where "identify_runner env token key (accounts w) = (Inr (Inr (i, key')), a')"
    "w' = w\<lparr>accounts := a', object := ConnectRunnerHandler (obj_env env) (trusted_params i key' q) (object w)\<rparr>"
    "\<And>v. i = Runner_of v \<Longrightarrow> (case find (\<lambda>u. u_id u = v) (Auth_Db.users a') of None \<Rightarrow> None | Some u \<Rightarrow> u_delete_at u) = None"
proof -
  from assms obtain who a' where who: "identify_runner env token key (accounts w) = (Inr who, a')"
    and rest: "(case who of Inl refusal \<Rightarrow> ret refusal
           | Inr (i, key) \<Rightarrow>
               bind_comp (case i of Shared_runner \<Rightarrow> ret None | Runner_of u \<Rightarrow> on_accounts (delete_requested_at u)) (\<lambda>deletion.
               if deletion \<noteq> None then ret (403, ''Forbidden: Account is scheduled for deletion'')
               else ask env (Connect_runner (trusted_params i key q)))) (w\<lparr>accounts := a'\<rparr>) = (Inr (101, t), w')"
    by (auto simp: connect_def run_simps lifted_run simp del: not_None_eq split: if_splits)
  show ?thesis
  proof (cases who)
    case (Inl r)
    with rest who have "fst r = 101" by (auto simp: ret_def)
    moreover from identify_keeps_response who Inl have "fst r = 401" by (metis prod.collapse)
    ultimately show ?thesis by simp
  next
    case (Inr p)
    obtain i key' where p: "p = (i, key')" by (cases p)
    have a: "ask env (Connect_runner c) x = (Inr (101, t), w') \<Longrightarrow>
        w' = x\<lparr>object := ConnectRunnerHandler (obj_env env) c (object x)\<rparr>" for c x
      by (auto simp: ask_def Let_def)
    have same: "delete_requested_at v b = (Inr x, b') \<Longrightarrow> b' = b \<and>
        x = (case find (\<lambda>u. u_id u = v) (Auth_Db.users b) of None \<Rightarrow> None | Some u \<Rightarrow> u_delete_at u)" for v b b' x
      by (auto simp: delete_requested_at_def getUserById_def find_user_def bind_reads ret_def)
    show ?thesis
    proof (cases i)
      case Shared_runner
      with rest Inr p a [of "trusted_params i key' q" "w\<lparr>accounts := a'\<rparr>"] who
      show ?thesis by (intro that [of i key' a']) (auto simp: run_simps)
    next
      case (Runner_of v)
      with rest Inr p obtain x a2 where d: "delete_requested_at v a' = (Inr x, a2)"
        and r2: "(if x \<noteq> None then ret (403, ''Forbidden: Account is scheduled for deletion'')
               else ask env (Connect_runner (trusted_params i key' q))) (w\<lparr>accounts := a2\<rparr>) = (Inr (101, t), w')"
        by (auto simp: run_simps lifted_run)
      from r2 have x: "x = None" by (auto simp: ret_def split: if_splits)
      with r2 a [of "trusted_params i key' q" "w\<lparr>accounts := a2\<rparr>"] same [OF d] who Inr p Runner_of
      show ?thesis by (intro that [of i key' a']) auto
    qed
  qed
qed

lemma trusted_connect:
  "ConnectRunnerHandler e (trusted_params i key q) s =
     (if given key
      then connect_keyed e (trusted_params i key q) (the key) (case i of Shared_runner \<Rightarrow> [] | Runner_of v \<Rightarrow> v) (pruneDeadRunners s)
      else connect_token e (trusted_params i key q) (case i of Shared_runner \<Rightarrow> [] | Runner_of v \<Rightarrow> v) (pruneDeadRunners s))"
proof -
  have g: "given None = False" "given (Some v) = (v \<noteq> [])" for v by (simp_all add: given_def)
  show ?thesis
    by (cases i; cases "given key") (simp_all add: ConnectRunnerHandler_def Let_def trusted_params_def or_else_def g)
qed

text \<open>Identifying a runner keeps ids and deletion dates, so the account the second query reads is the one found.\<close>

lemma owner_stays:
  assumes "distinct (map u_id us)" and same: "map (\<lambda>u. (u_id u, u_delete_at u)) us' = map (\<lambda>u. (u_id u, u_delete_at u)) us"
    and u: "u \<in> set us" "u_id u = v"
    and live: "(case find (\<lambda>u. u_id u = v) us' of None \<Rightarrow> None | Some u \<Rightarrow> u_delete_at u) = None"
  shows "u_delete_at u = None"
proof -
  from u(1) have "(u_id u, u_delete_at u) \<in> set (map (\<lambda>u. (u_id u, u_delete_at u)) us)" by auto
  then have "(u_id u, u_delete_at u) \<in> set (map (\<lambda>u. (u_id u, u_delete_at u)) us')" by (simp only: same)
  then obtain u2 where u2: "u2 \<in> set us'" "u_id u2 = u_id u" "u_delete_at u2 = u_delete_at u" by auto
  have "map u_id us' = map u_id us" using arg_cong [OF same, of "map fst"] by (simp add: comp_def)
  with assms(1) have d: "distinct (map u_id us')" by simp
  obtain u3 where f: "find (\<lambda>x. u_id x = v) us' = Some u3"
    using u2 u(2) by (cases "find (\<lambda>x. u_id x = v) us'") (auto simp: find_None_iff)
  from find_Some [OF f] have "u3 \<in> set us'" "u_id u3 = v" by auto
  with d u2 u(2) have "u3 = u2" by (auto simp: distinct_map inj_on_def)
  with live f u2 show ?thesis by simp
qed

text \<open>
  C32. A runner connects as the account its credential belongs to, whatever it puts into its own query.
  A connection the Worker lets through is a shared runner only with the operator's token and then has
  no owner; otherwise its owner is an account that stores the presented API key or public key and
  that is not about to be deleted.
\<close>

theorem runners_connect_as_their_account:
  assumes "worker_reach env w" and "distinct (map u_id (Auth_Db.users (accounts w)))"
    and "\<forall>u \<in> set (Auth_Db.users (accounts w)). \<forall>k. u_public_key u = Some k \<longrightarrow> hex_key k"
    and "\<not> auth_disabled (obj_env env)"
    and "connect env up token key q w = (Inr (101, t), w')"
    and "socket_of (object w') (next_socket (object w)) = Some k"
  shows "if isSharedRunnerTags (tags k)
    then \<not> given key \<and> given token \<and> isSharedRunnerToken env (the token) \<and> getRunnerOwnerId (tags k) = None
    else \<exists>u \<in> set (Auth_Db.users (accounts w)). credential_of env token key u \<and> u_delete_at u = None \<and>
      getRunnerOwnerId (tags k) = (if u_id u = [] then None else Some (u_id u))"
proof -
  from connect_runs [OF assms(5)] obtain i key' a' where idn: "identify_runner env token key (accounts w) = (Inr (Inr (i, key')), a')"
    and w': "w' = w\<lparr>accounts := a', object := ConnectRunnerHandler (obj_env env) (trusted_params i key' q) (object w)\<rparr>"
    and live: "\<And>v. i = Runner_of v \<Longrightarrow> (case find (\<lambda>u. u_id u = v) (Auth_Db.users a') of None \<Rightarrow> None | Some u \<Rightarrow> u_delete_at u) = None"
    by metis
  let ?c = "trusted_params i key' q" and ?p = "pruneDeadRunners (object w)"
  have inv: "coord_inv (obj_env env) ?p"
    by (rule leads_inv [OF leads_prune [OF leads_refl [OF coord_reach_inv]]]) (use worker_sound [OF assms(1)] in blast)
  have k: "socket_of (ConnectRunnerHandler (obj_env env) ?c (object w)) (next_socket ?p) = Some k" using assms(6) w' by simp
  note who = identified [OF idn assms(4)]
  show ?thesis
  proof (cases i)
    case Shared_runner
    with who have nk: "\<not> given key'" and sh: "\<not> given key" "given token" "isSharedRunnerToken env (the token)" by auto
    with k Shared_runner have "socket_of (connect_token (obj_env env) ?c [] ?p) (next_socket ?p) = Some k"
      by (simp add: trusted_connect)
    from token_socket [OF inv this] Shared_runner sh owner_of_token_tags shared_of_token_tags show ?thesis
      by (simp add: trusted_params_def)
  next
    case (Runner_of v)
    with who obtain u where u: "u \<in> set (Auth_Db.users (accounts w))" "credential_of env token key u" "u_id u = v"
      and key': "given key' = given key" "given key \<Longrightarrow> key' = Some (to_lower (the key))"
      and same: "map (\<lambda>u. (u_id u, u_delete_at u)) (Auth_Db.users a') = map (\<lambda>u. (u_id u, u_delete_at u)) (Auth_Db.users (accounts w))"
      by auto
    have "u_delete_at u = None" by (rule owner_stays [OF assms(2) same u(1,3) live [OF Runner_of]])
    moreover have "\<not> isSharedRunnerTags (tags k) \<and> getRunnerOwnerId (tags k) = (if v = [] then None else Some v)"
    proof (cases "given key")
      case True
      with u(1,2) assms(3) have hk: "hex_key (to_lower (the key))" by (auto simp: credential_of_def)
      then have "to_lower (the key) \<noteq> []" by (auto simp: hex_key_def)
      with k Runner_of True key' have "socket_of (connect_keyed (obj_env env) ?c (to_lower (the key)) v ?p) (next_socket ?p) = Some k"
        by (simp add: trusted_connect)
      from keyed_socket [OF inv this] owner_of_keyed_tags [OF hk] show ?thesis by simp
    next
      case False
      with k Runner_of key' have "socket_of (connect_token (obj_env env) ?c v ?p) (next_socket ?p) = Some k"
        by (simp add: trusted_connect)
      from token_socket [OF inv this] Runner_of owner_of_token_tags shared_of_token_tags show ?thesis
        by (simp add: trusted_params_def)
    qed
    ultimately show ?thesis using u by auto
  qed
qed

section \<open>Using a run\<close>

text \<open>Who may use a run, by the tables alone: its own user, or a member of its project with the permission.\<close>

definition may_access :: "worker \<Rightarrow> string \<Rightarrow> string \<Rightarrow> string \<Rightarrow> bool" where
  "may_access w userId runId perm =
     (\<exists>sc. getScan (db (object w)) runId = Some sc \<and>
       (if s_project sc = [] then s_user sc = Some userId else perm \<in> effective (access w) (s_project sc) userId))"

definition untouched :: "worker \<Rightarrow> worker \<Rightarrow> bool" where
  "untouched w w' = (object w' = object w \<and> ws_tickets w' = ws_tickets w \<and> scan_queue w' = scan_queue w)"

lemma lifted_access: "on_access m w = (r, w1) \<Longrightarrow> untouched w w1 \<and> fst (m (access w)) = r"
  by (auto simp: on_access_def Let_def untouched_def split: prod.splits)

interpretation worker_permissions: lifted_check checkPermission coherent "\<lambda>db' db. tables db' = tables db" effective
    access "\<lambda>a w. w\<lparr>access := a\<rparr>" "\<lambda>u p perm. on_access (checkPermission u p perm)"
  by unfold_locales (simp_all add: on_access_def split_beta)

lemma access_checked:
  assumes "checkScanAccess i v p w = (r, w1)" "sound (access w)"
  shows "untouched w w1 \<and> (r = Inr () \<longrightarrow> may_access w v i p)"
proof (cases "getScan (db (object w)) i")
  case None
  with assms show ?thesis
    by (auto simp: checkScanAccess_def bind_comp_def refuse_if_def throw_def ret_def reads_def untouched_def split: if_splits)
next
  case (Some sc)
  show ?thesis
  proof (cases "s_project sc = []")
    case True
    with Some assms show ?thesis
      by (auto simp: checkScanAccess_def bind_comp_def refuse_if_def throw_def ret_def reads_def untouched_def may_access_def split: if_splits)
  next
    case False
    obtain c w2 where c: "on_access (checkPermission v (s_project sc) p) w = (c, w2)" by fastforce
    have "coherent (access w)" using assms(2) by (simp add: sound_def)
    from worker_permissions.outer.check_law [OF this c] lifted_access [OF c]
    have "c = Inr (p \<in> effective (access w) (s_project sc) v)" "untouched w w2" by simp_all
    with False Some assms(1) c show ?thesis
      by (auto simp: checkScanAccess_def bind_comp_def refuse_if_def throw_def ret_def reads_def untouched_def may_access_def split: if_splits)
  qed
qed

lemma use_checked:
  assumes "may_use env i u p w = (r, w1)" "sound (access w)" "AUTH_ENABLED (obj_env env) = Some ''true''"
  shows "untouched w w1 \<and> (r = Inr () \<longrightarrow> (\<exists>v. u = Some v \<and> may_access w v i p))"
proof (cases "given u")
  case True
  then obtain v where u: "u = Some v" by (auto simp: given_def)
  with True assms(1) have "checkScanAccess i v p w = (r, w1)" by (simp add: may_use_def refuse_if_def)
  from access_checked [OF this assms(2)] u show ?thesis by blast
next
  case False
  with assms(1,3) show ?thesis by (auto simp: may_use_def bind_comp_def refuse_if_def throw_def untouched_def)
qed

text \<open>The commands on a run, with the permission each needs.\<close>

fun uses_run :: "worker_event \<Rightarrow> (string \<times> string option \<times> string) option" where
  "uses_run (Stop_run i u) = Some (i, u, WRITE_SCANS)"
| "uses_run (Pause_run i u) = Some (i, u, WRITE_SCANS)"
| "uses_run (Resume_run i u) = Some (i, u, WRITE_SCANS)"
| "uses_run (Client_connects i u up) = Some (i, u, READ_SCANS)"
| "uses_run (Issue_ticket i u) = Some (i, u, READ_SCANS)"
| "uses_run _ = None"

lemma bind_refuse: "bind_comp (refuse_if b msg) f w = (if b then (Inl (Error msg), w) else f () w)"
  by (simp add: bind_comp_def refuse_if_def throw_def ret_def)

lemma untouched_refl [simp]: "untouched w w"
  by (simp add: untouched_def)

lemma guarded:
  assumes "\<not> untouched w (snd (bind_comp (may_use env i u p) f w))" "sound (access w)" "AUTH_ENABLED (obj_env env) = Some ''true''"
  shows "\<exists>v. u = Some v \<and> may_access w v i p"
  using assms use_checked [OF _ assms(2,3), of i u p]
  by (auto simp: bind_comp_def split: prod.splits sum.splits)

lemma guarded_access:
  assumes "\<not> untouched w (snd (bind_comp (checkScanAccess i v p) f w))" "sound (access w)"
  shows "may_access w v i p"
  using assms access_checked [OF _ assms(2), of i v p]
  by (auto simp: bind_comp_def split: prod.splits sum.splits)

text \<open>
  C33. Nobody uses a run without the right to. With authentication on, a command that stops, pauses or
  resumes a run, watches its events or obtains a ticket for them changes nothing (neither the
  coordinator nor the tables, nor the tickets, nor the queue) unless its caller is the run's own user
  or holds the command's permission in the run's project, by the tables as they are.
\<close>

theorem runs_are_used_by_right_only:
  assumes "worker_reach env w" and "AUTH_ENABLED (obj_env env) = Some ''true''"
    and "uses_run e = Some (i, u, perm)"
    and "\<not> untouched w (w_step env e w)"
  shows "\<exists>v. u = Some v \<and> may_access w v i perm"
proof -
  have s: "sound (access w)" using worker_sound [OF assms(1)] by blast
  note g = guarded [OF _ s assms(2)] and h = guarded_access [OF _ s]
  show ?thesis
  proof (cases e)
    case (Client_connects i' u' up)
    with assms(2-4) have "given u" and n: "\<not> untouched w (snd (bind_comp (checkScanAccess i (the u) perm) (\<lambda>_. ask env (Connect_client (Some i))) w))"
      by (auto simp: connectClient_def ret_def split: if_splits)
    with h [OF n] show ?thesis by (auto simp: given_def)
  next
    case (Issue_ticket i' u')
    with assms(3,4) have u: "given u" by (auto simp: issueStreamTicket_def bind_refuse split: if_splits)
    with Issue_ticket assms(3,4) have "may_access w (the u) i perm"
      by (auto simp: issueStreamTicket_def bind_refuse intro: h)
    with u show ?thesis by (auto simp: given_def)
  qed (use assms(3,4) g in \<open>auto simp: stopRun_def pauseRun_def resumeRun_def\<close>)
qed

end
