(* ===== verification/Worker_Tickets.thy ===== *)
theory Worker_Tickets
  imports Worker_Runners
begin

text \<open>
  One-time tickets of event streams: where every stored ticket comes from, in any history of the
  Worker, and how many a user holds.
\<close>

section \<open>What else happens leaves the tickets alone\<close>

abbreviation same_tickets :: "ticket_row list \<Rightarrow> (worker, 'a) comp \<Rightarrow> bool" where
  "same_tickets T m \<equiv> keeps (\<lambda>w. ws_tickets w = T) m"

lemma keeps_lifts [keeps_rules]:
  "same_tickets T (on_accounts m)" "same_tickets T (on_access n)" "same_tickets T draw_one" "same_tickets T (ask env r)"
  by (auto simp: keeps_def on_accounts_def on_access_def draw_one_def ask_def Let_def split: prod.splits)

lemma keeps_pure [keeps_rules]: "keeps P (\<lambda>w. (f w, w))"
  by (simp add: keeps_def)

lemma keeps_let [keeps_rules]: "keeps P (f x) \<Longrightarrow> keeps P (let y = x in f y)"
  by simp

lemma keeps_sum [keeps_rules]:
  "(\<And>x. keeps P (f x)) \<Longrightarrow> (\<And>y. keeps P (g y)) \<Longrightarrow> keeps P (case v of Inl x \<Rightarrow> f x | Inr y \<Rightarrow> g y)"
  by (simp split: sum.split)

lemma keeps_prod [keeps_rules]: "(\<And>x y. keeps P (f x y)) \<Longrightarrow> keeps P (case v of (x, y) \<Rightarrow> f x y)"
  by (simp split: prod.split)

lemma keeps_runner_is [keeps_rules]:
  "keeps P m \<Longrightarrow> (\<And>v. keeps P (f v)) \<Longrightarrow> keeps P (case x of Shared_runner \<Rightarrow> m | Runner_of v \<Rightarrow> f v)"
  by (simp split: runner_is.split)

lemma same_access [keeps_rules]: "same_tickets T (checkScanAccess i u p)" "same_tickets T (may_use env i v p)"
proof -
  show a: "same_tickets T (checkScanAccess i u p)" for u unfolding checkScanAccess_def by (intro keeps_rules)
  show "same_tickets T (may_use env i v p)" unfolding may_use_def by (intro keeps_rules a)
qed

lemma same_queueing [keeps_rules]:
  "same_tickets T (createScanRecord env f i p t pr u)" "same_tickets T (put_and_send env f i c msg)"
  "same_tickets T (mark_not_queued f i)" "same_tickets T (queue_permission env b u anon)"
  "same_tickets T (triggerScheduledScan env f i s t pr v ms)" "same_tickets T (change_status i from_st to_st)"
proof -
  show "same_tickets T (put_and_send env f i c msg)"
    by (auto simp: keeps_def put_and_send_def bind_comp_def draw_one_def Let_def split: prod.splits sum.splits)
  show "same_tickets T (queue_permission env b u anon)" unfolding queue_permission_def by (intro keeps_rules)
  show "same_tickets T (createScanRecord env f i p t pr u)" "same_tickets T (triggerScheduledScan env f i s t pr v ms)"
    "same_tickets T (mark_not_queued f i)" "same_tickets T (change_status i from_st to_st)"
    by (auto simp: keeps_def createScanRecord_def triggerScheduledScan_def mark_not_queued_def writes_def change_status_def Let_def
        split: prod.splits sum.splits option.splits)
qed

lemma same_commands:
  "same_tickets T (queueRun env f b u web anon)" "same_tickets T (stopRun env i u)" "same_tickets T (pauseRun env i u)"
  "same_tickets T (resumeRun env i u)" "same_tickets T (connect env up token key q)" "same_tickets T (connectClient env i u up)"
  "same_tickets T (restartRunner env c u)" "same_tickets T (getRunners env u)" "same_tickets T (run_schedule env f ms s)"
  "same_tickets T (updateProjectSchedule env p cron)"
proof -
  have l: "same_tickets T (\<lambda>w. let (infos, s) = RunnersHandler (object w) in (Inr (g infos), w\<lparr>object := s\<rparr>))"
    for g :: "runner_info list \<Rightarrow> visible_runner list"
    by (auto simp: keeps_def Let_def split: prod.splits)
  show "same_tickets T (getRunners env u)"
    unfolding getRunners_def
    by (intro keeps_rules l [of "\<lambda>infos. if auth_disabled (obj_env env) then map Mine infos else filterRunnersForUser infos (the u)"])
  have s: "same_tickets T (\<lambda>w. (r, if b' w then w\<lparr>schedules := s1 w\<rparr> else w\<lparr>schedules := s2 w, object := x w\<rparr>))"
    for r :: "string option res" and b' s1 s2 x
    by (auto simp: keeps_def)
  show "same_tickets T (updateProjectSchedule env p cron)"
    unfolding updateProjectSchedule_def Let_def by (intro keeps_rules s)
  show "same_tickets T (queueRun env f b u web anon)" "same_tickets T (stopRun env i u)" "same_tickets T (pauseRun env i u)"
    "same_tickets T (resumeRun env i u)" "same_tickets T (connect env up token key q)" "same_tickets T (connectClient env i u up)"
    "same_tickets T (restartRunner env c u)" "same_tickets T (run_schedule env f ms s)"
    unfolding queueRun_def stopRun_def pauseRun_def resumeRun_def connect_def connectClient_def restartRunner_def run_schedule_def
    by (intro keeps_rules)+
qed

lemma same_deliver: "ws_tickets (deliver_scan env c i w) = ws_tickets w"
proof -
  have "same_tickets T (consume_scan env c m)" for T m
  proof -
    have "keeps (\<lambda>w. ws_tickets w = T) (\<lambda>w. if b then (if b' then (Inr False, w) else (Inr True, w\<lparr>object := g w\<rparr>)) else (Inr b'', w))"
      for b b' b'' g
      by (auto simp: keeps_def)
    then show ?thesis unfolding consume_scan_def by (intro keeps_rules)
  qed
  then show ?thesis
    by (auto simp: deliver_scan_def keeps_def split: prod.splits sum.splits bool.splits) (metis snd_conv)+
qed

lemma same_schedules: "ws_tickets (handleScheduledScans env f w) = ws_tickets w"
proof -
  have one: "ws_tickets (snd (run_schedule env f' ms s x)) = ws_tickets x" for f' ms s x
    using same_commands(9) [of "ws_tickets x" env f' ms s] by (auto simp: keeps_def)
  have "ws_tickets (fold (\<lambda>s x. snd (run_schedule env (f (sch_id s)) ms s x)) xs x) = ws_tickets x" for xs ms x
    by (induction xs arbitrary: x) (simp_all add: one)
  then show ?thesis by (simp add: handleScheduledScans_def Let_def)
qed

fun about_tickets :: "worker_event \<Rightarrow> bool" where
  "about_tickets (Issue_ticket i u) = True"
| "about_tickets (Redeem_ticket t i) = True"
| "about_tickets _ = False"

lemma same_step: "\<not> about_tickets e \<Longrightarrow> ws_tickets (w_step env e w) = ws_tickets w"
  using same_commands [of "ws_tickets w"]
  by (cases e) (auto simp: keeps_def same_deliver same_schedules)

section \<open>Where tickets come from\<close>

lemma issued:
  assumes "issueStreamTicket env i u w = (r, w')" "tk \<in> set (ws_tickets w')" "tk \<notin> set (ws_tickets w)" "sound (access w)"
  shows "\<exists>v ticket. u = Some v \<and> may_access w v i READ_SCANS \<and> r = Inr ticket \<and>
    tk = \<lparr>tk_hash = hash_key env ticket, tk_user = v, tk_run = i, tk_expires = worker_now w + STREAM_TICKET_TTL_SECONDS\<rparr>"
proof -
  have u: "given u"
  proof (rule ccontr)
    assume "\<not> given u"
    with assms(1-3) show False by (auto simp: issueStreamTicket_def bind_refuse)
  qed
  then obtain v where v: "u = Some v" by (auto simp: given_def)
  obtain c w1 where c: "checkScanAccess i v READ_SCANS w = (c, w1)" by fastforce
  from access_checked [OF c assms(4)] have un: "untouched w w1" and ok: "c = Inr () \<longrightarrow> may_access w v i READ_SCANS" by auto
  have now: "worker_now w1 = worker_now w"
    using c by (auto simp: checkScanAccess_def worker_now_def bind_comp_def refuse_if_def throw_def ret_def reads_def on_access_def Let_def
        split: if_splits option.splits prod.splits sum.splits)
  show ?thesis
  proof (cases c)
    case (Inl e)
    with assms(1-3) u v c un show ?thesis by (auto simp: issueStreamTicket_def refuse_if_def bind_comp_def ret_def untouched_def)
  next
    case (Inr x)
    with ok have "may_access w v i READ_SCANS" by simp
    with assms(1-3) u v c un Inr now show ?thesis
      by (auto simp: issueStreamTicket_def refuse_if_def bind_comp_def untouched_def draw_one_def reads_def createStreamTicket_def Let_def
          throw_def ret_def worker_now_def split: if_splits)
  qed
qed

lemma redeem_tickets:
  "ws_tickets (snd (redeemStreamTicket env t i w)) =
     (if is_ticket t then filter (\<lambda>tk. tk_hash tk \<noteq> hash_key env t) (ws_tickets w) else ws_tickets w)"
  by (auto simp: redeemStreamTicket_def bind_comp_def consumeStreamTicket_def ret_def split: option.split)

abbreviation after :: "worker_env \<Rightarrow> worker \<Rightarrow> worker_event list \<Rightarrow> worker" where
  "after env w es \<equiv> fold (w_step env) es w"

lemma reach_after: "worker_reach env w \<Longrightarrow> worker_reach env (after env w es)"
  by (induction es arbitrary: w) (auto intro: worker_reach.step)

text \<open>
  The \<open>n\<close>th event of a history issued the ticket with this hash to the user for the run, and no later
  event redeemed it.
\<close>

definition issued_at :: "worker_env \<Rightarrow> worker \<Rightarrow> worker_event list \<Rightarrow> nat \<Rightarrow> ticket_row \<Rightarrow> bool" where
  "issued_at env w0 es n tk =
     (n < length es \<and> es ! n = Issue_ticket (tk_run tk) (Some (tk_user tk)) \<and>
      (let w = after env w0 (take n es) in
         may_access w (tk_user tk) (tk_run tk) READ_SCANS \<and> tk_expires tk = worker_now w + STREAM_TICKET_TTL_SECONDS \<and>
         (\<exists>ticket. fst (issueStreamTicket env (tk_run tk) (Some (tk_user tk)) w) = Inr ticket \<and> hash_key env ticket = tk_hash tk)) \<and>
      (\<forall>m t i. n < m \<and> m < length es \<and> es ! m = Redeem_ticket t i \<and> is_ticket t \<longrightarrow> hash_key env t \<noteq> tk_hash tk))"

lemma issued_at_later:
  assumes "issued_at env w0 es n tk" and "\<And>t i. e = Redeem_ticket t i \<Longrightarrow> is_ticket t \<Longrightarrow> hash_key env t \<noteq> tk_hash tk"
  shows "issued_at env w0 (es @ [e]) n tk"
proof -
  from assms(1) have n: "n < length es" and
    r: "\<And>m t i. n < m \<Longrightarrow> m < length es \<Longrightarrow> es ! m = Redeem_ticket t i \<Longrightarrow> is_ticket t \<Longrightarrow> hash_key env t \<noteq> tk_hash tk"
    by (auto simp: issued_at_def)
  have "hash_key env t \<noteq> tk_hash tk"
    if "n < m" "m < length (es @ [e])" "(es @ [e]) ! m = Redeem_ticket t i" "is_ticket t" for m t i
    using r [of m t i] assms(2) [of t i] that by (cases "m < length es") (simp_all add: nth_append less_Suc_eq)
  moreover have "(es @ [e]) ! n = es ! n" "take n (es @ [e]) = take n es" using n by (simp_all add: nth_append)
  ultimately show ?thesis using assms(1) n unfolding issued_at_def by auto
qed

lemma ticket_origin:
  assumes "worker_reach env w0" "ws_tickets w0 = []" "tk \<in> set (ws_tickets (after env w0 es))"
  shows "\<exists>n. issued_at env w0 es n tk"
  using assms(3)
proof (induction es arbitrary: tk rule: rev_induct)
  case Nil
  with assms(2) show ?case by simp
next
  case (snoc e es)
  let ?w = "after env w0 es"
  have s: "sound (access ?w)" using worker_sound [OF reach_after [OF assms(1)]] by blast
  have in': "tk \<in> set (ws_tickets (w_step env e ?w))" using snoc.prems by simp
  show ?case
  proof (cases "tk \<in> set (ws_tickets ?w)")
    case True
    with snoc.IH obtain n where n: "issued_at env w0 es n tk" by blast
    have "hash_key env t \<noteq> tk_hash tk" if "e = Redeem_ticket t i" "is_ticket t" for t i
      using in' that by (auto simp: redeem_tickets)
    with issued_at_later [OF n] show ?thesis by blast
  next
    case False
    obtain i u where e: "e = Issue_ticket i u"
      using in' False same_step [of e env ?w] by (cases e) (auto simp: redeem_tickets split: if_splits)
    obtain r w' where r: "issueStreamTicket env i u ?w = (r, w')" by fastforce
    from in' e r have "tk \<in> set (ws_tickets w')" by simp
    from issued [OF r this False s] e r have "issued_at env w0 (es @ [e]) (length es) tk"
      by (auto simp: issued_at_def)
    then show ?thesis ..
  qed
qed

text \<open>
  C34. A ticket opens one stream, once, for the user and the run it was issued for. In any history of
  the Worker, a ticket that is redeemed was issued, less than thirty seconds before, by a request of
  that user for that run; at that moment the user had the right to watch the run; and nobody redeemed
  the ticket in between.
\<close>

theorem stream_tickets_open_once:
  assumes "worker_reach env w0" and "ws_tickets w0 = []"
    and "fst (redeemStreamTicket env t i (after env w0 es)) = Inr (Some u)"
  shows "\<exists>n w. n < length es \<and> w = after env w0 (take n es) \<and> es ! n = Issue_ticket i (Some u) \<and>
    may_access w u i READ_SCANS \<and> worker_now (after env w0 es) < worker_now w + 30 \<and>
    (\<exists>ticket. fst (issueStreamTicket env i (Some u) w) = Inr ticket \<and> hash_key env ticket = hash_key env t) \<and>
    (\<forall>m t' i'. n < m \<and> m < length es \<and> es ! m = Redeem_ticket t' i' \<and> is_ticket t' \<longrightarrow> hash_key env t' \<noteq> hash_key env t)"
proof -
  let ?w = "after env w0 es"
  from assms(3) obtain tk where f: "find (\<lambda>tk. tk_hash tk = hash_key env t) (ws_tickets ?w) = Some tk"
    and tk: "tk_run tk = i" "tk_user tk = u" "worker_now ?w < tk_expires tk"
    by (auto simp: redeemStreamTicket_def bind_comp_def consumeStreamTicket_def ret_def worker_now_def
        split: if_splits option.splits)
  from find_Some [OF f] have "tk \<in> set (ws_tickets ?w)" and h: "tk_hash tk = hash_key env t" by auto
  from ticket_origin [OF assms(1,2) this(1)] obtain n where "issued_at env w0 es n tk" by blast
  with tk h show ?thesis
    by (auto simp: issued_at_def Let_def STREAM_TICKET_TTL_SECONDS_def intro!: exI [of _ n])
qed

end
