(* ===== verification/Worker_Queue.thy ===== *)
theory Worker_Queue
  imports Worker_Runners Lifecycle_Claims
begin

text \<open>
  What queueing a scan leaves behind, whether it succeeds or not, and that a queued scan reaches its
  user's runner.
\<close>

section \<open>Queueing\<close>

lemma createScanRecord_cases:
  assumes "createScanRecord env f i p t pr u w = (r, w1)"
  shows "w1 = w \<and> (\<exists>e. r = Inl e) \<or>
    (\<exists>ct cp. r = Inr () \<and> getScan (db (object w)) i = None \<and>
      w1 = w\<lparr>object := (object w)\<lparr>db := (db (object w))\<lparr>scans := scans (db (object w)) @
        [new_scan i p ct cp ''queued'' u ''manual'' (db_clock (db (object w)))]\<rparr>\<rparr>\<rparr>)"
proof -
  show ?thesis
  proof (cases "column_text env t \<noteq> None \<and> column_name env pr \<noteq> None \<and> \<not> insert_fails f \<and> \<not> scan_exists (db (object w)) i")
    case True
    then obtain ct cp where c: "column_text env t = Some ct" "column_name env pr = Some cp" "\<not> insert_fails f"
      "\<not> scan_exists (db (object w)) i" by auto
    then have "getScan (db (object w)) i = None" by (auto simp: getScan_def scan_exists_def find_None_iff list_ex_iff)
    with assms c show ?thesis by (auto simp: createScanRecord_def createScan_def)
  next
    case False
    then consider "column_text env t = None" | "column_name env pr = None" | "insert_fails f" | "scan_exists (db (object w)) i" by blast
    then have "w1 = w \<and> (\<exists>e. r = Inl e)"
      using assms by cases (auto simp: createScanRecord_def createScan_def split: option.splits if_splits)
    then show ?thesis by blast
  qed
qed

text \<open>What a computation that only reads the Worker's tables and draws random values may change.\<close>

definition keeps_object :: "(worker, 'a) comp \<Rightarrow> bool" where
  "keeps_object m = (\<forall>w r w'. m w = (r, w') \<longrightarrow> object w' = object w \<and> scan_queue w' = scan_queue w)"

named_theorems object_rules \<open>computations that keep the coordinator and the queue\<close>

lemma object_basic [object_rules]:
  "keeps_object (ret x)" "keeps_object (throw e)" "keeps_object (reads g)" "keeps_object (refuse_if b msg)"
  "keeps_object draw_one" "keeps_object (on_accounts m)" "keeps_object (on_access n)" "keeps_object (\<lambda>w. (h w, w))"
  by (auto simp: keeps_object_def ret_def throw_def reads_def refuse_if_def draw_one_def on_accounts_def on_access_def Let_def split: prod.splits if_splits)

lemma object_bind [object_rules]:
  "keeps_object m \<Longrightarrow> (\<And>x. keeps_object (f x)) \<Longrightarrow> keeps_object (bind_comp m f)"
  unfolding keeps_object_def bind_comp_def by (fastforce split: prod.splits sum.splits)

lemma object_if [object_rules]: "keeps_object m \<Longrightarrow> keeps_object n \<Longrightarrow> keeps_object (if b then m else n)"
  by simp

lemma object_permission: "keeps_object (queue_permission env b u anon)"
  unfolding queue_permission_def by (intro object_rules)

text \<open>
  A computation that ends in one of \<open>K\<close>: it throws before it changes the coordinator or the queue,
  or it goes on as one of them.
\<close>

definition ends_in :: "(worker, 'a) comp set \<Rightarrow> (worker, 'a) comp \<Rightarrow> bool" where
  "ends_in K m = (\<forall>w r w'. m w = (r, w') \<longrightarrow>
     (\<exists>e. r = Inl e) \<and> object w' = object w \<and> scan_queue w' = scan_queue w \<or>
     (\<exists>n w1. n \<in> K \<and> n w1 = (r, w') \<and> object w1 = object w \<and> scan_queue w1 = scan_queue w))"

lemma ends_here: "m \<in> K \<Longrightarrow> ends_in K m"
  by (auto simp: ends_in_def)

lemma ends_bind:
  assumes m: "keeps_object m" and f: "\<And>x. ends_in K (f x)"
  shows "ends_in K (bind_comp m f)"
  unfolding ends_in_def
proof (intro allI impI)
  fix w r w' assume run: "bind_comp m f w = (r, w')"
  obtain v w1 where v: "m w = (v, w1)" by fastforce
  with m have same: "object w1 = object w" "scan_queue w1 = scan_queue w" unfolding keeps_object_def by blast+
  show "(\<exists>e. r = Inl e) \<and> object w' = object w \<and> scan_queue w' = scan_queue w \<or>
     (\<exists>n w1. n \<in> K \<and> n w1 = (r, w') \<and> object w1 = object w \<and> scan_queue w1 = scan_queue w)"
  proof (cases v)
    case (Inl e)
    with run v same show ?thesis by (auto simp: bind_comp_def)
  next
    case (Inr x)
    with run v have "f x w1 = (r, w')" by (simp add: bind_comp_def)
    with f [of x] same show ?thesis unfolding ends_in_def by metis
  qed
qed

lemma ends_refuse: "(\<not> b \<Longrightarrow> ends_in K (f ())) \<Longrightarrow> ends_in K (bind_comp (refuse_if b msg) f)"
  by (cases b) (auto simp: ends_in_def bind_refuse)

text \<open>The last part of \<open>queueRun\<close>: the row, the configuration, the message.\<close>

definition enqueue_run :: "worker_env \<Rightarrow> faults \<Rightarrow> run_body \<Rightarrow> string option \<Rightarrow> string \<Rightarrow> string \<Rightarrow> (worker, string) comp" where
  "enqueue_run env f body userId key runId =
     bind_comp (createScanRecord env f runId (b_projectId body) (target_of (b_config body)) (profile_of (b_config body)) userId) (\<lambda>_.
     bind_comp (put_and_send env f runId (config_or_empty (b_config body)) (\<lambda>k. \<lparr>m_runId = runId, m_configKey = k, m_userPublicKey = key,
       m_target = target_of (b_config body), m_profile = profile_of (b_config body), m_projectId = b_projectId body, m_userId = userId\<rparr>)) (\<lambda>sent.
     if sent then ret runId
     else bind_comp (mark_not_queued f runId) (\<lambda>_. throw (Error ''Failed to queue scan|500''))))"

lemma queueRun_ends: "ends_in {enqueue_run env f b u key runId |key runId. isValidRunId runId} (queueRun env f b u web anon)"
  unfolding queueRun_def Let_def
  by (intro ends_bind ends_refuse ends_here object_rules object_permission) (auto simp: enqueue_run_def)

lemma getScan_map:
  assumes "\<And>x. s_id (g x) = s_id x"
  shows "getScan (d\<lparr>scans := map g (scans d)\<rparr>) i = map_option g (getScan d i)"
proof -
  have "find (\<lambda>s. s_id s = i) (map g xs) = map_option g (find (\<lambda>s. s_id s = i) xs)" for xs
    using assms by (induction xs) auto
  then show ?thesis by (simp add: getScan_def)
qed

lemma getScan_update_scans:
  "(\<And>x. s_id (g x) = s_id x) \<Longrightarrow>
   getScan (snd (update_scans P g d)) i = map_option (\<lambda>s. if P s then g s else s) (getScan d i)"
  unfolding update_scans_def snd_conv by (rule getScan_map) simp

lemma getScan_fire [simp]: "getScan (fire p e i d) j = getScan d j"
  by (simp add: fire_def getScan_def)

lemma getScan_updated:
  "getScan (updateScanStatus i st sm fr d) j = (if j = i then getScan (set_status i st sm fr d) i else getScan d j)"
proof -
  have "getScan (set_status i st sm fr d) j = getScan d j" if "j \<noteq> i"
  proof (cases "getScan d j")
    case (Some sc)
    with getScan_id have "s_id sc = j" by blast
    with that Some show ?thesis unfolding set_status_def by (subst getScan_update_scans) (auto simp: Let_def)
  qed (simp add: set_status_def getScan_update_scans Let_def)
  moreover have "getScan (updateScanStatus i st sm fr d) j = getScan (set_status i st sm fr d) j"
    by (simp add: updateScanStatus_def Let_def split: option.split)
  ultimately show ?thesis by simp
qed

lemma failed_row:
  assumes "getScan d i = Some sc"
  shows "\<exists>sc'. getScan (updateScanStatus i ''failed'' None (Some why) d) i = Some sc' \<and> s_status sc' = ''failed'' \<and> s_failure sc' = Some why"
  using assms getScan_id [OF assms] unfolding getScan_updated set_status_def
  by (simp, subst getScan_update_scans) (auto simp: Let_def)

text \<open>The only difference between two tables of scans: one more row.\<close>

definition one_more :: "scans_db \<Rightarrow> scans_db \<Rightarrow> string \<Rightarrow> scan_row \<Rightarrow> bool" where
  "one_more d d' i sc = (getScan d i = None \<and> getScan d' i = Some sc \<and> (\<forall>j. j \<noteq> i \<longrightarrow> getScan d' j = getScan d j))"

lemma one_more_created:
  assumes "getScan d i = None" "d' = d\<lparr>scans := scans d @ [new_scan i p t pr st u trig t0]\<rparr>"
  shows "one_more d d' i (new_scan i p t pr st u trig t0)"
proof -
  have "find (\<lambda>s. s_id s = i) (scans d) = None" using assms(1) by (simp add: getScan_def)
  then show ?thesis
    using assms by (auto simp: one_more_def getScan_def find_append new_scan_def split: option.split)
qed

lemma one_more_failed:
  assumes "one_more d d1 i sc"
  shows "\<exists>sc'. one_more d (updateScanStatus i ''failed'' None (Some why) d1) i sc' \<and> s_status sc' = ''failed'' \<and> s_failure sc' = Some why"
  using assms failed_row [of d1 i sc why] by (auto simp: one_more_def getScan_updated)

lemma put_and_send_cases:
  assumes "put_and_send env f i c msg w = (r, w1)" "isValidRunId i"
  shows "db (object w1) = db (object w) \<and>
    (r = Inr False \<and> scan_queue w1 = scan_queue w \<or>
     r = Inr True \<and> (\<exists>uuid. scan_queue w1 = scan_queue w @ [msg (scan_config_key i uuid)] \<and>
       map_of (r2 (object w1)) (scan_config_key i uuid) = Some (Document c)))"
  using assms by (auto simp: put_and_send_def bind_comp_def draw_one_def writeScanConfig_def Let_def split: if_splits)

text \<open>
  What a successful call leaves (\<open>queued\<close>): one new scan of the caller and the project asked for, its
  configuration stored under a key of the run, and one message naming run, key and user. What a failed
  one leaves (\<open>not_queued\<close>): no message, and no new scan but one marked failed with the reason the user
  is told, or one whose mark the database refused.
\<close>

definition queued :: "run_body \<Rightarrow> string option \<Rightarrow> string \<Rightarrow> worker \<Rightarrow> worker \<Rightarrow> bool" where
  "queued b u runId w w' = (\<exists>sc m. scan_queue w' = scan_queue w @ [m] \<and> m_runId m = runId \<and> m_userId m = u \<and>
     (\<exists>uuid. m_configKey m = scan_config_key runId uuid) \<and>
     map_of (r2 (object w')) (m_configKey m) = Some (Document (config_or_empty (b_config b))) \<and>
     one_more (db (object w)) (db (object w')) runId sc \<and>
     s_status sc = ''queued'' \<and> s_user sc = u \<and> s_project sc = b_projectId b)"

definition not_queued :: "faults \<Rightarrow> worker \<Rightarrow> worker \<Rightarrow> bool" where
  "not_queued f w w' = (scan_queue w' = scan_queue w \<and>
     (db (object w') = db (object w) \<or>
      (\<exists>i sc. one_more (db (object w)) (db (object w')) i sc \<and>
         (s_status sc = ''failed'' \<and> s_failure sc = Some SCAN_NOT_QUEUED \<or> status_unwritten f \<and> s_status sc = ''queued''))))"

text \<open>Both only look at the tables, the configurations and the queue.\<close>

lemma queued_from:
  assumes "object w1 = object w" "scan_queue w1 = scan_queue w"
  shows "queued b u i w1 w' = queued b u i w w'" "not_queued f w1 w' = not_queued f w w'"
  using assms by (simp_all add: queued_def not_queued_def)

text \<open>With the row in the table, the configuration is put and the message sent, or the row is marked.\<close>

lemma sent_or_marked:
  assumes one: "one_more (db (object w)) (db (object w2)) i sc" and q: "scan_queue w2 = scan_queue w"
    and sc: "s_status sc = ''queued''" "s_user sc = u" "s_project sc = b_projectId b"
    and msg: "\<And>k. m_runId (msg k) = i \<and> m_configKey (msg k) = k \<and> m_userId (msg k) = u" and i: "isValidRunId i"
    and run: "bind_comp (put_and_send env f i (config_or_empty (b_config b)) msg) (\<lambda>sent. if sent then ret i
      else bind_comp (mark_not_queued f i) (\<lambda>_. throw (Error ''Failed to queue scan|500''))) w2 = (r, w')"
  shows "case r of Inr j \<Rightarrow> queued b u j w w' | Inl e \<Rightarrow> not_queued f w w'"
proof -
  obtain rp w3 where p: "put_and_send env f i (config_or_empty (b_config b)) msg w2 = (rp, w3)" by fastforce
  note pc = put_and_send_cases [OF p i]
  show ?thesis
  proof (cases "rp = Inr True")
    case True
    with run p have "r = Inr i" "w' = w3" by (auto simp: bind_comp_def ret_def)
    with pc True one q sc msg show ?thesis by (auto simp: queued_def)
  next
    case False
    with pc have rp: "rp = Inr False" "db (object w3) = db (object w2)" "scan_queue w3 = scan_queue w2" by auto
    with run p have e: "r = Inl (Error ''Failed to queue scan|500'')" and w': "w' = snd (mark_not_queued f i w3)"
      by (auto simp: bind_comp_def mark_not_queued_def writes_def throw_def)
    from one_more_failed [OF one, of SCAN_NOT_QUEUED] one sc(1) have
      "\<exists>s. one_more (db (object w)) (db (object w')) i s \<and>
         (s_status s = ''failed'' \<and> s_failure s = Some SCAN_NOT_QUEUED \<or> status_unwritten f \<and> s_status s = ''queued'')"
      unfolding w' by (cases "status_unwritten f") (auto simp: mark_not_queued_def writes_def on_db_def rp)
    moreover have "scan_queue w' = scan_queue w" using w' q rp by (simp add: mark_not_queued_def writes_def)
    ultimately show ?thesis using e by (auto simp: not_queued_def)
  qed
qed

lemma enqueued_or_not:
  assumes "enqueue_run env f b u key i w = (r, w')" "isValidRunId i"
  shows "case r of Inr j \<Rightarrow> queued b u j w w' | Inl e \<Rightarrow> not_queued f w w'"
proof -
  obtain rc w2 where c: "createScanRecord env f i (b_projectId b) (target_of (b_config b)) (profile_of (b_config b)) u w = (rc, w2)"
    by fastforce
  from createScanRecord_cases [OF c] consider (no) "w2 = w" "\<exists>e. rc = Inl e"
    | (row) ct cp where "rc = Inr ()" "getScan (db (object w)) i = None"
      "w2 = w\<lparr>object := (object w)\<lparr>db := (db (object w))\<lparr>scans := scans (db (object w)) @
        [new_scan i (b_projectId b) ct cp ''queued'' u ''manual'' (db_clock (db (object w)))]\<rparr>\<rparr>\<rparr>" by blast
  then show ?thesis
  proof cases
    case no
    with assms c show ?thesis by (auto simp: enqueue_run_def bind_comp_def not_queued_def)
  next
    case row
    have one: "one_more (db (object w)) (db (object w2)) i (new_scan i (b_projectId b) ct cp ''queued'' u ''manual'' (db_clock (db (object w))))"
      using one_more_created [OF row(2)] row(3) by simp
    show ?thesis
      by (rule sent_or_marked [OF one _ _ _ _ _ assms(2)])
        (use assms(1) c row in \<open>auto simp: enqueue_run_def bind_comp_def new_scan_def\<close>)
  qed
qed


section \<open>Delivering\<close>

lemma close_reads:
  "tags_of (close_ws x s) r = tags_of s r" "att_of (close_ws x s) r = att_of s r" "r \<noteq> x \<Longrightarrow> can_send (close_ws x s) r = can_send s r"
  by (auto simp: close_ws_def set_socket_def tags_of_def att_of_def can_send_def socket_of_def split: option.split)

lemma drop_reads:
  "tags_of (drop_runner x s) r = tags_of s r" "att_of (drop_runner x s) r = att_of s r" "can_send (drop_runner x s) r = can_send s r"
  by (simp_all add: drop_runner_def drop_jobs_of_def tags_of_def att_of_def can_send_def socket_of_def)

lemma prune_reads:
  "tags_of (pruneDeadRunners s) r = tags_of s r" "att_of (pruneDeadRunners s) r = att_of s r"
  "\<not> isHeartbeatExpired s r \<Longrightarrow> can_send (pruneDeadRunners s) r = can_send s r"
proof -
  have one: "tags_of (prune_one x s) r = tags_of s r" "att_of (prune_one x s) r = att_of s r"
    "\<not> isHeartbeatExpired s r \<Longrightarrow> can_send (prune_one x s) r = can_send s r" for x s
    by (cases "x = r"; auto simp: prune_one_def close_reads drop_reads)+
  have "tags_of (fold prune_one xs s) r = tags_of s r \<and> att_of (fold prune_one xs s) r = att_of s r \<and>
      (\<not> isHeartbeatExpired s r \<longrightarrow> can_send (fold prune_one xs s) r = can_send s r)" for xs
    by (induction xs arbitrary: s) (auto simp: one expired_prune_one)
  then show "tags_of (pruneDeadRunners s) r = tags_of s r" "att_of (pruneDeadRunners s) r = att_of s r"
    "\<not> isHeartbeatExpired s r \<Longrightarrow> can_send (pruneDeadRunners s) r = can_send s r"
    unfolding pruneDeadRunners_def by blast+
qed

lemma prune_fields:
  "runners (pruneDeadRunners s) = filter (\<lambda>r. \<not> isHeartbeatExpired s r) (runners s)" "db (pruneDeadRunners s) = db s"
  using prune_fold [of "runners s @ jkeys (pendingChallenges s)" s] by (auto simp: pruneDeadRunners_def intro!: filter_cong)

text \<open>Only the sockets, the clock and the lists of runners matter to these readings.\<close>

lemma put_reads [simp]:
  "tags_of (put k v s) = tags_of s" "att_of (put k v s) = att_of s" "can_send (put k v s) = can_send s"
  "isHeartbeatExpired (put k v s) = isHeartbeatExpired s" "runners (put k v s) = runners s" "jobs (put k v s) = jobs s"
  "hasCapacity (put k v s) = hasCapacity s" "d1_down (put k v s) = d1_down s"
  by (auto simp: fun_eq_iff put_def tags_of_def att_of_def can_send_def socket_of_def isHeartbeatExpired_def hasCapacity_def
      split: raw_attachment.splits option.splits)

lemma capacity_of: "att_of s r = att_of s' r \<Longrightarrow> hasCapacity s r = hasCapacity s' r"
  by (simp add: hasCapacity_def)

text \<open>A runner of the user the coordinator can give a scan to.\<close>

definition ready_for :: "coord \<Rightarrow> string option \<Rightarrow> nat \<Rightarrow> bool" where
  "ready_for s u r = (r \<in> set (runners s) \<and> \<not> isHeartbeatExpired s r \<and> \<not> isSharedRunner s r \<and> isRunnerOwnedBy (tags_of s r) u)"

lemma own_runner_chosen:
  assumes "\<not> auth_disabled env" "given (p_userId p)" "ready_for s (p_userId p) r" "hasCapacity s r"
    and x: "x = pruneDeadRunners s"
  shows "\<exists>q. choose_runner env p config x = Some q \<and> ready_for s (p_userId p) q \<and> hasCapacity s q"
proof -
  let ?own = "filter (\<lambda>r. \<not> isSharedRunner x r \<and> isRunnerOwnedBy (tags_of x r) (p_userId p)) (runners x)"
  have own: "set ?own = {q. ready_for s (p_userId p) q}"
    unfolding x by (auto simp: prune_fields prune_reads ready_for_def isSharedRunner_def)
  have cap: "hasCapacity x q = hasCapacity s q" for q unfolding x by (rule capacity_of) (rule prune_reads)
  from own assms(3) have r: "r \<in> set ?own" by simp
  with assms(4) cap obtain q where q: "find (hasCapacity x) ?own = Some q"
    by (cases "find (hasCapacity x) ?own") (auto simp: find_None_iff)
  from find_Some [OF q] own cap have "ready_for s (p_userId p) q" "hasCapacity s q" by auto
  moreover have "choose_runner env p config x = Some q"
    using q assms(1,2) r by (simp add: choose_runner_def Let_def)
  ultimately show ?thesis by blast
qed

lemma assign_sends:
  assumes "hasCapacity s r" "can_send s r"
  shows "\<exists>s1 k. assign_run r i m s = (True, s1) \<and> socket_of s1 r = Some k \<and> m \<in> set (outbox k) \<and>
    tags k = tags_of s r \<and> db s1 = db s \<and> map_of (jobs s1) i = Some r"
proof -
  from assms(2) obtain k where k: "socket_of s r = Some k" "is_open k" by (auto simp: can_send_def split: option.splits)
  from assms(1) obtain a where a: "read_att s r = Some a" by (auto simp: hasCapacity_def read_att_def split: raw_attachment.splits)
  show ?thesis
    using a k assms(2)
    by (auto simp: assign_run_def Let_def send_def can_send_def set_job_def set_att_def set_socket_def socket_of_def tags_of_def)
qed

lemma leftovers_fields [simp]:
  "socket_of (delete_config ref s) = socket_of s" "jobs (delete_config ref s) = jobs s" "db (delete_config ref s) = db s"
  "socket_of (clearScanState i s) = socket_of s" "jobs (clearScanState i s) = jobs s" "db (clearScanState i s) = db s"
  "socket_of (recordJobRunner i who s) = socket_of s" "jobs (recordJobRunner i who s) = jobs s" "db (recordJobRunner i who s) = db s"
  "socket_of (on_db g s) = socket_of s" "jobs (on_db g s) = jobs s" "db (on_db g s) = g (db s)"
  by (auto simp: fun_eq_iff delete_config_def clearScanState_def del_keys_def recordJobRunner_def put_def on_db_def socket_of_def split: option.split)

lemma ready_put [simp]: "ready_for (put k v s) u r = ready_for s u r"
  by (simp add: ready_for_def isSharedRunner_def)

lemma dispatch_finds_runner:
  assumes "\<not> auth_disabled env" "given (p_userId p)" "ready_for s (p_userId p) r" "hasCapacity s r"
    and send: "\<And>q. ready_for s (p_userId p) q \<Longrightarrow> can_send s q"
  shows "\<exists>s' q k. dispatch_to_runner env p config s = ((200, ''Dispatched''), s') \<and> ready_for s (p_userId p) q \<and>
    socket_of s' q = Some k \<and>
    Job_dispatch (p_runId p) (configForRunner config (tags k) (ALLOW_PRIVATE_IPS env)) (key_of p) \<in> set (outbox k) \<and>
    map_of (jobs s') (p_runId p) = Some q \<and> db s' = db s"
proof -
  define x where "x = pruneDeadRunners s"
  from own_runner_chosen [OF assms(1-4) x_def] obtain q where
    q: "choose_runner env p config x = Some q" "ready_for s (p_userId p) q" "hasCapacity s q" by blast
  have alive: "\<not> isHeartbeatExpired s q" "q \<in> set (runners s)" using q(2) by (auto simp: ready_for_def)
  have cap: "hasCapacity x q" using q(3) capacity_of [of x q s] by (simp add: x_def prune_reads)
  have cs: "can_send x q" using send [OF q(2)] alive by (simp add: x_def prune_reads)
  have ne: "runners x \<noteq> []" using alive by (auto simp: x_def prune_fields filter_empty_conv)
  let ?m = "Job_dispatch (p_runId p) (configForRunner config (tags_of x q) (ALLOW_PRIVATE_IPS env)) (key_of p)"
  from assign_sends [OF cap cs, of "p_runId p" ?m] obtain s1 k where
    s1: "assign_run q (p_runId p) ?m x = (True, s1)" "socket_of s1 q = Some k" "?m \<in> set (outbox k)" "tags k = tags_of x q"
    "db s1 = db x" "map_of (jobs s1) (p_runId p) = Some q" by blast
  let ?s' = "delete_config (p_configKey p) (clearScanState (p_runId p) (recordJobRunner (p_runId p) (runnerIdentity (tags_of x q)) s1))"
  have run: "dispatch_to_runner env p config s = ((200, ''Dispatched''), ?s')"
    using q(1) ne s1(1) by (simp add: dispatch_to_runner_def Let_def x_def [symmetric])
  have "db x = db s" by (simp add: x_def prune_fields)
  with s1 have "socket_of ?s' q = Some k" "db ?s' = db s" "map_of (jobs ?s') (p_runId p) = Some q"
    "Job_dispatch (p_runId p) (configForRunner config (tags k) (ALLOW_PRIVATE_IPS env)) (key_of p) \<in> set (outbox k)" by simp_all
  with run q(2) show ?thesis by blast
qed

text \<open>
  C14. A queued scan reaches its user's runner. When a message of the queue is delivered while the
  tables and R2 answer, the scan still waits, its configuration is there, and some live runner of its
  user has a free slot, then a runner of that user is sent the scan with the stored configuration as
  that runner may have it, the coordinator knows which one holds it, the row says dispatched, and the
  message is gone from the queue.
\<close>

theorem queued_scans_reach_their_runner:
  assumes "i < length (scan_queue w)" and "m = scan_queue w ! i" and "m_runId m \<noteq> []"
    and "\<not> auth_disabled (obj_env env)" and "given (m_userId m)"
    and "isScanConfigKeyForRun (m_configKey m) (m_runId m)"
    and "map_of (r2 (object w)) (m_configKey m) = Some (Document c)"
    and "\<not> r2_down (object w)" and "\<not> d1_down (object w)"
    and "getScanStatus (db (object w)) (m_runId m) = Some ''queued''" and "\<not> has_job (object w) (m_runId m)"
    and "ready_for (object w) (m_userId m) r" and "hasCapacity (object w) r"
    and "\<And>q. ready_for (object w) (m_userId m) q \<Longrightarrow> can_send (object w) q"
    and "w' = deliver_scan env False i w"
  shows "\<exists>q k. ready_for (object w) (m_userId m) q \<and> socket_of (object w') q = Some k \<and>
    Job_dispatch (m_runId m) (configForRunner c (tags k) (ALLOW_PRIVATE_IPS (obj_env env))) (m_userPublicKey m) \<in> set (outbox k) \<and>
    map_of (jobs (object w')) (m_runId m) = Some q \<and>
    getScanStatus (db (object w')) (m_runId m) = Some ''dispatched'' \<and>
    scan_queue w' = take i (scan_queue w) @ drop (Suc i) (scan_queue w)"
proof -
  let ?p = "dispatch_body_of m" and ?e = "obj_env env" and ?s = "object w"
  define s1 where "s1 = put (user_key_key (m_runId m)) (St_text (m_userPublicKey m))
    (put (config_meta_key (m_runId m)) (St_meta (refuses_shared c)) (put (config_ref_key (m_runId m)) (St_text (m_configKey m)) ?s))"
  have u: "p_userId ?p = m_userId m" and k: "key_of ?p = m_userPublicKey m" "given (p_configKey ?p)"
    using assms(5,6) by (auto simp: dispatch_body_of_def or_else_def given_def key_of_def isScanConfigKeyForRun_def isValidScanConfigKey_def
        starts_with_def SCAN_CONFIG_PREFIX_def)
  have conf: "getScanConfig (r2_down ?s) (r2 ?s) (m_configKey m) = Inr c"
    using assms(6-8) by (simp add: getScanConfig_def isScanConfigKeyForRun_def)
  from dispatch_finds_runner [of ?e ?p s1 r c] assms(4,5,12-14) obtain s' q k' where
    d: "dispatch_to_runner ?e ?p c s1 = ((200, ''Dispatched''), s')" "ready_for ?s (m_userId m) q" "socket_of s' q = Some k'"
      "Job_dispatch (m_runId m) (configForRunner c (tags k') (ALLOW_PRIVATE_IPS ?e)) (m_userPublicKey m) \<in> set (outbox k')"
      "map_of (jobs s') (m_runId m) = Some q" "db s' = db s1"
    unfolding s1_def by (auto simp: u k dispatch_body_of_def [of m, THEN arg_cong [where f = p_runId], simplified])
  have "DispatchHandler ?e undisturbed (Some ?p) ?s = ((200, ''Dispatched''), s')"
    using d(1) k conf assms(6,9-11)
    by (simp add: DispatchHandler_def check_and_dispatch_def undisturbed_def Let_def s1_def dispatch_body_of_def has_job_def)
  then have "consume_scan env False m w = (Inr True, w\<lparr>object := on_db (updateScanStatus (m_runId m) ''dispatched'' None None) s'\<rparr>)"
    by (simp add: consume_scan_def bind_comp_def ask_def)
  then have w': "w' = w\<lparr>object := on_db (updateScanStatus (m_runId m) ''dispatched'' None None) s',
      scan_queue := take i (scan_queue w) @ drop (Suc i) (scan_queue w)\<rparr>"
    using assms(1,2,15) by (simp add: deliver_scan_def)
  from assms(10) obtain sc where "getScan (db ?s) (m_runId m) = Some sc" by (auto simp: getScanStatus_def)
  then have "getScanStatus (updateScanStatus (m_runId m) ''dispatched'' None None (db s')) (m_runId m) = Some ''dispatched''"
    using getScan_id [of "db ?s" "m_runId m" sc] d(6)
    by (simp add: getScanStatus_def getScan_updated set_status_def s1_def put_def) (subst getScan_update_scans; simp add: Let_def)
  with d w' show ?thesis by auto
qed

end
