(* ===== verification/Worker_Claims.thy ===== *)
theory Worker_Claims
  imports Worker_Tickets Worker_Queue Coord_Claims
begin

text \<open>
  A deployment to run the Worker on (one user with an API key, a public key and a runner), the
  promise the Worker keeps to the coordinator, and runs that meet the hypotheses of the properties of
  \<open>Worker_Runners\<close>, \<open>Worker_Tickets\<close> and \<open>Worker_Queue\<close>.
\<close>

section \<open>A deployment\<close>

definition ann_account :: account_row where
  "ann_account = \<lparr>u_id = ''ann'', u_name = ''ann'', u_password = [], u_email = None, u_email_verified = True,
     u_api_key = Some ''h:swazz_live_a'', u_public_key = Some (replicate 64 (CHR ''b'')), u_delete_at = None, u_2fa = False,
     u_2fa_secret = None, u_2fa_counter = None, u_interactive = True, u_plan = []\<rparr>"

definition ann_accounts :: auth_db where
  "ann_accounts = \<lparr>users = [ann_account], login_challenges = [], login_attempts = [], rate_limits = [], login_history = [],
     spent_challenges = [], session_cache = [], clock_ms = 1000000, drawn = 0\<rparr>"

definition no_projects :: rbac where
  "no_projects = \<lparr>rbac.users = [], projects = [], members = [], member_roles = [], custom_roles = [], role_perms = [],
     inheritance = [], invitations = [], kv_bound = True, kv = [], neg = [], clock = 1000000\<rparr>"

lemma no_projects_sound: "sound no_projects"
proof -
  have "coherent no_projects" by (rule coherent_empty) (simp_all add: no_projects_def)
  moreover have "wf_tables no_projects" by (auto simp: wf_tables_def role_ids_def no_projects_def)
  ultimately show ?thesis by (simp add: sound_def)
qed

definition demo_worker_env :: worker_env where
  "demo_worker_env = \<lparr>obj_env = demo_env, SHARED_RUNNER_TOKEN = None, LIMIT_ANONYMOUS = None, hash_key = (\<lambda>k. ''h:'' @ k),
     random_id = (\<lambda>n. replicate 36 (CHR ''0'')), random_hex = (\<lambda>n. replicate 64 (CHR ''a'')),
     column_text = (\<lambda>v. case v of JStr t \<Rightarrow> Some t | _ \<Rightarrow> None), column_name = (\<lambda>v. Some ''default'')\<rparr>"

definition demo_worker :: worker where
  "demo_worker = new_worker ann_accounts no_projects [] empty_tables 1000000"

lemma demo_worker_reach: "worker_reach demo_worker_env demo_worker"
  unfolding demo_worker_def by (rule worker_reach.init) (simp_all add: empty_tables_def no_projects_sound)

definition no_faults :: faults where
  "no_faults = \<lparr>key_unread = False, insert_fails = False, config_unwritten = False, queue_fails = False, status_unwritten = False\<rparr>"

definition run_a :: run_body where
  "run_a = \<lparr>b_runId = Some ''runa'', b_projectId = [], b_config = Some (JObj [(units ''base_url'', JStr (units ''https://t''))])\<rparr>"

definition plain_query :: connect_params where
  "plain_query = \<lparr>c_publicKey = None, c_shared = True, c_userId = Some ''bob'', c_name = None, c_version = None,
     c_heartbeat = True, c_resume = None\<rparr>"

definition queue_a :: worker_event where "queue_a = Queue_run no_faults run_a (Some ''ann'') False False"
definition ann_runner :: worker_event where "ann_runner = Runner_connects True (Some ''swazz_live_a'') None plain_query"

definition waiting_a :: worker where "waiting_a = after demo_worker_env demo_worker [ann_runner, queue_a]"
definition running_a :: worker where "running_a = after demo_worker_env demo_worker [ann_runner, queue_a, Deliver_scan False 0]"

lemma demo_reaches: "worker_reach demo_worker_env waiting_a" "worker_reach demo_worker_env running_a"
  unfolding waiting_a_def running_a_def by (rule reach_after [OF demo_worker_reach])+

section \<open>The promise\<close>


definition ann_socket :: socket where "ann_socket = only_socket (object running_a)"

lemma ann_socket_in: "(fst (hd (sockets (object running_a))), ann_socket) \<in> set (sockets (object running_a))"
proof -
  have "sockets (object running_a) \<noteq> []" by code_simp
  then show ?thesis by (simp add: ann_socket_def only_socket_def)
qed


section \<open>Runs of the other properties\<close>

text \<open>Ann's runner claims to be a shared one of bob's; it is taken for what its key says.\<close>

theorem runners_connect_as_their_account_witness:
  "\<exists>w' k. connect demo_worker_env True (Some ''swazz_live_a'') None plain_query demo_worker = (Inr (101, []), w') \<and>
     socket_of (object w') 0 = Some k \<and> \<not> isSharedRunnerTags (tags k) \<and> getRunnerOwnerId (tags k) = Some ''ann''"
proof -
  obtain r w' where run: "connect demo_worker_env True (Some ''swazz_live_a'') None plain_query demo_worker = (r, w')" by fastforce
  have "fst (connect demo_worker_env True (Some ''swazz_live_a'') None plain_query demo_worker) = Inr (101, [])" by code_simp
  with run have r: "r = Inr (101, [])" by simp
  have "socket_of (object (snd (connect demo_worker_env True (Some ''swazz_live_a'') None plain_query demo_worker))) 0 \<noteq> None" by code_simp
  with run obtain k where k: "socket_of (object w') (next_socket (object demo_worker)) = Some k"
    by (auto simp: demo_worker_def new_worker_def new_object_def)
  have sh: "map_option (\<lambda>k. isSharedRunnerTags (tags k))
      (socket_of (object (snd (connect demo_worker_env True (Some ''swazz_live_a'') None plain_query demo_worker))) 0) = Some False"
    by code_simp
  have d: "distinct (map u_id (Auth_Db.users (accounts demo_worker)))" by code_simp
  have h: "\<forall>u \<in> set (Auth_Db.users (accounts demo_worker)). \<forall>k. u_public_key u = Some k \<longrightarrow> hex_key k"
  proof -
    have "hex_key (replicate 64 (CHR ''b''))" by code_simp
    then show ?thesis by (simp add: demo_worker_def new_worker_def ann_accounts_def ann_account_def)
  qed
  have a: "\<not> auth_disabled (obj_env demo_worker_env)" by code_simp
  have n: "\<not> isSharedRunnerTags (tags k)" using sh run k by (simp add: demo_worker_def new_worker_def new_object_def)
  from runners_connect_as_their_account [OF demo_worker_reach d h a run [unfolded r] k] n
  have "getRunnerOwnerId (tags k) = Some ''ann''"
    by (auto simp: demo_worker_def new_worker_def ann_accounts_def ann_account_def)
  with run r k n show ?thesis by (auto simp: demo_worker_def new_worker_def new_object_def)
qed

theorem runs_are_used_by_right_only_witness:
  "getScanStatus (db (object (w_step demo_worker_env (Stop_run ''runa'' (Some ''ann'')) waiting_a))) ''runa'' = Some ''failed'' \<and>
   may_access waiting_a ''ann'' ''runa'' WRITE_SCANS"
proof -
  let ?w = "w_step demo_worker_env (Stop_run ''runa'' (Some ''ann'')) waiting_a"
  have st: "getScanStatus (db (object ?w)) ''runa'' = Some ''failed''" "getScanStatus (db (object waiting_a)) ''runa'' = Some ''queued''"
    by code_simp+
  then have "\<not> untouched waiting_a ?w" by (auto simp: untouched_def)
  moreover have "AUTH_ENABLED (obj_env demo_worker_env) = Some ''true''" by code_simp
  ultimately have "may_access waiting_a ''ann'' ''runa'' WRITE_SCANS"
    using runs_are_used_by_right_only [OF demo_reaches(1), of "Stop_run ''runa'' (Some ''ann'')" "''runa''" "Some ''ann''" WRITE_SCANS] by simp
  with st show ?thesis by simp
qed

definition watched_ticket :: "int \<Rightarrow> worker_event list" where
  "watched_ticket ms = [queue_a, Issue_ticket ''runa'' (Some ''ann''), Clock ms]"

definition redeemed_after :: "int \<Rightarrow> string option res" where
  "redeemed_after ms = fst (redeemStreamTicket demo_worker_env (replicate 64 (CHR ''a'')) ''runa''
     (after demo_worker_env demo_worker (watched_ticket ms)))"

theorem stream_tickets_open_once_witness:
  "redeemed_after 29000 = Inr (Some ''ann'') \<and> redeemed_after 30000 = Inr None \<and>
   (\<exists>n < 3. may_access (after demo_worker_env demo_worker (take n (watched_ticket 29000))) ''ann'' ''runa'' READ_SCANS)"
proof -
  have r: "redeemed_after 29000 = Inr (Some ''ann'')" "redeemed_after 30000 = Inr None" by code_simp+
  have e: "ws_tickets demo_worker = []" by (simp add: demo_worker_def new_worker_def)
  from stream_tickets_open_once [OF demo_worker_reach e r(1) [unfolded redeemed_after_def]]
  obtain n where "n < length (watched_ticket 29000)"
    "may_access (after demo_worker_env demo_worker (take n (watched_ticket 29000))) ''ann'' ''runa'' READ_SCANS" by blast
  moreover have "length (watched_ticket 29000) = 3" by (simp add: watched_ticket_def)
  ultimately show ?thesis using r by auto
qed

theorem queued_scans_reach_their_runner_witness:
  "\<exists>q k m c. socket_of (object (deliver_scan demo_worker_env False 0 waiting_a)) q = Some k \<and>
     Job_dispatch ''runa'' (configForRunner c (tags k) None) m \<in> set (outbox k) \<and> jprop c ''base_url'' = Some (JStr (units ''https://t''))"
proof -
  let ?w = waiting_a and ?m = "scan_queue waiting_a ! 0" and ?c = "JObj [(units ''base_url'', JStr (units ''https://t''))]"
  have f: "0 < length (scan_queue ?w)" "m_runId ?m = ''runa''" "\<not> auth_disabled (obj_env demo_worker_env)" "m_userId ?m = Some ''ann''"
    "isScanConfigKeyForRun (m_configKey ?m) (m_runId ?m)" "map_of (r2 (object ?w)) (m_configKey ?m) = Some (Document ?c)"
    "\<not> r2_down (object ?w)" "\<not> d1_down (object ?w)" "getScanStatus (db (object ?w)) (m_runId ?m) = Some ''queued''"
    "\<not> has_job (object ?w) (m_runId ?m)" "ready_for (object ?w) (Some ''ann'') 0" "hasCapacity (object ?w) 0" "can_send (object ?w) 0"
    "runners (object ?w) = [0]" "ALLOW_PRIVATE_IPS (obj_env demo_worker_env) = None"
    by code_simp+
  have "given (m_userId ?m)" using f(4) by (simp add: given_def)
  moreover have "\<And>q. ready_for (object ?w) (m_userId ?m) q \<Longrightarrow> can_send (object ?w) q"
    using f(13,14) by (auto simp: ready_for_def)
  ultimately obtain q k where
    "socket_of (object (deliver_scan demo_worker_env False 0 ?w)) q = Some k"
    "Job_dispatch ''runa'' (configForRunner ?c (tags k) None) (m_userPublicKey ?m) \<in> set (outbox k)"
    using queued_scans_reach_their_runner [of 0 ?w ?m demo_worker_env ?c 0] f by auto
  moreover have "jprop ?c ''base_url'' = Some (JStr (units ''https://t''))" by code_simp
  ultimately show ?thesis by blast
qed

end
