(* ===== verification/Schedule_Claims.thy ===== *)
theory Schedule_Claims
  imports Scheduler
begin

text \<open>What cron expressions mean, and how often an accepted schedule can start a scan.\<close>

section \<open>One value per field\<close>

lemma digits_no_sign: "list_all is_digit s \<Longrightarrow> c \<in> set s \<Longrightarrow> is_digit c"
  by (simp add: list_all_iff)

lemma digit_facts:
  "\<not> is_digit (CHR '','')" "\<not> is_digit (CHR ''/'')" "\<not> is_digit (CHR ''-'')" "\<not> is_digit (CHR ''*'')" "\<not> is_digit (CHR ''+'')"
  by code_simp+

lemma parse_digits:
  assumes "s \<noteq> []" "list_all is_digit s"
  shows "parse_int s = Some (int (dec_val s))"
proof -
  from assms obtain c cs where s: "s = c # cs" "is_digit c" "list_all is_digit cs" by (cases s) auto
  have "trim_start s = s" using s digit_not_ws by (simp add: trim_start_def)
  moreover have "c \<noteq> CHR ''-''" "c \<noteq> CHR ''+''" using s(2) digit_facts by auto
  moreover have tw: "takeWhile is_digit cs = cs" using s(3) by (simp add: takeWhile_eq_all_conv list_all_iff)
  ultimately show ?thesis using s by (simp add: parse_int_def Let_def tw)
qed

lemma single_value_matches:
  assumes "single_value s limit"
  shows "matchCronField s v lo hi \<longleftrightarrow> v = int (dec_val s)"
proof -
  from assms have d: "s \<noteq> []" "list_all is_digit s" by (simp_all add: single_value_def)
  then have no: "CHR '','' \<notin> set s" "CHR ''/'' \<notin> set s" "CHR ''-'' \<notin> set s" "s \<noteq> ''*''"
    using digit_facts digits_no_sign by auto
  have "cron_part s v lo hi \<longleftrightarrow> v = int (dec_val s)"
    using no parse_digits [OF d]
    by (auto simp: cron_part_def split_on_no_sep cron_range_def cron_step_def Let_def)
  with no show ?thesis by (simp add: matchCronField_def split_on_no_sep)
qed

lemma minute_of_day:
  assumes "t1 div day_ms = t2 div day_ms" "utc_minute t1 = utc_minute t2" "utc_hour t1 = utc_hour t2"
  shows "t1 div 60000 = t2 div 60000"
proof -
  have "t div 60000 = 1440 * (t div day_ms) + 60 * utc_hour t + utc_minute t" for t :: int
  proof -
    have "t div 3600000 = t div 60000 div 60" "t div day_ms = t div 60000 div 60 div 24"
      by (simp_all add: day_ms_def zdiv_zmult2_eq [symmetric])
    moreover have "x = 60 * (x div 60) + x mod 60" "x div 60 = 24 * (x div 60 div 24) + x div 60 mod 24" for x :: int by simp_all
    ultimately show ?thesis unfolding utc_hour_def utc_minute_def by presburger
  qed
  with assms show ?thesis by simp
qed

text \<open>
  C35. An accepted schedule starts at most one scan a day. If a schedule the settings accept ran at one
  time, a pass the same UTC day finds it due again only within the same minute, and then only
  fifty seconds or more later.
\<close>

theorem schedules_run_at_most_daily:
  assumes "accepted_schedule cron = Inr ()" and "sch_cron s = Some cron" and "cronMatches cron t1"
    and "sch_last_run s = Some t1" and "is_due t2 s" and "t1 div day_ms = t2 div day_ms"
  shows "t1 div 60000 = t2 div 60000 \<and> 50000 \<le> t2 - t1"
proof -
  from assms(2,4,5) have two: "cronMatches cron t2" "50000 \<le> t2 - t1" by (auto simp: is_due_def)
  from assms(3) obtain mi h a b c where f: "split_ws (trim cron) = [mi, h, a, b, c]"
    by (auto simp: cronMatches_def split: list.splits)
  have "cron \<noteq> []"
  proof
    assume "cron = []"
    with f show False by (simp add: trim_def trim_start_def trim_end_def split_ws.simps)
  qed
  with assms(1) f have v: "single_value mi 59" "single_value h 23"
    by (auto simp: accepted_schedule_def split: if_splits)
  from assms(3) two(1) f single_value_matches [OF v(1)] single_value_matches [OF v(2)]
  have "utc_minute t1 = utc_minute t2" "utc_hour t1 = utc_hour t2" by (auto simp: cronMatches_def)
  with minute_of_day [OF assms(6)] two(2) show ?thesis by simp
qed

definition nightly :: schedule_row where
  "nightly = \<lparr>sch_id = ''s1'', sch_project = ''p1'', sch_name = ''default'', sch_cron = Some ''30 02 * * 1-5'', sch_last_run = Some 1709173800000\<rparr>"

theorem schedules_run_at_most_daily_witness:
  "is_due 1709173855000 nightly \<and> (1709173800000 :: int) div 60000 = 1709173855000 div 60000 \<and> \<not> is_due 1709173840000 nightly"
proof -
  have d: "is_due 1709173855000 nightly" "\<not> is_due 1709173840000 nightly" by code_simp+
  have a: "accepted_schedule ''30 02 * * 1-5'' = Inr ()" "cronMatches ''30 02 * * 1-5'' 1709173800000" by code_simp+
  have "sch_cron nightly = Some ''30 02 * * 1-5''" "sch_last_run nightly = Some 1709173800000" by (simp_all add: nightly_def)
  from schedules_run_at_most_daily [OF a(1) this(1) a(2) this(2) d(1)] d show ?thesis by (simp add: day_ms_def)
qed

section \<open>The language of fields\<close>

datatype cron_span = Every | At nat | Span nat nat

type_synonym cron_item = "cron_span \<times> nat option"

fun show_span :: "cron_span \<Rightarrow> string" where
  "show_span Every = ''*''"
| "show_span (At n) = show_nat n"
| "show_span (Span a b) = show_nat a @ ''-'' @ show_nat b"

definition show_item :: "cron_item \<Rightarrow> string" where
  "show_item it = show_span (fst it) @ (case snd it of None \<Rightarrow> [] | Some n \<Rightarrow> CHR ''/'' # show_nat n)"

definition show_field :: "cron_item list \<Rightarrow> string" where
  "show_field its = join '','' (map show_item its)"

text \<open>The values an item stands for, in a field whose values run from \<open>lo\<close> to \<open>hi\<close>.\<close>

fun span_of :: "cron_span \<Rightarrow> int \<Rightarrow> int \<Rightarrow> int \<times> int" where
  "span_of Every lo hi = (lo, hi)"
| "span_of (At n) lo hi = (int n, int n)"
| "span_of (Span a b) lo hi = (int a, int b)"

definition stands_for :: "cron_item \<Rightarrow> int \<Rightarrow> int \<Rightarrow> int \<Rightarrow> bool" where
  "stands_for it v lo hi =
     (it = (Every, None) \<or>
      (let (a, b) = span_of (fst it) lo hi; n = (case snd it of None \<Rightarrow> 1 | Some n \<Rightarrow> n)
       in \<exists>k. n \<noteq> 0 \<and> v = a + int k * int n \<and> v \<le> b))"

lemma show_nat_digits: "list_all is_digit (show_nat n)" "show_nat n \<noteq> []" "dec_val (show_nat n) = n"
  by (auto simp: show_nat_def list_all_iff dec_val_nat_digits intro: nat_digits_is_digit)

lemma show_nat_free: "\<not> is_digit c \<Longrightarrow> c \<notin> set (show_nat n)"
  using show_nat_digits(1) by (auto simp: list_all_iff)

lemma parse_shown: "parse_int (show_nat n) = Some (int n)"
  using parse_digits [OF show_nat_digits(2,1)] show_nat_digits(3) by simp

lemma span_free: "CHR ''/'' \<notin> set (show_span sp)" "CHR '','' \<notin> set (show_span sp)"
  by (cases sp; simp add: show_nat_free digit_facts)+

lemma item_free: "CHR '','' \<notin> set (show_item it)"
  by (auto simp: show_item_def span_free show_nat_free digit_facts split: option.split)

lemma range_of_span: "cron_range (show_span sp) lo hi = (let (a, b) = span_of sp lo hi in (Some a, Some b))"
proof (cases sp)
  case (At n)
  have "show_nat n \<noteq> ''*''" using show_nat_free [OF digit_facts(4), of n] by auto
  with At show ?thesis by (simp add: cron_range_def parse_shown show_nat_free digit_facts)
next
  case (Span a b)
  have "show_nat a @ ''-'' @ show_nat b \<noteq> ''*''"
    using show_nat_digits(2) [of b] by (cases "show_nat a") auto
  moreover have "split_on (CHR ''-'') (show_nat a @ CHR ''-'' # show_nat b) = [show_nat a, show_nat b]"
    by (simp add: split_on_append split_on_no_sep show_nat_free digit_facts)
  ultimately show ?thesis using Span by (simp add: cron_range_def Let_def parse_shown)
qed (simp add: cron_range_def)

lemma multiple_of_step:
  assumes "0 < n"
  shows "(\<exists>k. v = a + int k * int n \<and> v \<le> b) \<longleftrightarrow> a \<le> v \<and> v \<le> b \<and> (v - a) mod int n = 0"
proof
  assume "a \<le> v \<and> v \<le> b \<and> (v - a) mod int n = 0"
  then have "v = a + int (nat ((v - a) div int n)) * int n" "v \<le> b"
    using assms by (auto simp: pos_imp_zdiv_nonneg_iff minus_mod_eq_div_mult [symmetric])
  then show "\<exists>k. v = a + int k * int n \<and> v \<le> b" by blast
qed (auto)

lemma item_matches: "cron_part (show_item it) v lo hi \<longleftrightarrow> stands_for it v lo hi"
proof -
  obtain sp st where it: "it = (sp, st)" by (cases it)
  obtain a b where ab: "span_of sp lo hi = (a, b)" by fastforce
  have split: "split_on (CHR ''/'') (show_item it) = (case st of None \<Rightarrow> [show_span sp] | Some n \<Rightarrow> [show_span sp, show_nat n])"
    by (simp add: it show_item_def split_on_append split_on_no_sep span_free show_nat_free digit_facts split: option.split)
  have step: "cron_step (split_on (CHR ''/'') (show_item it)) = Some (int (case st of None \<Rightarrow> 1 | Some n \<Rightarrow> n))"
    by (simp add: split cron_step_def show_nat_digits parse_shown split: option.split)
  have hd: "hd (split_on (CHR ''/'') (show_item it)) = show_span sp" by (simp add: split split: option.split)
  let ?n = "case st of None \<Rightarrow> 1 | Some n \<Rightarrow> n"
  have body: "cron_part (show_item it) v lo hi \<longleftrightarrow> show_item it = ''*'' \<or> a \<le> v \<and> v \<le> b \<and> ?n \<noteq> 0 \<and> (v - a) mod int ?n = 0"
    unfolding cron_part_def Let_def hd step by (simp add: range_of_span ab)
  have star_free: "show_nat n \<noteq> ''*''" "show_nat n @ ''-'' @ r \<noteq> ''*''" for n r
    using show_nat_free [OF digit_facts(4), of n] show_nat_digits(2) [of n] by (cases "show_nat n"; auto)+
  have star: "show_item it = ''*'' \<longleftrightarrow> it = (Every, None)"
  proof
    assume s: "show_item it = ''*''"
    with it have "st = None" using show_nat_digits(2)
      by (cases st; cases "show_span sp") (auto simp: show_item_def)
    moreover from this s it have "sp = Every"
      using star_free by (cases sp) (auto simp: show_item_def)
    ultimately show "it = (Every, None)" using it by simp
  qed (simp add: show_item_def)
  have "stands_for it v lo hi \<longleftrightarrow> it = (Every, None) \<or> a \<le> v \<and> v \<le> b \<and> ?n \<noteq> 0 \<and> (v - a) mod int ?n = 0"
    using multiple_of_step [of ?n v a b] by (cases "?n = 0") (auto simp: stands_for_def it ab)
  then show ?thesis using body star by simp
qed

lemma field_matches:
  assumes "f \<noteq> []"
  shows "matchCronField (show_field f) v lo hi \<longleftrightarrow> (\<exists>it \<in> set f. stands_for it v lo hi)"
proof -
  have s: "split_on (CHR '','') (show_field f) = map show_item f"
    unfolding show_field_def using assms by (intro split_join) (auto simp: item_free)
  have star: "list_ex (\<lambda>p. cron_part p v lo hi) (map show_item f)" if "show_field f = ''*''"
    using s that by (auto simp: cron_part_def list_ex_iff)
  have "matchCronField (show_field f) v lo hi \<longleftrightarrow> list_ex (\<lambda>p. cron_part p v lo hi) (map show_item f)"
    unfolding matchCronField_def s using star by blast
  then show ?thesis using item_matches by (auto simp: list_ex_iff)
qed

text \<open>Five fields, printed with single spaces, are the five fields the matcher reads.\<close>

lemma show_item_ne: "show_item it \<noteq> []"
  by (cases "fst it") (auto simp: show_item_def show_nat_digits)

lemma show_field_no_ws: "c \<in> set (show_field f) \<Longrightarrow> \<not> is_ws c"
proof -
  have other: "\<not> is_ws (CHR ''*'')" "\<not> is_ws (CHR ''-'')" "\<not> is_ws (CHR ''/'')" "\<not> is_ws (CHR '','')" by code_simp+
  have n: "c \<in> set (show_nat n) \<Longrightarrow> \<not> is_ws c" for c n
    using show_nat_digits(1) [of n] digit_not_ws by (auto simp: list_all_iff)
  have sp: "c \<in> set (show_span sp) \<Longrightarrow> \<not> is_ws c" for c sp
    using n other by (cases sp) auto
  have it: "c \<in> set (show_item it) \<Longrightarrow> \<not> is_ws c" for c it
    using n other sp by (auto simp: show_item_def split: option.splits)
  have j: "c \<in> set (join '','' ws) \<Longrightarrow> c = CHR '','' \<or> (\<exists>w \<in> set ws. c \<in> set w)" for c ws
    by (induction ws rule: induct_list012) auto
  show "c \<in> set (show_field f) \<Longrightarrow> \<not> is_ws c"
    unfolding show_field_def using j [of c "map show_item f"] it other by auto
qed

lemma show_field_ne: "f \<noteq> [] \<Longrightarrow> show_field f \<noteq> []"
  unfolding show_field_def by (cases f; cases "tl f") (auto simp: show_item_ne)

lemma split_ws_word: "(\<And>c. c \<in> set w \<Longrightarrow> \<not> is_ws c) \<Longrightarrow> split_ws w = [w]"
proof -
  assume "\<And>c. c \<in> set w \<Longrightarrow> \<not> is_ws c"
  then have d: "dropWhile (\<lambda>c. \<not> is_ws c) w = []" by (simp add: dropWhile_eq_Nil_conv)
  show ?thesis by (subst split_ws.simps) (simp add: d)
qed

lemma split_ws_cons:
  assumes w: "\<And>c. c \<in> set w \<Longrightarrow> \<not> is_ws c" and r: "r \<noteq> []" "\<not> is_ws (hd r)"
  shows "split_ws (w @ CHR '' '' # r) = w # split_ws r"
proof -
  have sp: "is_ws (CHR '' '')" by code_simp
  have "dropWhile (\<lambda>c. \<not> is_ws c) (w @ CHR '' '' # r) = CHR '' '' # r"
    "takeWhile (\<lambda>c. \<not> is_ws c) (w @ CHR '' '' # r) = w"
    using w sp by (simp_all add: dropWhile_append takeWhile_append)
  moreover have "dropWhile is_ws r = r" using r by (cases r) auto
  ultimately show ?thesis by (subst split_ws.simps) simp
qed

definition show_cron :: "cron_item list list \<Rightarrow> string" where
  "show_cron fs = join '' '' (map show_field fs)"

lemma trim_inner:
  assumes "s \<noteq> []" "\<not> is_ws (hd s)" "\<not> is_ws (last s)"
  shows "trim s = s"
proof -
  have "dropWhile is_ws s = s" using assms(1,2) by (cases s) auto
  moreover have "dropWhile is_ws (rev s) = rev s" using assms(1,3) by (cases s rule: rev_cases) auto
  ultimately show ?thesis by (simp add: trim_def trim_start_def trim_end_def)
qed

text \<open>
  C36. A cron expression matches exactly the times its fields stand for. For any five fields, each a
  list of values, ranges or stars with optional steps, the matcher run on their text accepts a time
  exactly when every part of the UTC date is a value of its field: the start of an item plus a
  multiple of its step, up to its end.
\<close>

theorem cron_expressions_mean_their_fields:
  assumes "[] \<notin> set [mi, h, md, mo, wd]"
  shows "cronMatches (show_cron [mi, h, md, mo, wd]) t \<longleftrightarrow>
    (\<exists>it \<in> set mi. stands_for it (utc_minute t) 0 59) \<and> (\<exists>it \<in> set h. stands_for it (utc_hour t) 0 23) \<and>
    (\<exists>it \<in> set md. stands_for it (utc_date t) 1 31) \<and> (\<exists>it \<in> set mo. stands_for it (utc_month t) 1 12) \<and>
    (\<exists>it \<in> set wd. stands_for it (utc_day t) 0 6)"
proof -
  let ?f = show_field
  note w = show_field_no_ws
  have ne: "?f mi \<noteq> []" "?f h \<noteq> []" "?f md \<noteq> []" "?f mo \<noteq> []" "?f wd \<noteq> []" using assms show_field_ne by auto
  have hd_ws: "\<not> is_ws (hd (?f g @ r))" if "?f g \<noteq> []" for g r using that w [of "hd (?f g)" g] by (cases "?f g") auto
  have last_ws: "\<not> is_ws (last (?f wd))" using ne(5) w [of "last (?f wd)" wd] by simp
  have shown: "show_cron [mi, h, md, mo, wd] = ?f mi @ CHR '' '' # ?f h @ CHR '' '' # ?f md @ CHR '' '' # ?f mo @ CHR '' '' # ?f wd"
    by (simp add: show_cron_def)
  have "trim (show_cron [mi, h, md, mo, wd]) = show_cron [mi, h, md, mo, wd]"
    by (rule trim_inner) (use ne hd_ws [OF ne(1)] last_ws in \<open>simp_all add: shown\<close>)
  moreover have "split_ws (show_cron [mi, h, md, mo, wd]) = [?f mi, ?f h, ?f md, ?f mo, ?f wd]"
    unfolding shown using ne hd_ws [OF ne(2)] hd_ws [OF ne(3)] hd_ws [OF ne(4)] hd_ws [OF ne(5), of "[]"]
    by (simp add: split_ws_cons w split_ws_word)
  moreover have "mi \<noteq> []" "h \<noteq> []" "md \<noteq> []" "mo \<noteq> []" "wd \<noteq> []" using assms by auto
  ultimately show ?thesis by (simp add: cronMatches_def field_matches)
qed

theorem cron_expressions_mean_their_fields_witness:
  "show_cron [[(At 30, None)], [(At 2, None)], [(Every, None)], [(Every, None)], [(Span 1 3, None), (At 4, None)]] = ''30 2 * * 1-3,4'' \<and>
   cronMatches ''30 2 * * 1-3,4'' 1709173800000 \<and>
   (\<exists>it \<in> set [(Span 1 3, None), (At 4, None)]. stands_for it (utc_day 1709173800000) 0 6)"
proof -
  let ?fs = "[[(At 30, None)], [(At 2, None)], [(Every, None)], [(Every, None)], [(Span 1 3, None), (At 4, None)]]"
  have s: "show_cron ?fs = ''30 2 * * 1-3,4''" and c: "cronMatches ''30 2 * * 1-3,4'' 1709173800000" by code_simp+
  have "[] \<notin> set ?fs" by simp
  from cron_expressions_mean_their_fields [OF this, of 1709173800000] s c
  have "\<exists>it \<in> set [(Span 1 3, None), (At 4, None)]. stands_for it (utc_day 1709173800000) 0 6" by metis
  with s c show ?thesis by blast
qed

end
