(* ===== verification/Scan_Deletion.thy ===== *)
theory Scan_Deletion
  imports Scans_Facts
begin

text \<open>
  \<open>repositories/scanDeletion.ts\<close>: scans are deleted with the rows that belong to them, in chunks
  first and the rest in one batch. Other writers may run between any two statements; the operations
  they are made of are the steps of \<open>table_op\<close>.
\<close>

section \<open>Statements\<close>

datatype child_table = Findings | Scan_events | Oob_pending

definition SCAN_CHILD_TABLES :: "child_table list" where "SCAN_CHILD_TABLES = [Findings, Scan_events, Oob_pending]"
definition SCAN_CHILD_DELETE_CHUNK :: nat where "SCAN_CHILD_DELETE_CHUNK = 5000"
definition SCAN_CHILD_MAX_CHUNKS :: nat where "SCAN_CHILD_MAX_CHUNKS = 100"

text \<open>\<open>scan_id\<close> of every row of a table.\<close>

definition child_ids :: "child_table \<Rightarrow> scans_db \<Rightarrow> string list" where
  "child_ids t d = (case t of Findings \<Rightarrow> map f_scan (findings d) | Scan_events \<Rightarrow> map e_scan (scan_events d)
     | Oob_pending \<Rightarrow> map o_scan (oob_pending d))"

text \<open>The first \<open>limit\<close> rows that match, in the order of the table.\<close>

fun drop_first :: "nat \<Rightarrow> ('a \<Rightarrow> bool) \<Rightarrow> 'a list \<Rightarrow> 'a list" where
  "drop_first limit P [] = []"
| "drop_first limit P (x # xs) =
     (if P x \<and> 0 < limit then drop_first (limit - 1) P xs else x # drop_first limit P xs)"

definition drop_rows :: "nat option \<Rightarrow> ('a \<Rightarrow> bool) \<Rightarrow> 'a list \<Rightarrow> 'a list" where
  "drop_rows limit P xs = (case limit of None \<Rightarrow> filter (\<lambda>x. \<not> P x) xs | Some n \<Rightarrow> drop_first n P xs)"

definition delete_rows :: "child_table \<Rightarrow> nat option \<Rightarrow> (string \<Rightarrow> bool) \<Rightarrow> scans_db \<Rightarrow> scans_db" where
  "delete_rows t limit P d = (case t of
     Findings \<Rightarrow> d\<lparr>findings := drop_rows limit (\<lambda>r. P (f_scan r)) (findings d)\<rparr>
   | Scan_events \<Rightarrow> d\<lparr>scan_events := drop_rows limit (\<lambda>r. P (e_scan r)) (scan_events d)\<rparr>
   | Oob_pending \<Rightarrow> d\<lparr>oob_pending := drop_rows limit (\<lambda>r. P (o_scan r)) (oob_pending d)\<rparr>)"

text \<open>\<open>scan_id IN (SELECT id FROM scans WHERE (w))\<close>\<close>

definition matching :: "(scan_row \<Rightarrow> bool) \<Rightarrow> scans_db \<Rightarrow> string \<Rightarrow> bool" where
  "matching w d i = list_ex (\<lambda>s. s_id s = i \<and> w s) (scans d)"

definition matches :: "child_table \<Rightarrow> (scan_row \<Rightarrow> bool) \<Rightarrow> scans_db \<Rightarrow> nat" where
  "matches t w d = length (filter (matching w d) (child_ids t d))"

definition purge_chunk :: "child_table \<Rightarrow> (scan_row \<Rightarrow> bool) \<Rightarrow> scans_db \<Rightarrow> nat \<times> scans_db" where
  "purge_chunk t w d =
     (min (matches t w d) SCAN_CHILD_DELETE_CHUNK, delete_rows t (Some SCAN_CHILD_DELETE_CHUNK) (matching w d) d)"

text \<open>The loop over one table; \<open>others k\<close> is what other writers do before the \<open>k\<close>th statement.\<close>

fun purge_table ::
  "(nat \<Rightarrow> scans_db \<Rightarrow> scans_db) \<Rightarrow> (scan_row \<Rightarrow> bool) \<Rightarrow> child_table \<Rightarrow> nat \<Rightarrow> nat \<times> scans_db \<Rightarrow> nat \<times> scans_db" where
  "purge_table others w t 0 (k, d) = (k, d)"
| "purge_table others w t (Suc n) (k, d) =
     (let (changes, d') = purge_chunk t w (others k d)
      in if changes < SCAN_CHILD_DELETE_CHUNK then (Suc k, d') else purge_table others w t n (Suc k, d'))"

text \<open>How many statements ran, and the tables.\<close>

definition purgeScanChildren :: "(nat \<Rightarrow> scans_db \<Rightarrow> scans_db) \<Rightarrow> (scan_row \<Rightarrow> bool) \<Rightarrow> scans_db \<Rightarrow> nat \<times> scans_db" where
  "purgeScanChildren others w d = fold (\<lambda>t. purge_table others w t SCAN_CHILD_MAX_CHUNKS) SCAN_CHILD_TABLES (0, d)"

text \<open>The statements of the batch: children first, while their scans can be found.\<close>

definition deleteScansWhere :: "(scan_row \<Rightarrow> bool) \<Rightarrow> scans_db \<Rightarrow> scans_db" where
  "deleteScansWhere w d =
     (let d' = fold (\<lambda>t d. delete_rows t None (matching w d) d) SCAN_CHILD_TABLES d
      in d'\<lparr>scans := filter (\<lambda>s. \<not> w s) (scans d')\<rparr>)"

text \<open>How every path deletes scans: the chunks, then the batch.\<close>

definition delete_scans :: "(nat \<Rightarrow> scans_db \<Rightarrow> scans_db) \<Rightarrow> (scan_row \<Rightarrow> bool) \<Rightarrow> scans_db \<Rightarrow> scans_db" where
  "delete_scans others w d = (let (k, d') = purgeScanChildren others w d in deleteScansWhere w (others k d'))"

section \<open>Everything that writes these tables\<close>

datatype table_op =
    Process "body list"
  | Create_scan string string ustring string string "string option" string
  | Set_status string string "json option" "ustring option"
  | Change_active string "string list" string
  | Fail_active string "ustring option"
  | Edit_scan string "string option" "json option" "int option"
  | Set_report string string
  | Store_oob string "(string \<times> ustring \<times> ustring) list"
  | Late_callback string string
  | Chunk child_table "scan_row \<Rightarrow> bool"
  | Delete_batch "scan_row \<Rightarrow> bool"
  | Ticks int

fun table_step :: "runtime \<Rightarrow> table_op \<Rightarrow> scans_db \<Rightarrow> scans_db" where
  "table_step rt (Process bodies) d = snd (processFindingsQueueMessages rt bodies d)"
| "table_step rt (Create_scan i p t pr st u trig) d = snd (createScan i p t pr st u trig d)"
| "table_step rt (Set_status i st stats reason) d = updateScanStatus i st stats reason d"
| "table_step rt (Change_active i from_sts to_st) d = snd (changeActiveStatus i from_sts to_st d)"
| "table_step rt (Fail_active i reason) d = snd (markFailedIfActive i reason d)"
| "table_step rt (Edit_scan i st stats c) d = snd (updateScan i st stats c d)"
| "table_step rt (Set_report i url) d = updateScanReportUrl i url d"
| "table_step rt (Store_oob i tokens) d = storeOobPending i tokens d"
| "table_step rt (Late_callback i token) d = snd (recordLateOobCallback i token d)"
| "table_step rt (Chunk t w) d = snd (purge_chunk t w d)"
| "table_step rt (Delete_batch w) d = deleteScansWhere w d"
| "table_step rt (Ticks s) d = d\<lparr>db_clock := db_clock d + max 0 s\<rparr>"

definition table_run :: "runtime \<Rightarrow> table_op list \<Rightarrow> scans_db \<Rightarrow> scans_db" where
  "table_run rt ops = fold (table_step rt) ops"

section \<open>Every row has its scan\<close>

definition children_ok :: "scans_db \<Rightarrow> bool" where
  "children_ok d = (\<forall>t. \<forall>i \<in> set (child_ids t d). scan_exists d i)"

lemma drop_first_subset: "set (drop_first n P xs) \<subseteq> set xs"
  by (induction n P xs rule: drop_first.induct) auto

lemma drop_rows_subset: "set (drop_rows limit P xs) \<subseteq> set xs"
  by (cases limit) (auto simp: drop_rows_def subsetD [OF drop_first_subset])

lemma delete_rows_simps [simp]:
  "scans (delete_rows t limit P d) = scans d" "scan_exists (delete_rows t limit P d) = scan_exists d"
  "matching w (delete_rows t limit P d) = matching w d"
  by (auto simp: delete_rows_def scan_exists_def matching_def fun_eq_iff split: child_table.split)

lemma child_ids_delete: "set (child_ids t (delete_rows t' limit P d)) \<subseteq> set (child_ids t d)"
  using drop_rows_subset by (cases t; cases t') (fastforce simp: child_ids_def delete_rows_def)+

lemma child_ids_other: "t' \<noteq> t \<Longrightarrow> child_ids t' (delete_rows t limit P d) = child_ids t' d"
  by (cases t; cases t') (simp_all add: child_ids_def delete_rows_def)

lemma children_delete: "children_ok d \<Longrightarrow> children_ok (delete_rows t limit P d)"
  using child_ids_delete by (fastforce simp: children_ok_def)

lemma children_cong:
  assumes "children_ok d" "\<And>t. set (child_ids t d') \<subseteq> set (child_ids t d)" "\<And>i. scan_exists d i \<Longrightarrow> scan_exists d' i"
  shows "children_ok d'"
  using assms unfolding children_ok_def by blast

text \<open>An operation that keeps the ids of scans and adds rows of existing scans only.\<close>

definition adds_children :: "scans_db \<Rightarrow> scans_db \<Rightarrow> bool" where
  "adds_children d d' \<longleftrightarrow>
     (\<forall>i. scan_exists d i \<longrightarrow> scan_exists d' i) \<and>
     (\<forall>t. \<forall>i \<in> set (child_ids t d'). i \<in> set (child_ids t d) \<or> scan_exists d' i)"

lemma adds_refl [simp]: "adds_children d d"
  by (simp add: adds_children_def)

lemma adds_trans: "adds_children a b \<Longrightarrow> adds_children b c \<Longrightarrow> adds_children a c"
  unfolding adds_children_def by blast

lemma adds_ok: "adds_children d d' \<Longrightarrow> children_ok d \<Longrightarrow> children_ok d'"
  unfolding adds_children_def children_ok_def by blast

lemma adds_same:
  assumes "\<And>i. scan_exists d i \<Longrightarrow> scan_exists d' i" "scan_events d' = scan_events d" "findings d' = findings d"
    "oob_pending d' = oob_pending d"
  shows "adds_children d d'"
proof -
  have "child_ids t d' = child_ids t d" for t using assms(2-4) by (cases t) (simp_all add: child_ids_def)
  with assms(1) show ?thesis by (simp add: adds_children_def)
qed

lemma update_scans_same [simp]:
  "scan_events (snd (update_scans P f d)) = scan_events d" "findings (snd (update_scans P f d)) = findings d"
  "oob_pending (snd (update_scans P f d)) = oob_pending d"
  by (simp_all add: update_scans_def)

lemma adds_update: "(\<And>s. s_id (f s) = s_id s) \<Longrightarrow> adds_children d (snd (update_scans P f d))"
  by (rule adds_same) (auto simp: update_scans_def scan_exists_def list_ex_iff)

lemma adds_fire: "adds_children d (fire p e i d)"
  by (rule adds_same) (simp_all add: fire_def scan_exists_def)

lemma adds_status: "adds_children d (updateScanStatus i st stats reason d)"
proof -
  have s: "adds_children d (set_status i st stats reason d)"
    unfolding set_status_def by (rule adds_update) (simp add: Let_def)
  then show ?thesis
    by (auto simp: updateScanStatus_def Let_def split: option.split intro: adds_trans [OF s adds_fire])
qed

lemma adds_insert_oob:
  assumes "scan_exists d i" shows "adds_children d (insert_oob i x d) \<and> scan_exists (insert_oob i x d) i"
  using assms by (auto simp: insert_oob_def adds_children_def child_ids_def scan_exists_def split: child_table.split)

lemma adds_store: "adds_children d (storeOobPending i tokens d)"
proof -
  have "scan_exists d i \<Longrightarrow> adds_children d (fold (insert_oob i) xs d)" for xs
  proof (induction xs arbitrary: d)
    case (Cons x xs)
    then show ?case using adds_insert_oob [of d i x] by (auto intro: adds_trans)
  qed simp
  then show ?thesis by (simp add: storeOobPending_def)
qed

lemma adds_insert_finding:
  assumes "scan_exists d (f_scan f)"
  shows "adds_children d (insert_finding f d)"
  using assms by (auto simp: insert_finding_def adds_children_def child_ids_def scan_exists_def split: child_table.split)

lemma adds_late: "adds_children d (snd (recordLateOobCallback i token d))"
proof -
  have f: "adds_children d (fold (\<lambda>r. insert_finding (oob_finding r)) rs d) \<and> oob_pending (fold (\<lambda>r. insert_finding (oob_finding r)) rs d) = oob_pending d"
    if "\<forall>r \<in> set rs. o_scan r = i" "scan_exists d i" for rs
    using that
  proof (induction rs arbitrary: d)
    case (Cons r rs)
    then have a: "adds_children d (insert_finding (oob_finding r) d)" by (intro adds_insert_finding) (simp add: oob_finding_def)
    moreover have "oob_pending (insert_finding (oob_finding r) d) = oob_pending d" by (simp add: insert_finding_def)
    ultimately show ?case using Cons adds_trans [OF a] by (simp add: adds_children_def)
  qed simp
  let ?rs = "filter (\<lambda>r. o_scan r = i \<and> o_token r = token) (oob_pending d)"
  have g: "adds_children d (d'\<lparr>oob_pending := filter P (oob_pending d)\<rparr>)" if "adds_children d d'" for d' P
    using that by (auto simp: adds_children_def child_ids_def scan_exists_def split: child_table.splits)
  show ?thesis using f [of ?rs] g by (auto simp: recordLateOobCallback_def Let_def)
qed

lemma adds_stmt: "adds_children d (snd (run_stmt q d))"
proof (cases q)
  case (Insert_event i s ty p)
  then show ?thesis
    by (auto simp: add_event_def adds_children_def child_ids_def scan_exists_def split: child_table.split)
next
  case (Upsert_progress i s ty p)
  have "adds_children d (update_event i ty p d)"
    by (auto simp: update_event_def adds_children_def child_ids_def scan_exists_def comp_def if_distrib split: child_table.split)
  with Upsert_progress show ?thesis
    by (auto simp: add_event_def adds_children_def child_ids_def scan_exists_def split: child_table.split)
next
  case (Insert_finding f)
  then show ?thesis by (simp add: adds_insert_finding)
qed (auto intro!: adds_update)

lemma adds_process: "adds_children d (snd (processFindingsQueueMessages rt bodies d))"
proof -
  have st: "adds_children d (snd (run_stmts qs d))" for qs d
    by (induction qs arbitrary: d) (auto simp: split_beta Let_def intro: adds_trans [OF adds_stmt])
  have fi: "adds_children d (fire_all ended d)" for ended d
    unfolding fire_all_def
  proof (induction ended arbitrary: d)
    case (Cons x ended)
    obtain i hook where x: "x = (i, hook)" by (cases x)
    show ?case
      by (cases hook) (use Cons in \<open>auto simp: x intro: adds_trans [OF adds_fire Cons]\<close>)
  qed simp
  have u: "adds_children d (d\<lparr>next_uuid := n\<rparr>)" for n
    by (rule adds_same) (simp_all add: scan_exists_def)
  show ?thesis
    by (auto simp: processFindingsQueueMessages_def Let_def split_beta intro: adds_trans [OF u adds_trans [OF st fi]])
qed

lemma adds_create: "adds_children d (snd (createScan i p t pr st u trig d))"
  by (rule adds_same) (auto simp: createScan_def scan_exists_def)

lemmas adds_rules = adds_process adds_create adds_status adds_store adds_late

text \<open>A row is kept by the batch only if its scan is.\<close>

lemma child_ids_all: "child_ids t (delete_rows t' None P d) = (if t = t' then filter (\<lambda>i. \<not> P i) (child_ids t d) else child_ids t d)"
  by (cases t; cases t') (simp_all add: child_ids_def delete_rows_def drop_rows_def filter_map comp_def)

lemma child_ids_batch: "child_ids t (deleteScansWhere w d) = filter (\<lambda>i. \<not> matching w d i) (child_ids t d)"
proof -
  have c: "child_ids t' (d'\<lparr>scans := ss\<rparr>) = child_ids t' d'" for t' d' ss by (cases t') (simp_all add: child_ids_def)
  show ?thesis by (cases t) (simp_all add: deleteScansWhere_def Let_def SCAN_CHILD_TABLES_def c child_ids_all)
qed

lemma scans_batch: "scans (deleteScansWhere w d) = filter (\<lambda>s. \<not> w s) (scans d)"
  by (simp add: deleteScansWhere_def Let_def SCAN_CHILD_TABLES_def)

lemma children_batch: "children_ok d \<Longrightarrow> children_ok (deleteScansWhere w d)"
  by (simp add: children_ok_def child_ids_batch scan_exists_def scans_batch matching_def list_ex_iff) metis

lemma children_step:
  assumes ok: "children_ok d"
  shows "children_ok (table_step rt op d)"
proof -
  note a = adds_ok [OF _ ok]
  have u: "adds_children d (snd (updateScan i st stats c d))" for i st stats c
    by (auto simp: updateScan_def Let_def intro: adds_update)
  have c: "adds_children d (snd (changeActiveStatus i from_sts to_st d))" for i from_sts to_st
    by (simp add: changeActiveStatus_def Let_def split_beta adds_update)
  have f: "adds_children d (snd (markFailedIfActive i reason d))" for i reason
    by (simp add: markFailedIfActive_def Let_def split_beta adds_update)
  have r: "adds_children d (updateScanReportUrl i url d)" for i url
    by (simp add: updateScanReportUrl_def adds_update)
  have t: "adds_children d (d\<lparr>db_clock := n\<rparr>)" for n
    by (rule adds_same) (simp_all add: scan_exists_def)
  show ?thesis
    by (cases op) (simp_all add: a adds_rules u c f r t purge_chunk_def children_delete children_batch ok)
qed

lemma children_run: "children_ok d \<Longrightarrow> children_ok (table_run rt ops d)"
  unfolding table_run_def by (induction ops arbitrary: d) (simp_all add: children_step)

section \<open>Deleting with writers around\<close>

lemma children_chunk: "children_ok d \<Longrightarrow> children_ok (snd (purge_chunk t w d))"
  by (simp add: purge_chunk_def children_delete)

lemma children_purge_table:
  assumes others: "\<And>k d. children_ok d \<Longrightarrow> children_ok (others k d)"
  shows "children_ok d \<Longrightarrow> children_ok (snd (purge_table others w t n (k, d)))"
proof (induction n arbitrary: k d)
  case (Suc n)
  from Suc.prems have "children_ok (snd (purge_chunk t w (others k d)))" by (intro children_chunk others)
  then show ?case using Suc.IH by (simp add: Let_def split_beta)
qed simp

text \<open>A list of operations between any two statements.\<close>

definition writers :: "runtime \<Rightarrow> (nat \<Rightarrow> table_op list) \<Rightarrow> nat \<Rightarrow> scans_db \<Rightarrow> scans_db" where
  "writers rt ops k d = table_run rt (ops k) d"

lemma children_delete_scans:
  assumes "children_ok d"
  shows "children_ok (delete_scans (writers rt ops) w d)"
proof -
  let ?p = "purge_table (writers rt ops) w"
  have o: "children_ok (writers rt ops k d)" if "children_ok d" for k d
    using that by (simp add: writers_def children_run)
  have t: "children_ok (snd (?p t n x))" if "children_ok (snd x)" for t n x
    using children_purge_table [of "writers rt ops", OF o] that by (cases x) simp
  have "children_ok (snd (purgeScanChildren (writers rt ops) w d))"
    using assms by (simp add: purgeScanChildren_def SCAN_CHILD_TABLES_def t)
  then show ?thesis by (simp add: delete_scans_def split_beta children_batch o)
qed

section \<open>Without writers\<close>

lemma drop_first_filter:
  "filter P (drop_first n P xs) = drop n (filter P xs)" "filter (\<lambda>x. \<not> P x) (drop_first n P xs) = filter (\<lambda>x. \<not> P x) xs"
  by (induction n P xs rule: drop_first.induct) (auto simp: drop_Cons split: nat.split)

lemma drop_first_all: "length (filter P xs) \<le> n \<Longrightarrow> drop_first n P xs = filter (\<lambda>x. \<not> P x) xs"
  by (induction n P xs rule: drop_first.induct) auto

lemma matches_delete:
  "matches t w (delete_rows t (Some n) (matching w d) d) = matches t w d - n"
  "t' \<noteq> t \<Longrightarrow> matches t' w (delete_rows t (Some n) (matching w d) d) = matches t' w d"
proof -
  show "matches t w (delete_rows t (Some n) (matching w d) d) = matches t w d - n"
    by (cases t) (simp_all add: matches_def child_ids_def filter_map comp_def delete_rows_def drop_rows_def matching_def drop_first_filter)
  show "t' \<noteq> t \<Longrightarrow> matches t' w (delete_rows t (Some n) (matching w d) d) = matches t' w d"
    by (simp add: matches_def child_ids_other)
qed

lemma purge_chunk_quiet:
  assumes "purge_chunk t w d = (c, d')"
  shows "c = min (matches t w d) SCAN_CHILD_DELETE_CHUNK" "matches t w d' = matches t w d - SCAN_CHILD_DELETE_CHUNK"
    "t' \<noteq> t \<Longrightarrow> matches t' w d' = matches t' w d" "scans d' = scans d"
  using assms by (auto simp: purge_chunk_def matches_delete)

definition undisturbed :: "nat \<Rightarrow> scans_db \<Rightarrow> scans_db" where
  "undisturbed k d = d"

text \<open>With nobody writing, a table is emptied of the scans' rows in one statement more than it has full chunks.\<close>

lemma purge_table_quiet:
  assumes "matches t w d < n * SCAN_CHILD_DELETE_CHUNK"
  shows "\<exists>d'. purge_table undisturbed w t n (k, d) = (k + matches t w d div SCAN_CHILD_DELETE_CHUNK + 1, d') \<and>
    matches t w d' = 0 \<and> scans d' = scans d \<and> (\<forall>t'. t' \<noteq> t \<longrightarrow> matches t' w d' = matches t' w d)"
  using assms
proof (induction n arbitrary: k d)
  case (Suc n)
  obtain c d1 where ch: "purge_chunk t w d = (c, d1)" by fastforce
  note q = purge_chunk_quiet [OF ch]
  show ?case
  proof (cases "matches t w d < SCAN_CHILD_DELETE_CHUNK")
    case True
    with q ch show ?thesis by (simp add: undisturbed_def)
  next
    case False
    with Suc.prems q have "matches t w d1 < n * SCAN_CHILD_DELETE_CHUNK" by simp
    from Suc.IH [OF this, of "Suc k"] q(3,4) False ch q(1,2) show ?thesis
      by (auto simp: undisturbed_def le_div_geq SCAN_CHILD_DELETE_CHUNK_def)
  qed
qed simp

lemma purge_table_steps: "fst (purge_table others w t n (k, d)) \<le> k + n"
proof (induction n arbitrary: k d)
  case (Suc n)
  show ?case using Suc [of "Suc k"] by (simp add: Let_def split_beta)
qed simp

end
