(* ===== verification/Account_Deletion.thy ===== *)
theory Account_Deletion
  imports Runners_Service Scan_Deletion
begin

text \<open>
  \<open>repositories/cleanup.ts\<close>, \<open>utils/cleanup.ts\<close>, \<open>deleteProject\<close> (\<open>repositories/projects.ts\<close>) and the
  scheduling of an account's deletion (\<open>repositories/auth.ts\<close>): how accounts, guests and projects
  disappear from the tables, the object storage, the coordinator and the session cache. Each deletion
  purges rows in chunks, with other writers in between, and ends with one batch, which may fail.
\<close>

section \<open>Deleting scans of the Worker's tables\<close>

definition on_scans :: "(scans_db \<Rightarrow> scans_db) \<Rightarrow> worker \<Rightarrow> worker" where
  "on_scans f w = w\<lparr>object := on_db f (object w)\<rparr>"

text \<open>
  The purge is committed statement by statement; \<open>others\<close> is what runs before the \<open>k\<close>th. The batch
  that follows happens as a whole or, when \<open>fails\<close>, not at all.
\<close>

definition purge_then ::
  "(nat \<Rightarrow> scans_db \<Rightarrow> scans_db) \<Rightarrow> bool \<Rightarrow> (scan_row \<Rightarrow> bool) \<Rightarrow> (worker \<Rightarrow> worker) \<Rightarrow> (worker, unit) comp" where
  "purge_then others fails doomed batch_rest = (\<lambda>w.
     let (k, d) = purgeScanChildren others doomed (db (object w));
         w1 = on_scans (\<lambda>_. others k d) w
     in if fails then (Inl (Error ''D1_ERROR''), w1)
        else (Inr (), batch_rest (on_scans (deleteScansWhere doomed) w1)))"

section \<open>Projects\<close>

definition drop_project_rows :: "string list \<Rightarrow> worker \<Rightarrow> worker" where
  "drop_project_rows ps w =
     (let a = access w
      in on_scans (\<lambda>d. d\<lparr>scan_configs := filter (\<lambda>((p, _), _). p \<notin> set ps) (scan_configs d)\<rparr>)
           (w\<lparr>schedules := filter (\<lambda>s. sch_project s \<notin> set ps) (schedules w),
              access := a\<lparr>members := filter (\<lambda>(p, _, _). p \<notin> set ps) (members a),
                          projects := filter (\<lambda>p. p_id p \<notin> set ps) (projects a)\<rparr>\<rparr>))"

definition deleteProject :: "(nat \<Rightarrow> scans_db \<Rightarrow> scans_db) \<Rightarrow> bool \<Rightarrow> string \<Rightarrow> (worker, unit) comp" where
  "deleteProject others fails projectId =
     purge_then others fails (\<lambda>s. s_project s = projectId) (drop_project_rows [projectId])"

section \<open>Accounts\<close>

text \<open>Asking for the deletion of an account ends its scans and those of the projects it owns.\<close>

definition projects_owned_by :: "string list \<Rightarrow> worker \<Rightarrow> string list" where
  "projects_owned_by userIds w = map fst (filter (\<lambda>(_, u, role). role = ''owner'' \<and> u \<in> set userIds) (members (access w)))"

definition scheduleUserDeletion :: "string \<Rightarrow> (worker, unit) comp" where
  "scheduleUserDeletion userId = writes (\<lambda>w.
     on_scans (\<lambda>d. snd (update_scans
         (\<lambda>s. (s_user s = Some userId \<or> s_project s \<in> set (projects_owned_by [userId] w)) \<and> s_completed s = None)
         (\<lambda>s. s\<lparr>s_status := ''failed'', s_completed := Some (db_clock d)\<rparr>) d))
       (w\<lparr>accounts := on_users (\<lambda>u. u_id u = userId) (\<lambda>u. u\<lparr>u_delete_at := Some (worker_now w)\<rparr>) (accounts w)\<rparr>))"

definition cancelUserDeletion :: "string \<Rightarrow> (worker, unit) comp" where
  "cancelUserDeletion userId =
     on_accounts (writes (on_users (\<lambda>u. u_id u = userId) (\<lambda>u. u\<lparr>u_delete_at := None\<rparr>)))"

definition drop_user_rows :: "string list \<Rightarrow> string list \<Rightarrow> worker \<Rightarrow> worker" where
  "drop_user_rows userIds usernames w =
     (let a = access w; c = accounts w
      in w\<lparr>access := a\<lparr>members := filter (\<lambda>(_, u, _). u \<notin> set userIds) (members a),
                        rbac.users := filter (\<lambda>u. Rbac_Repo.u_id u \<notin> set userIds) (rbac.users a)\<rparr>,
           accounts := c\<lparr>login_attempts := filter (\<lambda>(n, _). n \<notin> set usernames) (login_attempts c),
                         Auth_Db.users := filter (\<lambda>u. Auth_Db.u_id u \<notin> set userIds) (Auth_Db.users c)\<rparr>\<rparr>)"

text \<open>A condition on a scan's user, which may be NULL.\<close>

definition user_in :: "string list \<Rightarrow> scan_row \<Rightarrow> bool" where
  "user_in userIds s = (case s_user s of None \<Rightarrow> False | Some u \<Rightarrow> u \<in> set userIds)"

definition deleteGuestUserData ::
  "(nat \<Rightarrow> scans_db \<Rightarrow> scans_db) \<Rightarrow> bool \<Rightarrow> string \<Rightarrow> string list \<Rightarrow> string \<Rightarrow> (worker, unit) comp" where
  "deleteGuestUserData others fails userId projectIds username =
     purge_then others fails (\<lambda>s. user_in [userId] s \<or> s_project s \<in> set projectIds)
       (drop_user_rows [userId] [username] \<circ> drop_project_rows projectIds)"

definition deleteUsersData ::
  "(nat \<Rightarrow> scans_db \<Rightarrow> scans_db) \<Rightarrow> bool \<Rightarrow> string list \<Rightarrow> string list \<Rightarrow> string list \<Rightarrow> (worker, unit) comp" where
  "deleteUsersData others fails userIds projectIds usernames =
     (if userIds = [] then ret ()
      else purge_then others fails (\<lambda>s. user_in userIds s \<or> s_project s \<in> set projectIds)
             (drop_user_rows userIds usernames \<circ> drop_project_rows projectIds))"

section \<open>The pass over deleted accounts\<close>

definition getExpiredScheduledDeletions :: "worker \<Rightarrow> account_row list" where
  "getExpiredScheduledDeletions w =
     filter (\<lambda>u. case u_delete_at u of None \<Rightarrow> False | Some t \<Rightarrow> t < worker_now w - 7 * 86400) (Auth_Db.users (accounts w))"

definition reportKeyForScan :: "string \<Rightarrow> string" where
  "reportKeyForScan scanId = ''reports/'' @ scanId @ ''.enc''"

definition getScanReportUrls :: "string list \<Rightarrow> string list \<Rightarrow> worker \<Rightarrow> string list" where
  "getScanReportUrls userIds projectIds w =
     (if userIds = [] then []
      else map (\<lambda>s. reportKeyForScan (s_id s))
        (filter (\<lambda>s. (user_in userIds s \<or> s_project s \<in> set projectIds) \<and> s_report s = Some (reportKeyForScan (s_id s)))
           (scans (db (object w)))))"

definition getUserApiKeys :: "string list \<Rightarrow> worker \<Rightarrow> string list" where
  "getUserApiKeys userIds w =
     List.map_filter u_api_key (filter (\<lambda>u. Auth_Db.u_id u \<in> set userIds) (Auth_Db.users (accounts w)))"

definition delete_report :: "string \<Rightarrow> worker \<Rightarrow> worker" where
  "delete_report key w = (if r2_down (object w) then w else w\<lparr>object := (object w)\<lparr>r2 := jdel key (r2 (object w))\<rparr>\<rparr>)"

definition revoke_user :: "worker_env \<Rightarrow> string \<Rightarrow> worker \<Rightarrow> worker" where
  "revoke_user env userId w = snd (ask env (Revoke_user (Some userId)) w)"

text \<open>The entry of a stored key in the session cache: a key that is still stored in plain is hashed first.\<close>

definition api_cache_key :: "worker_env \<Rightarrow> string \<Rightarrow> string" where
  "api_cache_key env key = ''apikey:'' @ (if starts_with key ''swazz_live_'' then hash_key env key else key)"

definition forget_api_key :: "worker_env \<Rightarrow> string \<Rightarrow> worker \<Rightarrow> worker" where
  "forget_api_key env key w = snd (on_accounts (cache_delete (api_cache_key env key)) w)"

text \<open>What the pass throws is logged.\<close>

definition cleanupScheduledDeletions :: "worker_env \<Rightarrow> (nat \<Rightarrow> scans_db \<Rightarrow> scans_db) \<Rightarrow> bool \<Rightarrow> worker \<Rightarrow> worker" where
  "cleanupScheduledDeletions env others fails w =
     (let expired = getExpiredScheduledDeletions w; userIds = map Auth_Db.u_id expired; usernames = map u_name expired
      in if expired = [] then w
         else let projectIds = projects_owned_by userIds w;
                  w1 = fold delete_report (getScanReportUrls userIds projectIds w) w;
                  w2 = fold (revoke_user env) userIds w1;
                  keys = getUserApiKeys userIds w2
              in case deleteUsersData others fails userIds projectIds usernames w2 of
                   (Inl _, w3) \<Rightarrow> w3
                 | (Inr _, w3) \<Rightarrow> fold (forget_api_key env) keys w3)"

section \<open>The pass over the security tables\<close>

text \<open>
  The tables whose times the model keeps; a row's age is compared in seconds, as SQLite does. The
  failed logins of \<open>login_attempts\<close> are no part of it.
\<close>

definition cleanupSecurityTables :: "worker \<Rightarrow> worker" where
  "cleanupSecurityTables w =
     (let t = worker_now w; c = accounts w
      in on_scans (\<lambda>d. d\<lparr>oob_pending := filter (\<lambda>r. db_clock d - OOB_PENDING_DAYS * 86400 \<le> o_created r) (oob_pending d)\<rparr>)
           (w\<lparr>accounts := c\<lparr>login_challenges := filter (\<lambda>r. t \<le> ch_expires r) (login_challenges c),
                            rate_limits := filter (\<lambda>(_, _, reset). t \<le> reset) (rate_limits c)\<rparr>,
              ws_tickets := filter (\<lambda>k. t \<le> tk_expires k) (ws_tickets w)\<rparr>))"

end
