(* ===== verification/Gateway.thy ===== *)
theory Gateway
  imports Worker Account_Deletion
begin

text \<open>
  What every request under \<open>/api\<close> passes before a route sees it (\<open>index.ts\<close>, \<open>utils/csrf.ts\<close> and the
  user of a request in \<open>utils/auth.ts\<close>): the check of its path and size, the CSRF check, and the
  authentication by ticket, API key or session token, with the caches of one isolate. Also the
  operations of \<open>services/auth.ts\<close> that change what these caches rely on.
\<close>

record http_request =
  q_method :: string
  q_path :: string
  q_authorization :: "string option"
  q_upload_token :: "string option"
  q_csrf_header :: "string option"
  q_csrf_cookie :: "string option"
  q_upgrade :: "string option"
  q_content_length :: "string option"
  q_ticket :: "string option"
  q_token :: "string option"

record gateway =
  behind :: worker
  negativeApiKeyCache :: "(string \<times> int) list"
  deletionCache :: "(string \<times> int option \<times> int) list"

text \<open>\<open>jwt_subject secret token now\<close> is the \<open>sub\<close> of a token that verifies (\<open>verify\<close> of \<open>hono/jwt\<close>).\<close>

record gateway_env =
  w_env :: worker_env
  a_env :: auth_env
  jwt_subject :: "string \<Rightarrow> string \<Rightarrow> int \<Rightarrow> string option"

definition gate_now :: "gateway \<Rightarrow> int" where
  "gate_now g = clock_ms (accounts (behind g))"

definition on_worker :: "(worker, 'a) comp \<Rightarrow> (gateway, 'a) comp" where
  "on_worker m = (\<lambda>g. let (r, w) = m (behind g) in (r, g\<lparr>behind := w\<rparr>))"

section \<open>Paths and sizes\<close>

definition path_char :: "char \<Rightarrow> bool" where
  "path_char c = (is_digit c \<or> is_upper c \<or> is_lower c \<or> c \<in> set ''._~-'')"

definition segments :: "string \<Rightarrow> string list" where
  "segments path = split_on (CHR ''/'') path"

definition path_ok :: "string \<Rightarrow> bool" where
  "path_ok path = list_all (\<lambda>seg. length seg \<le> 1400 \<and> list_all path_char seg) (filter (\<lambda>s. s \<noteq> []) (segments path))"

text \<open>\<open>/^\/api\/area\/([^/]+)\/action$/\<close>: the part in between.\<close>

definition between :: "string \<Rightarrow> string \<Rightarrow> string \<Rightarrow> string option" where
  "between area action path = (case segments path of
     [r, api, ar, i, ac] \<Rightarrow> if r = [] \<and> api = ''api'' \<and> ar = area \<and> ac = action \<and> i \<noteq> [] then Some i else None
   | _ \<Rightarrow> None)"

definition body_cap :: "http_request \<Rightarrow> int" where
  "body_cap r =
     (if q_method r = ''POST'' \<and> q_path r \<in> set [''/api/runs'', ''/api/scans'', ''/api/parse''] \<or>
         q_method r = ''PUT'' \<and> between ''scans'' ''upload'' (q_path r) \<noteq> None then 22020096
      else if q_method r = ''POST'' \<and> between ''projects'' ''config'' (q_path r) \<noteq> None then 1900000
      else 1048576)"

definition too_large :: "http_request \<Rightarrow> bool" where
  "too_large r = (case q_content_length r of
     None \<Rightarrow> False
   | Some h \<Rightarrow> (case parse_int h of None \<Rightarrow> False | Some n \<Rightarrow> body_cap r < n))"

section \<open>CSRF\<close>

definition csrf_exempt :: "string \<Rightarrow> bool" where
  "csrf_exempt path = (path = ''/api/auth/oauth/exchange'' \<or>
     list_ex (starts_with path) [''/api/mcp/'', ''/api/oob/'', ''/api/telemetry/''])"

text \<open>Whether the request passes; a request without the cookie is given a new token.\<close>

definition csrfMiddleware :: "worker_env \<Rightarrow> http_request \<Rightarrow> (worker, bool) comp" where
  "csrfMiddleware env r =
     (if csrf_exempt (q_path r) then ret True
      else bind_comp (if given (q_csrf_cookie r) then ret (the (q_csrf_cookie r)) else bind_comp draw_one (\<lambda>k. ret (random_id env k))) (\<lambda>csrfToken.
           ret (q_method r \<in> set [''GET'', ''HEAD'', ''OPTIONS''] \<or> given (q_authorization r) \<or> given (q_upload_token r) \<or>
                (given (q_csrf_header r) \<and> q_csrf_header r = Some csrfToken))))"

section \<open>The user of a request\<close>

definition KV_POSITIVE_TTL :: int where "KV_POSITIVE_TTL = 300"
definition NEGATIVE_API_KEY_TTL_MS :: int where "NEGATIVE_API_KEY_TTL_MS = 60000"
definition MAX_NEGATIVE_API_KEY_ENTRIES :: nat where "MAX_NEGATIVE_API_KEY_ENTRIES = 1000"

text \<open>The bearer token, or an API key of the query; an empty one counts as none.\<close>

definition requestToken :: "http_request \<Rightarrow> string option" where
  "requestToken r =
     (let bearer = (case q_authorization r of Some h \<Rightarrow> starts_with h ''Bearer '' | None \<Rightarrow> False);
          token = (if bearer then Some (drop 7 (the (q_authorization r)))
                   else if given (q_token r) \<and> starts_with (the (q_token r)) ''swazz_live_'' then q_token r else None)
      in if given token then token else None)"

definition remember_unknown :: "string \<Rightarrow> gateway \<Rightarrow> gateway" where
  "remember_unknown key g =
     (let n = (if MAX_NEGATIVE_API_KEY_ENTRIES \<le> length (negativeApiKeyCache g) then tl (negativeApiKeyCache g) else negativeApiKeyCache g)
      in g\<lparr>negativeApiKeyCache := jset key (gate_now g + NEGATIVE_API_KEY_TTL_MS) n\<rparr>)"

text \<open>After the negative cache: the session cache, then the table; a failing query is no user.\<close>

definition query_key :: "gateway_env \<Rightarrow> string \<Rightarrow> string \<Rightarrow> string \<Rightarrow> (gateway, string option) comp" where
  "query_key env cacheKey hashedToken token = (\<lambda>g.
     if d1_down (object (behind g)) then (Inr None, g)
     else bind_comp (on_worker (on_accounts (verifyApiKey hashedToken token))) (\<lambda>userId.
          if given userId then
            bind_comp (writes (\<lambda>g. g\<lparr>negativeApiKeyCache := jdel cacheKey (negativeApiKeyCache g)\<rparr>)) (\<lambda>_.
            bind_comp (if has_cache (a_env env) then on_worker (on_accounts (cache_put cacheKey (C_user (the userId)) KV_POSITIVE_TTL)) else ret ()) (\<lambda>_.
            ret userId))
          else bind_comp (writes (remember_unknown cacheKey)) (\<lambda>_. ret userId)) g)"

definition lookup_key :: "gateway_env \<Rightarrow> string \<Rightarrow> string \<Rightarrow> string \<Rightarrow> (gateway, string option) comp" where
  "lookup_key env cacheKey hashedToken token =
     bind_comp (if has_cache (a_env env) then on_worker (on_accounts (cache_get cacheKey)) else ret None) (\<lambda>entry.
     case entry of
       Some (C_user u) \<Rightarrow> ret (Some u)
     | _ \<Rightarrow> query_key env cacheKey hashedToken token)"

definition api_key_user :: "gateway_env \<Rightarrow> string \<Rightarrow> (gateway, string option) comp" where
  "api_key_user env token =
     (let hashedToken = hash_key (w_env env) token; cacheKey = ''apikey:'' @ hashedToken
      in bind_comp (reads (\<lambda>g. (gate_now g, map_of (negativeApiKeyCache g) cacheKey))) (\<lambda>(t, negExpiry).
         case negExpiry of
           None \<Rightarrow> lookup_key env cacheKey hashedToken token
         | Some expiry \<Rightarrow>
             if t < expiry then ret None
             else bind_comp (writes (\<lambda>g. g\<lparr>negativeApiKeyCache := jdel cacheKey (negativeApiKeyCache g)\<rparr>)) (\<lambda>_.
                  lookup_key env cacheKey hashedToken token)))"

definition session_user :: "gateway_env \<Rightarrow> string \<Rightarrow> (gateway, string option) comp" where
  "session_user env token = reads (\<lambda>g.
     if \<not> given (JWT_SECRET (a_env env)) then None
     else case jwt_subject env (the (JWT_SECRET (a_env env))) token (gate_now g div 1000) of
            None \<Rightarrow> None | Some u \<Rightarrow> if u = [] then None else Some u)"

definition getUserIdFromRequest :: "gateway_env \<Rightarrow> http_request \<Rightarrow> string option \<Rightarrow> (gateway, string option) comp" where
  "getUserIdFromRequest env r ticketUser =
     (if given ticketUser then ret ticketUser
      else case requestToken r of
             None \<Rightarrow> ret None
           | Some token \<Rightarrow> if starts_with token ''swazz_live_'' then api_key_user env token else session_user env token)"

text \<open>When the user's deletion was asked for, remembered for a minute.\<close>

definition read_deletion :: "string \<Rightarrow> (gateway, int option) comp" where
  "read_deletion userId =
     bind_comp (on_worker (on_accounts (delete_requested_at userId))) (\<lambda>d.
     bind_comp (writes (\<lambda>g. g\<lparr>deletionCache := jset userId (d, gate_now g + 60000) (deletionCache g)\<rparr>)) (\<lambda>_. ret d))"

definition getDeleteRequestedAt :: "string \<Rightarrow> (gateway, int option) comp" where
  "getDeleteRequestedAt userId =
     bind_comp (reads (\<lambda>g. (gate_now g, map_of (deletionCache g) userId))) (\<lambda>(t, entry).
     case entry of
       Some (d, expiry) \<Rightarrow> if t < expiry then ret d else read_deletion userId
     | None \<Rightarrow> read_deletion userId)"

section \<open>The gate\<close>

datatype gate_result = Refused nat string | Passed "string option"

definition open_path :: "string \<Rightarrow> bool" where
  "open_path path =
     (path \<in> set [''/api/info'', ''/api/version'', ''/api/license/verify'', ''/api/payload-catalog'', ''/api/runners/connect''] \<or>
      list_ex (starts_with path) [''/api/auth/'', ''/api/admin/'', ''/api/oob/'', ''/api/telemetry/''] \<or>
      starts_with path ''/api/scans/'' \<and> ends_with path ''/upload'')"

definition cancels_deletion :: "http_request \<Rightarrow> bool" where
  "cancels_deletion r = (q_path r = ''/api/users/me/cancel-deletion'' \<and> q_method r = ''POST'')"

definition authenticate_request :: "gateway_env \<Rightarrow> http_request \<Rightarrow> string option \<Rightarrow> (gateway, gate_result) comp" where
  "authenticate_request env r ticketUser =
     (if AUTH_ENABLED (obj_env (w_env env)) = Some ''true'' then
        bind_comp (getUserIdFromRequest env r ticketUser) (\<lambda>userId.
        if \<not> given userId then ret (Refused 401 ''Unauthorized'')
        else if cancels_deletion r then ret (Passed userId)
        else bind_comp (getDeleteRequestedAt (the userId)) (\<lambda>d.
             ret (if d \<noteq> None then Refused 403 ''Forbidden: Account is scheduled for deletion'' else Passed userId)))
      else ret (Passed ticketUser))"

definition auth_middleware :: "gateway_env \<Rightarrow> http_request \<Rightarrow> (gateway, gate_result) comp" where
  "auth_middleware env r =
     (if open_path (q_path r) then ret (Passed None)
      else case q_ticket r of
             None \<Rightarrow> authenticate_request env r None
           | Some ticket \<Rightarrow>
               if q_upgrade r \<noteq> Some ''websocket'' then ret (Refused 426 ''Expected Upgrade: websocket'')
               else case (if q_method r = ''GET'' then between ''runs'' ''events'' (q_path r) else None) of
                      None \<Rightarrow> ret (Refused 401 ''Unauthorized'')
                    | Some runId \<Rightarrow>
                        bind_comp (on_worker (redeemStreamTicket (w_env env) ticket runId)) (\<lambda>ticketUser.
                        if given ticketUser then authenticate_request env r ticketUser else ret (Refused 401 ''Unauthorized'')))"

definition gate :: "gateway_env \<Rightarrow> http_request \<Rightarrow> (gateway, gate_result) comp" where
  "gate env r =
     (if \<not> path_ok (q_path r) then ret (Refused 400 ''Invalid path parameter'')
      else if too_large r then ret (Refused 413 (if q_method r = ''POST'' \<and> between ''projects'' ''config'' (q_path r) \<noteq> None
             then ''Configuration exceeds 1.9MB limit'' else ''Request body too large''))
      else bind_comp (on_worker (csrfMiddleware (w_env env) r)) (\<lambda>passes.
           if passes then auth_middleware env r else ret (Refused 403 ''Invalid or missing CSRF token'')))"

section \<open>Operations the caches depend on\<close>

definition regenerateApiKey :: "gateway_env \<Rightarrow> string \<Rightarrow> (worker, string) comp" where
  "regenerateApiKey env userId =
     bind_comp (on_accounts (getUserById userId)) (\<lambda>oldUser. case oldUser of
       None \<Rightarrow> throw (Error ''Unauthorized|401'')
     | Some u \<Rightarrow>
         bind_comp draw_one (\<lambda>k.
         let newApiKey = ''swazz_live_'' @ filter (\<lambda>c. c \<noteq> CHR ''-'') (random_id (w_env env) k);
             hashed = hash_key (w_env env) newApiKey in
         bind_comp (on_accounts (updateUserApiKey userId hashed)) (\<lambda>_.
         if \<not> has_cache (a_env env) then ret newApiKey
         else bind_comp (case u_api_key u of None \<Rightarrow> ret ()
                | Some old \<Rightarrow> if old = [] then ret () else on_accounts (cache_delete (api_cache_key (w_env env) old))) (\<lambda>_.
              bind_comp (on_accounts (cache_put (''apikey:'' @ hashed) (C_user userId) 300)) (\<lambda>_. ret newApiKey)))))"

definition forget_deletion :: "string \<Rightarrow> (gateway, unit) comp" where
  "forget_deletion userId = writes (\<lambda>g. g\<lparr>deletionCache := jdel userId (deletionCache g)\<rparr>)"

definition deleteUser :: "gateway_env \<Rightarrow> string \<Rightarrow> (gateway, unit) comp" where
  "deleteUser env userId =
     bind_comp (on_worker (scheduleUserDeletion userId)) (\<lambda>_.
     bind_comp (forget_deletion userId) (\<lambda>_.
     on_worker (writes (revoke_user (w_env env) userId))))"

definition cancelDeleteUser :: "string \<Rightarrow> (gateway, unit) comp" where
  "cancelDeleteUser userId = bind_comp (on_worker (cancelUserDeletion userId)) (\<lambda>_. forget_deletion userId)"

section \<open>Histories\<close>

datatype gateway_event =
    Arrives http_request
  | Regenerates string
  | Asks_deletion string
  | Cancels_deletion string
  | Deletions_run "nat \<Rightarrow> table_op list" bool
  | Security_sweep
  | Behind worker_event
  | New_isolate

fun g_step :: "gateway_env \<Rightarrow> gateway_event \<Rightarrow> gateway \<Rightarrow> gateway" where
  "g_step env (Arrives r) g = snd (gate env r g)"
| "g_step env (Regenerates u) g = snd (on_worker (regenerateApiKey env u) g)"
| "g_step env (Asks_deletion u) g = snd (deleteUser env u g)"
| "g_step env (Cancels_deletion u) g = snd (cancelDeleteUser u g)"
| "g_step env (Deletions_run ops fails) g =
     g\<lparr>behind := cleanupScheduledDeletions (w_env env) (writers (js_rt (obj_env (w_env env))) ops) fails (behind g)\<rparr>"
| "g_step env Security_sweep g = g\<lparr>behind := cleanupSecurityTables (behind g)\<rparr>"
| "g_step env (Behind e) g = g\<lparr>behind := w_step (w_env env) e (behind g)\<rparr>"
| "g_step env New_isolate g = g\<lparr>negativeApiKeyCache := [], deletionCache := []\<rparr>"

definition g_run :: "gateway_env \<Rightarrow> gateway_event list \<Rightarrow> gateway \<Rightarrow> gateway" where
  "g_run env = fold (g_step env)"

end
