(* ===== verification/Gateway_Keys.thy ===== *)
theory Gateway_Keys
  imports Gateway Auth_Claims
begin

text \<open>
  What the Worker's operations do to the API keys in the session cache: only the lookup of a key that
  an account stores and the issue of a new one put an entry there, and each for five minutes.
\<close>

text \<open>The entries of API keys are among \<open>E\<close>, and the clock has not gone back.\<close>

definition kept :: "(string \<times> cached \<times> int) set \<Rightarrow> int \<Rightarrow> auth_db \<Rightarrow> bool" where
  "kept E c d \<longleftrightarrow> c \<le> clock_ms d \<and>
     (\<forall>h v e. map_of (session_cache d) (''apikey:'' @ h) = Some (v, e) \<longrightarrow> (h, v, e) \<in> E)"

lemma keeps_same_cache: "(\<And>d. session_cache (snd (m d)) = session_cache d \<and> clock_ms (snd (m d)) = clock_ms d) \<Longrightarrow> keeps (kept E c) m"
  by (simp add: keeps_def kept_def)

lemma kept_statements [keeps_rules]:
  "keeps (kept E c) (draw how)" "keeps (kept E c) (checkIpRateLimit tidy key k w)" "keeps (kept E c) (checkLoginRateLimit m)"
  "keeps (kept E c) (recordFailedLogin m)" "keeps (kept E c) (resetLoginAttempts m)" "keeps (kept E c) (recordLoginHistory j st)"
  "keeps (kept E c) (createLoginChallenge t n ch df e)" "keeps (kept E c) (getAndConsumeChallenge tok want)"
  "keeps (kept E c) (cache_get key)" "keeps (kept E c) (find_user Q)" "keeps (kept E c) (consumeTotpCounter j kt)"
  "keeps (kept E c) (updateUserTwoFactorSecret j secret en)" "keeps (kept E c) (verifyUserEmail j)" "keeps (kept E c) (updateUserApiKey j key)"
  "keeps (kept E c) (updateUserPublicKey j pk)"
  by (rule keeps_same_cache,
      auto simp: draw_def checkIpRateLimit_def checkLoginRateLimit_def recordFailedLogin_def resetLoginAttempts_def recordLoginHistory_def
        createLoginChallenge_def getAndConsumeChallenge_def cache_get_def find_user_def reads_def writes_def consumeTotpCounter_def
        updateUserTwoFactorSecret_def verifyUserEmail_def updateUserApiKey_def updateUserPublicKey_def on_users_def
        Let_def split: option.splits prod.splits)+

lemma kept_delete [keeps_rules]: "keeps (kept E c) (cache_delete key)"
  by (auto simp: keeps_def kept_def cache_delete_def writes_def split: if_splits)

lemma kept_put: "(\<And>h. key \<noteq> ''apikey:'' @ h) \<Longrightarrow> keeps (kept E c) (cache_put key v ttl)"
  by (auto simp: keeps_def kept_def cache_put_def writes_def split: if_splits)

lemma kept_puts [keeps_rules]:
  "keeps (kept E c) (cache_put (''oauth_code:'' @ k) v ttl)" "keeps (kept E c) (cache_put (''email_verify:'' @ k) v ttl)"
  by (rule kept_put, simp)+

lemma kept_login [keeps_rules]: "keeps (kept E c) (login env b ip t)" "keeps (kept E c) (loginStep1 env n ip t)"
  unfolding login_parts loginStep1_def by (intro keeps_rules allI impI)+

lemma kept_second_factor [keeps_rules]:
  "keeps (kept E c) (setup2FA env j p)" "keeps (kept E c) (prove_second_factor env j u p code)" "keeps (kept E c) (checked_user j)"
  unfolding setup2FA_def prove_second_factor_def checked_user_def login_parts by (intro keeps_rules; simp)+

lemma kept_verify [keeps_rules]: "keeps (kept E c) (verify2FA env j p code)" "keeps (kept E c) (disable2FA env j p code)"
  unfolding verify2FA_def disable2FA_def by (intro keeps_rules; simp)+

lemma kept_others [keeps_rules]:
  "keeps (kept E c) (issueExchangeCode env j)" "keeps (kept E c) (exchangeOauthToken env code b)"
  "keeps (kept E c) (createEmailVerificationToken env u e)" "keeps (kept E c) (verifyEmail env tok)"
  unfolding issueExchangeCode_def exchangeOauthToken_def createEmailVerificationToken_def verifyEmail_def Let_def
  by (intro keeps_rules)+

lemma kept_public_key [keeps_rules]: "keeps (kept E c) (updatePublicKey j k)"
proof -
  have "keeps (kept E c) (\<lambda>d. case updateUserPublicKey j v d of (Inl _, d') \<Rightarrow> (Inl x, d') | (Inr _, d') \<Rightarrow> (Inr v, d'))" for v x
    using kept_statements(15) [of E c j v] by (auto simp: keeps_def split: prod.splits sum.splits)
  moreover have "keeps (kept E c) (isPublicKeyTakenByOther k' j)" for k' by (simp add: isPublicKeyTakenByOther_def keeps_reads)
  ultimately show ?thesis unfolding updatePublicKey_def Let_def by (intro keeps_rules) auto
qed

lemma kept_auth_step: "kept E c d \<Longrightarrow> kept E c (auth_step env r d)"
proof (cases r)
  case (Time_passes ms)
  moreover assume "kept E c d"
  ultimately show ?thesis by (auto simp: kept_def)
qed (use keeps_rules in \<open>simp_all add: keeps_def\<close>)

section \<open>The Worker\<close>

definition wkept :: "(string \<times> cached \<times> int) set \<Rightarrow> int \<Rightarrow> worker \<Rightarrow> bool" where
  "wkept E c w = kept E c (accounts w)"

lemma keeps_same_accounts: "(\<And>w. accounts (snd (m w)) = accounts w) \<Longrightarrow> keeps (wkept E c) m"
  by (simp add: keeps_def wkept_def)

lemma wkept_accounts [keeps_rules]: "keeps (kept E c) m \<Longrightarrow> keeps (wkept E c) (on_accounts m)"
  by (auto simp: keeps_def wkept_def on_accounts_def split_beta)

lemma wkept_parts [keeps_rules]:
  "keeps (wkept E c) (on_access n)" "keeps (wkept E c) draw_one" "keeps (wkept E c) (ask env r)"
  "keeps (wkept E c) (createStreamTicket h u i e k)" "keeps (wkept E c) (consumeStreamTicket h)"
  "keeps (wkept E c) (change_status i from_sts to_st)" "keeps (wkept E c) (put_and_send wenv f i cfg msg)"
  "keeps (wkept E c) (mark_not_queued f i)" "keeps (wkept E c) (createScanRecord wenv f i p t pr uo)"
  "keeps (wkept E c) (triggerScheduledScan wenv f i s t pr u ms)" "keeps (wkept E c) (\<lambda>w. (fw w, w))"
  by (rule keeps_same_accounts,
      auto simp: on_access_def draw_one_def ask_def createStreamTicket_def consumeStreamTicket_def change_status_def put_and_send_def
        mark_not_queued_def createScanRecord_def triggerScheduledScan_def writes_def bind_comp_def Let_def split_beta
        split: option.split sum.split prod.split)+

lemma keeps_case_runner [keeps_rules]:
  "keeps P m \<Longrightarrow> (\<And>u. keeps P (f u)) \<Longrightarrow> keeps P (case i of Shared_runner \<Rightarrow> m | Runner_of u \<Rightarrow> f u)"
  by (simp split: runner_is.split)

lemma wkept_access [keeps_rules]: "keeps (wkept E c) (checkScanAccess i u p)" "keeps (wkept E c) (may_use env i v p)"
proof -
  show a: "keeps (wkept E c) (checkScanAccess i u p)" for u
    unfolding checkScanAccess_def by (intro keeps_rules)
  show "keeps (wkept E c) (may_use env i v p)"
    unfolding may_use_def by (intro keeps_rules a)
qed

lemma wkept_identify [keeps_rules]: "keeps (kept E c) (identify_runner env token key)" "keeps (kept E c) (delete_requested_at u)"
  unfolding identify_runner_def token_user_def by_public_key_def by_api_key_def delete_requested_at_def getUserById_def Let_def
  by (intro keeps_rules)+

lemma wkept_commands [keeps_rules]:
  "keeps (wkept E c) (stopRun env i u)" "keeps (wkept E c) (pauseRun env i u)" "keeps (wkept E c) (resumeRun env i u)"
  "keeps (wkept E c) (connect env up token key q)" "keeps (wkept E c) (connectClient env i u up)"
  "keeps (wkept E c) (restartRunner env con u)" "keeps (wkept E c) (issueStreamTicket env i u)"
  unfolding stopRun_def pauseRun_def resumeRun_def connect_def connectClient_def restartRunner_def issueStreamTicket_def Let_def
  by (intro keeps_rules)+

lemma wkept_listing [keeps_rules]: "keeps (wkept E c) (getRunners env u)" "keeps (wkept E c) (redeemStreamTicket env t i)"
proof -
  have "keeps (wkept E c) (\<lambda>w. let (infos, s) = RunnersHandler (object w) in (Inr (g infos), w\<lparr>object := s\<rparr>))"
    for g :: "runner_info list \<Rightarrow> visible_runner list"
    by (rule keeps_same_accounts) (simp add: split_beta)
  then show "keeps (wkept E c) (getRunners env u)" unfolding getRunners_def by (intro keeps_rules)
  have "keeps (wkept E c) (\<lambda>w. case x of None \<Rightarrow> (Inr None, w) | Some t \<Rightarrow> (Inr (g t w), w))" for x and g :: "ticket_row \<Rightarrow> worker \<Rightarrow> string option"
    by (rule keeps_same_accounts) (simp split: option.split)
  then show "keeps (wkept E c) (redeemStreamTicket env t i)" unfolding redeemStreamTicket_def by (intro keeps_rules)
qed

lemma wkept_queue [keeps_rules]: "keeps (wkept E c) (queueRun env f b u web anon)" "keeps (wkept E c) (run_schedule env f ms s)"
  "keeps (wkept E c) (updateProjectSchedule env p cron)"
proof -
  have q: "keeps (wkept E c) (queue_permission env b u anon)" unfolding queue_permission_def by (intro keeps_rules)
  have k: "keeps (kept E c) (user_public_key v)" for v unfolding user_public_key_def getUserById_def by (intro keeps_rules)
  show "keeps (wkept E c) (queueRun env f b u web anon)"
    unfolding queueRun_def Let_def by (intro keeps_rules q k)
  show "keeps (wkept E c) (run_schedule env f ms s)"
    unfolding run_schedule_def Let_def by (intro keeps_rules)
  show "keeps (wkept E c) (updateProjectSchedule env p cron)"
    unfolding updateProjectSchedule_def Let_def by (intro keeps_rules keeps_same_accounts) simp
qed

lemma wkept_fold: "wkept E c w \<Longrightarrow> (\<And>x. keeps (wkept E c) (m x)) \<Longrightarrow> wkept E c (fold (\<lambda>x w. snd (m x w)) xs w)"
  by (induction xs arbitrary: w) (simp_all add: keeps_def)

lemma wkept_step:
  assumes w: "wkept E c w"
  shows "wkept E c (w_step env e w)"
proof (cases e)
  case (Deliver_scan conf i)
  have a: "accounts (snd (consume_scan env conf m w)) = accounts w" for m
    by (simp add: consume_scan_def bind_comp_def ask_def split_beta)
  then have "accounts (deliver_scan env conf i w) = accounts w"
    by (auto simp: deliver_scan_def split: prod.split sum.split bool.split) (metis snd_conv)+
  with w show ?thesis using Deliver_scan by (simp add: wkept_def)
next
  case (Schedules_run f)
  with w show ?thesis by (auto simp: handleScheduledScans_def Let_def intro!: wkept_fold keeps_rules)
next
  case (Auth aenv r)
  with w show ?thesis by (simp add: wkept_def kept_auth_step)
next
  case (Clock ms)
  with w show ?thesis by (auto simp: wkept_def kept_def)
next
  case (Rbac r)
  with w show ?thesis by (simp add: wkept_def)
next
  case (Object e')
  with w show ?thesis by (simp add: wkept_def)
qed (simp_all add: keeps_snd [OF wkept_queue(1) w] keeps_snd [OF wkept_queue(3) w] keeps_snd [OF wkept_commands(1) w] keeps_snd [OF wkept_commands(2) w]
  keeps_snd [OF wkept_commands(3) w] keeps_snd [OF wkept_commands(4) w] keeps_snd [OF wkept_commands(5) w] keeps_snd [OF wkept_commands(6) w]
  keeps_snd [OF wkept_commands(7) w] keeps_snd [OF wkept_listing(1) w] keeps_snd [OF wkept_listing(2) w])

end
