(* ===== verification/Deletion_Claims.thy ===== *)
theory Deletion_Claims
  imports Account_Deletion
begin

text \<open>What deletions leave behind: no rows without their scan, nothing of a deleted account but its roles.\<close>

section \<open>Scans\<close>

definition kept_rows :: "(scan_row \<Rightarrow> bool) \<Rightarrow> scans_db \<Rightarrow> finding_row list \<times> event_row list \<times> oob_row list" where
  "kept_rows w d = (filter (\<lambda>r. \<not> matching w d (f_scan r)) (findings d), filter (\<lambda>r. \<not> matching w d (e_scan r)) (scan_events d),
     filter (\<lambda>r. \<not> matching w d (o_scan r)) (oob_pending d))"

lemma kept_rows_delete: "kept_rows w (delete_rows t limit (matching w d) d) = kept_rows w d"
proof (cases limit)
  case None
  then show ?thesis unfolding kept_rows_def delete_rows_simps
    by (cases t) (simp_all add: delete_rows_def drop_rows_def)
next
  case (Some n)
  then show ?thesis unfolding kept_rows_def delete_rows_simps
    by (cases t) (simp_all add: delete_rows_def drop_rows_def drop_first_filter)
qed

lemma purge_table_keeps:
  "kept_rows w (snd (purge_table undisturbed w t n (k, d))) = kept_rows w d \<and> scans (snd (purge_table undisturbed w t n (k, d))) = scans d"
proof (induction n arbitrary: k d)
  case (Suc n)
  have "kept_rows w (snd (purge_chunk t w d)) = kept_rows w d" "scans (snd (purge_chunk t w d)) = scans d"
    by (simp_all add: purge_chunk_def kept_rows_delete)
  with Suc show ?case by (simp add: Let_def split_beta undisturbed_def)
qed simp

lemma purge_keeps:
  assumes "purgeScanChildren undisturbed w d = (k, d')"
  shows "kept_rows w d' = kept_rows w d" "scans d' = scans d"
proof -
  have "kept_rows w (snd (purgeScanChildren undisturbed w d)) = kept_rows w d \<and> scans (snd (purgeScanChildren undisturbed w d)) = scans d"
    using purge_table_keeps unfolding purgeScanChildren_def SCAN_CHILD_TABLES_def by (simp add: split_paired_all) (metis prod.collapse)
  with assms show "kept_rows w d' = kept_rows w d" "scans d' = scans d" by simp_all
qed

lemma batch_rows:
  "(findings (deleteScansWhere w d), scan_events (deleteScansWhere w d), oob_pending (deleteScansWhere w d)) = kept_rows w d"
proof -
  have "matching w (d\<lparr>findings := x\<rparr>) = matching w d" "matching w (d\<lparr>findings := x, scan_events := y\<rparr>) = matching w d" for x y
    by (simp_all add: matching_def fun_eq_iff)
  then show ?thesis
    by (simp add: deleteScansWhere_def Let_def SCAN_CHILD_TABLES_def delete_rows_def drop_rows_def kept_rows_def)
qed

text \<open>
  C11. Deleted scans leave nothing behind, and nothing else is lost. Whatever other writers do between
  the statements of a deletion (report events and findings for the very scans being deleted, create
  scans, delete others) and whatever happens later, every event, finding and out-of-band token in the
  tables belongs to a scan that exists; right after the batch no scan that was to be deleted is there;
  and without writers in between, the scans and the rows that remain are exactly those the deletion
  was not about.
\<close>

theorem deleted_scans_leave_nothing:
  assumes "children_ok d"
  shows "(\<forall>later. children_ok (table_run rt later (delete_scans (writers rt ops) w d))) \<and>
    (\<forall>s \<in> set (scans (delete_scans (writers rt ops) w d)). \<not> w s) \<and>
    scans (delete_scans undisturbed w d) = filter (\<lambda>s. \<not> w s) (scans d) \<and>
    (findings (delete_scans undisturbed w d), scan_events (delete_scans undisturbed w d), oob_pending (delete_scans undisturbed w d)) = kept_rows w d"
proof -
  have batch: "\<forall>s \<in> set (scans (delete_scans others w d)). \<not> w s" for others
    by (simp add: delete_scans_def split_beta scans_batch)
  obtain k d' where p: "purgeScanChildren undisturbed w d = (k, d')" by fastforce
  then have "delete_scans undisturbed w d = deleteScansWhere w d'" by (simp add: delete_scans_def undisturbed_def)
  with purge_keeps [OF p] batch_rows [of w d'] batch children_run children_delete_scans [OF assms]
  show ?thesis by (simp add: scans_batch)
qed

lemma purge_bound: "fst (purgeScanChildren others w d) \<le> 300"
proof -
  let ?p = "\<lambda>t. purge_table others w t SCAN_CHILD_MAX_CHUNKS"
  have "fst (?p t x) \<le> fst x + 100" for t x
    using purge_table_steps [of others w t SCAN_CHILD_MAX_CHUNKS "fst x" "snd x"] by (simp add: SCAN_CHILD_MAX_CHUNKS_def)
  from this [of Findings "(0, d)"] this [of Scan_events "?p Findings (0, d)"]
    this [of Oob_pending "?p Scan_events (?p Findings (0, d))"]
  show ?thesis by (simp add: purgeScanChildren_def SCAN_CHILD_TABLES_def)
qed

lemma purge_complete:
  assumes m: "\<And>t. matches t w d < 500000"
  shows "\<exists>d'. purgeScanChildren undisturbed w d = (\<Sum>t \<leftarrow> SCAN_CHILD_TABLES. matches t w d div 5000 + 1, d') \<and> (\<forall>t. matches t w d' = 0)"
proof -
  let ?p = "\<lambda>t. purge_table undisturbed w t SCAN_CHILD_MAX_CHUNKS" and ?n = "\<lambda>t. matches t w d div 5000 + 1"
  have q: "\<exists>d'. ?p t (k, e) = (k + matches t w e div 5000 + 1, d') \<and> matches t w d' = 0 \<and>
      (\<forall>t'. t' \<noteq> t \<longrightarrow> matches t' w d' = matches t' w e)" if "matches t w e < 500000" for t k e
    using purge_table_quiet [of t w e SCAN_CHILD_MAX_CHUNKS k] that
    by (auto simp: SCAN_CHILD_MAX_CHUNKS_def SCAN_CHILD_DELETE_CHUNK_def)
  from q [OF m, of Findings 0] obtain d1 where 1: "?p Findings (0, d) = (?n Findings, d1)" "matches Findings w d1 = 0"
    "matches Scan_events w d1 = matches Scan_events w d" "matches Oob_pending w d1 = matches Oob_pending w d"
    by auto
  with q [of Scan_events d1 "?n Findings"] m obtain d2 where 2: "?p Scan_events (?n Findings, d1) = (?n Findings + ?n Scan_events, d2)"
    "matches Scan_events w d2 = 0" "matches Findings w d2 = 0" "matches Oob_pending w d2 = matches Oob_pending w d"
    by auto
  with q [of Oob_pending d2 "?n Findings + ?n Scan_events"] m obtain d3 where 3:
    "?p Oob_pending (?n Findings + ?n Scan_events, d2) = (?n Findings + ?n Scan_events + ?n Oob_pending, d3)"
    "matches Oob_pending w d3 = 0" "matches Scan_events w d3 = 0" "matches Findings w d3 = 0"
    by auto
  have "purgeScanChildren undisturbed w d = (\<Sum>t \<leftarrow> SCAN_CHILD_TABLES. ?n t, d3)"
    using 1(1) 2(1) 3(1) by (simp add: purgeScanChildren_def SCAN_CHILD_TABLES_def)
  moreover have "matches t w d3 = 0" for t using 3 by (cases t) auto
  ultimately show ?thesis by blast
qed

text \<open>
  C39. Deleting scans ends, however fast a runner writes. At most 300 statements precede the batch,
  whatever other writers do; and without them, a deletion of scans with fewer than 500,000 rows
  in each table leaves no row of theirs to the batch, after one statement for each full chunk of 5,000
  rows and one more per table.
\<close>

theorem purges_end:
  "fst (purgeScanChildren others w d) \<le> 300 \<and>
   ((\<forall>t. matches t w d < 500000) \<longrightarrow>
      (\<forall>t. matches t w (snd (purgeScanChildren undisturbed w d)) = 0) \<and>
      fst (purgeScanChildren undisturbed w d) = (\<Sum>t \<leftarrow> SCAN_CHILD_TABLES. matches t w d div 5000 + 1))"
proof (intro conjI impI)
  assume "\<forall>t. matches t w d < 500000"
  then obtain d' where "purgeScanChildren undisturbed w d = (\<Sum>t \<leftarrow> SCAN_CHILD_TABLES. matches t w d div 5000 + 1, d')" "\<forall>t. matches t w d' = 0"
    using purge_complete [of w d] by blast
  then show "\<forall>t. matches t w (snd (purgeScanChildren undisturbed w d)) = 0"
    "fst (purgeScanChildren undisturbed w d) = (\<Sum>t \<leftarrow> SCAN_CHILD_TABLES. matches t w d div 5000 + 1)" by simp_all
qed (rule purge_bound)

text \<open>A scan with a token, and a writer that adds tokens of it before every statement.\<close>

definition two_scans :: scans_db where
  "two_scans = \<lparr>scans = map (\<lambda>i. new_scan i ''p1'' [] ''default'' ''completed'' (Some ''ann'') ''manual'' 0) [''old'', ''other''],
     scan_events = [], findings = [],
     oob_pending = map (\<lambda>i. \<lparr>o_scan = i, o_token = ''t0'', o_endpoint = [], o_payload = [], o_created = 0\<rparr>) [''old'', ''other''],
     user_keys = [], scan_configs = [], fired = [], db_clock = 10, uuid_of = show_nat, next_uuid = 0\<rparr>"

definition busy :: "nat \<Rightarrow> table_op list" where
  "busy k = [Store_oob ''old'' [(show_nat k, [], [])]]"

definition old_scan :: "scan_row \<Rightarrow> bool" where
  "old_scan s = (s_id s = ''old'')"

definition two_scans_rt :: runtime where
  "two_scans_rt = \<lparr>stringify = (\<lambda>j. units ''{}''), parse_json = (\<lambda>t. None), to_text = (\<lambda>j. []), parse_url = (\<lambda>t. None)\<rparr>"

lemma two_scans_ok: "children_ok two_scans"
  by (auto simp: children_ok_def child_ids_def two_scans_def scan_exists_def new_scan_def split: child_table.split)

theorem deleted_scans_leave_nothing_witness:
  "oob_count (writers two_scans_rt busy 3 two_scans) ''old'' = 2 \<and>
   children_ok (table_run two_scans_rt [Store_oob ''old'' [(''t9'', [], [])]] (delete_scans (writers two_scans_rt busy) old_scan two_scans)) \<and>
   map s_id (scans (delete_scans undisturbed old_scan two_scans)) = [''other''] \<and>
   map o_scan (oob_pending (delete_scans undisturbed old_scan two_scans)) = [''other'']"
proof -
  note t = deleted_scans_leave_nothing [OF two_scans_ok, of two_scans_rt busy old_scan]
  have "map s_id (filter (\<lambda>s. \<not> old_scan s) (scans two_scans)) = [''other'']"
    "map o_scan (snd (snd (kept_rows old_scan two_scans))) = [''other'']" by code_simp+
  moreover have "oob_count (writers two_scans_rt busy 3 two_scans) ''old'' = 2"
    by (simp add: writers_def table_run_def busy_def storeOobPending_def two_scans_def scan_exists_def new_scan_def oob_count_def
        MAX_OOB_TOKENS_PER_SCAN_def insert_oob_def oob_key_def show_nat_def nat_digits.simps)
  ultimately show ?thesis using t by (metis snd_conv)
qed

theorem purges_end_witness:
  "fst (purgeScanChildren undisturbed old_scan two_scans) = 3 \<and> matches Oob_pending old_scan two_scans = 1"
proof -
  have m: "matches Findings old_scan two_scans = 0" "matches Scan_events old_scan two_scans = 0" "matches Oob_pending old_scan two_scans = 1"
    by code_simp+
  have "matches t old_scan two_scans < 500000" for t using m by (cases t) auto
  with purges_end [of undisturbed old_scan two_scans] m show ?thesis by (simp add: SCAN_CHILD_TABLES_def)
qed

section \<open>Accounts\<close>

lemma fold_keeps: "(\<And>x s. f (g x s) = f s) \<Longrightarrow> f (fold g xs s) = f s"
  by (induction xs arbitrary: s) simp_all

lemma fold_forget:
  "accounts (fold (forget_api_key env) ks w) = accounts w\<lparr>session_cache := fold (\<lambda>k. jdel (api_cache_key env k)) ks (session_cache (accounts w))\<rparr>"
  "access (fold (forget_api_key env) ks w) = access w" "object (fold (forget_api_key env) ks w) = object w"
  "schedules (fold (forget_api_key env) ks w) = schedules w"
  by (induction ks arbitrary: w) (simp_all add: forget_api_key_def on_accounts_def cache_delete_def writes_def Let_def)

lemma delete_report_keeps [simp]:
  "accounts (delete_report k w) = accounts w" "access (delete_report k w) = access w" "db (object (delete_report k w)) = db (object w)"
  "schedules (delete_report k w) = schedules w"
  by (simp_all add: delete_report_def)

lemma set_socket_db [simp]: "db (set_socket ws f s) = db s"
  by (simp add: set_socket_def split: option.split)

lemma revoke_keeps [simp]:
  "accounts (revoke_user env u w) = accounts w" "access (revoke_user env u w) = access w"
  "db (object (revoke_user env u w)) = db (object w)" "schedules (revoke_user env u w) = schedules w"
proof -
  have "db (fold (revoke_socket t) xs s) = db s" for t xs s
    by (rule fold_keeps) (simp add: revoke_socket_def del_runner_def close_ws_def)
  then have "db (snd (RevokeUserHandler v s)) = db s" for v s by (simp add: RevokeUserHandler_def Let_def)
  then show "db (object (revoke_user env u w)) = db (object w)"
    by (simp add: revoke_user_def ask_def split_beta)
qed (simp_all add: revoke_user_def ask_def split_beta)

lemma before_batch [simp]:
  "accounts (fold (revoke_user env) us (fold delete_report ks w)) = accounts w"
  "access (fold (revoke_user env) us (fold delete_report ks w)) = access w"
  "db (object (fold (revoke_user env) us (fold delete_report ks w))) = db (object w)"
  "schedules (fold (revoke_user env) us (fold delete_report ks w)) = schedules w"
  using fold_keeps [of accounts delete_report] fold_keeps [of accounts "revoke_user env"]
    fold_keeps [of access delete_report] fold_keeps [of access "revoke_user env"]
    fold_keeps [of "\<lambda>w. db (object w)" delete_report] fold_keeps [of "\<lambda>w. db (object w)" "revoke_user env"]
    fold_keeps [of schedules delete_report] fold_keeps [of schedules "revoke_user env"]
  by simp_all

text \<open>A revoked user's runners are not among those the coordinator sends scans to.\<close>

lemma close_tags [simp]: "tags_of (close_ws ws s) = tags_of s"
  by (auto simp: close_ws_def set_socket_def tags_of_def socket_of_def fun_eq_iff split: option.split)

lemma revoke_sockets:
  "tags_of (fold (revoke_socket t) xs s) = tags_of s \<and>
   set (runners (fold (revoke_socket t) xs s)) = {ws \<in> set (runners s). ws \<in> set xs \<longrightarrow> t \<notin> set (tags_of s ws)}"
proof (induction xs arbitrary: s)
  case (Cons x xs)
  have "tags_of (revoke_socket t x s) = tags_of s"
    by (simp add: revoke_socket_def del_runner_def) (simp add: tags_of_def [abs_def] socket_of_def close_ws_def set_socket_def fun_eq_iff split: option.split)
  moreover have "set (runners (revoke_socket t x s)) = (if t \<in> set (tags_of s x) then set (runners s) - {x} else set (runners s))"
    by (simp add: revoke_socket_def del_runner_def close_ws_def set_socket_def split: option.split)
  ultimately show ?case using Cons [of "revoke_socket t x s"] by auto
qed simp

definition runs_for :: "string \<Rightarrow> worker \<Rightarrow> nat \<Rightarrow> bool" where
  "runs_for u w ws = (ws \<in> set (runners (object w)) \<and> ''user_id:'' @ u \<in> set (tags_of (object w) ws))"

lemma revoke_runs:
  assumes "runs_for v (revoke_user env u w) ws"
  shows "runs_for v w ws \<and> (v = u \<longrightarrow> u = [])"
proof -
  have k: "ws \<in> set (jkeys (sockets (object w)))" if "t \<in> set (tags_of (object w) ws)" for t
    using that by (cases "map_of (sockets (object w)) ws") (auto simp: tags_of_def socket_of_def set_jkeys)
  have t: "tags_of (s\<lparr>sseStreams := x\<rparr>) = tags_of s" for s x
    by (simp add: tags_of_def [abs_def] socket_of_def)
  from assms k show ?thesis
    by (auto simp: runs_for_def revoke_user_def ask_def split_beta RevokeUserHandler_def Let_def given_def t
        revoke_sockets [THEN conjunct1] revoke_sockets [THEN conjunct2] split: if_splits)
qed

lemma revoked_runs: "runs_for v (fold (revoke_user env) us w) ws \<Longrightarrow> runs_for v w ws \<and> (v \<in> set us \<longrightarrow> v = [])"
proof (induction us arbitrary: w)
  case (Cons u us)
  from Cons.IH [of "revoke_user env u w"] Cons.prems revoke_runs [of v env u w ws] show ?case by auto
qed simp

lemma runs_for_object: "runners (object w') = runners (object w) \<Longrightarrow> sockets (object w') = sockets (object w) \<Longrightarrow> runs_for v w' ws = runs_for v w ws"
  by (simp add: runs_for_def tags_of_def socket_of_def)

definition gone :: "worker \<Rightarrow> string list" where
  "gone w = map Auth_Db.u_id (getExpiredScheduledDeletions w)"

text \<open>The pass, when its batch succeeds, field by field.\<close>

lemma cleanup_fields:
  assumes "w' = cleanupScheduledDeletions env others False w" and "gone w \<noteq> []"
  defines "ps \<equiv> projects_owned_by (gone w) w" and "us \<equiv> gone w"
  shows "Auth_Db.users (accounts w') = filter (\<lambda>u. Auth_Db.u_id u \<notin> set us) (Auth_Db.users (accounts w))"
    and "login_attempts (accounts w') = filter (\<lambda>(n, _). n \<notin> set (map u_name (getExpiredScheduledDeletions w))) (login_attempts (accounts w))"
    and "access w' = (access w)\<lparr>members := filter (\<lambda>(_, u, _). u \<notin> set us) (filter (\<lambda>(p, _, _). p \<notin> set ps) (members (access w))),
           projects := filter (\<lambda>p. p_id p \<notin> set ps) (projects (access w)),
           rbac.users := filter (\<lambda>u. Rbac_Repo.u_id u \<notin> set us) (rbac.users (access w))\<rparr>"
    and "schedules w' = filter (\<lambda>s. sch_project s \<notin> set ps) (schedules w)"
    and "\<exists>d. d = delete_scans others (\<lambda>s. user_in us s \<or> s_project s \<in> set ps) (db (object w)) \<and>
           db (object w') = d\<lparr>scan_configs := filter (\<lambda>((p, _), _). p \<notin> set ps) (scan_configs d)\<rparr>"
    and "session_cache (accounts w') = fold (\<lambda>k. jdel (api_cache_key env k)) (getUserApiKeys us w) (session_cache (accounts w))"
    and "runs_for v w' ws \<Longrightarrow> v \<in> set us \<Longrightarrow> v = []"
proof -
  let ?w2 = "fold (revoke_user env) us (fold delete_report (getScanReportUrls us ps w) w)"
  let ?d = "\<lambda>s. user_in us s \<or> s_project s \<in> set ps" and ?e = "getExpiredScheduledDeletions w"
  have ne: "?e \<noteq> []" "us \<noteq> []" using assms(2) by (auto simp: gone_def us_def)
  obtain k d where p: "purgeScanChildren others ?d (db (object w)) = (k, d)" by fastforce
  define w3 where "w3 = (drop_user_rows us (map u_name ?e) \<circ> drop_project_rows ps) (on_scans (deleteScansWhere ?d) (on_scans (\<lambda>_. others k d) ?w2))"
  have run: "deleteUsersData others False us ps (map u_name ?e) ?w2 = (Inr (), w3)"
    using ne(2) by (simp add: deleteUsersData_def purge_then_def p w3_def)
  have keys: "getUserApiKeys us ?w2 = getUserApiKeys us w" by (simp add: getUserApiKeys_def)
  have w': "w' = fold (forget_api_key env) (getUserApiKeys us w) w3"
    using ne(1) run keys unfolding assms(1) cleanupScheduledDeletions_def Let_def us_def ps_def gone_def by simp
  have ds: "delete_scans others ?d (db (object w)) = deleteScansWhere ?d (others k d)" by (simp add: delete_scans_def p)
  note f = w' fold_forget w3_def drop_user_rows_def drop_project_rows_def on_scans_def on_db_def Let_def
  show "Auth_Db.users (accounts w') = filter (\<lambda>u. Auth_Db.u_id u \<notin> set us) (Auth_Db.users (accounts w))"
    "login_attempts (accounts w') = filter (\<lambda>(n, _). n \<notin> set (map u_name ?e)) (login_attempts (accounts w))"
    "access w' = (access w)\<lparr>members := filter (\<lambda>(_, u, _). u \<notin> set us) (filter (\<lambda>(p, _, _). p \<notin> set ps) (members (access w))),
           projects := filter (\<lambda>p. p_id p \<notin> set ps) (projects (access w)),
           rbac.users := filter (\<lambda>u. Rbac_Repo.u_id u \<notin> set us) (rbac.users (access w))\<rparr>"
    "schedules w' = filter (\<lambda>s. sch_project s \<notin> set ps) (schedules w)"
    "session_cache (accounts w') = fold (\<lambda>k. jdel (api_cache_key env k)) (getUserApiKeys us w) (session_cache (accounts w))"
    by (simp_all add: f)
  show "\<exists>d. d = delete_scans others ?d (db (object w)) \<and>
      db (object w') = d\<lparr>scan_configs := filter (\<lambda>((p, _), _). p \<notin> set ps) (scan_configs d)\<rparr>"
    by (simp add: f ds)
  have "runs_for v w' ws = runs_for v ?w2 ws"
    by (rule runs_for_object) (simp_all add: f)
  then show "runs_for v w' ws \<Longrightarrow> v \<in> set us \<Longrightarrow> v = []"
    using revoked_runs by blast
qed

definition overdue :: "worker \<Rightarrow> account_row \<Rightarrow> bool" where
  "overdue w u = (\<exists>t. u_delete_at u = Some t \<and> t < worker_now w - 7 * 86400)"

lemma gone_iff: "u \<in> set (gone w) \<longleftrightarrow> (\<exists>r \<in> set (Auth_Db.users (accounts w)). Auth_Db.u_id r = u \<and> overdue w r)"
  by (auto simp: gone_def getExpiredScheduledDeletions_def overdue_def split: option.splits)

lemma gone_distinct:
  assumes "distinct (map Auth_Db.u_id (Auth_Db.users (accounts w)))"
  shows "filter (\<lambda>u. Auth_Db.u_id u \<notin> set (gone w)) (Auth_Db.users (accounts w)) = filter (\<lambda>u. \<not> overdue w u) (Auth_Db.users (accounts w))"
proof (rule filter_cong [OF refl])
  fix u assume "u \<in> set (Auth_Db.users (accounts w))"
  with assms show "(Auth_Db.u_id u \<notin> set (gone w)) = (\<not> overdue w u)"
    by (auto simp: gone_iff distinct_map dest: inj_onD)
qed


text \<open>
  Their roles stay, though: the pass removes no row of \<open>project_member_roles\<close>, so whoever still holds a
  session of a deleted account has the same permissions in every project it did not own.
\<close>

definition same_roles :: "rbac \<Rightarrow> rbac \<Rightarrow> bool" where
  "same_roles r r' = (member_roles r' = member_roles r \<and> custom_roles r' = custom_roles r \<and> inheritance r' = inheritance r \<and>
     role_perms r' = role_perms r \<and> kv_bound r' = kv_bound r \<and> kv r' = kv r \<and> neg r' = neg r \<and> clock r' = clock r)"

lemma same_load:
  assumes "same_roles r r'"
  shows "fst (load_permissions u p r') = fst (load_permissions u p r)"
proof -
  have o: "owned r' = owned r" using assms by (simp add: owned_def same_roles_def fun_eq_iff)
  then have i: "included_roles r' p = included_roles r p" using assms by (simp add: included_roles_def same_roles_def fun_eq_iff)
  have "role_levels r' p n rs = role_levels r p n rs" for n rs by (induction n arbitrary: rs) (simp_all add: i)
  then have h: "role_hierarchy r' p = role_hierarchy r p" by (simp add: role_hierarchy_def fun_eq_iff)
  have "permissionsForRoleIds r' p rs = permissionsForRoleIds r p rs" for rs
    using assms by (simp add: permissionsForRoleIds_def custom_permissions_def o same_roles_def)
  with h show ?thesis using assms by (simp add: load_permissions_def user_roles_def same_roles_def Let_def)
qed

lemma same_check:
  assumes s: "same_roles r r'"
  shows "fst (checkPermission u p perm r') = fst (checkPermission u p perm r)"
proof -
  have k: "fst (kv_or_load u p a') = fst (kv_or_load u p a)" if "same_roles a a'" for a a'
    using that same_load [OF that] by (auto simp: kv_or_load_def kv_get_def same_roles_def split: option.split)
  have "same_roles (r\<lparr>neg := n\<rparr>) (r'\<lparr>neg := n\<rparr>)" for n using s by (simp add: same_roles_def)
  with k [OF this] k [OF s] s have "fst (getEffectivePermissions u p r') = fst (getEffectivePermissions u p r)"
    by (auto simp: getEffectivePermissions_def same_roles_def Let_def split: option.split)
  then show ?thesis
    by (auto simp: checkPermission_def bind_comp_def ret_def split: prod.splits sum.splits)
qed

lemma deleted_accounts_keep_their_roles:
  assumes "gone w \<noteq> []" and "w' = cleanupScheduledDeletions env others False w"
  shows "fst (checkPermission u p perm (access w')) = fst (checkPermission u p perm (access w))"
  by (rule same_check) (simp add: same_roles_def cleanup_fields(3) [OF assms(2,1)])

end
