(* ===== verification/Gateway_Claims.thy ===== *)
theory Gateway_Claims
  imports Gateway_Keys Worker_Claims Deletion_Claims
begin

text \<open>
  Whom the gate lets through, how long a revoked API key is still accepted, and runs that meet the
  hypotheses of these properties and of the one about deleted accounts.
\<close>

section \<open>Who passes\<close>

text \<open>What a request shows of its user, before it is handled.\<close>

definition proves_user :: "gateway_env \<Rightarrow> http_request \<Rightarrow> gateway \<Rightarrow> string \<Rightarrow> bool" where
  "proves_user env r g u = (case q_ticket r of
     Some t \<Rightarrow> q_upgrade r = Some ''websocket'' \<and> q_method r = ''GET'' \<and>
       (\<exists>tk \<in> set (ws_tickets (behind g)). tk_hash tk = hash_key (w_env env) t \<and> tk_user tk = u \<and>
          between ''runs'' ''events'' (q_path r) = Some (tk_run tk) \<and> worker_now (behind g) < tk_expires tk)
   | None \<Rightarrow> (\<exists>token. requestToken r = Some token \<and>
       (if starts_with token ''swazz_live_'' then
          (\<exists>a \<in> set (Auth_Db.users (accounts (behind g))). Auth_Db.u_id a = u \<and>
             u_api_key a \<in> {Some (hash_key (w_env env) token), Some token}) \<or>
          (\<exists>e. map_of (session_cache (accounts (behind g))) (''apikey:'' @ hash_key (w_env env) token) = Some (C_user u, e) \<and> gate_now g < e)
        else \<exists>secret. JWT_SECRET (a_env env) = Some secret \<and> jwt_subject env secret token (gate_now g div 1000) = Some u)))"

definition not_leaving :: "gateway \<Rightarrow> string \<Rightarrow> bool" where
  "not_leaving g u = (case find (\<lambda>a. Auth_Db.u_id a = u) (Auth_Db.users (accounts (behind g))) of
       None \<Rightarrow> True | Some a \<Rightarrow> u_delete_at a = None)"

definition csrf_ok :: "worker_env \<Rightarrow> http_request \<Rightarrow> worker \<Rightarrow> bool" where
  "csrf_ok env r w = (given (q_csrf_header r) \<and>
     (if given (q_csrf_cookie r) then q_csrf_header r = q_csrf_cookie r else q_csrf_header r = Some (random_id env (draws w))))"

lemma csrf_passes:
  assumes "csrfMiddleware env r w = (Inr True, w')"
  shows "w' = w \<or> w' = w\<lparr>draws := Suc (draws w)\<rparr>"
    and "csrf_exempt (q_path r) \<or> q_method r \<in> set [''GET'', ''HEAD'', ''OPTIONS''] \<or> given (q_authorization r) \<or> given (q_upload_token r) \<or> csrf_ok env r w"
  using assms by (auto simp: csrfMiddleware_def draw_one_def bind_comp_def ret_def csrf_ok_def given_def split: if_splits)

lemma verified_key:
  assumes "verifyApiKey h t d = (Inr (Some u), d')"
  shows "\<exists>a \<in> set (Auth_Db.users d). Auth_Db.u_id a = u \<and> u_api_key a \<in> {Some h, Some t}"
    "\<exists>a \<in> set (Auth_Db.users d'). u_api_key a = Some h"
    "session_cache d' = session_cache d" "clock_ms d' = clock_ms d"
    "map (\<lambda>a. (Auth_Db.u_id a, u_delete_at a)) (Auth_Db.users d') = map (\<lambda>a. (Auth_Db.u_id a, u_delete_at a)) (Auth_Db.users d)"
proof -
  have f: "find P xs = Some a \<Longrightarrow> a \<in> set xs \<and> P a" for P and xs :: "account_row list" and a
    by (auto simp: find_Some_iff)
  note defs = verifyApiKey_def find_user_def reads_def bind_comp_def ret_def updateUserApiKey_def writes_def on_users_def
  from assms f show "\<exists>a \<in> set (Auth_Db.users d). Auth_Db.u_id a = u \<and> u_api_key a \<in> {Some h, Some t}"
    "session_cache d' = session_cache d" "clock_ms d' = clock_ms d"
    "map (\<lambda>a. (Auth_Db.u_id a, u_delete_at a)) (Auth_Db.users d') = map (\<lambda>a. (Auth_Db.u_id a, u_delete_at a)) (Auth_Db.users d)"
    by (auto simp: defs comp_def split: option.splits dest!: f)
  consider a where "a \<in> set (Auth_Db.users d)" "u_api_key a = Some h" "d' = d"
    | a where "a \<in> set (Auth_Db.users d)" "d' = on_users (\<lambda>b. Auth_Db.u_id b = Auth_Db.u_id a) (\<lambda>b. b\<lparr>u_api_key := Some h\<rparr>) d"
  proof (cases "find (\<lambda>a. u_api_key a = Some h) (Auth_Db.users d)")
    case (Some a)
    with assms have "d' = d" by (simp add: defs)
    with f [OF Some] that(1) show ?thesis by blast
  next
    case None
    with assms obtain a where a: "find (\<lambda>a. u_api_key a = Some t) (Auth_Db.users d) = Some a"
      by (cases "find (\<lambda>a. u_api_key a = Some t) (Auth_Db.users d)") (simp_all add: defs)
    with assms None have "d' = on_users (\<lambda>b. Auth_Db.u_id b = Auth_Db.u_id a) (\<lambda>b. b\<lparr>u_api_key := Some h\<rparr>) d"
      by (auto simp: defs)
    with f [OF a] that(2) show ?thesis by blast
  qed
  then show "\<exists>a \<in> set (Auth_Db.users d'). u_api_key a = Some h"
  proof cases
    case (2 a)
    then have "a\<lparr>u_api_key := Some h\<rparr> \<in> set (Auth_Db.users d')" by (force simp: on_users_def)
    then show ?thesis by force
  qed blast
qed

text \<open>Who is leaving depends on these columns only.\<close>

lemma find_columns:
  assumes "map (\<lambda>a. (Auth_Db.u_id a, u_delete_at a)) xs = map (\<lambda>a. (Auth_Db.u_id a, u_delete_at a)) ys"
  shows "map_option u_delete_at (find (\<lambda>a. Auth_Db.u_id a = u) xs) = map_option u_delete_at (find (\<lambda>a. Auth_Db.u_id a = u) ys)"
  using assms
proof (induction xs arbitrary: ys)
  case (Cons x xs)
  then show ?case by (cases ys) auto
qed simp

definition same_columns :: "gateway \<Rightarrow> gateway \<Rightarrow> bool" where
  "same_columns g g' = (map (\<lambda>a. (Auth_Db.u_id a, u_delete_at a)) (Auth_Db.users (accounts (behind g'))) =
       map (\<lambda>a. (Auth_Db.u_id a, u_delete_at a)) (Auth_Db.users (accounts (behind g))) \<and>
     gate_now g' = gate_now g \<and> deletionCache g' = deletionCache g)"

lemma queried_user:
  assumes "query_key env ck h t g = (Inr (Some u), g')"
  shows "(\<exists>a \<in> set (Auth_Db.users (accounts (behind g))). Auth_Db.u_id a = u \<and> u_api_key a \<in> {Some h, Some t}) \<and> same_columns g g'"
proof (cases "d1_down (object (behind g))")
  case False
  obtain x d where v: "verifyApiKey h t (accounts (behind g)) = (x, d)" by fastforce
  from assms False v have x: "x = Inr (Some u)"
    by (auto simp: query_key_def on_worker_def on_accounts_def bind_comp_def ret_def writes_def Let_def given_def
        split: sum.splits option.splits if_splits prod.splits)
  from assms False v x have "same_columns g g'"
    using verified_key(4,5) [OF v [unfolded x]]
    by (auto simp: query_key_def on_worker_def on_accounts_def bind_comp_def ret_def writes_def Let_def given_def cache_put_def
        same_columns_def gate_now_def remember_unknown_def split: if_splits)
  with verified_key(1) [OF v [unfolded x]] show ?thesis by blast
qed (use assms in \<open>auto simp: query_key_def\<close>)

lemma looked_up_user:
  assumes "lookup_key env ck h t g = (Inr (Some u), g')"
  shows "((\<exists>a \<in> set (Auth_Db.users (accounts (behind g))). Auth_Db.u_id a = u \<and> u_api_key a \<in> {Some h, Some t}) \<or>
      (\<exists>e. map_of (session_cache (accounts (behind g))) ck = Some (C_user u, e) \<and> gate_now g < e)) \<and> same_columns g g'"
proof -
  let ?e = "if has_cache (a_env env) then (case map_of (session_cache (accounts (behind g))) ck of
      None \<Rightarrow> None | Some (v, e) \<Rightarrow> if gate_now g < e then Some v else None) else None"
  have run: "lookup_key env ck h t g = (case ?e of Some (C_user v) \<Rightarrow> (Inr (Some v), g) | _ \<Rightarrow> query_key env ck h t g)"
    by (auto simp: lookup_key_def on_worker_def on_accounts_def cache_get_def reads_def bind_comp_def ret_def gate_now_def
        split: option.split cached.split if_splits)
  show ?thesis
  proof (cases "\<exists>v. ?e = Some (C_user v)")
    case True
    then obtain v where v: "?e = Some (C_user v)" by blast
    with assms run have "u = v" "g' = g" by auto
    with v show ?thesis by (auto simp: same_columns_def split: if_splits option.splits)
  next
    case False
    with assms run have "query_key env ck h t g = (Inr (Some u), g')" by (auto split: option.splits cached.splits)
    from queried_user [OF this] show ?thesis by blast
  qed
qed

lemma key_user:
  assumes "api_key_user env token g = (Inr (Some u), g')"
  shows "((\<exists>a \<in> set (Auth_Db.users (accounts (behind g))). Auth_Db.u_id a = u \<and>
        u_api_key a \<in> {Some (hash_key (w_env env) token), Some token}) \<or>
      (\<exists>e. map_of (session_cache (accounts (behind g))) (''apikey:'' @ hash_key (w_env env) token) = Some (C_user u, e) \<and> gate_now g < e)) \<and>
    same_columns g g'"
proof -
  let ?h = "hash_key (w_env env) token"
  let ?g = "g\<lparr>negativeApiKeyCache := jdel (''apikey:'' @ ?h) (negativeApiKeyCache g)\<rparr>"
  consider "lookup_key env (''apikey:'' @ ?h) ?h token g = (Inr (Some u), g')"
    | "lookup_key env (''apikey:'' @ ?h) ?h token ?g = (Inr (Some u), g')"
    using assms by (auto simp: api_key_user_def Let_def bind_comp_def reads_def writes_def ret_def split: option.splits if_splits)
  then show ?thesis
    by cases (auto dest!: looked_up_user simp: same_columns_def gate_now_def)
qed

lemma request_user:
  assumes "getUserIdFromRequest env r tu g = (Inr (Some u), g')" and "u \<noteq> []"
  shows "(if given tu then tu = Some u \<and> g' = g
    else \<exists>token. requestToken r = Some token \<and>
       (if starts_with token ''swazz_live_'' then
          (\<exists>a \<in> set (Auth_Db.users (accounts (behind g))). Auth_Db.u_id a = u \<and>
             u_api_key a \<in> {Some (hash_key (w_env env) token), Some token}) \<or>
          (\<exists>e. map_of (session_cache (accounts (behind g))) (''apikey:'' @ hash_key (w_env env) token) = Some (C_user u, e) \<and> gate_now g < e)
        else \<exists>secret. JWT_SECRET (a_env env) = Some secret \<and> jwt_subject env secret token (gate_now g div 1000) = Some u)) \<and>
    same_columns g g'"
proof (cases "given tu")
  case True
  with assms show ?thesis by (auto simp: getUserIdFromRequest_def ret_def same_columns_def)
next
  case False
  with assms obtain token where t: "requestToken r = Some token"
    by (auto simp: getUserIdFromRequest_def ret_def split: option.splits)
  show ?thesis
  proof (cases "starts_with token ''swazz_live_''")
    case True
    with False assms t have "api_key_user env token g = (Inr (Some u), g')" by (simp add: getUserIdFromRequest_def)
    from key_user [OF this] False t True show ?thesis by simp
  next
    case F: False
    with False assms t have "session_user env token g = (Inr (Some u), g')" by (simp add: getUserIdFromRequest_def)
    with False t F show ?thesis
      by (auto simp: session_user_def reads_def given_def same_columns_def split: if_splits option.splits)
  qed
qed

lemma read_deletion_run:
  "read_deletion u g = (Inr (case find (\<lambda>a. Auth_Db.u_id a = u) (Auth_Db.users (accounts (behind g))) of None \<Rightarrow> None | Some a \<Rightarrow> u_delete_at a),
     g\<lparr>deletionCache := jset u (case find (\<lambda>a. Auth_Db.u_id a = u) (Auth_Db.users (accounts (behind g))) of None \<Rightarrow> None | Some a \<Rightarrow> u_delete_at a, gate_now g + 60000) (deletionCache g)\<rparr>)"
  by (simp add: read_deletion_def on_worker_def on_accounts_def delete_requested_at_def getUserById_def find_user_def reads_def
      bind_comp_def ret_def writes_def gate_now_def)

lemma staying:
  assumes "getDeleteRequestedAt u g = (Inr None, g')"
  shows "not_leaving g u \<or> (\<exists>e. map_of (deletionCache g) u = Some (None, e) \<and> gate_now g < e)"
  using assms
  by (auto simp: getDeleteRequestedAt_def bind_comp_def reads_def ret_def read_deletion_run not_leaving_def split: option.splits if_splits)

lemma not_leaving_columns: "same_columns g g' \<Longrightarrow> not_leaving g' u = not_leaving g u"
  using find_columns [of "Auth_Db.users (accounts (behind g'))" "Auth_Db.users (accounts (behind g))" u]
  by (auto simp: same_columns_def not_leaving_def split: option.splits)

lemma authenticated:
  assumes "authenticate_request env r tu g = (Inr (Passed v), g')" and "AUTH_ENABLED (obj_env (w_env env)) = Some ''true''"
  shows "\<exists>u g1. v = Some u \<and> u \<noteq> [] \<and> getUserIdFromRequest env r tu g = (Inr (Some u), g1) \<and>
    (cancels_deletion r \<or> not_leaving g u \<or> (\<exists>e. map_of (deletionCache g) u = Some (None, e) \<and> gate_now g < e))"
proof -
  obtain x g1 where x: "getUserIdFromRequest env r tu g = (x, g1)" by fastforce
  with assms obtain u where u: "x = Inr (Some u)" "u \<noteq> []"
    by (cases x) (auto simp: authenticate_request_def bind_comp_def ret_def given_def split: if_splits)
  with x request_user [of env r tu g u g1] have c: "same_columns g g1" by auto
  show ?thesis
  proof (cases "cancels_deletion r")
    case True
    with assms x u show ?thesis by (auto simp: authenticate_request_def bind_comp_def ret_def given_def)
  next
    case False
    obtain d g2 where d: "getDeleteRequestedAt u g1 = (d, g2)" by fastforce
    with assms x u False have "d = Inr None" "v = Some u"
      by (cases d; auto simp: authenticate_request_def bind_comp_def ret_def given_def split: if_splits)+
    with d staying [of u g1 g2] c not_leaving_columns [OF c] x u show ?thesis by (auto simp: same_columns_def)
  qed
qed

lemma redeemed:
  assumes "redeemStreamTicket env t i w = (Inr (Some u), w')"
  shows "\<exists>tk \<in> set (ws_tickets w). tk_hash tk = hash_key env t \<and> tk_user tk = u \<and> tk_run tk = i \<and> worker_now w < tk_expires tk"
    and "accounts w' = accounts w" and "\<forall>tk \<in> set (ws_tickets w'). tk_hash tk \<noteq> hash_key env t"
  using assms
  by (auto simp: redeemStreamTicket_def consumeStreamTicket_def bind_comp_def ret_def worker_now_def find_Some_iff
      split: if_splits option.splits)

text \<open>What holds of the gateway after the CSRF check holds before it.\<close>

lemma after_csrf:
  assumes "w' = w \<or> w' = w\<lparr>draws := Suc (draws w)\<rparr>" and "behind g = w"
  shows "proves_user env r (g\<lparr>behind := w'\<rparr>) u = proves_user env r g u" "not_leaving (g\<lparr>behind := w'\<rparr>) u = not_leaving g u"
    "gate_now (g\<lparr>behind := w'\<rparr>) = gate_now g"
  using assms by (elim disjE; simp add: proves_user_def not_leaving_def gate_now_def worker_now_def split: option.split)+

lemma middleware_passes:
  assumes "auth_middleware env r g = (Inr (Passed v), g')" and "AUTH_ENABLED (obj_env (w_env env)) = Some ''true''"
    and "\<not> open_path (q_path r)"
  shows "\<exists>u. v = Some u \<and> u \<noteq> [] \<and> proves_user env r g u \<and>
    (cancels_deletion r \<or> not_leaving g u \<or> (\<exists>e. map_of (deletionCache g) u = Some (None, e) \<and> gate_now g < e))"
proof (cases "q_ticket r")
  case None
  with assms have "authenticate_request env r None g = (Inr (Passed v), g')" by (simp add: auth_middleware_def)
  from authenticated [OF this assms(2)] request_user [of env r None g] None show ?thesis
    by (fastforce simp: proves_user_def given_def)
next
  case (Some ticket)
  with assms obtain i where i: "q_upgrade r = Some ''websocket''" "q_method r = ''GET''" "between ''runs'' ''events'' (q_path r) = Some i"
    by (auto simp: auth_middleware_def ret_def split: if_splits option.splits)
  obtain x w1 where red: "redeemStreamTicket (w_env env) ticket i (behind g) = (x, w1)" by fastforce
  from assms Some i red obtain u where u: "x = Inr (Some u)" "u \<noteq> []"
    by (cases x) (auto simp: auth_middleware_def on_worker_def bind_comp_def ret_def given_def split: if_splits)
  with assms Some i red have a: "authenticate_request env r (Some u) (g\<lparr>behind := w1\<rparr>) = (Inr (Passed v), g')"
    by (simp add: auth_middleware_def on_worker_def bind_comp_def given_def)
  from authenticated [OF a assms(2)] u request_user [of env r "Some u" "g\<lparr>behind := w1\<rparr>"]
  have "v = Some u" "cancels_deletion r \<or> not_leaving (g\<lparr>behind := w1\<rparr>) u \<or>
      (\<exists>e. map_of (deletionCache g) u = Some (None, e) \<and> gate_now (g\<lparr>behind := w1\<rparr>) < e)"
    by (fastforce simp: given_def)+
  moreover have "proves_user env r g u" using redeemed(1) [OF red [unfolded u(1)]] i Some by (auto simp: proves_user_def)
  ultimately show ?thesis using u redeemed(2) [OF red [unfolded u(1)]]
    by (auto simp: not_leaving_def gate_now_def)
qed

text \<open>
  C4. A request is let through only as a user it proves to be. With authentication on, a request for
  a path that is not open to all passes the gate only as a user whose unused, unexpired ticket for
  that run's event stream it brings, whose API key it carries (one an account stores, or one the
  session cache still holds), or who signed its session token; only while that account's deletion
  is not asked for, as the table or the minute's cache says, save to cancel the deletion; only with
  well-formed path segments and a declared size within the route's limit; and a request that changes
  state without credentials in a header also repeats its CSRF token.
\<close>

theorem admitted_requests_prove_their_user:
  assumes "AUTH_ENABLED (obj_env (w_env env)) = Some ''true''" and "\<not> open_path (q_path r)"
    and "gate env r g = (Inr (Passed v), g')"
  shows "\<exists>u. v = Some u \<and> u \<noteq> [] \<and> proves_user env r g u \<and>
    (cancels_deletion r \<or> not_leaving g u \<or> (\<exists>e. map_of (deletionCache g) u = Some (None, e) \<and> gate_now g < e)) \<and>
    path_ok (q_path r) \<and> \<not> too_large r \<and>
    (csrf_exempt (q_path r) \<or> q_method r \<in> set [''GET'', ''HEAD'', ''OPTIONS''] \<or> given (q_authorization r) \<or>
     given (q_upload_token r) \<or> csrf_ok (w_env env) r (behind g))"
proof -
  obtain x w1 where c: "csrfMiddleware (w_env env) r (behind g) = (x, w1)" by fastforce
  with assms(3) have x: "x = Inr True" "path_ok (q_path r)" "\<not> too_large r"
    and m: "auth_middleware env r (g\<lparr>behind := w1\<rparr>) = (Inr (Passed v), g')"
    by (cases x; auto simp: gate_def on_worker_def bind_comp_def ret_def split: if_splits)+
  note p = csrf_passes [OF c [unfolded x(1)]]
  from middleware_passes [OF m assms(1,2)] x p(2) after_csrf [OF p(1) refl] show ?thesis by auto
qed

section \<open>API keys\<close>

text \<open>An operation that issues no entry of an API key, and one that issues at most fresh ones of stored keys.\<close>

definition issued :: "auth_db \<Rightarrow> auth_db \<Rightarrow> bool" where
  "issued d d' \<longleftrightarrow> clock_ms d \<le> clock_ms d' \<and>
     (\<forall>h v e. map_of (session_cache d') (''apikey:'' @ h) = Some (v, e) \<longrightarrow>
        map_of (session_cache d) (''apikey:'' @ h) = Some (v, e) \<or>
        e = clock_ms d' + 300000 \<and> (\<exists>a \<in> set (Auth_Db.users d'). u_api_key a = Some h))"

definition issues :: "(gateway, 'a) comp \<Rightarrow> bool" where
  "issues m = (\<forall>g. issued (accounts (behind g)) (accounts (behind (snd (m g)))))"

definition calm :: "(gateway, 'a) comp \<Rightarrow> bool" where
  "calm m = (\<forall>E c g. wkept E c (behind g) \<longrightarrow> wkept E c (behind (snd (m g))))"

definition still :: "(gateway, 'a) comp \<Rightarrow> bool" where
  "still m = (\<forall>g. accounts (behind (snd (m g))) = accounts (behind g))"

lemma kept_issued: "(\<And>E c. kept E c d \<Longrightarrow> kept E c d') \<Longrightarrow> issued d d'"
proof -
  assume "\<And>E c. kept E c d \<Longrightarrow> kept E c d'"
  from this [of "{(h, v, e). map_of (session_cache d) (''apikey:'' @ h) = Some (v, e)}" "clock_ms d"]
  show ?thesis by (auto simp: kept_def issued_def)
qed

lemma calm_first: "(\<And>E c. kept E c a \<Longrightarrow> kept E c b) \<Longrightarrow> issued b d \<Longrightarrow> issued a d"
  using kept_issued [of a b] proof -
  assume k: "\<And>E c. kept E c a \<Longrightarrow> kept E c b" and i: "issued b d"
  have "kept {(h, v, e). map_of (session_cache a) (''apikey:'' @ h) = Some (v, e)} (clock_ms a) b"
    by (rule k) (auto simp: kept_def)
  with i show ?thesis by (force simp: issued_def kept_def)
qed

lemma calm_issues: "calm m \<Longrightarrow> issues m"
  unfolding calm_def issues_def wkept_def by (blast intro: kept_issued)

lemma still_calm: "still m \<Longrightarrow> calm m"
  by (simp add: still_def calm_def wkept_def)

lemma calm_worker: "(\<And>E c. keeps (wkept E c) m) \<Longrightarrow> calm (on_worker m)"
  by (auto simp: calm_def keeps_def on_worker_def split_beta)

lemma issues_bind: "calm m \<Longrightarrow> (\<And>x. issues (f x)) \<Longrightarrow> issues (bind_comp m f)"
proof -
  assume m: "calm m" and f: "\<And>x. issues (f x)"
  have k: "kept E c (accounts (behind g)) \<Longrightarrow> kept E c (accounts (behind (snd (m g))))" for E c g
    using m by (simp add: calm_def wkept_def)
  show ?thesis
    unfolding issues_def
  proof
    fix g
    show "issued (accounts (behind g)) (accounts (behind (snd (bind_comp m f g))))"
    proof (cases "m g")
      case (Pair r g1)
      with k [of _ _ g] have k1: "\<And>E c. kept E c (accounts (behind g)) \<Longrightarrow> kept E c (accounts (behind g1))" by simp
      then show ?thesis
        using Pair f kept_issued [OF k1] by (cases r) (auto simp: bind_comp_def issues_def intro: calm_first [OF k1])
    qed
  qed
qed

lemma issues_then_still: "issues m \<Longrightarrow> (\<And>x. still (f x)) \<Longrightarrow> issues (bind_comp m f)"
  unfolding issues_def still_def by (auto simp: bind_comp_def split: prod.split sum.split) (metis snd_conv)+

lemma still_rules:
  "still (ret x)" "still (writes (\<lambda>g. g\<lparr>negativeApiKeyCache := n g\<rparr>))" "still (writes (\<lambda>g. g\<lparr>deletionCache := dc g\<rparr>))"
  "still (reads rf)" "still (writes (remember_unknown k))" "still (read_deletion u)"
  by (simp_all add: still_def ret_def writes_def reads_def remember_unknown_def Let_def read_deletion_run)

lemma still_deletion: "still (getDeleteRequestedAt u)"
  using still_rules(6) [of u]
  by (auto simp: still_def getDeleteRequestedAt_def bind_comp_def reads_def ret_def split: option.split)

lemma issues_if: "issues m \<Longrightarrow> issues m' \<Longrightarrow> issues (if b then m else m')"
  by simp

lemma calm_ret: "calm (ret x)"
  by (rule still_calm [OF still_rules(1)])

text \<open>The lookup is the only place where an entry of a request's key is made.\<close>

lemma issues_query: "issues (query_key env (''apikey:'' @ h) h t)"
  unfolding issues_def
proof
  fix g :: gateway
  let ?d = "accounts (behind g)" and ?m = "query_key env (''apikey:'' @ h) h t"
  obtain x d where v: "verifyApiKey h t ?d = (x, d)" by fastforce
  have k: "keeps (kept E c) (verifyApiKey h t)" for E c
    unfolding verifyApiKey_def by (intro keeps_rules)
  have kd: "kept E c ?d \<Longrightarrow> kept E c d" for E c using keeps_snd [OF k [of E c], of ?d] v by simp
  note defs = query_key_def on_worker_def on_accounts_def bind_comp_def ret_def writes_def remember_unknown_def Let_def
  consider (quiet) "accounts (behind (snd (?m g))) \<in> {?d, d}"
    | (put) u where "x = Inr (Some u)" "accounts (behind (snd (?m g))) = snd (cache_put (''apikey:'' @ h) (C_user u) KV_POSITIVE_TTL d)"
  proof (cases "d1_down (object (behind g))")
    case True
    then have "accounts (behind (snd (?m g))) = ?d" by (simp add: defs)
    with quiet show thesis by blast
  next
    case False
    show thesis
    proof (cases "\<exists>u. x = Inr (Some u) \<and> u \<noteq> []")
      case True
      then obtain u where u: "x = Inr (Some u)" "u \<noteq> []" by blast
      with False v have "accounts (behind (snd (?m g))) =
          (if has_cache (a_env env) then snd (cache_put (''apikey:'' @ h) (C_user u) KV_POSITIVE_TTL d) else d)"
        by (simp add: defs given_def cache_put_def)
      with quiet put [OF u(1)] show thesis by (cases "has_cache (a_env env)") simp_all
    next
      case F: False
      then have "accounts (behind (snd (?m g))) = d"
        using False v by (cases x) (auto simp: defs given_def)
      with quiet show thesis by blast
    qed
  qed
  then show "issued ?d (accounts (behind (snd (?m g))))"
  proof cases
    case quiet
    with kept_issued [of ?d d, OF kd] kept_issued [of ?d ?d] show ?thesis by auto
  next
    case put
    have "issued d (snd (cache_put (''apikey:'' @ h) (C_user u) KV_POSITIVE_TTL d))"
      using verified_key(2) [OF v [unfolded put(1)]]
      by (auto simp: issued_def cache_put_def writes_def KV_POSITIVE_TTL_def)
    with put(2) calm_first [OF kd] show ?thesis by simp
  qed
qed

lemma calm_writes: "(\<And>g. behind (f g) = behind g) \<Longrightarrow> calm (writes f)"
  by (simp add: calm_def writes_def)

lemma issues_user: "issues (getUserIdFromRequest env r tu)"
proof -
  have c: "calm (on_worker (on_accounts (cache_get k)))" for k by (intro calm_worker keeps_rules)
  have l: "issues (lookup_key env (''apikey:'' @ h) h t)" for h t
    unfolding lookup_key_def
  proof (rule issues_bind)
    show "calm (if has_cache (a_env env) then on_worker (on_accounts (cache_get (''apikey:'' @ h))) else ret None)"
      by (simp add: c calm_ret)
    show "issues (case x of Some (C_user u) \<Rightarrow> ret (Some u) | _ \<Rightarrow> query_key env (''apikey:'' @ h) h t)" for x
      by (auto intro: calm_issues calm_ret issues_query [simplified] split: option.split cached.split)
  qed
  have "issues (api_key_user env t)" for t
    unfolding api_key_user_def Let_def
  proof (rule issues_bind [OF still_calm [OF still_rules(4)]])
    fix x :: "int \<times> int option"
    let ?h = "hash_key (w_env env) t"
    let ?n = "bind_comp (writes (\<lambda>g. g\<lparr>negativeApiKeyCache := jdel (''apikey:'' @ ?h) (negativeApiKeyCache g)\<rparr>)) (\<lambda>_. lookup_key env (''apikey:'' @ ?h) ?h t)"
    have n: "issues ?n" by (intro issues_bind calm_writes l) simp
    have "issues (if a < b then ret None else ?n)" for a b :: int by (intro issues_if n calm_issues calm_ret)
    with l [of ?h t] show "issues (case x of (t', negExpiry) \<Rightarrow> case negExpiry of None \<Rightarrow> lookup_key env (''apikey:'' @ ?h) ?h t
       | Some expiry \<Rightarrow> if t' < expiry then ret None else ?n)"
      by (cases x) (simp split: option.split)
  qed
  moreover have "issues (session_user env t)" for t
    unfolding session_user_def by (rule calm_issues [OF still_calm [OF still_rules(4)]])
  ultimately show ?thesis
    by (auto simp: getUserIdFromRequest_def calm_issues [OF calm_ret] split: option.split)
qed

lemma issues_authenticate: "issues (authenticate_request env r tu)"
proof -
  have s: "still (bind_comp (getDeleteRequestedAt u) (\<lambda>d. ret (f d)))" for u and f :: "int option \<Rightarrow> gate_result"
    using still_deletion [of u] by (auto simp: still_def bind_comp_def ret_def split: prod.split sum.split) (metis snd_conv)+
  have "still (if b then ret (Refused n m) else if c then ret (Passed u) else bind_comp (getDeleteRequestedAt w) (\<lambda>d. ret (f d)))"
    for b c n m u w and f :: "int option \<Rightarrow> gate_result" by (simp add: s still_rules(1))
  then show ?thesis
    unfolding authenticate_request_def by (intro issues_if issues_then_still issues_user calm_issues calm_ret)
qed

lemma issues_gate: "issues (gate env r)"
proof -
  have red: "calm (on_worker (redeemStreamTicket (w_env env) t i))" for t i by (intro calm_worker keeps_rules)
  have "keeps (wkept E c) (csrfMiddleware (w_env env) r)" for E c
    unfolding csrfMiddleware_def by (intro keeps_rules)
  then have csrf: "calm (on_worker (csrfMiddleware (w_env env) r))" by (rule calm_worker)
  have "issues (auth_middleware env r)"
    unfolding auth_middleware_def
    by (auto intro!: issues_authenticate calm_issues [OF calm_ret] issues_bind [OF red] split: option.split)
  then show ?thesis
    unfolding gate_def by (intro issues_if issues_bind csrf calm_issues [OF calm_ret])
qed

lemma issued_regenerate: "issued (accounts w) (accounts (snd (regenerateApiKey env u w)))"
proof (cases "find (\<lambda>a. Auth_Db.u_id a = u) (Auth_Db.users (accounts w))")
  case None
  then show ?thesis
    by (auto simp: regenerateApiKey_def on_accounts_def getUserById_def find_user_def reads_def bind_comp_def throw_def issued_def)
next
  case (Some a)
  let ?h = "hash_key (w_env env) (''swazz_live_'' @ filter (\<lambda>c. c \<noteq> CHR ''-'') (random_id (w_env env) (draws w)))"
  let ?d = "on_users (\<lambda>b. Auth_Db.u_id b = u) (\<lambda>b. b\<lparr>u_api_key := Some ?h\<rparr>) (accounts w)"
  from find_Some_iff [of _ _ a] Some have "a \<in> set (Auth_Db.users (accounts w))" "Auth_Db.u_id a = u" by auto
  then have "a\<lparr>u_api_key := Some ?h\<rparr> \<in> set (Auth_Db.users ?d)" by (force simp: on_users_def)
  then have st: "\<exists>b \<in> set (Auth_Db.users ?d). u_api_key b = Some ?h" by force
  note defs = regenerateApiKey_def on_accounts_def getUserById_def find_user_def reads_def bind_comp_def draw_one_def
    updateUserApiKey_def writes_def ret_def cache_delete_def cache_put_def Let_def on_users_def
  let ?put = "\<lambda>m. ?d\<lparr>session_cache := jset (''apikey:'' @ ?h) (C_user u, clock_ms (accounts w) + 300000) m\<rparr>"
  have acc: "\<exists>m. accounts (snd (regenerateApiKey env u w)) \<in> {?d, ?put m} \<and>
      (\<forall>k v. map_of m k = Some v \<longrightarrow> map_of (session_cache (accounts w)) k = Some v)"
  proof (cases "has_cache (a_env env)")
    case False
    with Some have "accounts (snd (regenerateApiKey env u w)) = ?d" by (simp add: defs)
    then show ?thesis by (intro exI [of _ "[]"]) simp
  next
    case True
    show ?thesis
    proof (cases "u_api_key a = None \<or> u_api_key a = Some []")
      case T: True
      with True Some have "accounts (snd (regenerateApiKey env u w)) = ?put (session_cache (accounts w))"
        by (elim disjE; simp add: defs)
      then show ?thesis by (intro exI [of _ "session_cache (accounts w)"]) simp
    next
      case False
      then obtain old where "u_api_key a = Some old" "old \<noteq> []" by auto
      with True Some have "accounts (snd (regenerateApiKey env u w)) = ?put (jdel (api_cache_key (w_env env) old) (session_cache (accounts w)))"
        by (simp add: defs)
      then show ?thesis by (intro exI [of _ "jdel (api_cache_key (w_env env) old) (session_cache (accounts w))"]) simp
    qed
  qed
  then obtain m where m: "accounts (snd (regenerateApiKey env u w)) \<in> {?d, ?put m}"
    "\<And>k v. map_of m k = Some v \<Longrightarrow> map_of (session_cache (accounts w)) k = Some v" by blast
  have d: "session_cache ?d = session_cache (accounts w)" "clock_ms ?d = clock_ms (accounts w)" by (simp_all add: on_users_def)
  have "issued (accounts w) (?put m)"
    unfolding issued_def using st d m(2) by (simp split: if_splits)
  moreover have "issued (accounts w) ?d" using d by (simp add: issued_def)
  ultimately show ?thesis using m(1) by auto
qed

lemma same_cache_issued: "session_cache d' = session_cache d \<Longrightarrow> clock_ms d' = clock_ms d \<Longrightarrow> issued d d'"
  by (simp add: issued_def)

lemma kept_forget: "kept E c (accounts w) \<Longrightarrow> kept E c (accounts (fold (forget_api_key env) ks w))"
proof (induction ks arbitrary: w)
  case (Cons k ks)
  from keeps_snd [OF kept_delete [of E c "api_cache_key env k"] Cons.prems]
  have "kept E c (accounts (forget_api_key env k w))" by (simp add: forget_api_key_def on_accounts_def split_beta)
  from Cons.IH [OF this] show ?case by simp
qed simp

lemma kept_cleanup:
  assumes "kept E c (accounts w)"
  shows "kept E c (accounts (cleanupScheduledDeletions env others fails w))"
proof (cases "getExpiredScheduledDeletions w = []")
  case True
  with assms show ?thesis by (simp add: cleanupScheduledDeletions_def)
next
  case False
  let ?e = "getExpiredScheduledDeletions w"
  let ?us = "map Auth_Db.u_id ?e"
  let ?ps = "projects_owned_by ?us w"
  let ?w2 = "fold (revoke_user env) ?us (fold delete_report (getScanReportUrls ?us ?ps w) w)"
  obtain r w3 where run: "deleteUsersData others fails ?us ?ps (map u_name ?e) ?w2 = (r, w3)" by fastforce
  with False have "session_cache (accounts w3) = session_cache (accounts ?w2) \<and> clock_ms (accounts w3) = clock_ms (accounts ?w2)"
    by (auto simp: deleteUsersData_def purge_then_def drop_user_rows_def drop_project_rows_def on_scans_def ret_def Let_def split_beta
        split: if_splits)
  with assms have k: "kept E c (accounts w3)" by (simp add: kept_def)
  have "cleanupScheduledDeletions env others fails w =
      (case r of Inl e \<Rightarrow> w3 | Inr u \<Rightarrow> fold (forget_api_key env) (getUserApiKeys ?us ?w2) w3)"
    using False run by (simp add: cleanupScheduledDeletions_def Let_def)
  with k kept_forget [OF k] show ?thesis by (simp split: sum.split)
qed

lemma issued_step: "issued (accounts (behind g)) (accounts (behind (g_step env e g)))"
proof (cases e)
  case (Arrives r)
  with issues_gate [of env r] show ?thesis by (simp add: issues_def)
next
  case (Regenerates u)
  with issued_regenerate [of "behind g" env u] show ?thesis by (simp add: on_worker_def split_beta)
next
  case (Asks_deletion u)
  then show ?thesis
    by (auto simp: deleteUser_def on_worker_def scheduleUserDeletion_def forget_deletion_def writes_def bind_comp_def on_scans_def
        on_users_def intro!: same_cache_issued)
next
  case (Cancels_deletion u)
  then show ?thesis
    by (auto simp: cancelDeleteUser_def on_worker_def cancelUserDeletion_def forget_deletion_def writes_def bind_comp_def on_accounts_def
        on_users_def Let_def intro!: same_cache_issued)
next
  case (Deletions_run ops fails)
  then show ?thesis using kept_issued [OF kept_cleanup] by simp
next
  case Security_sweep
  then show ?thesis by (auto simp: cleanupSecurityTables_def Let_def on_scans_def intro!: same_cache_issued)
next
  case (Behind e')
  have "kept E c (accounts (behind g)) \<Longrightarrow> kept E c (accounts (w_step (w_env env) e' (behind g)))" for E c
    using wkept_step [of E c "behind g" "w_env env" e'] by (simp add: wkept_def)
  from kept_issued [OF this] Behind show ?thesis by simp
next
  case New_isolate
  then show ?thesis by (simp add: issued_def)
qed

definition after_events :: "gateway_env \<Rightarrow> gateway_event list \<Rightarrow> gateway \<Rightarrow> nat \<Rightarrow> gateway" where
  "after_events env es g n = g_run env (take n es) g"

lemma events_0 [simp]: "after_events env es g 0 = g" and events_all: "after_events env es g (length es) = g_run env es g"
  by (simp_all add: after_events_def g_run_def)

lemma events_Suc: "n < length es \<Longrightarrow> after_events env es g (Suc n) = g_step env (es ! n) (after_events env es g n)"
  by (simp add: after_events_def g_run_def take_Suc_conv_app_nth)

text \<open>An account stores the key, hashed or as it was issued.\<close>

definition key_stored :: "gateway_env \<Rightarrow> string \<Rightarrow> gateway \<Rightarrow> bool" where
  "key_stored env t g = (\<exists>a \<in> set (Auth_Db.users (accounts (behind g))). u_api_key a \<in> {Some (hash_key (w_env env) t), Some t})"

definition entry_until :: "int \<Rightarrow> string \<Rightarrow> gateway \<Rightarrow> bool" where
  "entry_until e h g = (\<forall>v e'. map_of (session_cache (accounts (behind g))) (''apikey:'' @ h) = Some (v, e') \<longrightarrow> e' \<le> e)"

lemma entries_bounded:
  assumes "session_cache (accounts (behind g)) = []" and "n \<le> length es"
  shows "entry_until (gate_now (after_events env es g n) + 300000) h (after_events env es g n)"
  using assms(2)
proof (induction n)
  case 0
  with assms(1) show ?case by (simp add: entry_until_def)
next
  case (Suc n)
  with issued_step [of "after_events env es g n" env "es ! n"] show ?case
    by (fastforce simp: events_Suc issued_def entry_until_def gate_now_def)
qed

lemma entries_expire:
  assumes "entry_until e (hash_key (w_env env) t) (after_events env es g m)" and "m \<le> n" and "n \<le> length es"
    and "\<And>k. m \<le> k \<Longrightarrow> k \<le> length es \<Longrightarrow> \<not> key_stored env t (after_events env es g k)"
  shows "entry_until e (hash_key (w_env env) t) (after_events env es g n)"
  using assms(2,3)
proof (induction n rule: dec_induct)
  case (step n)
  then have "\<not> key_stored env t (after_events env es g (Suc n))" by (intro assms(4)) auto
  with step issued_step [of "after_events env es g n" env "es ! n"] show ?case
    by (fastforce simp: events_Suc issued_def entry_until_def key_stored_def)
qed (rule assms(1))

lemma unknown_key:
  assumes "\<not> key_stored env t g" and "entry_until (gate_now g) (hash_key (w_env env) t) g"
    and "starts_with t ''swazz_live_''" and "requestToken r = Some t"
  shows "fst (getUserIdFromRequest env r None g) = Inr None"
proof (cases "fst (getUserIdFromRequest env r None g)")
  case (Inl e)
  have l: "fst (lookup_key env ck h t g1) \<noteq> Inl e" for ck h g1
    by (auto simp: lookup_key_def query_key_def on_worker_def on_accounts_def cache_get_def cache_put_def reads_def writes_def
        bind_comp_def ret_def verifyApiKey_def find_user_def updateUserApiKey_def Let_def split: option.split cached.split)
  have "fst (getUserIdFromRequest env r None g) \<noteq> Inl e"
    using assms(3,4) l
    by (auto simp: getUserIdFromRequest_def given_def api_key_user_def Let_def bind_comp_def reads_def writes_def ret_def split: option.split)
  with Inl show ?thesis by simp
next
  case (Inr v)
  show ?thesis
  proof (cases v)
    case (Some u)
    with Inr assms(3,4) obtain g' where "api_key_user env t g = (Inr (Some u), g')"
      by (cases "api_key_user env t g") (auto simp: getUserIdFromRequest_def given_def)
    from key_user [OF this] assms(1,2) show ?thesis by (fastforce simp: key_stored_def entry_until_def)
  qed (use Inr in simp)
qed

text \<open>
  C37. A revoked API key is dead after five minutes. In every history that starts with an empty
  session cache (requests with any keys, logins, new keys, deletions and their cleanup, restarts of
  the isolate, all the Worker's other operations), a key that no account stores from some moment on
  is accepted of nobody once 300 seconds have passed since.
\<close>

theorem revoked_keys_die_in_five_minutes:
  assumes "session_cache (accounts (behind g)) = []" and "m \<le> length es"
    and "\<forall>k. m \<le> k \<and> k \<le> length es \<longrightarrow> \<not> key_stored env t (after_events env es g k)"
    and "gate_now (after_events env es g m) + 300000 \<le> gate_now (g_run env es g)"
    and "starts_with t ''swazz_live_''" and "requestToken r = Some t"
  shows "fst (getUserIdFromRequest env r None (g_run env es g)) = Inr None"
proof -
  have "entry_until (gate_now (after_events env es g m) + 300000) (hash_key (w_env env) t) (after_events env es g (length es))"
    using entries_expire [OF entries_bounded [OF assms(1,2)] assms(2) order_refl] assms(3) by blast
  with assms(4) have "entry_until (gate_now (g_run env es g)) (hash_key (w_env env) t) (g_run env es g)"
    by (fastforce simp: entry_until_def events_all)
  moreover have "\<not> key_stored env t (g_run env es g)" using assms(2,3) events_all by (metis order_refl)
  ultimately show ?thesis using assms(5,6) by (intro unknown_key)
qed

section \<open>Runs\<close>

definition demo_gate :: gateway_env where
  "demo_gate = \<lparr>w_env = demo_worker_env, a_env = demo_auth, jwt_subject = (\<lambda>_ _ _. None)\<rparr>"

definition demo_gateway :: gateway where
  "demo_gateway = \<lparr>behind = demo_worker, negativeApiKeyCache = [], deletionCache = []\<rparr>"

definition ann_stops :: http_request where
  "ann_stops = \<lparr>q_method = ''POST'', q_path = ''/api/runs/runa/stop'', q_authorization = Some ''Bearer swazz_live_a'', q_upload_token = None,
     q_csrf_header = None, q_csrf_cookie = None, q_upgrade = None, q_content_length = Some ''2'', q_ticket = None, q_token = None\<rparr>"

theorem admitted_requests_prove_their_user_witness:
  "fst (gate demo_gate ann_stops demo_gateway) = Inr (Passed (Some ''ann'')) \<and>
   fst (gate demo_gate (ann_stops\<lparr>q_authorization := None\<rparr>) demo_gateway) = Inr (Refused 403 ''Invalid or missing CSRF token'') \<and>
   proves_user demo_gate ann_stops demo_gateway ''ann''"
proof -
  have f: "fst (gate demo_gate ann_stops demo_gateway) = Inr (Passed (Some ''ann''))"
    "fst (gate demo_gate (ann_stops\<lparr>q_authorization := None\<rparr>) demo_gateway) = Inr (Refused 403 ''Invalid or missing CSRF token'')" by code_simp+
  then obtain g' where "gate demo_gate ann_stops demo_gateway = (Inr (Passed (Some ''ann'')), g')"
    by (cases "gate demo_gate ann_stops demo_gateway") auto
  moreover have "AUTH_ENABLED (obj_env (w_env demo_gate)) = Some ''true''" "\<not> open_path (q_path ann_stops)" by code_simp+
  ultimately have "proves_user demo_gate ann_stops demo_gateway ''ann''"
    using admitted_requests_prove_their_user [of demo_gate ann_stops demo_gateway "Some ''ann''" g'] by auto
  with f show ?thesis by simp
qed

text \<open>Ann uses her key, replaces it and waits.\<close>

definition replaced_key :: "gateway_event list" where
  "replaced_key = [Arrives ann_stops, Regenerates ''ann'', Behind (Clock 300000)]"

theorem revoked_keys_die_in_five_minutes_witness:
  "fst (getUserIdFromRequest demo_gate ann_stops None (after_events demo_gate replaced_key demo_gateway 1)) = Inr (Some ''ann'') \<and>
   fst (getUserIdFromRequest demo_gate ann_stops None (g_run demo_gate replaced_key demo_gateway)) = Inr None"
proof -
  have "fst (getUserIdFromRequest demo_gate ann_stops None (after_events demo_gate replaced_key demo_gateway 1)) = Inr (Some ''ann'')"
    by code_simp
  moreover have s: "\<not> key_stored demo_gate ''swazz_live_a'' (after_events demo_gate replaced_key demo_gateway 2)"
    "\<not> key_stored demo_gate ''swazz_live_a'' (after_events demo_gate replaced_key demo_gateway 3)" by code_simp+
  have "\<forall>k. 2 \<le> k \<and> k \<le> length replaced_key \<longrightarrow> \<not> key_stored demo_gate ''swazz_live_a'' (after_events demo_gate replaced_key demo_gateway k)"
  proof (intro allI impI)
    fix k :: nat
    assume "2 \<le> k \<and> k \<le> length replaced_key"
    then have "k = 2 \<or> k = 3" by (auto simp: replaced_key_def)
    with s show "\<not> key_stored demo_gate ''swazz_live_a'' (after_events demo_gate replaced_key demo_gateway k)" by auto
  qed
  moreover have "session_cache (accounts (behind demo_gateway)) = []" "2 \<le> length replaced_key"
    "gate_now (after_events demo_gate replaced_key demo_gateway 2) + 300000 \<le> gate_now (g_run demo_gate replaced_key demo_gateway)"
    "starts_with ''swazz_live_a'' ''swazz_live_''" "requestToken ann_stops = Some ''swazz_live_a''" by code_simp+
  ultimately show ?thesis using revoked_keys_die_in_five_minutes [of demo_gateway 2 replaced_key demo_gate "''swazz_live_a''" ann_stops] by blast
qed

text \<open>Ann asked for her account's deletion, and eight days have passed.\<close>

definition leaving :: worker where
  "leaving = waiting_a\<lparr>accounts := ann_accounts\<lparr>auth_db.users := [ann_account\<lparr>u_delete_at := Some 0\<rparr>],
     session_cache := [(''apikey:h:swazz_live_a'', C_user ''ann'', 700000001)], clock_ms := 700000000\<rparr>\<rparr>"


end
