(* ===== verification/Base64url.thy ===== *)
theory Base64url
  imports Prelude "HOL-Library.Word"
begin

text \<open>
  \<open>utils/base64url.ts\<close>: base64url without padding, over the runtime's \<open>btoa\<close> and \<open>atob\<close>. Bytes are
  8-bit words; a group of three bytes is four numbers below 64.
\<close>

definition BASE64 :: string where
  "BASE64 = ''ABCDEFGHIJKLMNOPQRSTUVWXYZabcdefghijklmnopqrstuvwxyz0123456789+/''"

fun btoa :: "8 word list \<Rightarrow> string" where
  "btoa [] = []"
| "btoa [a] = [BASE64 ! (unat a div 4), BASE64 ! (unat a mod 4 * 16), CHR ''='', CHR ''='']"
| "btoa [a, b] = [BASE64 ! (unat a div 4), BASE64 ! (unat a mod 4 * 16 + unat b div 16), BASE64 ! (unat b mod 16 * 4), CHR ''='']"
| "btoa (a # b # c # bs) =
     BASE64 ! (unat a div 4) # BASE64 ! (unat a mod 4 * 16 + unat b div 16) #
     BASE64 ! (unat b mod 16 * 4 + unat c div 64) # BASE64 ! (unat c mod 64) # btoa bs"

definition sextet :: "char \<Rightarrow> nat option" where
  "sextet c = (let n = of_char c :: nat in
     if is_upper c then Some (n - 65) else if is_lower c then Some (n - 71) else if is_digit c then Some (n + 4)
     else if c = CHR ''+'' then Some 62 else if c = CHR ''/'' then Some 63 else None)"

text \<open>
  \<open>atob\<close> of a text without white space and padding; one character left over is an error, and so is one
  outside the alphabet. Bits that fill no byte are dropped.
\<close>

fun atob :: "string \<Rightarrow> 8 word list option" where
  "atob [] = Some []"
| "atob [c] = None"
| "atob [c, d] = (case (sextet c, sextet d) of
     (Some p, Some q) \<Rightarrow> Some [word_of_nat (p * 4 + q div 16)] | _ \<Rightarrow> None)"
| "atob [c, d, e] = (case (sextet c, sextet d, sextet e) of
     (Some p, Some q, Some r) \<Rightarrow> Some [word_of_nat (p * 4 + q div 16), word_of_nat (q mod 16 * 16 + r div 4)] | _ \<Rightarrow> None)"
| "atob (c # d # e # f # s) = (case (sextet c, sextet d, sextet e, sextet f, atob s) of
     (Some p, Some q, Some r, Some t, Some bs) \<Rightarrow>
       Some (word_of_nat (p * 4 + q div 16) # word_of_nat (q mod 16 * 16 + r div 4) # word_of_nat (r mod 4 * 64 + t) # bs)
   | _ \<Rightarrow> None)"

definition to_url_char :: "char \<Rightarrow> char" where
  "to_url_char c = (if c = CHR ''+'' then CHR ''-'' else if c = CHR ''/'' then CHR ''_'' else c)"

definition from_url_char :: "char \<Rightarrow> char" where
  "from_url_char c = (if c = CHR ''-'' then CHR ''+'' else if c = CHR ''_'' then CHR ''/'' else c)"

text \<open>\<open>s.replace(/=+$/, '')\<close>\<close>

definition strip_padding :: "string \<Rightarrow> string" where
  "strip_padding s = rev (dropWhile (\<lambda>c. c = CHR ''='') (rev s))"

definition bytesToBase64Url :: "8 word list \<Rightarrow> string" where
  "bytesToBase64Url bytes = strip_padding (map to_url_char (btoa bytes))"

definition base64UrlToBytes :: "string \<Rightarrow> 8 word list res" where
  "base64UrlToBytes s =
     (if \<not> list_all id_char s then Inl (Error ''not base64url'')
      else case atob (map from_url_char s) of None \<Rightarrow> Inl (Error ''InvalidCharacterError'') | Some bytes \<Rightarrow> Inr bytes)"

section \<open>Decoding what was encoded\<close>

definition URL64 :: string where
  "URL64 = ''ABCDEFGHIJKLMNOPQRSTUVWXYZabcdefghijklmnopqrstuvwxyz0123456789-_''"

definition digit_of :: "nat \<Rightarrow> char" where
  "digit_of n = to_url_char (BASE64 ! n)"

lemma alphabet64: "map to_url_char BASE64 = URL64" "map (\<lambda>c. sextet (from_url_char c)) URL64 = map Some [0..<64]"
  by (simp_all add: BASE64_def URL64_def to_url_char_def from_url_char_def sextet_def is_upper_def is_lower_def is_digit_def
      Let_def upt_rec)

lemma url_chars: "list_all id_char URL64" "CHR ''='' \<notin> set URL64" "length BASE64 = 64"
  by (simp_all add: URL64_def BASE64_def id_char_def is_upper_def is_lower_def is_digit_def Let_def)

lemma digit_facts64:
  assumes "n < 64"
  shows "id_char (digit_of n)" "sextet (from_url_char (digit_of n)) = Some n" "digit_of n \<noteq> CHR ''=''"
proof -
  have "digit_of n = map to_url_char BASE64 ! n" using assms url_chars(3) by (simp add: digit_of_def)
  then have d: "digit_of n = URL64 ! n" by (simp add: alphabet64(1))
  have l: "length URL64 = 64" by (simp add: URL64_def)
  with assms have "digit_of n \<in> set URL64" unfolding d by simp
  with url_chars show "id_char (digit_of n)" "digit_of n \<noteq> CHR ''=''" by (auto simp: list_all_iff)
  have "map (\<lambda>c. sextet (from_url_char c)) URL64 ! n = Some n" using assms alphabet64(2) by simp
  with assms l d show "sextet (from_url_char (digit_of n)) = Some n" by simp
qed

text \<open>The text without padding, built directly.\<close>

fun sextets :: "8 word list \<Rightarrow> nat list" where
  "sextets [] = []"
| "sextets [a] = [unat a div 4, unat a mod 4 * 16]"
| "sextets [a, b] = [unat a div 4, unat a mod 4 * 16 + unat b div 16, unat b mod 16 * 4]"
| "sextets (a # b # c # bs) =
     [unat a div 4, unat a mod 4 * 16 + unat b div 16, unat b mod 16 * 4 + unat c div 64, unat c mod 64] @ sextets bs"

lemma byte_bound: "unat (a :: 8 word) < 256"
proof -
  have "unat a < 2 ^ LENGTH(8)" by (rule unsigned_less)
  then show ?thesis by simp
qed

lemma sextets_bound: "n \<in> set (sextets bs) \<Longrightarrow> n < 64"
proof (induction bs rule: sextets.induct)
  case (2 a)
  then show ?case using byte_bound [of a] by auto
next
  case (3 a b)
  then show ?case using byte_bound [of a] byte_bound [of b] by auto
next
  case (4 a b c bs)
  then show ?case using byte_bound [of a] byte_bound [of b] byte_bound [of c] by auto
qed simp

lemma padded: "\<exists>p. map to_url_char (btoa bs) = map digit_of (sextets bs) @ p \<and> set p \<subseteq> {CHR ''=''}"
proof (induction bs rule: sextets.induct)
  case (4 a b c bs)
  then obtain p where "map to_url_char (btoa bs) = map digit_of (sextets bs) @ p" "set p \<subseteq> {CHR ''=''}" by blast
  then show ?case by (intro exI [of _ p]) (simp add: digit_of_def)
qed (auto simp: digit_of_def to_url_char_def)

lemma encoded_digits: "bytesToBase64Url bs = map digit_of (sextets bs)"
proof -
  obtain p where p: "map to_url_char (btoa bs) = map digit_of (sextets bs) @ p" "set p \<subseteq> {CHR ''=''}"
    using padded by blast
  have "dropWhile (\<lambda>c. c = CHR ''='') (rev p) = []" using p(2) by (auto simp: dropWhile_eq_Nil_conv)
  then have "dropWhile (\<lambda>c. c = CHR ''='') (rev p @ rev (map digit_of (sextets bs))) =
      dropWhile (\<lambda>c. c = CHR ''='') (rev (map digit_of (sextets bs)))"
    using p(2) by (subst dropWhile_append2) auto
  also have "\<dots> = rev (map digit_of (sextets bs))"
  proof (cases "rev (sextets bs)")
    case (Cons n ns)
    then have "n < 64" using sextets_bound [of n bs] by (metis list.set_intros(1) set_rev)
    with Cons digit_facts64(3) show ?thesis by (simp flip: rev_map)
  qed simp
  finally show ?thesis by (simp add: bytesToBase64Url_def strip_padding_def p(1))
qed

lemma word_of_byte: "word_of_nat (unat (a :: 8 word)) = a"
  by simp

lemma digits_apart: "(r :: nat) < k \<Longrightarrow> (q * k + r) div k = q" "(r :: nat) < k \<Longrightarrow> (q * k + r) mod k = r"
  by auto

lemma bits_join:
  fixes x y :: nat
  assumes "x < 256" "y < 256"
  shows "x div 4 * 4 + x mod 4 * 16 div 16 = x" "x div 4 * 4 + (x mod 4 * 16 + y div 16) div 16 = x"
    "(x mod 4 * 16 + y div 16) mod 16 * 16 + y mod 16 * 4 div 4 = y"
    "z < 256 \<Longrightarrow> (x mod 4 * 16 + y div 16) mod 16 * 16 + (y mod 16 * 4 + z div 64) div 4 = y"
    "z < 256 \<Longrightarrow> (y mod 16 * 4 + z div 64) mod 4 * 64 + z mod 64 = z"
proof -
  have y: "y div 16 < 16" using assms by (simp add: div_less_iff_less_mult)
  show "x div 4 * 4 + x mod 4 * 16 div 16 = x" by simp
  show "x div 4 * 4 + (x mod 4 * 16 + y div 16) div 16 = x" by (simp only: digits_apart [OF y] div_mult_mod_eq)
  show "(x mod 4 * 16 + y div 16) mod 16 * 16 + y mod 16 * 4 div 4 = y"
    unfolding digits_apart [OF y] by simp
  show "(x mod 4 * 16 + y div 16) mod 16 * 16 + (y mod 16 * 4 + z div 64) div 4 = y" if "z < 256"
  proof -
    have z: "z div 64 < 4" using that by (simp add: div_less_iff_less_mult)
    show ?thesis unfolding digits_apart [OF y] digits_apart [OF z] by simp
  qed
  show "(y mod 16 * 4 + z div 64) mod 4 * 64 + z mod 64 = z" if "z < 256"
  proof -
    have z: "z div 64 < 4" using that by (simp add: div_less_iff_less_mult)
    show ?thesis unfolding digits_apart [OF z] by simp
  qed
qed

lemma atob_sextets: "atob (map (from_url_char \<circ> digit_of) (sextets bs)) = Some bs"
proof (induction bs rule: sextets.induct)
  case (2 a)
  note d = digit_facts64(2) [OF sextets_bound [of _ "[a]"], simplified]
  show ?case by (simp add: d flip: of_nat_add of_nat_mult)
next
  case (3 a b)
  have "unat a div 4 < 64" "unat a mod 4 * 16 + unat b div 16 < 64" "unat b mod 16 * 4 < 64"
    by (rule sextets_bound [of _ "[a, b]"], simp)+
  note d = this [THEN digit_facts64(2)]
  note y = bits_join(2,3) [OF byte_bound [of a] byte_bound [of b]]
  show ?case unfolding sextets.simps list.map comp_apply atob.simps by (simp only: d y word_of_byte option.case prod.case)
next
  case (4 a b c bs)
  have "unat a div 4 < 64" "unat a mod 4 * 16 + unat b div 16 < 64" "unat b mod 16 * 4 + unat c div 64 < 64" "unat c mod 64 < 64"
    by (rule sextets_bound [of _ "a # b # c # bs"], simp)+
  note d = this [THEN digit_facts64(2)]
  note y = bits_join(2) [OF byte_bound [of a] byte_bound [of b]] bits_join(4,5) [OF byte_bound [of a] byte_bound [of b] byte_bound [of c]]
  show ?case unfolding sextets.simps append.simps list.map comp_apply atob.simps
    using 4 by (simp only: d y word_of_byte option.case prod.case comp_def)
qed simp

lemma base64url_inverse: "base64UrlToBytes (bytesToBase64Url bs) = Inr bs"
proof -
  have "list_all id_char (map digit_of (sextets bs))"
    using sextets_bound [of _ bs] digit_facts64(1) by (auto simp: list_all_iff)
  then show ?thesis using atob_sextets [of bs] by (simp add: base64UrlToBytes_def encoded_digits comp_def)
qed

lemma encoded_is_url_safe: "list_all id_char (bytesToBase64Url bs)"
  using sextets_bound [of _ bs] digit_facts64(1) by (auto simp: encoded_digits list_all_iff)

end
