(* ===== verification/Scans_Service.thy ===== *)
theory Scans_Service
  imports Account_Deletion Base64url "HOL-Library.Char_ord" "HOL-Library.List_Lexorder" "HOL-Library.Product_Lexorder"
begin

text \<open>
  \<open>services/scans.ts\<close> and the statements of \<open>repositories/scans.ts\<close> behind it: what users read and
  write of scans, their findings and reports. The Worker's state is joined by the columns no other
  component reads: the triage of findings, the patch report of scans and the hourly counts of AI
  analyses. A finding's triage is kept beside its row, by its id.
\<close>

record desk =
  site :: worker
  triage :: "(string \<times> (string \<times> json) list) list"
  waf_reports :: "(string \<times> json) list"
  ai_counts :: "(string \<times> nat \<times> int) list"

record upload_claims =
  uc_purpose :: "string option"
  uc_scan :: "string option"
  uc_key :: string
  uc_exp :: int

datatype token_check = Verified upload_claims | Token_expired | Token_invalid

text \<open>
  \<open>sign_upload\<close> and \<open>verify_upload\<close> are \<open>sign\<close> and \<open>verify\<close> of \<open>hono/jwt\<close>, by the secret and, to verify,
  the time; \<open>sql_time\<close> is the text SQLite keeps of a time, \<open>json_bytes\<close> and \<open>bytes_json\<close> JSON in UTF-8,
  \<open>column_value\<close> what an untyped column holds of a bound value (\<open>None\<close> where D1 refuses it).
\<close>

record desk_env =
  d_env :: worker_env
  sign_upload :: "string \<Rightarrow> upload_claims \<Rightarrow> string"
  verify_upload :: "string \<Rightarrow> string \<Rightarrow> int \<Rightarrow> token_check"
  sql_time :: "int \<Rightarrow> string"
  json_bytes :: "json \<Rightarrow> 8 word list"
  bytes_json :: "8 word list \<Rightarrow> json option"
  column_value :: "json \<Rightarrow> json option"

definition on_site :: "(worker, 'a) comp \<Rightarrow> (desk, 'a) comp" where
  "on_site m = (\<lambda>d. let (r, w) = m (site d) in (r, d\<lparr>site := w\<rparr>))"

definition desk_db :: "desk \<Rightarrow> scans_db" where
  "desk_db d = db (object (site d))"

definition on_tables :: "(scans_db, 'a) comp \<Rightarrow> (desk, 'a) comp" where
  "on_tables m = (\<lambda>d. let (r, t) = m (desk_db d) in (r, d\<lparr>site := on_scans (\<lambda>_. t) (site d)\<rparr>))"

definition desk_auth :: "desk_env \<Rightarrow> bool" where
  "desk_auth env = (AUTH_ENABLED (obj_env (d_env env)) = Some ''true'')"

definition desk_rt :: "desk_env \<Rightarrow> runtime" where
  "desk_rt env = js_rt (obj_env (d_env env))"

section \<open>Who may\<close>

text \<open>\<open>checkScanAccess\<close> and \<open>checkScanWriteAccess\<close> of a row of this project and user.\<close>

definition row_access :: "string \<Rightarrow> desk_env \<Rightarrow> string \<Rightarrow> string option \<Rightarrow> string option \<Rightarrow> (desk, unit) comp" where
  "row_access perm env projectId owner userId =
     (if \<not> desk_auth env then ret ()
      else if \<not> given userId then throw (Error ''Unauthorized|401'')
      else if projectId = [] then refuse_if (owner \<noteq> userId) ''Forbidden|403''
      else bind_comp (on_site (on_access (checkPermission (the userId) projectId perm))) (\<lambda>hasAccess.
           refuse_if (\<not> hasAccess) ''Forbidden|403''))"

definition checkRowAccess :: "desk_env \<Rightarrow> string \<Rightarrow> string option \<Rightarrow> string option \<Rightarrow> (desk, unit) comp" where
  "checkRowAccess = row_access READ_SCANS"

definition checkScanWriteAccess :: "desk_env \<Rightarrow> string \<Rightarrow> string option \<Rightarrow> string option \<Rightarrow> (desk, unit) comp" where
  "checkScanWriteAccess = row_access WRITE_SCANS"

text \<open>The other shape of the check: a user is asked for whenever there is one.\<close>

definition if_signed_in :: "desk_env \<Rightarrow> string option \<Rightarrow> (string \<Rightarrow> (desk, bool) comp) \<Rightarrow> (desk, unit) comp" where
  "if_signed_in env userId allowed =
     (if desk_auth env \<and> \<not> given userId then throw (Error ''Unauthorized|401'')
      else if given userId then bind_comp (allowed (the userId)) (\<lambda>hasAccess. refuse_if (\<not> hasAccess) ''Forbidden|403'')
      else ret ())"

definition permitted :: "string \<Rightarrow> string \<Rightarrow> string \<Rightarrow> (desk, bool) comp" where
  "permitted perm projectId u = on_site (on_access (checkPermission u projectId perm))"

definition scan_or_404 :: "string \<Rightarrow> (desk, scan_row) comp" where
  "scan_or_404 scanId = bind_comp (reads (\<lambda>d. getScan (desk_db d) scanId)) (\<lambda>scan. case scan of
     None \<Rightarrow> throw (Error ''Scan not found|404'') | Some s \<Rightarrow> ret s)"

section \<open>Why scans failed\<close>

fun chunked :: "nat \<Rightarrow> 'a list \<Rightarrow> 'a list list" where
  "chunked n xs = (if xs = [] \<or> n = 0 then [] else take n xs # chunked n (drop n xs))"

declare chunked.simps [simp del]

definition EVENT_ID_LOOKUP_CHUNK :: nat where "EVENT_ID_LOOKUP_CHUNK = 90"

definition kept_text :: "runtime \<Rightarrow> scan_row \<Rightarrow> ustring" where
  "kept_text rt s = (case s_failure s of None \<Rightarrow> [] | Some r \<Rightarrow> shown rt r)"

text \<open>One update per scan, in one batch.\<close>

definition keep_reasons :: "(string \<times> ustring) list \<Rightarrow> string list \<Rightarrow> scans_db \<Rightarrow> scans_db" where
  "keep_reasons reasons ids t = snd (update_scans (\<lambda>s. s_id s \<in> set ids \<and> s_failure s = None)
     (\<lambda>s. s\<lparr>s_failure := Some (case map_of reasons (s_id s) of None \<Rightarrow> UNKNOWN_FAILURE | Some r \<Rightarrow> r)\<rparr>) t)"

text \<open>The errors of a chunk of scans, newest first; a text that is no JSON fails the query.\<close>

fun search_errors :: "runtime \<Rightarrow> string list list \<Rightarrow> (scans_db, (string \<times> ustring) list) comp" where
  "search_errors rt [] = ret []"
| "search_errors rt (ids # chunks) = (\<lambda>db.
     case select_rows (log_row rt [''error'']) (filter (\<lambda>e. e_scan e \<in> set ids) (scan_events db)) of
       None \<Rightarrow> (Inl (Error ''malformed JSON''), db)
     | Some es \<Rightarrow>
         let found = List.map_filter (\<lambda>i. map_option (Pair i) (newest_error rt (filter (\<lambda>e. e_scan e = i) es))) ids
         in bind_comp (search_errors rt chunks) (\<lambda>more. ret (found @ more)) (keep_reasons found ids db))"

text \<open>The reasons on the rows, and for the rows that lack one the newest error.\<close>

definition getFailureReasons :: "runtime \<Rightarrow> string list \<Rightarrow> (scans_db, (string \<times> ustring) list) comp" where
  "getFailureReasons rt scanIds = (\<lambda>db.
     let rows = List.map_filter (getScan db) (uniq scanIds);
         stored = map (\<lambda>s. (s_id s, kept_text rt s)) (filter (\<lambda>s. kept_text rt s \<noteq> []) rows);
         missing = map s_id (filter (\<lambda>s. kept_text rt s = []) rows)
     in bind_comp (search_errors rt (chunked EVENT_ID_LOOKUP_CHUNK missing)) (\<lambda>found. ret (stored @ found)) db)"

definition with_reason :: "runtime \<Rightarrow> (string \<times> ustring) list \<Rightarrow> scan_row \<Rightarrow> scan_row" where
  "with_reason rt reasons s =
     (if s_status s \<noteq> ''failed'' then s
      else if kept_text rt s \<noteq> [] then s\<lparr>s_failure := Some (kept_text rt s)\<rparr>
      else s\<lparr>s_failure := map_of reasons (s_id s)\<rparr>)"

definition attachFailureReasons :: "runtime \<Rightarrow> scan_row list \<Rightarrow> (scans_db, scan_row list) comp" where
  "attachFailureReasons rt rows =
     (let lacking = filter (\<lambda>s. s_status s = ''failed'' \<and> kept_text rt s = []) rows
      in if lacking = [] then ret (map (with_reason rt []) rows)
         else bind_comp (getFailureReasons rt (map s_id lacking)) (\<lambda>reasons. ret (map (with_reason rt reasons) rows)))"

section \<open>The list of a project's scans\<close>

type_synonym scans_cursor = "string \<times> string"

definition DEFAULT_SCANS_PAGE :: nat where "DEFAULT_SCANS_PAGE = 50"
definition MAX_SCANS_PAGE :: nat where "MAX_SCANS_PAGE = 200"

definition position :: "desk_env \<Rightarrow> scan_row \<Rightarrow> scans_cursor" where
  "position env s = (sql_time env (s_created s), s_id s)"

text \<open>Newest first; a row of the list has no checkpoint.\<close>

definition list_columns :: "scan_row \<Rightarrow> scan_row" where
  "list_columns s = s\<lparr>s_checkpoint := None\<rparr>"

definition newest_first :: "desk_env \<Rightarrow> (scan_row \<Rightarrow> bool) \<Rightarrow> scans_db \<Rightarrow> scan_row list" where
  "newest_first env P t = map list_columns (rev (sort_key (position env) (filter P (scans t))))"

definition getScans_rows :: "desk_env \<Rightarrow> string \<Rightarrow> nat \<Rightarrow> scans_cursor option \<Rightarrow> scans_db \<Rightarrow> scan_row list \<times> scans_cursor option" where
  "getScans_rows env projectId limit before t =
     (let rows = take (limit + 1) (newest_first env (\<lambda>s. s_project s = projectId \<and>
            (case before of None \<Rightarrow> True | Some c \<Rightarrow> position env s < c)) t)
      in if length rows \<le> limit then (rows, None) else (take limit rows, Some (position env (rows ! (limit - 1)))))"

definition ACTIVE_SCAN_STATUSES :: "string list" where
  "ACTIVE_SCAN_STATUSES = [''queued'', ''dispatched'', ''running'', ''paused'']"

definition getUnfinishedScans :: "desk_env \<Rightarrow> string \<Rightarrow> nat \<Rightarrow> scans_db \<Rightarrow> scan_row list" where
  "getUnfinishedScans env projectId limit t =
     take limit (newest_first env (\<lambda>s. s_project s = projectId \<and> s_status s \<in> set ACTIVE_SCAN_STATUSES) t)"

definition parseScansLimit :: "string option \<Rightarrow> nat res" where
  "parseScansLimit raw = (case raw of
     None \<Rightarrow> Inr DEFAULT_SCANS_PAGE
   | Some t \<Rightarrow>
       if t = [] then Inr DEFAULT_SCANS_PAGE
       else if \<not> list_all is_digit t then Inl (Error ''Invalid query parameter: limit|400'')
       else let n = (if 6 < length t then MAX_SCANS_PAGE else dec_val t)
            in if n < 1 then Inl (Error ''Invalid query parameter: limit|400'') else Inr (min n MAX_SCANS_PAGE))"

definition encodeScansCursor :: "desk_env \<Rightarrow> scans_cursor \<Rightarrow> string" where
  "encodeScansCursor env c = bytesToBase64Url (json_bytes env (JArr [JStr (units (fst c)), JStr (units (snd c))]))"

definition created_char :: "char \<Rightarrow> bool" where
  "created_char c = (is_digit c \<or> c \<in> set '':. TZ+-'')"

text \<open>\<open>/^[0-9][0-9:. TZ+-]{0,39}$/\<close>\<close>

definition created_text :: "string \<Rightarrow> bool" where
  "created_text t = (t \<noteq> [] \<and> is_digit (hd t) \<and> length t \<le> 40 \<and> list_all created_char t)"

definition decodeScansCursor :: "desk_env \<Rightarrow> string \<Rightarrow> scans_cursor res" where
  "decodeScansCursor env raw =
     (let invalid = Inl (Error ''Invalid query parameter: cursor|400'')
      in if 256 < length raw then invalid
         else case base64UrlToBytes raw of
                Inl _ \<Rightarrow> invalid
              | Inr bytes \<Rightarrow> (case bytes_json env bytes of
                  Some (JArr [createdAt, i]) \<Rightarrow>
                    (case (str_of (Some createdAt), str_of (Some i)) of
                       (Some t, Some v) \<Rightarrow> if created_text t \<and> isValidId v then Inr (t, v) else invalid
                     | _ \<Rightarrow> invalid)
                | _ \<Rightarrow> invalid))"

record scans_query =
  pg_limit :: "string option"
  pg_cursor :: "string option"
  pg_active :: "string option"

definition of_res :: "'a res \<Rightarrow> ('s, 'a) comp" where
  "of_res r = (\<lambda>s. (r, s))"

definition getScans :: "desk_env \<Rightarrow> string \<Rightarrow> string option \<Rightarrow> scans_query \<Rightarrow> (desk, scan_row list \<times> string option) comp" where
  "getScans env projectId userId page =
     bind_comp (refuse_if (projectId = []) ''Missing query parameter: project_id|400'') (\<lambda>_.
     bind_comp (if_signed_in env userId (permitted READ_SCANS projectId)) (\<lambda>_.
     bind_comp (of_res (parseScansLimit (pg_limit page))) (\<lambda>limit.
     if given (pg_active page) then
       bind_comp (refuse_if (pg_active page \<noteq> Some ''1'' \<or> given (pg_cursor page)) ''Invalid query parameter: active|400'') (\<lambda>_.
       bind_comp (reads (\<lambda>d. getUnfinishedScans env projectId limit (desk_db d))) (\<lambda>rows.
       bind_comp (on_tables (attachFailureReasons (desk_rt env) rows)) (\<lambda>rows. ret (rows, None))))
     else
       bind_comp (if given (pg_cursor page) then bind_comp (of_res (decodeScansCursor env (the (pg_cursor page)))) (\<lambda>c. ret (Some c))
         else ret None) (\<lambda>before.
       bind_comp (reads (\<lambda>d. getScans_rows env projectId limit before (desk_db d))) (\<lambda>(rows, next).
       bind_comp (on_tables (attachFailureReasons (desk_rt env) rows)) (\<lambda>rows.
       ret (rows, map_option (encodeScansCursor env) next)))))))"

section \<open>One scan\<close>

text \<open>The patch report is parsed when its text is JSON.\<close>

definition shown_report :: "runtime \<Rightarrow> json \<Rightarrow> json" where
  "shown_report rt v = (case v of JStr t \<Rightarrow> (case parse_json rt t of None \<Rightarrow> v | Some d \<Rightarrow> d) | _ \<Rightarrow> v)"

definition getScan_as :: "desk_env \<Rightarrow> string \<Rightarrow> string option \<Rightarrow> (desk, scan_row \<times> json option) comp" where
  "getScan_as env scanId userId =
     bind_comp (scan_or_404 scanId) (\<lambda>scan.
     bind_comp (if_signed_in env userId (\<lambda>u. if s_project scan \<noteq> [] then permitted READ_SCANS (s_project scan) u
       else ret (s_user scan = Some u))) (\<lambda>_.
     bind_comp (on_tables (attachFailureReasons (desk_rt env) [scan])) (\<lambda>rows.
     reads (\<lambda>d. (hd rows, map_option (shown_report (desk_rt env)) (map_of (waf_reports d) scanId))))))"

record scan_fields =
  sf_status :: "string option"
  sf_summary :: "json option"
  sf_completed :: "int option"

definition updateScan_as :: "desk_env \<Rightarrow> string \<Rightarrow> scan_fields \<Rightarrow> string option \<Rightarrow> (desk, scan_row option) comp" where
  "updateScan_as env scanId body userId =
     bind_comp (scan_or_404 scanId) (\<lambda>scan.
     bind_comp (if_signed_in env userId (permitted WRITE_SCANS (s_project scan))) (\<lambda>_.
     on_tables (updateScan scanId (sf_status body) (sf_summary body) (sf_completed body))))"

section \<open>Reports\<close>

definition UPLOAD_SECONDS :: int where "UPLOAD_SECONDS = 15 * 60"

definition generateUploadUrl :: "desk_env \<Rightarrow> string \<Rightarrow> string option \<Rightarrow> (desk, string) comp" where
  "generateUploadUrl env scanId userId =
     bind_comp (scan_or_404 scanId) (\<lambda>scan.
     bind_comp (if_signed_in env userId (permitted WRITE_SCANS (s_project scan))) (\<lambda>_.
     bind_comp (refuse_if (\<not> given (JWT_SECRET (obj_env (d_env env)))) ''Internal server error: auth not configured|500'') (\<lambda>_.
     reads (\<lambda>d. sign_upload env (the (JWT_SECRET (obj_env (d_env env))))
       \<lparr>uc_purpose = Some ''upload'', uc_scan = Some scanId, uc_key = reportKeyForScan scanId,
        uc_exp = worker_now (site d) + UPLOAD_SECONDS\<rparr>))))"

text \<open>\<open>has_body\<close>: the request has a body; \<open>fails\<close>: the object store refuses it. The report is opaque.\<close>

definition put_report :: "string \<Rightarrow> string \<Rightarrow> desk \<Rightarrow> desk" where
  "put_report scanId key d =
     d\<lparr>site := on_scans (updateScanReportUrl scanId key) ((site d)\<lparr>object := (object (site d))\<lparr>r2 := jset key Broken (r2 (object (site d)))\<rparr>\<rparr>)\<rparr>"

definition accept_upload :: "desk_env \<Rightarrow> string \<Rightarrow> string \<Rightarrow> bool \<Rightarrow> bool \<Rightarrow> (desk, string) comp" where
  "accept_upload env scanId token has_body fails = (\<lambda>d.
     case verify_upload env (the (JWT_SECRET (obj_env (d_env env)))) token (worker_now (site d)) of
       Token_expired \<Rightarrow> (Inl (Error ''Upload token expired|401''), d)
     | Token_invalid \<Rightarrow> (Inl (Error ''Invalid upload token|403''), d)
     | Verified c \<Rightarrow>
         if uc_purpose c \<noteq> Some ''upload'' \<or> uc_scan c \<noteq> Some scanId then (Inl (Error ''Token does not match this scan|403''), d)
         else if \<not> has_body then (Inl (Error ''Empty body|400''), d)
         else if fails then (Inl (Error ''Invalid upload token|403''), d)
         else (Inr (uc_key c), put_report scanId (uc_key c) d))"

definition uploadReport :: "desk_env \<Rightarrow> string \<Rightarrow> string option \<Rightarrow> bool \<Rightarrow> bool \<Rightarrow> (desk, string) comp" where
  "uploadReport env scanId token has_body fails =
     bind_comp (refuse_if (\<not> given token) ''Missing X-Upload-Token header|401'') (\<lambda>_.
     bind_comp (refuse_if (\<not> given (JWT_SECRET (obj_env (d_env env)))) ''Internal server error: auth not configured|500'') (\<lambda>_.
     accept_upload env scanId (the token) has_body fails))"

section \<open>Logs and findings\<close>

definition is_stored_error :: "runtime \<Rightarrow> event_row \<Rightarrow> bool" where
  "is_stored_error rt e =
     (e_type e = units ''error'' \<or>
      (case (case e_payload e of JStr raw \<Rightarrow> parse_json rt raw | v \<Rightarrow> Some v) of
         None \<Rightarrow> False | Some v \<Rightarrow> str_of (jprop v ''type'') = Some ''error''))"

definition shown_log_row :: "desk_env \<Rightarrow> event_row \<Rightarrow> event_row" where
  "shown_log_row env e =
     (if \<not> is_stored_error (desk_rt env) e then e
      else let text = runnerErrorText (desk_rt env) (Some (e_payload e))
           in e\<lparr>e_payload := JObj [(units ''level'', JStr (units ''ERROR'')),
                (units ''message'', JStr (if text = [] then UNKNOWN_FAILURE else text)),
                (units ''timestamp'', JStr (units (sql_time env (e_created e))))]\<rparr>)"

definition getRunnerLogs_as :: "desk_env \<Rightarrow> string \<Rightarrow> string option \<Rightarrow> (desk, event_row list) comp" where
  "getRunnerLogs_as env scanId userId =
     bind_comp (scan_or_404 scanId) (\<lambda>scan.
     bind_comp (checkRowAccess env (s_project scan) (s_user scan) userId) (\<lambda>_.
     bind_comp (reads (\<lambda>d. getRunnerLogs (desk_rt env) (desk_db d) scanId)) (\<lambda>rows. case rows of
       None \<Rightarrow> throw (Error ''malformed JSON'')
     | Some es \<Rightarrow> ret (map (shown_log_row env) es))))"

definition normalizeAIRelevance :: "json \<Rightarrow> bool" where
  "normalizeAIRelevance v = (case v of
     JBool b \<Rightarrow> b
   | JNum n \<Rightarrow> n = 1
   | JStr t \<Rightarrow> (case text_of (u_trim t) of
       None \<Rightarrow> False
     | Some s \<Rightarrow> to_lower s \<in> set [''1'', ''1.0'', ''true'', ''true positive'', ''true_positive'', ''tp''])
   | _ \<Rightarrow> False)"

type_synonym finding_view = "finding_row \<times> (string \<times> json) list"

definition triage_of :: "desk \<Rightarrow> string \<Rightarrow> (string \<times> json) list" where
  "triage_of d findingId = (case map_of (triage d) findingId of None \<Rightarrow> [] | Some cols \<Rightarrow> cols)"

definition mapFindingRow :: "desk \<Rightarrow> finding_row \<Rightarrow> finding_view" where
  "mapFindingRow d f =
     (f, map (\<lambda>(k, v). (k, if k = ''ai_relevance'' \<and> v \<noteq> JNull then JBool (normalizeAIRelevance v) else v)) (triage_of d (f_id f)))"

definition getFindings :: "string \<Rightarrow> desk \<Rightarrow> finding_view list" where
  "getFindings scanId d = map (mapFindingRow d) (filter (\<lambda>f. f_scan f = scanId) (findings (desk_db d)))"

text \<open>The finding with its scan's project and user.\<close>

definition getFindingDetails :: "string \<Rightarrow> desk \<Rightarrow> (finding_view \<times> scan_row) option" where
  "getFindingDetails findingId d = (case find (\<lambda>f. f_id f = findingId) (findings (desk_db d)) of
     None \<Rightarrow> None
   | Some f \<Rightarrow> map_option (Pair (mapFindingRow d f)) (getScan (desk_db d) (f_scan f)))"

definition getFindings_as :: "desk_env \<Rightarrow> string \<Rightarrow> string option \<Rightarrow> (desk, finding_view list) comp" where
  "getFindings_as env scanId userId =
     bind_comp (scan_or_404 scanId) (\<lambda>scan.
     bind_comp (checkRowAccess env (s_project scan) (s_user scan) userId) (\<lambda>_.
     reads (getFindings scanId)))"

definition finding_or_404 :: "string \<Rightarrow> (desk, finding_view \<times> scan_row) comp" where
  "finding_or_404 findingId = bind_comp (reads (getFindingDetails findingId)) (\<lambda>row. case row of
     None \<Rightarrow> throw (Error ''Finding not found|404'') | Some x \<Rightarrow> ret x)"

definition getFindingDetails_as :: "desk_env \<Rightarrow> string \<Rightarrow> string option \<Rightarrow> (desk, finding_view) comp" where
  "getFindingDetails_as env findingId userId =
     bind_comp (finding_or_404 findingId) (\<lambda>(f, scan).
     bind_comp (checkRowAccess env (s_project scan) (s_user scan) userId) (\<lambda>_. ret f))"

section \<open>Triage\<close>

definition TRIAGE_FIELDS :: "string list" where
  "TRIAGE_FIELDS = [''ai_status'', ''ai_relevance'', ''ai_explanation'', ''ai_remediation'', ''ai_proposed_patch'', ''pr_link'', ''ai_confidence'']"

definition relevance_value :: "json \<Rightarrow> json" where
  "relevance_value v = (if v = JNull then JNull else JNum (if normalizeAIRelevance v then 1 else 0))"

text \<open>What the columns of a statement hold; \<open>None\<close> when D1 refuses to bind one of the values.\<close>

fun bound_values :: "desk_env \<Rightarrow> (string \<times> json) list \<Rightarrow> (string \<times> json) list option" where
  "bound_values env [] = Some []"
| "bound_values env ((k, v) # cols) = (case (column_value env v, bound_values env cols) of
     (Some x, Some xs) \<Rightarrow> Some ((k, x) # xs) | _ \<Rightarrow> None)"

definition set_triage :: "string \<Rightarrow> (string \<times> json) list \<Rightarrow> desk \<Rightarrow> desk" where
  "set_triage findingId cols d =
     d\<lparr>triage := jset findingId (fold (\<lambda>(k, v). jset k v) cols (triage_of d findingId)) (triage d)\<rparr>"

definition given_fields :: "(string \<times> json) list \<Rightarrow> (string \<times> json) list" where
  "given_fields cols = List.map_filter (\<lambda>k. map_option (\<lambda>v. (k, if k = ''ai_relevance'' then relevance_value v else v)) (map_of cols k))
     TRIAGE_FIELDS"

definition tell_triaged :: "string \<Rightarrow> desk \<Rightarrow> desk" where
  "tell_triaged findingId d = (case getFindingDetails findingId d of
     None \<Rightarrow> d
   | Some ((f, _), scan) \<Rightarrow> if s_project scan = [] then d
       else d\<lparr>site := on_scans (fire (s_project scan) ''finding.triaged'' (f_scan f)) (site d)\<rparr>)"

definition updateFinding :: "desk_env \<Rightarrow> string \<Rightarrow> (string \<times> json) list \<Rightarrow> (desk, finding_view option) comp" where
  "updateFinding env findingId body = (\<lambda>d.
     if given_fields body = [] then (Inl (Error ''No valid fields to update|400''), d)
     else case bound_values env (given_fields body) of
            None \<Rightarrow> (Inl (Error ''D1_TYPE_ERROR''), d)
          | Some cols \<Rightarrow>
              let d1 = (if findingId \<in> f_id ` set (findings (desk_db d)) then set_triage findingId cols d else d);
                  d2 = tell_triaged findingId d1
              in (Inr (map_option fst (getFindingDetails findingId d1)), d2))"

definition updateFinding_as :: "desk_env \<Rightarrow> string \<Rightarrow> (string \<times> json) list \<Rightarrow> string option \<Rightarrow> (desk, finding_view option) comp" where
  "updateFinding_as env findingId body userId =
     bind_comp (finding_or_404 findingId) (\<lambda>(f, scan).
     bind_comp (checkScanWriteAccess env (s_project scan) (s_user scan) userId) (\<lambda>_.
     updateFinding env findingId body))"

text \<open>One item of a batch: its finding and the four columns it sets, \<open>null\<close> unless given.\<close>

definition batch_item :: "desk_env \<Rightarrow> json \<Rightarrow> (string \<times> (string \<times> json) list) res" where
  "batch_item env u =
     (if u = JNull then Inl TypeError
      else case (jprop u ''finding_id'', jprop u ''ai_status'') of
             (Some i, Some status) \<Rightarrow>
               let given_or_null = (\<lambda>k. case jprop u k of None \<Rightarrow> JNull | Some v \<Rightarrow> v)
               in (case (column_name (d_env env) i, bound_values env [(''ai_status'', status),
                     (''ai_relevance'', relevance_value (given_or_null ''ai_relevance'')),
                     (''ai_explanation'', given_or_null ''ai_explanation''), (''ai_confidence'', given_or_null ''ai_confidence'')]) of
                     (Some findingId, Some cols) \<Rightarrow> Inr (findingId, cols)
                   | _ \<Rightarrow> Inl (Error ''D1_TYPE_ERROR''))
           | _ \<Rightarrow> Inl (Error ''D1_TYPE_ERROR''))"

fun batch_items :: "desk_env \<Rightarrow> json list \<Rightarrow> (string \<times> (string \<times> json) list) list res" where
  "batch_items env [] = Inr []"
| "batch_items env (u # us) = (case batch_item env u of
     Inl e \<Rightarrow> Inl e
   | Inr x \<Rightarrow> (case batch_items env us of Inl e \<Rightarrow> Inl e | Inr xs \<Rightarrow> Inr (x # xs)))"

definition batchUpdateFindingsAI :: "desk_env \<Rightarrow> string \<Rightarrow> json list \<Rightarrow> (desk, nat) comp" where
  "batchUpdateFindingsAI env scanId us =
     (if us = [] then ret 0
      else bind_comp (of_res (batch_items env us)) (\<lambda>items.
        bind_comp (writes (\<lambda>d. fold (\<lambda>(findingId, cols) d.
          if list_ex (\<lambda>f. f_id f = findingId \<and> f_scan f = scanId) (findings (desk_db d)) then set_triage findingId cols d else d) items d)) (\<lambda>_.
        ret (length us))))"

definition batchUpdateFindingsAI_as :: "desk_env \<Rightarrow> string \<Rightarrow> json list \<Rightarrow> string option \<Rightarrow> (desk, nat) comp" where
  "batchUpdateFindingsAI_as env scanId us userId =
     bind_comp (scan_or_404 scanId) (\<lambda>scan.
     bind_comp (checkScanWriteAccess env (s_project scan) (s_user scan) userId) (\<lambda>_.
     batchUpdateFindingsAI env scanId us))"

definition saveWAFPatchReport_as :: "desk_env \<Rightarrow> string \<Rightarrow> json \<Rightarrow> string option \<Rightarrow> (desk, unit) comp" where
  "saveWAFPatchReport_as env scanId report userId =
     bind_comp (scan_or_404 scanId) (\<lambda>scan.
     bind_comp (checkScanWriteAccess env (s_project scan) (s_user scan) userId) (\<lambda>_.
     writes (\<lambda>d. if scan_exists (desk_db d) scanId then d\<lparr>waf_reports := jset scanId report (waf_reports d)\<rparr> else d)))"

section \<open>AI analysis of a finding\<close>

definition AI_ANALYSES_PER_HOUR :: nat where "AI_ANALYSES_PER_HOUR = 50"

text \<open>
  The count in the session cache, by user or address and hour. \<open>kv_bound\<close>: the cache is configured;
  \<open>kv_fails\<close>: it fails, which is no reason to refuse.
\<close>

definition ai_count_key :: "string \<Rightarrow> int \<Rightarrow> string" where
  "ai_count_key identity now_ms = ''ratelimit:ai_analyze:'' @ identity @ '':'' @ show_int (now_ms div 3600000)"

definition desk_ms :: "desk \<Rightarrow> int" where
  "desk_ms d = clock_ms (accounts (site d))"

definition ai_count :: "desk \<Rightarrow> string \<Rightarrow> nat" where
  "ai_count d key = (case map_of (ai_counts d) key of None \<Rightarrow> 0 | Some (n, expires) \<Rightarrow> if desk_ms d < expires then n else 0)"

definition count_analysis :: "bool \<Rightarrow> bool \<Rightarrow> string \<Rightarrow> (desk, unit) comp" where
  "count_analysis has_cache kv_fails identity = (\<lambda>d.
     let key = ai_count_key identity (desk_ms d)
     in if \<not> has_cache \<or> kv_fails then (Inr (), d)
        else if AI_ANALYSES_PER_HOUR \<le> ai_count d key then (Inl (Error ''AI analysis rate limit exceeded. Please try again later.|429''), d)
        else (Inr (), d\<lparr>ai_counts := jset key (Suc (ai_count d key), desk_ms d + 3600 * 1000) (ai_counts d)\<rparr>))"

record analysis =
  an_explanation :: json
  an_remediation :: json
  an_relevance :: json
  an_confidence :: json
  an_patch :: json

definition analysis_fields :: "analysis \<Rightarrow> (string \<times> json) list" where
  "analysis_fields a =
     [(''ai_status'', JStr (units ''completed'')), (''ai_explanation'', an_explanation a), (''ai_remediation'', an_remediation a),
      (''ai_relevance'', an_relevance a), (''ai_confidence'', an_confidence a),
      (''ai_proposed_patch'', or_json (Some (an_patch a)) JNull)]"

text \<open>\<open>explain\<close> is \<open>WorkersAIService.explainFinding\<close> with what it is told.\<close>

definition analyzeFindingWithAI ::
  "desk_env \<Rightarrow> (finding_view \<Rightarrow> ustring \<Rightarrow> json option \<Rightarrow> analysis) \<Rightarrow> bool \<Rightarrow> bool \<Rightarrow> string option \<Rightarrow>
   string \<Rightarrow> string \<Rightarrow> json option \<Rightarrow> string option \<Rightarrow> (desk, finding_view option \<times> analysis) comp" where
  "analyzeFindingWithAI env explain has_cache kv_fails clientIp scanId findingId code_context userId =
     bind_comp (scan_or_404 scanId) (\<lambda>scan.
     bind_comp (checkRowAccess env (s_project scan) (s_user scan) userId) (\<lambda>_.
     bind_comp (reads (getFindingDetails findingId)) (\<lambda>row. case row of
       None \<Rightarrow> throw (Error ''Finding not found|404'')
     | Some ((f, cols), _) \<Rightarrow>
         bind_comp (refuse_if (f_scan f \<noteq> scanId) ''Finding not found|404'') (\<lambda>_.
         bind_comp (count_analysis has_cache kv_fails (if given userId then the userId else if given clientIp then the clientIp else ''anonymous'')) (\<lambda>_.
         let a = explain (f, cols) (s_target scan) code_context in
         bind_comp (updateFinding env findingId (analysis_fields a)) (\<lambda>updated. ret (updated, a)))))))"

section \<open>Starting a scan\<close>

record scan_request =
  cr_project :: string
  cr_target :: ustring
  cr_profile :: string
  cr_config :: "json option"
  cr_trigger :: "string option"

definition insert_scan :: "faults \<Rightarrow> scan_request \<Rightarrow> string \<Rightarrow> string option \<Rightarrow> (desk, unit) comp" where
  "insert_scan f body i userId = (\<lambda>d.
     if insert_fails f then (Inl (Error ''Failed to create scan|500''), d)
     else case on_tables (createScan i (cr_project body) (cr_target body) (cr_profile body) ''queued'' userId
            (if given (cr_trigger body) then the (cr_trigger body) else ''manual'')) d of
            (Inl _, d1) \<Rightarrow> (Inl (Error ''Run already exists|409''), d1)
          | (Inr _, d1) \<Rightarrow> (Inr (), d1))"

definition createScan_as :: "desk_env \<Rightarrow> faults \<Rightarrow> scan_request \<Rightarrow> string option \<Rightarrow> (desk, string) comp" where
  "createScan_as env f body userId =
     bind_comp (refuse_if (cr_project body = [] \<or> cr_target body = [] \<or> cr_profile body = [])
       ''Missing required fields: project_id, target_url, profile|400'') (\<lambda>_.
     bind_comp (if_signed_in env userId (permitted WRITE_SCANS (cr_project body))) (\<lambda>_.
     bind_comp (on_site draw_one) (\<lambda>k. let i = random_id (d_env env) k in
     bind_comp (refuse_if (\<not> isValidRunId i) ''Invalid runId|400'') (\<lambda>_.
     let config = config_or_empty (cr_config body) in
     bind_comp (of_res (serializeScanConfig (stringify (desk_rt env)) (Some config))) (\<lambda>_.
     bind_comp (insert_scan f body i userId) (\<lambda>_.
     bind_comp (if given userId \<and> \<not> key_unread f then on_site (on_accounts (user_public_key (the userId))) else ret []) (\<lambda>key.
     bind_comp (on_site (put_and_send (d_env env) f i config (\<lambda>ck. \<lparr>m_runId = i, m_configKey = ck, m_userPublicKey = key,
       m_target = JStr (cr_target body), m_profile = JStr (units (cr_profile body)), m_projectId = cr_project body, m_userId = userId\<rparr>))) (\<lambda>sent.
     if sent then ret i
     else bind_comp (on_site (mark_not_queued f i)) (\<lambda>_. throw (Error ''Failed to queue scan|500''))))))))))"

section \<open>Requests\<close>

datatype desk_request =
    Get_scan string
  | List_scans string scans_query
  | Get_logs string
  | Get_findings string
  | Get_finding string
  | Update_scan string scan_fields
  | Upload_url string
  | Upload_report string "string option" bool bool
  | Update_finding string "(string \<times> json) list"
  | Triage_findings string "json list"
  | Save_patches string json
  | Analyze_finding bool bool "string option" string string "json option"

datatype answer =
    Scan_answer "scan_row option" "json option"
  | Page_answer "scan_row list" "string option"
  | Logs_answer "event_row list"
  | Findings_answer "finding_view list"
  | Text_answer string
  | Count_answer nat
  | Analysis_answer "finding_view option" analysis

definition answers :: "('a \<Rightarrow> answer) \<Rightarrow> (desk, 'a) comp \<Rightarrow> (desk, answer) comp" where
  "answers f m = bind_comp m (\<lambda>x. ret (f x))"

fun desk_handle :: "desk_env \<Rightarrow> (finding_view \<Rightarrow> ustring \<Rightarrow> json option \<Rightarrow> analysis) \<Rightarrow> string option \<Rightarrow> desk_request \<Rightarrow> (desk, answer) comp" where
  "desk_handle env ai u (Get_scan i) = answers (\<lambda>(s, r). Scan_answer (Some s) r) (getScan_as env i u)"
| "desk_handle env ai u (List_scans p q) = answers (\<lambda>(rows, next). Page_answer rows next) (getScans env p u q)"
| "desk_handle env ai u (Get_logs i) = answers Logs_answer (getRunnerLogs_as env i u)"
| "desk_handle env ai u (Get_findings i) = answers Findings_answer (getFindings_as env i u)"
| "desk_handle env ai u (Get_finding f) = answers (\<lambda>v. Findings_answer [v]) (getFindingDetails_as env f u)"
| "desk_handle env ai u (Update_scan i body) = answers (\<lambda>s. Scan_answer s None) (updateScan_as env i body u)"
| "desk_handle env ai u (Upload_url i) = answers Text_answer (generateUploadUrl env i u)"
| "desk_handle env ai u (Upload_report i token has_body fails) = answers Text_answer (uploadReport env i token has_body fails)"
| "desk_handle env ai u (Update_finding f body) =
     answers (\<lambda>v. Findings_answer (case v of None \<Rightarrow> [] | Some x \<Rightarrow> [x])) (updateFinding_as env f body u)"
| "desk_handle env ai u (Triage_findings i us) = answers Count_answer (batchUpdateFindingsAI_as env i us u)"
| "desk_handle env ai u (Save_patches i report) = answers (\<lambda>_. Count_answer 1) (saveWAFPatchReport_as env i report u)"
| "desk_handle env ai u (Analyze_finding has_cache kv_fails ip i f context) =
     answers (\<lambda>(v, a). Analysis_answer v a) (analyzeFindingWithAI env ai has_cache kv_fails ip i f context u)"

end
