(* ===== verification/Two_Runs.thy ===== *)
theory Two_Runs
  imports Prelude
begin

text \<open>
  Two computations side by side, for what an observer can tell: from states \<open>alike\<close> to the observer they
  give the same result and states alike again, provided the things in \<open>I\<close> are seen. The locale
  \<open>observer\<close> is what that needs of the relation, and its rules follow a computation as it is composed.
\<close>

definition runs_agree ::
  "('s \<Rightarrow> 's \<Rightarrow> bool) \<Rightarrow> ('s \<Rightarrow> 's \<Rightarrow> bool) \<Rightarrow> ('s \<Rightarrow> 'i \<Rightarrow> bool) \<Rightarrow> 'i set \<Rightarrow> ('s, 'a) comp \<Rightarrow> ('s, 'a) comp \<Rightarrow> bool" where
  "runs_agree alike kept sees I m m' = (\<forall>d d'. alike d d' \<longrightarrow> (\<forall>x \<in> I. sees d x) \<longrightarrow>
     fst (m d) = fst (m' d') \<and> alike (snd (m d)) (snd (m' d')) \<and> kept d (snd (m d)))"

named_theorems agree_rules \<open>computations an observer cannot tell apart\<close>

locale observer =
  fixes alike :: "'s \<Rightarrow> 's \<Rightarrow> bool" and kept :: "'s \<Rightarrow> 's \<Rightarrow> bool" and sees :: "'s \<Rightarrow> 'i \<Rightarrow> bool"
  assumes kept_refl: "kept d d"
    and kept_trans: "kept d d1 \<Longrightarrow> kept d1 d2 \<Longrightarrow> kept d d2"
    and kept_sees: "kept d d1 \<Longrightarrow> sees d1 x = sees d x"
begin

lemma agree_ret [agree_rules]: "runs_agree alike kept sees I (ret x) (ret x)"
  by (simp add: runs_agree_def ret_def kept_refl)

lemma agree_throw [agree_rules]: "runs_agree alike kept sees I (throw e) (throw e)"
  by (simp add: runs_agree_def throw_def kept_refl)

lemma agree_refuse [agree_rules]: "runs_agree alike kept sees I (refuse_if b msg) (refuse_if b msg)"
  by (simp add: refuse_if_def agree_ret agree_throw)

lemma agree_bind [agree_rules]:
  assumes m: "runs_agree alike kept sees I m m'" and f: "\<And>x. runs_agree alike kept sees I (f x) (f' x)"
  shows "runs_agree alike kept sees I (bind_comp m f) (bind_comp m' f')"
  unfolding runs_agree_def
proof (intro allI impI)
  fix d d' assume s: "alike d d'" and v: "\<forall>x \<in> I. sees d x"
  obtain r d1 r' d1' where r0: "m d = (r, d1)" "m' d' = (r', d1')" by fastforce
  with m s v have e: "r' = r" "alike d1 d1'" "kept d d1"
    unfolding runs_agree_def by (metis fst_conv snd_conv)+
  note r = r0 [unfolded e(1)]
  show "fst (bind_comp m f d) = fst (bind_comp m' f' d') \<and> alike (snd (bind_comp m f d)) (snd (bind_comp m' f' d')) \<and>
    kept d (snd (bind_comp m f d))"
  proof (cases r)
    case (Inl err)
    with r e show ?thesis by (simp add: bind_comp_def)
  next
    case (Inr x)
    from v have "\<forall>x \<in> I. sees d1 x" using kept_sees [OF e(3)] by simp
    with f [of x] e(2) have "fst (f x d1) = fst (f' x d1') \<and> alike (snd (f x d1)) (snd (f' x d1')) \<and> kept d1 (snd (f x d1))"
      unfolding runs_agree_def by metis
    with r e(1) Inr kept_trans [OF e(3)] show ?thesis by (simp add: bind_comp_def)
  qed
qed

lemma agree_if [agree_rules]:
  "runs_agree alike kept sees I m m' \<Longrightarrow> runs_agree alike kept sees I n n' \<Longrightarrow>
   runs_agree alike kept sees I (if b then m else n) (if b then m' else n')"
  by simp

lemma agree_option [agree_rules]:
  "runs_agree alike kept sees I m m' \<Longrightarrow> (\<And>x. runs_agree alike kept sees I (f x) (f' x)) \<Longrightarrow>
   runs_agree alike kept sees I (case v of None \<Rightarrow> m | Some x \<Rightarrow> f x) (case v of None \<Rightarrow> m' | Some x \<Rightarrow> f' x)"
  by (cases v) simp_all

text \<open>Reading what is the same in both, which may bring more things into view.\<close>

lemma agree_reads_bind:
  assumes "\<And>d d'. alike d d' \<Longrightarrow> \<forall>x \<in> I. sees d x \<Longrightarrow> g d = g d' \<and> (\<forall>x \<in> J (g d). sees d x)"
    and "\<And>x. runs_agree alike kept sees (I \<union> J x) (f x) (f' x)"
  shows "runs_agree alike kept sees I (bind_comp (reads g) f) (bind_comp (reads g) f')"
  unfolding runs_agree_def bind_reads
proof (intro allI impI)
  fix d d' assume s: "alike d d'" and v: "\<forall>x \<in> I. sees d x"
  from assms(1) [OF s v] have "g d = g d'" "\<forall>x \<in> I \<union> J (g d). sees d x" using v by auto
  with assms(2) [of "g d"] s show "fst (f (g d) d) = fst (f' (g d') d') \<and> alike (snd (f (g d) d)) (snd (f' (g d') d')) \<and>
    kept d (snd (f (g d) d))"
    unfolding runs_agree_def by metis
qed

lemma agree_reads:
  assumes "\<And>d d'. alike d d' \<Longrightarrow> \<forall>x \<in> I. sees d x \<Longrightarrow> g d = g d'"
  shows "runs_agree alike kept sees I (reads g) (reads g)"
  using assms by (auto simp: runs_agree_def reads_def kept_refl)

end

end
