(* ===== verification/Scans_Privacy.thy ===== *)
theory Scans_Privacy
  imports Scans_Service Rbac_Safety Two_Runs
begin

text \<open>
  What a user learns from \<open>Scans_Service\<close> depends on the scans the user may see only: two states that
  differ in others give the same answers. The relation of such states is kept by every operation, and
  the rules below follow an operation as its code is composed.
\<close>

section \<open>What a user may see\<close>

definition visible :: "rbac \<Rightarrow> string \<Rightarrow> string \<Rightarrow> string option \<Rightarrow> bool" where
  "visible A u p owner = (if p = [] then owner = Some u else READ_SCANS \<in> effective A p u \<or> WRITE_SCANS \<in> effective A p u)"

definition visible_scan :: "rbac \<Rightarrow> string \<Rightarrow> scan_row \<Rightarrow> bool" where
  "visible_scan A u s = visible A u (s_project s) (s_user s)"

definition visible_id :: "rbac \<Rightarrow> string \<Rightarrow> scans_db \<Rightarrow> string \<Rightarrow> bool" where
  "visible_id A u t i = (case getScan t i of None \<Rightarrow> False | Some s \<Rightarrow> visible_scan A u s)"

definition like_scan :: "rbac \<Rightarrow> string \<Rightarrow> scan_row \<Rightarrow> scan_row \<Rightarrow> bool" where
  "like_scan A u s s' = (s_id s = s_id s' \<and> s_project s = s_project s' \<and> s_user s = s_user s' \<and> (visible_scan A u s \<longrightarrow> s = s'))"

definition like_finding :: "(string \<Rightarrow> bool) \<Rightarrow> finding_row \<Rightarrow> finding_row \<Rightarrow> bool" where
  "like_finding V f f' = (f_id f = f_id f' \<and> f_scan f = f_scan f' \<and> (V (f_scan f) \<longrightarrow> f = f'))"

definition like_tables :: "rbac \<Rightarrow> string \<Rightarrow> scans_db \<Rightarrow> scans_db \<Rightarrow> bool" where
  "like_tables A u t t' =
     (list_all2 (like_scan A u) (scans t) (scans t') \<and> distinct (map s_id (scans t)) \<and>
      filter (\<lambda>e. visible_id A u t (e_scan e)) (scan_events t) = filter (\<lambda>e. visible_id A u t' (e_scan e)) (scan_events t') \<and>
      list_all2 (like_finding (visible_id A u t)) (findings t) (findings t'))"

definition same_for :: "rbac \<Rightarrow> string \<Rightarrow> desk \<Rightarrow> desk \<Rightarrow> bool" where
  "same_for A u d d' =
     (like_tables A u (desk_db d) (desk_db d') \<and>
      access (site d') = access (site d) \<and> coherent (access (site d)) \<and> tables (access (site d)) = tables A \<and>
      accounts (site d') = accounts (site d) \<and> ai_counts d' = ai_counts d \<and>
      (\<forall>f \<in> set (findings (desk_db d)). visible_id A u (desk_db d) (f_scan f) \<longrightarrow> triage_of d (f_id f) = triage_of d' (f_id f)) \<and>
      (\<forall>i. visible_id A u (desk_db d) i \<longrightarrow> map_of (waf_reports d) i = map_of (waf_reports d') i))"

section \<open>Rows\<close>

definition row_key :: "scan_row \<Rightarrow> string \<times> string \<times> string option" where
  "row_key s = (s_id s, s_project s, s_user s)"

lemma visible_id_keys:
  assumes "map row_key (scans t) = map row_key (scans t')"
  shows "visible_id A u t i = visible_id A u t' i"
proof -
  have same: "(case find (\<lambda>s. s_id s = i) xs of None \<Rightarrow> False | Some s \<Rightarrow> visible_scan A u s) =
    (case find (\<lambda>s. s_id s = i) ys of None \<Rightarrow> False | Some s \<Rightarrow> visible_scan A u s)"
    if "list_all2 (\<lambda>s s'. row_key s = row_key s') xs ys" for xs ys
    using that by (induction xs ys rule: list_all2_induct) (simp_all add: row_key_def visible_scan_def)
  have "list_all2 (\<lambda>s s'. row_key s = row_key s') (scans t) (scans t')"
    using assms by (simp add: list_all2_conv_all_nth list_eq_iff_nth_eq)
  from same [OF this] show ?thesis by (simp add: visible_id_def getScan_def)
qed

lemma like_keys: "list_all2 (like_scan A u) xs ys \<Longrightarrow> map row_key xs = map row_key ys"
  by (induction xs ys rule: list_all2_induct) (simp_all add: like_scan_def row_key_def)

lemma like_visible: "like_tables A u t t' \<Longrightarrow> visible_id A u t' = visible_id A u t"
  by (rule ext, rule visible_id_keys) (auto simp: like_tables_def dest: like_keys)

definition like_option :: "('a \<Rightarrow> 'a \<Rightarrow> bool) \<Rightarrow> 'a option \<Rightarrow> 'a option \<Rightarrow> bool" where
  "like_option R x y = (case x of None \<Rightarrow> y = None | Some a \<Rightarrow> (case y of None \<Rightarrow> False | Some b \<Rightarrow> R a b))"

lemma like_find:
  assumes "list_all2 R xs ys" "\<And>a b. R a b \<Longrightarrow> P a = P b"
  shows "like_option R (find P xs) (find P ys)"
  using assms(1)
proof (induction xs ys rule: list_all2_induct)
  case (Cons a xs b ys)
  then show ?case using assms(2) [of a b] by (simp add: like_option_def)
qed (simp add: like_option_def)

lemma like_getScan:
  assumes "like_tables A u t t'"
  shows "like_option (like_scan A u) (getScan t i) (getScan t' i)"
  unfolding getScan_def by (rule like_find) (use assms in \<open>auto simp: like_tables_def like_scan_def\<close>)

lemma like_events:
  assumes "like_tables A u t t'" "\<And>i. i \<in> I \<Longrightarrow> visible_id A u t i"
  shows "filter (\<lambda>e. e_scan e \<in> I) (scan_events t) = filter (\<lambda>e. e_scan e \<in> I) (scan_events t')"
proof -
  have "filter (\<lambda>e. e_scan e \<in> I) es = filter (\<lambda>e. e_scan e \<in> I) (filter (\<lambda>e. visible_id A u t (e_scan e)) es)" for es
    using assms(2) by (induction es) auto
  moreover have "filter (\<lambda>e. visible_id A u t (e_scan e)) (scan_events t) = filter (\<lambda>e. visible_id A u t (e_scan e)) (scan_events t')"
    using assms(1) like_visible [OF assms(1)] by (simp add: like_tables_def)
  ultimately show ?thesis by metis
qed

lemma like_filter:
  assumes "list_all2 (like_scan A u) xs ys" "\<And>s. P s \<Longrightarrow> visible_scan A u s"
    and "\<And>s s'. like_scan A u s s' \<Longrightarrow> P s = P s'"
  shows "filter P xs = filter P ys"
  using assms(1)
proof (induction xs ys rule: list_all2_induct)
  case (Cons s xs s' ys)
  from assms(3) [OF Cons(1)] have p: "P s = P s'" .
  have "P s \<Longrightarrow> s = s'" using assms(2) [of s] Cons(1) unfolding like_scan_def by blast
  with p Cons(3) show ?case by (cases "P s") simp_all
qed simp

text \<open>A statement that writes the rows of scans alike keeps the relation.\<close>

lemma visible_key: "row_key a = row_key b \<Longrightarrow> visible_scan A u a = visible_scan A u b"
  by (simp add: row_key_def visible_scan_def)

lemma like_scan_key: "like_scan A u s s' \<longleftrightarrow> row_key s = row_key s' \<and> (visible_scan A u s \<longrightarrow> s = s')"
  unfolding like_scan_def row_key_def by blast

lemma like_update:
  assumes "like_tables A u t t'" and "\<And>s. row_key (f s) = row_key s"
  shows "like_tables A u (t\<lparr>scans := map f (scans t)\<rparr>) (t'\<lparr>scans := map f (scans t')\<rparr>)"
proof -
  have "map row_key (map f xs) = map row_key xs" for xs using assms(2) by simp
  then have v: "visible_id A u (t\<lparr>scans := map f (scans t)\<rparr>) = visible_id A u t"
    "visible_id A u (t'\<lparr>scans := map f (scans t')\<rparr>) = visible_id A u t'"
    using visible_id_keys [of "t\<lparr>scans := map f (scans t)\<rparr>" t] visible_id_keys [of "t'\<lparr>scans := map f (scans t')\<rparr>" t'] by (simp_all add: fun_eq_iff)
  have l: "like_scan A u (f s) (f s')" if "like_scan A u s s'" for s s'
    using that assms(2) [of s] assms(2) [of s'] visible_key [OF assms(2) [of s]] unfolding like_scan_key by metis
  have "list_all2 (like_scan A u) (map f (scans t)) (map f (scans t'))"
    unfolding list_all2_map1 list_all2_map2
    by (rule list_all2_mono [of "like_scan A u"]) (use assms(1) l in \<open>simp_all add: like_tables_def\<close>)
  moreover have "distinct (map s_id (map f (scans t)))" using assms by (simp add: row_key_def like_tables_def comp_def)
  ultimately show ?thesis using assms(1) by (simp add: like_tables_def v)
qed

section \<open>Two runs side by side\<close>

text \<open>
  Two computations agree when they give the same result in related states, and states that are related
  again; \<open>I\<close> are the scans (\<open>Inl\<close>) and findings (\<open>Inr\<close>) that are in sight, and what is in sight does
  not change.
\<close>

fun in_sight :: "rbac \<Rightarrow> string \<Rightarrow> desk \<Rightarrow> string + string \<Rightarrow> bool" where
  "in_sight A u d (Inl i) = visible_id A u (desk_db d) i"
| "in_sight A u d (Inr f) = (case find (\<lambda>x. f_id x = f) (findings (desk_db d)) of
     None \<Rightarrow> True | Some x \<Rightarrow> visible_id A u (desk_db d) (f_scan x))"

definition sight_kept :: "rbac \<Rightarrow> string \<Rightarrow> desk \<Rightarrow> desk \<Rightarrow> bool" where
  "sight_kept A u d d1 = (visible_id A u (desk_db d1) = visible_id A u (desk_db d) \<and> findings (desk_db d1) = findings (desk_db d))"

lemma sight_same: "sight_kept A u d d1 \<Longrightarrow> in_sight A u d1 x = in_sight A u d x"
  by (cases x) (simp_all add: sight_kept_def split: option.split)

lemma sight_trans: "sight_kept A u d d1 \<Longrightarrow> sight_kept A u d1 d2 \<Longrightarrow> sight_kept A u d d2"
  by (simp add: sight_kept_def)

lemma sight_refl [simp]: "sight_kept A u d d"
  by (simp add: sight_kept_def)

abbreviation agree :: "rbac \<Rightarrow> string \<Rightarrow> (string + string) set \<Rightarrow> (desk, 'a) comp \<Rightarrow> (desk, 'a) comp \<Rightarrow> bool" where
  "agree A u \<equiv> runs_agree (same_for A u) (sight_kept A u) (in_sight A u)"

interpretation view: observer "same_for A u" "sight_kept A u" "in_sight A u" for A u
  by unfold_locales (simp, erule (1) sight_trans, erule sight_same)

lemma agree_of_res [agree_rules]: "agree A u I (of_res r) (of_res r)"
  by (simp add: runs_agree_def of_res_def)

section \<open>Permissions\<close>

lemma permission_known:
  assumes "coherent a" "tables a = tables A"
  shows "fst (checkPermission v p perm a) = Inr (perm \<in> effective A p v)"
    "coherent (snd (checkPermission v p perm a))" "tables (snd (checkPermission v p perm a)) = tables A"
  using permissions.answer [OF assms(1)] effective_same [OF assms(2)] assms(2) by simp_all

interpretation desk_permissions: lifted_check checkPermission coherent "\<lambda>db' db. tables db' = tables db" effective
    "\<lambda>d. access (site d)" "\<lambda>a d. d\<lparr>site := (site d)\<lparr>access := a\<rparr>\<rparr>" "\<lambda>u p perm. permitted perm p u"
  by unfold_locales (simp_all add: permitted_def on_site_def on_access_def split_beta)

lemma desk_db_access [simp]: "desk_db (d\<lparr>site := w\<lparr>access := a\<rparr>\<rparr>) = db (object w)"
  by (simp add: desk_db_def)

lemma agree_permitted:
  assumes "perm \<in> effective A p v \<Longrightarrow> agree A u I (f True) (f' True)" "perm \<notin> effective A p v \<Longrightarrow> agree A u I (f False) (f' False)"
  shows "agree A u I (bind_comp (permitted perm p v) f) (bind_comp (permitted perm p v) f')"
  unfolding runs_agree_def
proof (intro allI impI)
  fix d d' assume s: "same_for A u d d'" and v: "\<forall>x \<in> I. in_sight A u d x"
  let ?a = "snd (checkPermission v p perm (access (site d)))" and ?b = "perm \<in> effective A p v"
  let ?d = "d\<lparr>site := (site d)\<lparr>access := ?a\<rparr>\<rparr>" and ?d' = "d'\<lparr>site := (site d')\<lparr>access := ?a\<rparr>\<rparr>"
  from s have c: "coherent (access (site d))" "tables (access (site d)) = tables A" "access (site d') = access (site d)"
    unfolding same_for_def by metis+
  note k = permission_known [OF c(1,2), of v p perm]
  have e: "bind_comp (permitted perm p v) f d = f ?b ?d" "bind_comp (permitted perm p v) f' d' = f' ?b ?d'"
    using k(1) c(3) by (simp_all add: bind_comp_def permitted_def on_site_def on_access_def split_beta)
  have "same_for A u ?d ?d'" using s k by (simp add: same_for_def triage_of_def desk_db_def)
  moreover have k2: "sight_kept A u d ?d" by (simp add: sight_kept_def desk_db_def)
  then have "\<forall>x \<in> I. in_sight A u ?d x" using v sight_same by metis
  moreover have "agree A u I (f ?b) (f' ?b)" using assms by (cases ?b) simp_all
  ultimately have "fst (f ?b ?d) = fst (f' ?b ?d') \<and> same_for A u (snd (f ?b ?d)) (snd (f' ?b ?d')) \<and>
    sight_kept A u ?d (snd (f ?b ?d))" unfolding runs_agree_def by metis
  then show "fst (bind_comp (permitted perm p v) f d) = fst (bind_comp (permitted perm p v) f' d') \<and>
    same_for A u (snd (bind_comp (permitted perm p v) f d)) (snd (bind_comp (permitted perm p v) f' d')) \<and>
    sight_kept A u d (snd (bind_comp (permitted perm p v) f d))"
    unfolding e using sight_trans [OF k2] by blast
qed

lemma bind_refuse_if: "bind_comp (refuse_if b msg) f = (if b then throw (Error msg) else f ())"
  by (auto simp: refuse_if_def bind_comp_def throw_def ret_def)

lemma bind_refuse_not: "bind_comp (refuse_if (\<not> b) msg) f = (if b then f () else throw (Error msg))"
  by (simp add: bind_refuse_if)

lemma bind_assoc: "bind_comp (bind_comp m f) g = bind_comp m (\<lambda>x. bind_comp (f x) g)"
  by (rule ext) (auto simp: bind_comp_def split: prod.splits sum.splits)

lemma bind_throw [simp]: "bind_comp (throw e) f = throw e"
  by (simp add: bind_comp_def throw_def)

definition scan_permission :: "string \<Rightarrow> bool" where
  "scan_permission perm = (perm = READ_SCANS \<or> perm = WRITE_SCANS)"

lemma permission_shows: "scan_permission perm \<Longrightarrow> perm \<in> effective A p u \<Longrightarrow> visible A u p owner"
  by (auto simp: scan_permission_def visible_def effective_def isValidId_def)

lemma row_access_bind:
  assumes "desk_auth env" "u \<noteq> []"
  shows "p \<noteq> [] \<Longrightarrow> bind_comp (row_access perm env p owner (Some u)) f =
      bind_comp (permitted perm p u) (\<lambda>ok. if ok then f () else throw (Error ''Forbidden|403''))"
    "bind_comp (row_access perm env [] owner (Some u)) f = (if owner = Some u then f () else throw (Error ''Forbidden|403''))"
  using assms by (simp add: row_access_def given_def permitted_def bind_assoc bind_refuse_not, simp add: row_access_def given_def bind_refuse_if)

lemma signed_in_bind:
  assumes "u \<noteq> []"
  shows "bind_comp (if_signed_in env (Some u) allowed) f =
    bind_comp (allowed u) (\<lambda>ok. if ok then f () else throw (Error ''Forbidden|403''))"
  using assms by (simp add: if_signed_in_def given_def bind_assoc bind_refuse_not)

lemma agree_row_access:
  assumes "desk_auth env" "u \<noteq> []" "scan_permission perm" "visible A u p owner \<Longrightarrow> agree A u I (f ()) (f' ())"
  shows "agree A u I (bind_comp (row_access perm env p owner (Some u)) f) (bind_comp (row_access perm env p owner (Some u)) f')"
proof (cases "p = []")
  case True
  with assms show ?thesis by (simp add: row_access_bind visible_def view.agree_throw)
next
  case False
  show ?thesis unfolding row_access_bind(1) [OF assms(1,2) False]
    by (rule agree_permitted) (simp_all add: assms(4) permission_shows [OF assms(3)] view.agree_throw)
qed

lemma agree_signed_in:
  assumes "u \<noteq> []" "scan_permission perm" "(\<And>owner. visible A u p owner) \<Longrightarrow> agree A u I (f ()) (f' ())"
  shows "agree A u I (bind_comp (if_signed_in env (Some u) (permitted perm p)) f) (bind_comp (if_signed_in env (Some u) (permitted perm p)) f')"
  unfolding signed_in_bind [OF assms(1)]
  by (rule agree_permitted) (simp_all add: assms(3) permission_shows [OF assms(2)] view.agree_throw)

section \<open>Scans and findings\<close>

text \<open>Both runs find rows that are alike; a visible one is the same row, and stays in sight.\<close>

lemma same_tables: "same_for A u d d' \<Longrightarrow> like_tables A u (desk_db d) (desk_db d')"
  by (simp add: same_for_def)

lemma agree_scan:
  assumes "\<And>sc sc'. like_scan A u sc sc' \<Longrightarrow> s_id sc = i \<Longrightarrow>
    agree A u (if visible_scan A u sc then insert (Inl i) I else I) (f sc) (f' sc')"
  shows "agree A u I (bind_comp (scan_or_404 i) f) (bind_comp (scan_or_404 i) f')"
  unfolding runs_agree_def
proof (intro allI impI)
  fix d d' assume s: "same_for A u d d'" and v: "\<forall>x \<in> I. in_sight A u d x"
  from like_getScan [OF same_tables [OF s], of i] have l: "like_option (like_scan A u) (getScan (desk_db d) i) (getScan (desk_db d') i)" .
  show "fst (bind_comp (scan_or_404 i) f d) = fst (bind_comp (scan_or_404 i) f' d') \<and>
    same_for A u (snd (bind_comp (scan_or_404 i) f d)) (snd (bind_comp (scan_or_404 i) f' d')) \<and>
    sight_kept A u d (snd (bind_comp (scan_or_404 i) f d))"
  proof (cases "getScan (desk_db d) i")
    case None
    with l s show ?thesis by (simp add: like_option_def scan_or_404_def bind_assoc bind_reads) (simp add: throw_def)
  next
    case (Some sc)
    with l obtain sc' where sc': "getScan (desk_db d') i = Some sc'" "like_scan A u sc sc'" by (auto simp: like_option_def split: option.splits)
    have "s_id sc = i" using Some getScan_id by blast
    from assms [OF sc'(2) this] have a: "agree A u (if visible_scan A u sc then insert (Inl i) I else I) (f sc) (f' sc')" .
    have "\<forall>x \<in> (if visible_scan A u sc then insert (Inl i) I else I). in_sight A u d x"
      using v Some by (simp add: visible_id_def)
    with a s have "fst (f sc d) = fst (f' sc' d') \<and> same_for A u (snd (f sc d)) (snd (f' sc' d')) \<and>
      sight_kept A u d (snd (f sc d))" unfolding runs_agree_def by metis
    with Some sc'(1) show ?thesis by (simp add: scan_or_404_def bind_assoc bind_reads)
  qed
qed

text \<open>A scan, then the check of its row: what follows runs on a visible scan.\<close>

lemma agree_checked_scan:
  assumes "desk_auth env" "u \<noteq> []" "scan_permission perm"
    and "\<And>sc. visible_scan A u sc \<Longrightarrow> s_id sc = i \<Longrightarrow> agree A u (insert (Inl i) I) (f sc) (f' sc)"
  shows "agree A u I (bind_comp (scan_or_404 i) (\<lambda>sc. bind_comp (row_access perm env (s_project sc) (s_user sc) (Some u)) (\<lambda>_. f sc)))
    (bind_comp (scan_or_404 i) (\<lambda>sc. bind_comp (row_access perm env (s_project sc) (s_user sc) (Some u)) (\<lambda>_. f' sc)))"
proof (rule agree_scan)
  fix sc sc' assume l: "like_scan A u sc sc'" "s_id sc = i"
  then have same: "s_project sc' = s_project sc" "s_user sc' = s_user sc" by (auto simp: like_scan_def)
  show "agree A u (if visible_scan A u sc then insert (Inl i) I else I)
    (bind_comp (row_access perm env (s_project sc) (s_user sc) (Some u)) (\<lambda>_. f sc))
    (bind_comp (row_access perm env (s_project sc') (s_user sc') (Some u)) (\<lambda>_. f' sc'))"
    unfolding same
  proof (rule agree_row_access [OF assms(1-3)])
    assume "visible A u (s_project sc) (s_user sc)"
    then have v: "visible_scan A u sc" by (simp add: visible_scan_def)
    with l have "sc' = sc" by (simp add: like_scan_def)
    with assms(4) [OF v l(2)] v show "agree A u (if visible_scan A u sc then insert (Inl i) I else I) (f sc) (f' sc')" by simp
  qed
qed

lemma set_like: "list_all2 (like_finding V) fs fs' \<Longrightarrow> f_id ` set fs = f_id ` set fs'"
  by (induction fs fs' rule: list_all2_induct) (simp_all add: like_finding_def)

lemma like_detail:
  assumes s: "same_for A u d d'"
  shows "like_option (\<lambda>(f, sc) (f', sc'). like_scan A u sc sc' \<and> f_scan (fst f) = s_id sc \<and> f_id (fst f) = i \<and>
      fst f \<in> set (findings (desk_db d)) \<and> (visible_scan A u sc \<longrightarrow> f = f'))
    (getFindingDetails i d) (getFindingDetails i d')"
proof -
  let ?V = "visible_id A u (desk_db d)"
  note t = same_tables [OF s]
  from t have "list_all2 (like_finding ?V) (findings (desk_db d)) (findings (desk_db d'))" by (simp add: like_tables_def)
  from like_find [OF this, of "\<lambda>f. f_id f = i"]
  have l: "like_option (like_finding ?V) (find (\<lambda>f. f_id f = i) (findings (desk_db d))) (find (\<lambda>f. f_id f = i) (findings (desk_db d')))"
    by (simp add: like_finding_def)
  show ?thesis
  proof (cases "find (\<lambda>f. f_id f = i) (findings (desk_db d))")
    case None
    with l show ?thesis by (simp add: getFindingDetails_def like_option_def)
  next
    case (Some f)
    with l obtain f' where f': "find (\<lambda>f. f_id f = i) (findings (desk_db d')) = Some f'" "like_finding ?V f f'"
      by (auto simp: like_option_def split: option.splits)
    from find_Some [OF Some] have m: "f \<in> set (findings (desk_db d))" "f_id f = i" by auto
    from f'(2) have fs: "f_scan f' = f_scan f" by (simp add: like_finding_def)
    from like_getScan [OF t, of "f_scan f"]
    have sl: "like_option (like_scan A u) (getScan (desk_db d) (f_scan f)) (getScan (desk_db d') (f_scan f))" .
    show ?thesis
    proof (cases "getScan (desk_db d) (f_scan f)")
      case None
      with sl Some f' fs show ?thesis by (simp add: getFindingDetails_def like_option_def)
    next
      case (Some sc)
      with sl obtain sc' where sc': "getScan (desk_db d') (f_scan f) = Some sc'" "like_scan A u sc sc'"
        by (auto simp: like_option_def split: option.splits)
      have i: "s_id sc = f_scan f" using Some getScan_id by blast
      have "mapFindingRow d f = mapFindingRow d' f'" if "visible_scan A u sc"
      proof -
        from that Some have v: "?V (f_scan f)" by (simp add: visible_id_def)
        with f'(2) have "f' = f" by (simp add: like_finding_def)
        moreover have "triage_of d (f_id f) = triage_of d' (f_id f)" using s m(1) v unfolding same_for_def by blast
        ultimately show ?thesis by (simp add: mapFindingRow_def)
      qed
      with Some sc' \<open>find _ (findings (desk_db d)) = Some f\<close> f'(1) fs i m show ?thesis
        by (simp add: getFindingDetails_def like_option_def mapFindingRow_def)
    qed
  qed
qed

text \<open>What follows the check of a visible finding may use that finding's row and triage.\<close>

lemma agree_checked_finding:
  assumes "desk_auth env" "u \<noteq> []" "scan_permission perm"
    and "\<And>f sc. f_id (fst f) = i \<Longrightarrow> f_scan (fst f) = s_id sc \<Longrightarrow> agree A u {Inl (s_id sc), Inr i} (g f sc) (g f sc)"
  shows "agree A u {} (bind_comp (finding_or_404 i) (\<lambda>(f, sc). bind_comp (row_access perm env (s_project sc) (s_user sc) (Some u)) (\<lambda>_. g f sc)))
    (bind_comp (finding_or_404 i) (\<lambda>(f, sc). bind_comp (row_access perm env (s_project sc) (s_user sc) (Some u)) (\<lambda>_. g f sc)))"
    (is "agree A u {} ?m ?m")
  unfolding runs_agree_def
proof (intro allI impI)
  fix d d' assume s: "same_for A u d d'"
  let ?goal = "fst (?m d) = fst (?m d') \<and> same_for A u (snd (?m d)) (snd (?m d')) \<and>
    sight_kept A u d (snd (?m d))"
  note l = like_detail [OF s, of i]
  show ?goal
  proof (cases "getFindingDetails i d")
    case None
    with l s show ?thesis by (simp add: like_option_def finding_or_404_def bind_assoc bind_reads) (simp add: throw_def)
  next
    case (Some x)
    obtain f sc where x: "x = (f, sc)" by (cases x)
    with Some l obtain f' sc' where y: "getFindingDetails i d' = Some (f', sc')"
      and k: "like_scan A u sc sc'" "f_scan (fst f) = s_id sc" "f_id (fst f) = i" "visible_scan A u sc \<longrightarrow> f = f'"
      by (auto simp: like_option_def split: option.splits)
    from Some x have "getScan (desk_db d) (f_scan (fst f)) = Some sc"
      by (auto simp: getFindingDetails_def mapFindingRow_def split: option.splits)
    with k(2) have found: "getScan (desk_db d) (s_id sc) = Some sc" by simp
    let ?c = "\<lambda>f sc. bind_comp (row_access perm env (s_project sc) (s_user sc) (Some u)) (\<lambda>_. g f sc)"
    have "agree A u (if visible_scan A u sc then {Inl (s_id sc), Inr i} else {}) (?c f sc) (?c f' sc')"
    proof -
      from k(1) have same: "s_project sc' = s_project sc" "s_user sc' = s_user sc" by (simp_all add: like_scan_def)
      show ?thesis unfolding same
      proof (rule agree_row_access [OF assms(1-3)])
        assume "visible A u (s_project sc) (s_user sc)"
        then have v: "visible_scan A u sc" by (simp add: visible_scan_def)
        with k have "sc' = sc" "f' = f" by (simp_all add: like_scan_def)
        with assms(4) [OF k(3,2)] v
        show "agree A u (if visible_scan A u sc then {Inl (s_id sc), Inr i} else {}) (g f sc) (g f' sc')" by simp
      qed
    qed
    moreover have "\<forall>y \<in> (if visible_scan A u sc then {Inl (s_id sc), Inr i} else {}). in_sight A u d y"
      using Some x k(2) found by (auto simp: visible_id_def getFindingDetails_def mapFindingRow_def split: option.splits)
    ultimately have "fst (?c f sc d) = fst (?c f' sc' d') \<and> same_for A u (snd (?c f sc d)) (snd (?c f' sc' d')) \<and>
      sight_kept A u d (snd (?c f sc d))" using s unfolding runs_agree_def by metis
    with Some x y show ?thesis by (simp add: finding_or_404_def bind_assoc bind_reads)
  qed
qed

section \<open>Statements\<close>

lemma desk_db_on_scans [simp]: "desk_db (d\<lparr>site := on_scans h (site d)\<rparr>) = h (desk_db d)"
  by (simp add: desk_db_def on_scans_def on_db_def)

lemma desk_frame [simp]:
  "access (on_scans h w) = access w" "accounts (on_scans h w) = accounts w"
  "triage_of (d\<lparr>site := w\<rparr>) = triage_of d" "triage_of (d\<lparr>waf_reports := x\<rparr>) = triage_of d" "triage_of (d\<lparr>ai_counts := y\<rparr>) = triage_of d"
  by (simp_all add: on_scans_def triage_of_def fun_eq_iff)

text \<open>Statements on the scans' tables: related tables become related tables, and keys stay.\<close>

definition tables_agree :: "rbac \<Rightarrow> string \<Rightarrow> string set \<Rightarrow> (scans_db, 'a) comp \<Rightarrow> bool" where
  "tables_agree A u I m = (\<forall>t t'. like_tables A u t t' \<longrightarrow> (\<forall>i \<in> I. visible_id A u t i) \<longrightarrow>
     fst (m t) = fst (m t') \<and> like_tables A u (snd (m t)) (snd (m t')) \<and>
     visible_id A u (snd (m t)) = visible_id A u t \<and> findings (snd (m t)) = findings t)"

lemma agree_on_tables:
  assumes "tables_agree A u I m" "Inl ` I \<subseteq> J"
  shows "agree A u J (on_tables m) (on_tables m)"
  unfolding runs_agree_def
proof (intro allI impI)
  fix d d' assume s: "same_for A u d d'" and "\<forall>x \<in> J. in_sight A u d x"
  then have "in_sight A u d (Inl i)" if "i \<in> I" for i using assms(2) that by blast
  then have v: "\<forall>i \<in> I. visible_id A u (desk_db d) i" by simp
  have "fst (m (desk_db d)) = fst (m (desk_db d')) \<and> like_tables A u (snd (m (desk_db d))) (snd (m (desk_db d'))) \<and>
     visible_id A u (snd (m (desk_db d))) = visible_id A u (desk_db d) \<and> findings (snd (m (desk_db d))) = findings (desk_db d)"
    using assms(1) same_tables [OF s] v unfolding tables_agree_def by blast
  with s show "fst (on_tables m d) = fst (on_tables m d') \<and> same_for A u (snd (on_tables m d)) (snd (on_tables m d')) \<and>
     sight_kept A u d (snd (on_tables m d))"
    by (simp add: on_tables_def split_beta same_for_def sight_kept_def)
qed

lemma tables_ret: "tables_agree A u I (ret x)"
  by (simp add: tables_agree_def ret_def)

lemma tables_bind_ret:
  assumes "tables_agree A u I m"
  shows "tables_agree A u I (bind_comp m (\<lambda>x. ret (f x)))"
  unfolding tables_agree_def
proof (intro allI impI)
  fix t t' assume "like_tables A u t t'" "\<forall>i \<in> I. visible_id A u t i"
  with assms have e: "fst (m t) = fst (m t') \<and> like_tables A u (snd (m t)) (snd (m t')) \<and>
     visible_id A u (snd (m t)) = visible_id A u t \<and> findings (snd (m t)) = findings t" unfolding tables_agree_def by blast
  obtain r a r' a' where r: "m t = (r, a)" "m t' = (r', a')" by fastforce
  let ?n = "bind_comp m (\<lambda>x. ret (f x))"
  from r e show "fst (?n t) = fst (?n t') \<and> like_tables A u (snd (?n t)) (snd (?n t')) \<and>
     visible_id A u (snd (?n t)) = visible_id A u t \<and> findings (snd (?n t)) = findings t"
    by (cases r) (auto simp: bind_comp_def ret_def)
qed

lemma update_map: "snd (update_scans P f t) = t\<lparr>scans := map (\<lambda>s. if P s then f s else s) (scans t)\<rparr>"
  by (simp add: update_scans_def)

lemma keys_kept:
  assumes "\<And>s. row_key (f s) = row_key s"
  shows "visible_id A u (t\<lparr>scans := map f (scans t)\<rparr>) = visible_id A u t"
  using visible_id_keys [of "t\<lparr>scans := map f (scans t)\<rparr>" t] assms by (simp add: fun_eq_iff)

lemma tables_search:
  "\<forall>c \<in> set chunks. set c \<subseteq> I \<Longrightarrow> tables_agree A u I (search_errors rt chunks)"
proof (induction chunks)
  case Nil
  show ?case by (simp add: tables_ret)
next
  case (Cons c chunks)
  then have ih: "tables_agree A u I (bind_comp (search_errors rt chunks) (\<lambda>more. ret (x @ more)))" for x
    by (intro tables_bind_ret) simp
  show ?case unfolding tables_agree_def
  proof (intro allI impI)
    fix t t' assume l: "like_tables A u t t'" and v: "\<forall>i \<in> I. visible_id A u t i"
    let ?es = "\<lambda>t. filter (\<lambda>e. e_scan e \<in> set c) (scan_events t)"
    have es: "?es t' = ?es t" by (rule like_events [OF l, symmetric]) (use Cons.prems v in auto)
    show "fst (search_errors rt (c # chunks) t) = fst (search_errors rt (c # chunks) t') \<and>
      like_tables A u (snd (search_errors rt (c # chunks) t)) (snd (search_errors rt (c # chunks) t')) \<and>
      visible_id A u (snd (search_errors rt (c # chunks) t)) = visible_id A u t \<and>
      findings (snd (search_errors rt (c # chunks) t)) = findings t"
    proof (cases "select_rows (log_row rt [''error'']) (?es t)")
      case None
      with l es show ?thesis by simp
    next
      case (Some rows)
      define found where "found = List.map_filter (\<lambda>i. map_option (Pair i) (newest_error rt (filter (\<lambda>e. e_scan e = i) rows))) c"
      define n where "n = bind_comp (search_errors rt chunks) (\<lambda>more. ret (found @ more))"
      let ?f = "\<lambda>s. if s_id s \<in> set c \<and> s_failure s = None
        then s\<lparr>s_failure := Some (case map_of found (s_id s) of None \<Rightarrow> UNKNOWN_FAILURE | Some r \<Rightarrow> r)\<rparr> else s"
      have k: "row_key (?f s) = row_key s" for s by (simp add: row_key_def)
      have kept: "keep_reasons found c x = x\<lparr>scans := map ?f (scans x)\<rparr>" for x by (simp add: keep_reasons_def update_map)
      have l2: "like_tables A u (keep_reasons found c t) (keep_reasons found c t')" unfolding kept by (rule like_update [OF l k])
      have v2: "visible_id A u (keep_reasons found c t) = visible_id A u t" unfolding kept by (rule keys_kept [OF k])
      have f2: "findings (keep_reasons found c t) = findings t" by (simp add: kept)
      have e: "search_errors rt (c # chunks) t = n (keep_reasons found c t)" "search_errors rt (c # chunks) t' = n (keep_reasons found c t')"
        using Some es by (simp_all only: search_errors.simps option.case Let_def n_def found_def)
      have "fst (n (keep_reasons found c t)) = fst (n (keep_reasons found c t')) \<and>
        like_tables A u (snd (n (keep_reasons found c t))) (snd (n (keep_reasons found c t'))) \<and>
        visible_id A u (snd (n (keep_reasons found c t))) = visible_id A u (keep_reasons found c t) \<and>
        findings (snd (n (keep_reasons found c t))) = findings (keep_reasons found c t)"
        using ih [of found, folded n_def] l2 v v2 unfolding tables_agree_def by metis
      then show ?thesis unfolding e v2 f2 .
    qed
  qed
qed

lemma chunked_parts: "c \<in> set (chunked n xs) \<Longrightarrow> set c \<subseteq> set xs"
proof (induction n xs rule: chunked.induct)
  case (1 n xs)
  then show ?case
    by (subst (asm) (2) chunked.simps) (auto split: if_splits dest: in_set_takeD in_set_dropD)
qed

lemma agree_rows:
  assumes "like_tables A u t t'" "\<forall>i \<in> set ids. visible_id A u t i"
  shows "List.map_filter (getScan t) ids = List.map_filter (getScan t') ids"
  using assms(2)
proof (induction ids)
  case (Cons i ids)
  from like_getScan [OF assms(1), of i] Cons.prems have "getScan t i = getScan t' i"
    by (auto simp: like_option_def visible_id_def like_scan_def split: option.splits)
  with Cons show ?case by (simp add: map_filter_def)
qed (simp add: map_filter_def)

lemma tables_reasons:
  assumes "set ids \<subseteq> I"
  shows "tables_agree A u I (getFailureReasons rt ids)"
  unfolding tables_agree_def
proof (intro allI impI)
  fix t t' assume l: "like_tables A u t t'" and v: "\<forall>i \<in> I. visible_id A u t i"
  define rows where "rows = List.map_filter (getScan t) (uniq ids)"
  have same: "List.map_filter (getScan t') (uniq ids) = rows" unfolding rows_def
    by (rule agree_rows [OF l, symmetric]) (use assms v in auto)
  define missing where "missing = map s_id (filter (\<lambda>s. kept_text rt s = []) rows)"
  define stored where "stored = map (\<lambda>s. (s_id s, kept_text rt s)) (filter (\<lambda>s. kept_text rt s \<noteq> []) rows)"
  have "s_id s \<in> set ids" if "s \<in> set rows" for s
  proof -
    from that obtain i where "i \<in> set (uniq ids)" "getScan t i = Some s" by (auto simp: rows_def map_filter_def)
    then show ?thesis using getScan_id by fastforce
  qed
  then have "set missing \<subseteq> I" using assms by (auto simp: missing_def)
  then have "tables_agree A u I (bind_comp (search_errors rt (chunked EVENT_ID_LOOKUP_CHUNK missing)) (\<lambda>found. ret (stored @ found)))"
    by (intro tables_bind_ret tables_search) (use chunked_parts in blast)
  moreover have "getFailureReasons rt ids t = bind_comp (search_errors rt (chunked EVENT_ID_LOOKUP_CHUNK missing)) (\<lambda>found. ret (stored @ found)) t"
    "getFailureReasons rt ids t' = bind_comp (search_errors rt (chunked EVENT_ID_LOOKUP_CHUNK missing)) (\<lambda>found. ret (stored @ found)) t'"
    by (simp_all only: getFailureReasons_def Let_def same rows_def [symmetric] missing_def stored_def)
  ultimately show "fst (getFailureReasons rt ids t) = fst (getFailureReasons rt ids t') \<and>
     like_tables A u (snd (getFailureReasons rt ids t)) (snd (getFailureReasons rt ids t')) \<and>
     visible_id A u (snd (getFailureReasons rt ids t)) = visible_id A u t \<and> findings (snd (getFailureReasons rt ids t)) = findings t"
    using l v unfolding tables_agree_def by metis
qed

lemma agree_attach:
  assumes "Inl ` s_id ` set rows \<subseteq> I"
  shows "agree A u I (on_tables (attachFailureReasons rt rows)) (on_tables (attachFailureReasons rt rows))"
proof (rule agree_on_tables)
  show "tables_agree A u (s_id ` set rows) (attachFailureReasons rt rows)"
    unfolding attachFailureReasons_def Let_def
    by (auto intro!: tables_ret tables_bind_ret tables_reasons)
qed (rule assms)

section \<open>The operations\<close>

lemma scan_permissions [simp]: "scan_permission READ_SCANS" "scan_permission WRITE_SCANS"
  by (simp_all add: scan_permission_def)

lemma visible_row: "distinct (map s_id (scans t)) \<Longrightarrow> s \<in> set (scans t) \<Longrightarrow> visible_scan A u s \<Longrightarrow> visible_id A u t (s_id s)"
proof -
  assume a: "distinct (map s_id (scans t))" "s \<in> set (scans t)" "visible_scan A u s"
  have "find (\<lambda>x. s_id x = s_id s) (scans t) = Some s"
  proof (cases "find (\<lambda>x. s_id x = s_id s) (scans t)")
    case None
    with a(2) show ?thesis by (auto simp: find_None_iff)
  next
    case (Some r)
    from find_Some [OF this] a(1,2) show ?thesis using Some by (auto simp: distinct_map inj_on_def)
  qed
  with a(3) show ?thesis by (simp add: visible_id_def getScan_def)
qed

lemma listed_same:
  assumes "same_for A u d d'" "\<And>owner. visible A u p owner" "\<And>s s'. like_scan A u s s' \<Longrightarrow> s_project s = p \<Longrightarrow> P s = P s'"
  shows "newest_first env (\<lambda>s. s_project s = p \<and> P s) (desk_db d') = newest_first env (\<lambda>s. s_project s = p \<and> P s) (desk_db d)"
    "x \<in> set (newest_first env (\<lambda>s. s_project s = p \<and> P s) (desk_db d)) \<Longrightarrow> visible_id A u (desk_db d) (s_id x)"
proof -
  from same_tables [OF assms(1)] have l: "list_all2 (like_scan A u) (scans (desk_db d)) (scans (desk_db d'))"
    and di: "distinct (map s_id (scans (desk_db d)))" by (simp_all add: like_tables_def)
  have "filter (\<lambda>s. s_project s = p \<and> P s) (scans (desk_db d)) = filter (\<lambda>s. s_project s = p \<and> P s) (scans (desk_db d'))"
  proof (rule like_filter [OF l])
    show "visible_scan A u s" if "s_project s = p \<and> P s" for s using that assms(2) by (simp add: visible_scan_def)
    show "(s_project s = p \<and> P s) = (s_project s' = p \<and> P s')" if "like_scan A u s s'" for s s'
      using assms(3) [OF that] that by (auto simp: like_scan_def)
  qed
  then show "newest_first env (\<lambda>s. s_project s = p \<and> P s) (desk_db d') = newest_first env (\<lambda>s. s_project s = p \<and> P s) (desk_db d)"
    by (simp add: newest_first_def)
  assume "x \<in> set (newest_first env (\<lambda>s. s_project s = p \<and> P s) (desk_db d))"
  then obtain s where "s \<in> set (scans (desk_db d))" "s_project s = p" "x = list_columns s" by (auto simp: newest_first_def)
  with visible_row [OF di, of s A u] assms(2) show "visible_id A u (desk_db d) (s_id x)" by (simp add: visible_scan_def list_columns_def)
qed

lemma agree_page:
  assumes "\<And>owner. visible A u p owner"
  shows "agree A u {} (bind_comp (reads (\<lambda>d. getScans_rows env p n c (desk_db d))) (\<lambda>(rows, next).
      bind_comp (on_tables (attachFailureReasons rt rows)) (\<lambda>rows. ret (rows, map_option g next))))
    (bind_comp (reads (\<lambda>d. getScans_rows env p n c (desk_db d))) (\<lambda>(rows, next).
      bind_comp (on_tables (attachFailureReasons rt rows)) (\<lambda>rows. ret (rows, map_option g next))))"
proof (rule view.agree_reads_bind [where J = "\<lambda>(rows, next). Inl ` s_id ` set rows"])
  let ?P = "\<lambda>s. case c of None \<Rightarrow> True | Some x \<Rightarrow> position env s < x"
  fix d d' assume s: "same_for A u d d'"
  have P: "?P s = ?P s'" if "like_scan A u s s'" "s_project s = p" for s s'
  proof -
    from that assms have "s = s'" by (simp add: like_scan_def visible_scan_def)
    then show ?thesis by blast
  qed
  from listed_same(1) [OF s assms, where P = ?P and env = env, OF P]
  have "getScans_rows env p n c (desk_db d') = getScans_rows env p n c (desk_db d)" by (simp only: getScans_rows_def)
  moreover have "visible_id A u (desk_db d) (s_id x)" if "x \<in> set (fst (getScans_rows env p n c (desk_db d)))" for x
  proof (rule listed_same(2) [OF s assms, where P = ?P and env = env, OF P])
    show "x \<in> set (newest_first env (\<lambda>s. s_project s = p \<and> ?P s) (desk_db d))"
      using that by (auto simp: getScans_rows_def Let_def dest: in_set_takeD split: if_splits)
  qed
  ultimately show "getScans_rows env p n c (desk_db d) = getScans_rows env p n c (desk_db d') \<and>
    (\<forall>x \<in> (\<lambda>(rows, next). Inl ` s_id ` set rows) (getScans_rows env p n c (desk_db d)). in_sight A u d x)"
    by (auto split: prod.split)
qed (auto intro!: agree_rules agree_attach split: prod.split)

lemma agree_unfinished:
  assumes "\<And>owner. visible A u p owner"
  shows "agree A u {} (bind_comp (reads (\<lambda>d. getUnfinishedScans env p n (desk_db d))) (\<lambda>rows.
      bind_comp (on_tables (attachFailureReasons rt rows)) (\<lambda>rows. ret (rows, None))))
    (bind_comp (reads (\<lambda>d. getUnfinishedScans env p n (desk_db d))) (\<lambda>rows.
      bind_comp (on_tables (attachFailureReasons rt rows)) (\<lambda>rows. ret (rows, None))))"
proof (rule view.agree_reads_bind [where J = "\<lambda>rows. Inl ` s_id ` set rows"])
  let ?P = "\<lambda>s. s_status s \<in> set ACTIVE_SCAN_STATUSES"
  fix d d' assume s: "same_for A u d d'"
  have P: "?P s = ?P s'" if "like_scan A u s s'" "s_project s = p" for s s'
  proof -
    from that assms have "s = s'" by (simp add: like_scan_def visible_scan_def)
    then show ?thesis by blast
  qed
  note l = listed_same [OF s assms, where P = ?P and env = env, OF P]
  show "getUnfinishedScans env p n (desk_db d) = getUnfinishedScans env p n (desk_db d') \<and>
    (\<forall>x \<in> Inl ` s_id ` set (getUnfinishedScans env p n (desk_db d)). in_sight A u d x)"
    using l by (auto simp: getUnfinishedScans_def dest: in_set_takeD)
qed (auto intro!: agree_rules agree_attach)

lemma agree_getScans:
  assumes "u \<noteq> []"
  shows "agree A u {} (getScans env p (Some u) q) (getScans env p (Some u) q)"
  unfolding getScans_def
  by (intro agree_rules agree_signed_in view.agree_if agree_page agree_unfinished) (use assms in simp_all)

lemma agree_getScan:
  assumes "desk_auth env" "u \<noteq> []"
  shows "agree A u {} (getScan_as env i (Some u)) (getScan_as env i (Some u))"
  unfolding getScan_as_def
proof (rule agree_scan)
  fix sc sc' assume l: "like_scan A u sc sc'" and i: "s_id sc = i"
  then have same: "s_project sc' = s_project sc" "s_user sc' = s_user sc" by (simp_all add: like_scan_def)
  let ?I = "if visible_scan A u sc then {Inl i} else {}"
  let ?f = "\<lambda>sc. bind_comp (on_tables (attachFailureReasons (desk_rt env) [sc])) (\<lambda>rows.
      reads (\<lambda>d. (hd rows, map_option (shown_report (desk_rt env)) (map_of (waf_reports d) i))))"
  have f: "agree A u ?I (?f sc) (?f sc')" if v: "visible A u (s_project sc) (s_user sc)"
  proof -
    from v have vs: "visible_scan A u sc" by (simp add: visible_scan_def)
    with l have "sc' = sc" by (simp add: like_scan_def)
    with vs i show ?thesis by (auto intro!: view.agree_bind agree_attach view.agree_reads simp: same_for_def)
  qed
  show "agree A u ?I (bind_comp (if_signed_in env (Some u) (\<lambda>u. if s_project sc \<noteq> [] then permitted READ_SCANS (s_project sc) u
        else ret (s_user sc = Some u))) (\<lambda>_. ?f sc))
      (bind_comp (if_signed_in env (Some u) (\<lambda>u. if s_project sc' \<noteq> [] then permitted READ_SCANS (s_project sc') u
        else ret (s_user sc' = Some u))) (\<lambda>_. ?f sc'))"
  proof (cases "s_project sc = []")
    case True
    have n: "given (Some u)" using assms(2) by (simp add: given_def)
    from True f show ?thesis unfolding same
      by (auto simp: signed_in_bind [OF assms(2)] visible_def intro!: view.agree_throw)
  next
    case False
    have "(\<lambda>v. if s_project sc \<noteq> [] then permitted READ_SCANS (s_project sc) v else ret (s_user sc = Some v)) = permitted READ_SCANS (s_project sc)"
      using False by simp
    then show ?thesis unfolding same
      by (simp only:) (rule agree_signed_in [OF assms(2) scan_permissions(1)], rule f)
  qed
qed

lemma agree_getRunnerLogs:
  assumes "desk_auth env" "u \<noteq> []"
  shows "agree A u {} (getRunnerLogs_as env i (Some u)) (getRunnerLogs_as env i (Some u))"
  unfolding getRunnerLogs_as_def checkRowAccess_def
proof (rule agree_checked_scan [OF assms], simp)
  have e: "getRunnerLogs rt (desk_db d) i = getRunnerLogs rt (desk_db d') i" if "same_for A u d d'" "visible_id A u (desk_db d) i" for d d' rt
    using like_events [OF same_tables [OF that(1)], of "{i}"] that(2) by (simp add: getRunnerLogs_def)
  show "agree A u {Inl i} (bind_comp (reads (\<lambda>d. getRunnerLogs (desk_rt env) (desk_db d) i)) (\<lambda>rows. case rows of
       None \<Rightarrow> throw (Error ''malformed JSON'') | Some es \<Rightarrow> ret (map (shown_log_row env) es)))
     (bind_comp (reads (\<lambda>d. getRunnerLogs (desk_rt env) (desk_db d) i)) (\<lambda>rows. case rows of
       None \<Rightarrow> throw (Error ''malformed JSON'') | Some es \<Rightarrow> ret (map (shown_log_row env) es)))"
    by (intro agree_rules view.agree_reads e) simp_all
qed

lemma agree_getFindings:
  assumes "desk_auth env" "u \<noteq> []"
  shows "agree A u {} (getFindings_as env i (Some u)) (getFindings_as env i (Some u))"
  unfolding getFindings_as_def checkRowAccess_def
proof (rule agree_checked_scan [OF assms], simp)
  have e: "getFindings i d = getFindings i d'" if s: "same_for A u d d'" and v: "\<forall>x \<in> {Inl i}. in_sight A u d x" for d d'
  proof -
    let ?V = "visible_id A u (desk_db d)"
    have own: "filter (\<lambda>f. f_scan f = i) fs = filter (\<lambda>f. f_scan f = i) fs'" if "list_all2 (like_finding ?V) fs fs'" for fs fs'
      using that
    proof (induction fs fs' rule: list_all2_induct)
      case (Cons f fs f' fs')
      from Cons(1) v have "f_scan f' = f_scan f" "f_scan f = i \<Longrightarrow> f = f'" by (auto simp: like_finding_def)
      with Cons(3) show ?case by (cases "f_scan f = i") simp_all
    qed simp
    from same_tables [OF s] have "list_all2 (like_finding ?V) (findings (desk_db d)) (findings (desk_db d'))" by (simp add: like_tables_def)
    from own [OF this, symmetric]
    have "filter (\<lambda>f. f_scan f = i) (findings (desk_db d')) = filter (\<lambda>f. f_scan f = i) (findings (desk_db d))" .
    moreover have "mapFindingRow d f = mapFindingRow d' f" if "f \<in> set (findings (desk_db d))" "f_scan f = i" for f
    proof -
      from v that(2) have "visible_id A u (desk_db d) (f_scan f)" by simp
      with s that(1) have "triage_of d (f_id f) = triage_of d' (f_id f)" unfolding same_for_def by blast
      then show ?thesis by (simp add: mapFindingRow_def)
    qed
    ultimately show ?thesis by (simp add: getFindings_def)
  qed
  show "agree A u {Inl i} (reads (getFindings i)) (reads (getFindings i))" by (rule view.agree_reads) (rule e)
qed

lemma agree_getFindingDetails:
  assumes "desk_auth env" "u \<noteq> []"
  shows "agree A u {} (getFindingDetails_as env f (Some u)) (getFindingDetails_as env f (Some u))"
  unfolding getFindingDetails_as_def checkRowAccess_def
  by (rule agree_checked_finding [OF assms]) (simp_all add: view.agree_ret)

section \<open>Writes\<close>

lemma like_getScan_visible: "like_tables A u t t' \<Longrightarrow> visible_id A u t i \<Longrightarrow> getScan t i = getScan t' i"
  using like_getScan [of A u t t' i] by (auto simp: like_option_def visible_id_def like_scan_def split: option.splits)

lemma tables_updateScan:
  "tables_agree A u {i} (updateScan i st sm co)"
  unfolding tables_agree_def
proof (intro allI impI)
  fix t t' assume l: "like_tables A u t t'" and v: "\<forall>j \<in> {i}. visible_id A u t j"
  let ?f = "\<lambda>s. if s_id s = i then s\<lparr>s_status := (case st of None \<Rightarrow> s_status s | Some x \<Rightarrow> x),
      s_summary := (case sm of None \<Rightarrow> s_summary s | Some x \<Rightarrow> Some x), s_completed := (case co of None \<Rightarrow> s_completed s | Some x \<Rightarrow> Some x)\<rparr> else s"
  have k: "row_key (?f s) = row_key s" for s by (simp add: row_key_def)
  note l2 = like_update [OF l k] and v2 = keys_kept [OF k, of A u t]
  have g: "getScan (t\<lparr>scans := map ?f (scans t)\<rparr>) i = getScan (t'\<lparr>scans := map ?f (scans t')\<rparr>) i"
    by (rule like_getScan_visible [OF l2]) (use v v2 in simp)
  show "fst (updateScan i st sm co t) = fst (updateScan i st sm co t') \<and> like_tables A u (snd (updateScan i st sm co t)) (snd (updateScan i st sm co t')) \<and>
    visible_id A u (snd (updateScan i st sm co t)) = visible_id A u t \<and> findings (snd (updateScan i st sm co t)) = findings t"
  proof (cases "st = None \<and> sm = None \<and> co = None")
    case True
    with l show ?thesis by (simp add: updateScan_def)
  next
    case False
    then have "updateScan i st sm co x = (Inr (getScan (x\<lparr>scans := map ?f (scans x)\<rparr>) i), x\<lparr>scans := map ?f (scans x)\<rparr>)" for x
      by (simp add: updateScan_def update_map Let_def)
    then show ?thesis using g l2 v2 by simp
  qed
qed

text \<open>Operations that need the write permission before a scan's row is written.\<close>

lemma agree_signed_scan:
  assumes "u \<noteq> []" and "\<And>sc. visible_scan A u sc \<Longrightarrow> s_id sc = i \<Longrightarrow> agree A u {Inl i} (f sc) (f sc)"
  shows "agree A u {} (bind_comp (scan_or_404 i) (\<lambda>sc. bind_comp (if_signed_in env (Some u) (permitted WRITE_SCANS (s_project sc))) (\<lambda>_. f sc)))
    (bind_comp (scan_or_404 i) (\<lambda>sc. bind_comp (if_signed_in env (Some u) (permitted WRITE_SCANS (s_project sc))) (\<lambda>_. f sc)))"
proof (rule agree_scan)
  fix sc sc' assume l: "like_scan A u sc sc'" and i: "s_id sc = i"
  then have same: "s_project sc' = s_project sc" by (simp add: like_scan_def)
  show "agree A u (if visible_scan A u sc then {Inl i} else {})
    (bind_comp (if_signed_in env (Some u) (permitted WRITE_SCANS (s_project sc))) (\<lambda>_. f sc))
    (bind_comp (if_signed_in env (Some u) (permitted WRITE_SCANS (s_project sc'))) (\<lambda>_. f sc'))"
    unfolding same
  proof (rule agree_signed_in [OF assms(1) scan_permissions(2)])
    assume "\<And>owner. visible A u (s_project sc) owner"
    then have v: "visible_scan A u sc" by (simp add: visible_scan_def)
    with l have "sc' = sc" by (simp add: like_scan_def)
    with v assms(2) [OF v i] show "agree A u (if visible_scan A u sc then {Inl i} else {}) (f sc) (f sc')" by simp
  qed
qed

lemma agree_updateScan:
  assumes "u \<noteq> []"
  shows "agree A u {} (updateScan_as env i body (Some u)) (updateScan_as env i body (Some u))"
  unfolding updateScan_as_def by (rule agree_signed_scan [OF assms]) (rule agree_on_tables, rule tables_updateScan, simp)

lemma agree_generateUploadUrl:
  assumes "u \<noteq> []"
  shows "agree A u {} (generateUploadUrl env i (Some u)) (generateUploadUrl env i (Some u))"
  unfolding generateUploadUrl_def
  by (rule agree_signed_scan [OF assms]) (auto intro!: agree_rules view.agree_reads simp: same_for_def worker_now_def)

lemma same_for_site:
  assumes "same_for A u d d'" "like_tables A u (db (object w)) (db (object w'))" "findings (db (object w)) = findings (desk_db d)"
    and "visible_id A u (db (object w)) = visible_id A u (desk_db d)"
    and "access w = access (site d)" "access w' = access (site d')" "accounts w = accounts (site d)" "accounts w' = accounts (site d')"
  shows "same_for A u (d\<lparr>site := w\<rparr>) (d'\<lparr>site := w'\<rparr>)"
  using assms by (simp add: same_for_def desk_db_def)

lemma agree_put_report:
  assumes "same_for A u d d'"
  shows "same_for A u (put_report i key d) (put_report i key d') \<and> sight_kept A u d (put_report i key d)"
proof -
  let ?f = "\<lambda>s. if s_id s = i then s\<lparr>s_report := Some key\<rparr> else s"
  have k: "row_key (?f s) = row_key s" for s by (simp add: row_key_def)
  have t: "desk_db (put_report i key x) = (desk_db x)\<lparr>scans := map ?f (scans (desk_db x))\<rparr>" for x
    by (simp add: put_report_def desk_db_def on_scans_def on_db_def updateScanReportUrl_def update_map)
  from like_update [OF same_tables [OF assms] k] keys_kept [OF k, of A u "desk_db d"] show ?thesis
    unfolding put_report_def
    by (intro conjI same_for_site [OF assms]) (simp_all add: sight_kept_def t [unfolded put_report_def desk_db_def, simplified] desk_db_def on_scans_def on_db_def updateScanReportUrl_def update_map)
qed

lemma agree_uploadReport: "agree A u {} (uploadReport env i token has_body fails) (uploadReport env i token has_body fails)"
proof -
  have "agree A u {} (accept_upload env i t has_body fails) (accept_upload env i t has_body fails)" for t
    unfolding runs_agree_def
  proof (intro allI impI)
    fix d d' assume s: "same_for A u d d'"
    then have "worker_now (site d') = worker_now (site d)" by (simp add: same_for_def worker_now_def)
    with s agree_put_report [OF s] show "fst (accept_upload env i t has_body fails d) = fst (accept_upload env i t has_body fails d') \<and>
      same_for A u (snd (accept_upload env i t has_body fails d)) (snd (accept_upload env i t has_body fails d')) \<and>
      sight_kept A u d (snd (accept_upload env i t has_body fails d))"
      by (simp add: accept_upload_def split: token_check.split)
  qed
  then show ?thesis unfolding uploadReport_def by (intro agree_rules)
qed

lemma agree_writes:
  assumes "\<And>d d'. same_for A u d d' \<Longrightarrow> \<forall>x \<in> I. in_sight A u d x \<Longrightarrow> same_for A u (g d) (g d')"
    and "\<And>d. sight_kept A u d (g d)"
  shows "agree A u I (writes g) (writes g)"
  using assms by (simp add: runs_agree_def writes_def)

lemma agree_saveWAF:
  assumes "desk_auth env" "u \<noteq> []"
  shows "agree A u {} (saveWAFPatchReport_as env i report (Some u)) (saveWAFPatchReport_as env i report (Some u))"
  unfolding saveWAFPatchReport_as_def checkScanWriteAccess_def
proof (rule agree_checked_scan [OF assms], simp, rule agree_writes)
  fix d d' assume s: "same_for A u d d'" and v: "\<forall>x \<in> {Inl i}. in_sight A u d x"
  from v have "visible_id A u (desk_db d) i" by simp
  then have "getScan (desk_db d) i \<noteq> None" "getScan (desk_db d') i \<noteq> None"
    using like_getScan_visible [OF same_tables [OF s], of i] unfolding visible_id_def by (metis option.simps(4))+
  then have "scan_exists (desk_db d) i" "scan_exists (desk_db d') i" using getScan_exists by metis+
  with s show "same_for A u (if scan_exists (desk_db d) i then d\<lparr>waf_reports := jset i report (waf_reports d)\<rparr> else d)
      (if scan_exists (desk_db d') i then d'\<lparr>waf_reports := jset i report (waf_reports d')\<rparr> else d')"
    by (simp add: same_for_def desk_db_def)
qed (simp add: sight_kept_def desk_db_def)

text \<open>What is written of a finding in sight is the same in both.\<close>

lemma same_set_triage:
  assumes "same_for A u d d'"
  shows "same_for A u (set_triage f cols d) (set_triage f cols d') \<and> sight_kept A u d (set_triage f cols d)"
proof -
  have t: "triage_of (set_triage f cols x) g = (if g = f then fold (\<lambda>(k, v). jset k v) cols (triage_of x f) else triage_of x g)" for x g
    by (simp add: set_triage_def triage_of_def)
  have db: "desk_db (set_triage f cols x) = desk_db x" for x by (simp add: set_triage_def desk_db_def)
  have "triage_of (set_triage f cols d) (f_id y) = triage_of (set_triage f cols d') (f_id y)"
    if "y \<in> set (findings (desk_db d))" "visible_id A u (desk_db d) (f_scan y)" for y
  proof -
    from assms that have "triage_of d (f_id y) = triage_of d' (f_id y)" unfolding same_for_def by blast
    then show ?thesis by (cases "f_id y = f") (simp_all add: t)
  qed
  then show ?thesis using assms by (simp add: same_for_def db sight_kept_def) (simp add: set_triage_def)
qed

lemma same_tell:
  assumes "same_for A u d d'"
  shows "same_for A u (tell_triaged f d) (tell_triaged g d') \<and> sight_kept A u d (tell_triaged f d)"
proof -
  have v: "visible_id A u (fire a b c t) = visible_id A u t" for a b c t by (simp add: fire_def visible_id_def getScan_def fun_eq_iff)
  then have like: "like_tables A u (fire a b c t) (fire a' b' c' t') = like_tables A u t t'" "like_tables A u (fire a b c t) t' = like_tables A u t t'"
    "like_tables A u t (fire a' b' c' t') = like_tables A u t t'" "findings (fire a b c t) = findings t" for a b c a' b' c' t t'
    unfolding like_tables_def v by (simp_all add: fire_def)
  show ?thesis using assms
    by (auto simp: tell_triaged_def same_for_def sight_kept_def like v split: option.split prod.split)
qed

lemma same_details:
  assumes s: "same_for A u d d'" and f: "in_sight A u d (Inr i)"
  shows "map_option fst (getFindingDetails i d) = map_option fst (getFindingDetails i d')"
proof (cases "getFindingDetails i d")
  case None
  with like_detail [OF s, of i] show ?thesis by (simp add: like_option_def)
next
  case (Some x)
  obtain v sc where x: "x = (v, sc)" by (cases x)
  with Some like_detail [OF s, of i] obtain v' sc' where y: "getFindingDetails i d' = Some (v', sc')"
    and e: "visible_scan A u sc \<longrightarrow> v = v'" by (auto simp: like_option_def split: option.splits)
  from Some x obtain r where "find (\<lambda>f. f_id f = i) (findings (desk_db d)) = Some r" "getScan (desk_db d) (f_scan r) = Some sc"
    by (auto simp: getFindingDetails_def split: option.splits)
  with f have "visible_scan A u sc" by (simp add: visible_id_def)
  with e Some x y show ?thesis by simp
qed

lemma agree_updateFinding:
  assumes "Inr i \<in> I"
  shows "agree A u I (updateFinding env i body) (updateFinding env i body)"
  unfolding runs_agree_def
proof (intro allI impI)
  fix d d' assume s: "same_for A u d d'" and v: "\<forall>x \<in> I. in_sight A u d x"
  let ?g = "\<lambda>cols x. if i \<in> f_id ` set (findings (desk_db x)) then set_triage i cols x else x"
  have ids: "f_id ` set (findings (desk_db d')) = f_id ` set (findings (desk_db d))"
    using same_tables [OF s] set_like by (fastforce simp: like_tables_def)
  have g: "same_for A u (?g cols d) (?g cols d') \<and> sight_kept A u d (?g cols d)" for cols
    using same_set_triage [OF s] s unfolding ids by simp
  have "in_sight A u (?g cols d) (Inr i)" for cols
  proof -
    from g have "sight_kept A u d (?g cols d)" by blast
    from sight_same [OF this] v assms show ?thesis by blast
  qed
  with g have r: "map_option fst (getFindingDetails i (?g cols d)) = map_option fst (getFindingDetails i (?g cols d'))" for cols
    using same_details by blast
  have t: "same_for A u (tell_triaged i (?g cols d)) (tell_triaged i (?g cols d')) \<and> sight_kept A u d (tell_triaged i (?g cols d))" for cols
  proof -
    from g have k: "same_for A u (?g cols d) (?g cols d')" "sight_kept A u d (?g cols d)" by blast+
    from same_tell [OF k(1)] sight_trans [OF k(2)] show ?thesis by blast
  qed
  have run: "updateFinding env i body x = (if given_fields body = [] then (Inl (Error ''No valid fields to update|400''), x)
     else case bound_values env (given_fields body) of None \<Rightarrow> (Inl (Error ''D1_TYPE_ERROR''), x)
       | Some cols \<Rightarrow> (Inr (map_option fst (getFindingDetails i (?g cols x))), tell_triaged i (?g cols x)))" for x
    by (simp only: updateFinding_def Let_def)
  show "fst (updateFinding env i body d) = fst (updateFinding env i body d') \<and>
    same_for A u (snd (updateFinding env i body d)) (snd (updateFinding env i body d')) \<and> sight_kept A u d (snd (updateFinding env i body d))"
    unfolding run using s r t by (cases "given_fields body = []"; cases "bound_values env (given_fields body)") simp_all
qed

lemma agree_updateFinding_as:
  assumes "desk_auth env" "u \<noteq> []"
  shows "agree A u {} (updateFinding_as env f body (Some u)) (updateFinding_as env f body (Some u))"
  unfolding updateFinding_as_def checkScanWriteAccess_def
  by (rule agree_checked_finding [OF assms]) (simp_all add: agree_updateFinding)

lemma agree_batch:
  assumes "desk_auth env" "u \<noteq> []"
  shows "agree A u {} (batchUpdateFindingsAI_as env i us (Some u)) (batchUpdateFindingsAI_as env i us (Some u))"
  unfolding batchUpdateFindingsAI_as_def checkScanWriteAccess_def
proof (rule agree_checked_scan [OF assms], simp)
  let ?one = "\<lambda>(f, cols) d. if list_ex (\<lambda>x. f_id x = f \<and> f_scan x = i) (findings (desk_db d)) then set_triage f cols d else d"
  have ex: "list_ex (\<lambda>x. f_id x = f \<and> f_scan x = i) (findings (desk_db d')) = list_ex (\<lambda>x. f_id x = f \<and> f_scan x = i) (findings (desk_db d))"
    if "same_for A u d d'" for d d' f
  proof -
    have "list_ex (\<lambda>x. f_id x = f \<and> f_scan x = i) ys = list_ex (\<lambda>x. f_id x = f \<and> f_scan x = i) xs"
      if "list_all2 (like_finding V) xs ys" for V xs ys
      using that by (induction xs ys rule: list_all2_induct) (simp_all add: like_finding_def)
    with same_tables [OF that] show ?thesis by (auto simp: like_tables_def)
  qed
  have step: "same_for A u (fold ?one items d) (fold ?one items d') \<and> sight_kept A u d (fold ?one items d)"
    if "same_for A u d d'" for items d d'
    using that
  proof (induction items arbitrary: d d')
    case (Cons x items)
    obtain f cols where x: "x = (f, cols)" by (cases x)
    have one: "same_for A u (?one x d) (?one x d') \<and> sight_kept A u d (?one x d)"
      using ex [OF Cons.prems] same_set_triage [OF Cons.prems] Cons.prems x by simp
    then have "same_for A u (fold ?one items (?one x d)) (fold ?one items (?one x d')) \<and>
        sight_kept A u (?one x d) (fold ?one items (?one x d))" using Cons.IH by blast
    with one sight_trans show ?case by (simp only: fold_simps comp_apply) blast
  qed simp
  show "agree A u {Inl i} (batchUpdateFindingsAI env i us) (batchUpdateFindingsAI env i us)"
    unfolding batchUpdateFindingsAI_def
    by (intro agree_rules) (simp add: runs_agree_def writes_def step)
qed

lemma agree_count: "agree A u I (count_analysis has_cache kv_fails who) (count_analysis has_cache kv_fails who)"
  unfolding runs_agree_def
proof (intro allI impI)
  fix d d' assume s: "same_for A u d d'"
  then have e: "ai_counts d' = ai_counts d" "desk_ms d' = desk_ms d" by (simp_all add: same_for_def desk_ms_def)
  then have "ai_count d' k = ai_count d k" for k by (simp add: ai_count_def split: option.split)
  with s e show "fst (count_analysis has_cache kv_fails who d) = fst (count_analysis has_cache kv_fails who d') \<and>
    same_for A u (snd (count_analysis has_cache kv_fails who d)) (snd (count_analysis has_cache kv_fails who d')) \<and>
    sight_kept A u d (snd (count_analysis has_cache kv_fails who d))"
    by (simp add: count_analysis_def Let_def) (simp add: same_for_def sight_kept_def desk_db_def)
qed

text \<open>The finding is read after the scan's check; it must be one of the scan.\<close>

lemma agree_own_finding:
  assumes "Inl i \<in> I" and "\<And>v. f_scan (fst v) = i \<Longrightarrow> agree A u (insert (Inr f) I) (g v) (g v)"
  shows "agree A u I (bind_comp (reads (getFindingDetails f)) (\<lambda>row. case row of
       None \<Rightarrow> throw e1 | Some ((x, cols), _) \<Rightarrow> bind_comp (refuse_if (f_scan x \<noteq> i) e2) (\<lambda>_. g (x, cols))))
    (bind_comp (reads (getFindingDetails f)) (\<lambda>row. case row of
       None \<Rightarrow> throw e1 | Some ((x, cols), _) \<Rightarrow> bind_comp (refuse_if (f_scan x \<noteq> i) e2) (\<lambda>_. g (x, cols))))"
    (is "agree A u I ?m ?m")
  unfolding runs_agree_def
proof (intro allI impI)
  fix d d' assume s: "same_for A u d d'" and v: "\<forall>x \<in> I. in_sight A u d x"
  note l = like_detail [OF s, of f]
  show "fst (?m d) = fst (?m d') \<and> same_for A u (snd (?m d)) (snd (?m d')) \<and> sight_kept A u d (snd (?m d))"
  proof (cases "getFindingDetails f d")
    case None
    with l s show ?thesis by (simp add: like_option_def bind_reads throw_def)
  next
    case (Some r)
    obtain x cols sc where r: "r = ((x, cols), sc)" by (metis surj_pair)
    with Some l obtain x' cols' sc' where y: "getFindingDetails f d' = Some ((x', cols'), sc')"
      and k: "like_scan A u sc sc'" "f_scan x = s_id sc" "visible_scan A u sc \<longrightarrow> (x, cols) = (x', cols')"
      by (auto simp: like_option_def split: option.splits)
    have same: "f_scan x' = f_scan x"
      using Some r y same_tables [OF s] k(1,2) by (auto simp: getFindingDetails_def mapFindingRow_def like_scan_def dest!: getScan_id split: option.splits)
    have e: "?m d = bind_comp (refuse_if (f_scan x \<noteq> i) e2) (\<lambda>_. g (x, cols)) d"
      "?m d' = bind_comp (refuse_if (f_scan x \<noteq> i) e2) (\<lambda>_. g (x', cols')) d'"
      using Some r y same by (simp_all add: bind_reads)
    show ?thesis
    proof (cases "f_scan x = i")
      case False
      with s show ?thesis unfolding e by (simp add: bind_refuse_if throw_def)
    next
      case True
      from Some r have f: "find (\<lambda>x. f_id x = f) (findings (desk_db d)) = Some x" "getScan (desk_db d) (f_scan x) = Some sc"
        by (auto simp: getFindingDetails_def mapFindingRow_def split: option.splits)
      from v assms(1) have "in_sight A u d (Inl i)" by blast
      with True f(2) have vis: "visible_id A u (desk_db d) i" "visible_scan A u sc" by (auto simp: visible_id_def)
      with k(3) have "(x', cols') = (x, cols)" by simp
      moreover have "\<forall>y \<in> insert (Inr f) I. in_sight A u d y" using v f True vis by simp
      moreover from assms(2) [of "(x, cols)"] True have "agree A u (insert (Inr f) I) (g (x, cols)) (g (x, cols))" by simp
      ultimately show ?thesis using s True unfolding e runs_agree_def by (auto simp: bind_refuse_if)
    qed
  qed
qed

lemma agree_analyze:
  assumes "desk_auth env" "u \<noteq> []"
  shows "agree A u {} (analyzeFindingWithAI env ai hc kf ip i f ctx (Some u)) (analyzeFindingWithAI env ai hc kf ip i f ctx (Some u))"
  unfolding analyzeFindingWithAI_def checkRowAccess_def
proof (rule agree_checked_scan [OF assms], simp)
  fix sc
  let ?g = "\<lambda>v. bind_comp (count_analysis hc kf (if given (Some u) then the (Some u) else if given ip then the ip else ''anonymous'')) (\<lambda>_.
         let a = ai v (s_target sc) ctx in
         bind_comp (updateFinding env f (analysis_fields a)) (\<lambda>updated. ret (updated, a)))"
  show "agree A u {Inl i} (bind_comp (reads (getFindingDetails f)) (\<lambda>row. case row of
       None \<Rightarrow> throw (Error ''Finding not found|404'')
     | Some ((x, cols), _) \<Rightarrow> bind_comp (refuse_if (f_scan x \<noteq> i) ''Finding not found|404'') (\<lambda>_. ?g (x, cols))))
    (bind_comp (reads (getFindingDetails f)) (\<lambda>row. case row of
       None \<Rightarrow> throw (Error ''Finding not found|404'')
     | Some ((x, cols), _) \<Rightarrow> bind_comp (refuse_if (f_scan x \<noteq> i) ''Finding not found|404'') (\<lambda>_. ?g (x, cols))))"
    by (rule agree_own_finding [where g = ?g]) (auto simp: Let_def intro!: agree_rules agree_count agree_updateFinding)
qed

lemma agree_answers: "agree A u {} m m \<Longrightarrow> agree A u {} (answers f m) (answers f m)"
  by (simp add: answers_def agree_rules)

lemma agree_handle:
  assumes "desk_auth env" "u \<noteq> []"
  shows "agree A u {} (desk_handle env ai (Some u) r) (desk_handle env ai (Some u) r)"
  using assms
  by (cases r) (simp_all add: agree_answers agree_getScan agree_getScans agree_getRunnerLogs agree_getFindings agree_getFindingDetails
    agree_updateScan agree_generateUploadUrl agree_uploadReport agree_updateFinding_as agree_batch agree_saveWAF agree_analyze)

end
