(* ===== verification/Scans_Pages.thy ===== *)
theory Scans_Pages
  imports Scans_Privacy "HOL-Library.Multiset"
begin

text \<open>
  Reading the list of a project's scans page by page: positions are totally ordered, each page goes on
  after the last row of the one before, and the cursor between them decodes to the position it encodes.
\<close>

section \<open>Positions\<close>

definition positions :: "desk_env \<Rightarrow> string \<Rightarrow> scans_db \<Rightarrow> scans_cursor list" where
  "positions env p t = map (position env) (newest_first env (\<lambda>s. s_project s = p) t)"

lemma position_list_columns [simp]: "position env (list_columns s) = position env s"
  by (simp add: position_def list_columns_def)

lemma map_sort: "map f (sort_key f xs) = sort (map f xs)"
  by (rule properties_for_sort [symmetric]) simp_all

lemma positions_sorted: "positions env p t = rev (sort (map (position env) (filter (\<lambda>s. s_project s = p) (scans t))))"
  by (simp add: positions_def newest_first_def comp_def map_sort flip: rev_map)

lemma newest_filter:
  "newest_first env (\<lambda>s. s_project s = p \<and> Q (position env s)) t = filter (\<lambda>s. Q (position env s)) (newest_first env (\<lambda>s. s_project s = p) t)"
proof -
  have "sort_key (position env) (filter (\<lambda>s. s_project s = p \<and> Q (position env s)) xs) =
      filter (\<lambda>s. Q (position env s)) (sort_key (position env) (filter (\<lambda>s. s_project s = p) xs))" for xs
    by (simp add: filter_sort conj_commute)
  then show ?thesis by (simp add: newest_first_def rev_filter filter_map comp_def)
qed

lemma descending:
  assumes "distinct (map s_id (scans t))"
  shows "sorted_wrt (\<lambda>a b. b < a) (positions env p t)"
proof -
  have "distinct (map s_id (filter (\<lambda>s. s_project s = p) (scans t)))" using assms by (rule distinct_map_filter)
  then have "distinct (map (position env) (filter (\<lambda>s. s_project s = p) (scans t)))"
    by (auto simp: distinct_map inj_on_def position_def)
  then have "sorted_wrt (<) (sort (map (position env) (filter (\<lambda>s. s_project s = p) (scans t))))"
    by (simp add: strict_sorted_iff)
  then show ?thesis unfolding positions_sorted sorted_wrt_rev by simp
qed

lemma after_row:
  fixes xs :: "'a::linorder list"
  assumes "sorted_wrt (\<lambda>a b. b < a) xs" "k < length xs"
  shows "filter (\<lambda>x. x < xs ! k) xs = drop (Suc k) xs"
proof -
  have "filter (\<lambda>x. x < xs ! k) (take (Suc k) xs) = []"
  proof -
    have "\<not> x < xs ! k" if "x \<in> set (take (Suc k) xs)" for x
    proof -
      from that obtain j where j: "j < Suc k" "j < length xs" "x = xs ! j" by (auto simp: in_set_conv_nth)
      show ?thesis
      proof (cases "j = k")
        case False
        with j have "xs ! k < xs ! j" using assms by (auto simp: sorted_wrt_iff_nth_less)
        then have "\<not> xs ! j < xs ! k" by simp
        with j show ?thesis by simp
      qed (use j in simp)
    qed
    then show ?thesis by (simp add: filter_empty_conv)
  qed
  moreover have "filter (\<lambda>x. x < xs ! k) (drop (Suc k) xs) = drop (Suc k) xs"
    using assms by (auto simp: filter_id_conv in_set_conv_nth sorted_wrt_iff_nth_less)
  ultimately show ?thesis by (metis append_Nil append_take_drop_id filter_append)
qed

text \<open>What a page holds, by positions: the next ones after the cursor.\<close>

definition after_cursor :: "scans_cursor option \<Rightarrow> scans_cursor list \<Rightarrow> scans_cursor list" where
  "after_cursor c xs = (case c of None \<Rightarrow> xs | Some x \<Rightarrow> filter (\<lambda>y. y < x) xs)"

lemma page_positions:
  assumes "getScans_rows env p n c t = (rows, next)"
  shows "map (position env) rows = take n (after_cursor c (positions env p t))"
    "next = (if length (after_cursor c (positions env p t)) \<le> n then None else Some (after_cursor c (positions env p t) ! (n - 1)))"
    "0 < n \<Longrightarrow> set rows \<subseteq> set (newest_first env (\<lambda>s. s_project s = p) t)"
proof -
  define R where "R = newest_first env (\<lambda>s. s_project s = p \<and> (case c of None \<Rightarrow> True | Some x \<Rightarrow> position env s < x)) t"
  have R: "R = filter (\<lambda>s. case c of None \<Rightarrow> True | Some x \<Rightarrow> position env s < x) (newest_first env (\<lambda>s. s_project s = p) t)"
    unfolding R_def by (rule newest_filter [where Q = "\<lambda>y. case c of None \<Rightarrow> True | Some x \<Rightarrow> y < x"])
  have P: "map (position env) R = after_cursor c (positions env p t)"
    unfolding R by (cases c) (simp_all add: after_cursor_def positions_def filter_map comp_def)
  have run: "(rows, next) = (if length (take (n + 1) R) \<le> n then (take (n + 1) R, None)
      else (take n (take (n + 1) R), Some (position env (take (n + 1) R ! (n - 1)))))"
    using assms by (simp only: getScans_rows_def Let_def R_def)
  show "map (position env) rows = take n (after_cursor c (positions env p t))"
    using run unfolding P [symmetric] by (auto simp: take_map min_def split: if_splits)
  show "next = (if length (after_cursor c (positions env p t)) \<le> n then None else Some (after_cursor c (positions env p t) ! (n - 1)))"
    using run unfolding P [symmetric] by (auto simp: min_def split: if_splits)
  show "0 < n \<Longrightarrow> set rows \<subseteq> set (newest_first env (\<lambda>s. s_project s = p) t)"
    using run unfolding R by (auto split: if_splits dest: in_set_takeD)
qed

section \<open>Attaching the reasons\<close>

text \<open>Tables that differ in recorded reasons only.\<close>

definition same_list :: "scans_db \<Rightarrow> scans_db \<Rightarrow> bool" where
  "same_list t t' = (map (\<lambda>s. s\<lparr>s_failure := None\<rparr>) (scans t') = map (\<lambda>s. s\<lparr>s_failure := None\<rparr>) (scans t) \<and> scan_events t' = scan_events t)"

lemma same_list_keep: "same_list t (keep_reasons r c t)"
  by (simp add: same_list_def keep_reasons_def update_map)

lemma same_list_trans: "same_list t t' \<Longrightarrow> same_list t' t'' \<Longrightarrow> same_list t t''"
  by (simp add: same_list_def)

lemma select_total: "\<forall>x \<in> set xs. f x \<noteq> None \<Longrightarrow> select_rows f xs \<noteq> None"
  by (induction xs) (auto split: option.splits bool.splits)

definition readable_log :: "runtime \<Rightarrow> scans_db \<Rightarrow> bool" where
  "readable_log rt t = (\<forall>e \<in> set (scan_events t). log_row rt [''error''] e \<noteq> None)"

lemma search_succeeds: "readable_log rt t \<Longrightarrow> \<exists>r t'. search_errors rt chunks t = (Inr r, t') \<and> same_list t t'"
proof (induction chunks arbitrary: t)
  case Nil
  then show ?case by (simp add: ret_def same_list_def)
next
  case (Cons c chunks)
  from Cons.prems obtain es where es: "select_rows (log_row rt [''error'']) (filter (\<lambda>e. e_scan e \<in> set c) (scan_events t)) = Some es"
    using select_total [of "filter (\<lambda>e. e_scan e \<in> set c) (scan_events t)" "log_row rt [''error'']"] by (auto simp: readable_log_def)
  define found where "found = List.map_filter (\<lambda>i. map_option (Pair i) (newest_error rt (filter (\<lambda>e. e_scan e = i) es))) c"
  have "readable_log rt (keep_reasons found c t)"
    using Cons.prems by (simp add: readable_log_def keep_reasons_def update_map)
  from Cons.IH [OF this] obtain r t' where r: "search_errors rt chunks (keep_reasons found c t) = (Inr r, t')"
    and s: "same_list (keep_reasons found c t) t'" by blast
  have "search_errors rt (c # chunks) t = (Inr (found @ r), t')"
    using es r by (simp add: found_def [symmetric] bind_comp_def ret_def)
  with same_list_trans [OF same_list_keep s] show ?case by blast
qed

lemma attach_succeeds:
  assumes "readable_log rt t"
  shows "\<exists>rows' t'. attachFailureReasons rt rows t = (Inr rows', t') \<and> map (\<lambda>s. s\<lparr>s_failure := None\<rparr>) rows' = map (\<lambda>s. s\<lparr>s_failure := None\<rparr>) rows \<and> same_list t t'"
proof -
  have w: "(with_reason rt r s)\<lparr>s_failure := None\<rparr> = s\<lparr>s_failure := None\<rparr>" for r s by (simp add: with_reason_def)
  let ?ids = "map s_id (filter (\<lambda>s. s_status s = ''failed'' \<and> kept_text rt s = []) rows)"
  let ?miss = "map s_id (filter (\<lambda>s. kept_text rt s = []) (List.map_filter (getScan t) (uniq ?ids)))"
  obtain r t' where r: "search_errors rt (chunked EVENT_ID_LOOKUP_CHUNK ?miss) t = (Inr r, t')" "same_list t t'"
    using search_succeeds [OF assms] by blast
  then obtain q where "getFailureReasons rt ?ids t = (Inr q, t')"
    by (simp add: getFailureReasons_def Let_def bind_comp_def ret_def)
  with r(2) w show ?thesis
    by (auto simp: attachFailureReasons_def Let_def bind_comp_def ret_def same_list_def comp_def)
qed

lemma same_list_positions:
  assumes "same_list t t'"
  shows "positions env p t' = positions env p t" "map s_id (scans t') = map s_id (scans t)"
proof -
  let ?c = "\<lambda>s. s\<lparr>s_failure := None\<rparr>"
  have m: "map f (scans t') = map f (scans t)" if "\<And>s. f (?c s) = f s" for f :: "scan_row \<Rightarrow> 'a"
  proof -
    have "map f xs = map f (map ?c xs)" for xs using that by simp
    with assms show ?thesis unfolding same_list_def by metis
  qed
  have f: "map (position env) (filter (\<lambda>s. s_project s = p) xs) = map fst (filter (\<lambda>x. snd x = p) (map (\<lambda>s. (position env s, s_project s)) xs))" for xs
    by (induction xs) auto
  show "positions env p t' = positions env p t"
    unfolding positions_sorted f using m [of "\<lambda>s. (position env s, s_project s)"] by (simp add: position_def)
  show "map s_id (scans t') = map s_id (scans t)" by (rule m) simp
qed

end
