(* ===== verification/Scans_History.thy ===== *)
theory Scans_History
  imports Scans_Pages
begin

text \<open>
  The web client's reader of a project's history, \<open>packages/web/src/services/scansService.ts\<close>, on top
  of the Worker's pages; requests go to \<open>getScans\<close> as the user of the client's token.
\<close>

section \<open>The client\<close>

definition SCANS_PAGE_SIZE :: nat where "SCANS_PAGE_SIZE = 200"

definition MAX_SCAN_PAGES :: nat where "MAX_SCAN_PAGES = 25"

definition fetchScansPage ::
  "desk_env \<Rightarrow> string \<Rightarrow> string \<Rightarrow> nat \<Rightarrow> string option \<Rightarrow> bool \<Rightarrow> (desk, scan_row list \<times> string option) comp" where
  "fetchScansPage env user projectId limit cursor active =
     bind_comp (getScans env projectId (Some user)
       \<lparr>pg_limit = (if limit = 0 then None else Some (show_nat limit)), pg_cursor = (if given cursor then cursor else None),
        pg_active = (if active then Some ''1'' else None)\<rparr>) (\<lambda>(rows, next).
     ret (rows, if given next then next else None))"

fun fetchOlderScans :: "desk_env \<Rightarrow> string \<Rightarrow> string \<Rightarrow> string option \<Rightarrow> nat \<Rightarrow> (desk, scan_row list \<times> bool) comp" where
  "fetchOlderScans env user projectId next 0 = ret ([], given next)"
| "fetchOlderScans env user projectId next (Suc pages) =
     (if \<not> given next then ret ([], False)
      else bind_comp (fetchScansPage env user projectId SCANS_PAGE_SIZE next False) (\<lambda>(rows, next').
           bind_comp (fetchOlderScans env user projectId next' pages) (\<lambda>(more, truncated).
           ret (rows @ more, truncated))))"

section \<open>Cursors\<close>

definition cursor_json :: "scans_cursor \<Rightarrow> json" where
  "cursor_json c = JArr [JStr (units (fst c)), JStr (units (snd c))]"

definition proper_cursor :: "scans_cursor \<Rightarrow> bool" where
  "proper_cursor c = (created_text (fst c) \<and> isValidId (snd c))"

text \<open>
  What the code relies on of \<open>JSON.stringify\<close> and \<open>JSON.parse\<close>: a pair of texts that need no escape is
  written with two pairs of quotes, a comma and brackets, and read back.
\<close>

definition cursor_codec :: "desk_env \<Rightarrow> bool" where
  "cursor_codec env = (\<forall>c. proper_cursor c \<longrightarrow>
     bytes_json env (json_bytes env (cursor_json c)) = Some (cursor_json c) \<and>
     length (json_bytes env (cursor_json c)) = length (fst c) + length (snd c) + 7)"

lemma length_sextets: "3 * length (sextets bs) \<le> 4 * length bs + 2"
  by (induction bs rule: sextets.induct) simp_all

lemma sextets_Nil: "sextets bs = [] \<longleftrightarrow> bs = []"
  by (cases bs rule: sextets.cases) simp_all

lemma cursor_roundtrip:
  assumes "cursor_codec env" "proper_cursor c"
  shows "decodeScansCursor env (encodeScansCursor env c) = Inr c" "given (Some (encodeScansCursor env c))"
proof -
  have e: "encodeScansCursor env c = bytesToBase64Url (json_bytes env (cursor_json c))"
    by (simp add: encodeScansCursor_def cursor_json_def)
  from assms have j: "bytes_json env (json_bytes env (cursor_json c)) = Some (cursor_json c)"
    and l: "length (json_bytes env (cursor_json c)) = length (fst c) + length (snd c) + 7"
    unfolding cursor_codec_def by blast+
  from assms(2) have "length (fst c) \<le> 40" "length (snd c) \<le> 64"
    by (simp_all add: proper_cursor_def created_text_def isValidId_def)
  with l length_sextets [of "json_bytes env (cursor_json c)"] have "length (encodeScansCursor env c) \<le> 256"
    unfolding e encoded_digits by simp
  with j assms(2) show "decodeScansCursor env (encodeScansCursor env c) = Inr c"
    by (simp add: decodeScansCursor_def e base64url_inverse cursor_json_def proper_cursor_def str_of_def)
  from l show "given (Some (encodeScansCursor env c))"
    unfolding e encoded_digits given_def using sextets_Nil [of "json_bytes env (cursor_json c)"] by auto
qed

section \<open>A page\<close>

text \<open>A state in which the user reads the project's list, whose texts are what SQLite and the ids give.\<close>

definition readable_list :: "desk_env \<Rightarrow> string \<Rightarrow> string \<Rightarrow> desk \<Rightarrow> bool" where
  "readable_list env u p d =
     (coherent (access (site d)) \<and> READ_SCANS \<in> effective (access (site d)) p u \<and> distinct (map s_id (scans (desk_db d))) \<and>
      (\<forall>c \<in> set (positions env p (desk_db d)). proper_cursor c) \<and> readable_log (desk_rt env) (desk_db d))"

lemma page_read:
  assumes r: "readable_list env u p d" and u: "u \<noteq> []" "p \<noteq> []" and n: "parseScansLimit raw = Inr n"
    and c: "case cur of None \<Rightarrow> c = None | Some t \<Rightarrow> given (Some t) \<and> (\<exists>x. c = Some x \<and> decodeScansCursor env t = Inr x)"
  shows "\<exists>rows d'. getScans env p (Some u) \<lparr>pg_limit = raw, pg_cursor = cur, pg_active = None\<rparr> d =
      (Inr (rows, map_option (encodeScansCursor env)
         (if length (after_cursor c (positions env p (desk_db d))) \<le> n then None
          else Some (after_cursor c (positions env p (desk_db d)) ! (n - 1)))), d') \<and>
    map (position env) rows = take n (after_cursor c (positions env p (desk_db d))) \<and>
    positions env p (desk_db d') = positions env p (desk_db d) \<and> readable_list env u p d'"
proof -
  let ?a = "snd (checkPermission u p READ_SCANS (access (site d)))"
  let ?d = "d\<lparr>site := (site d)\<lparr>access := ?a\<rparr>\<rparr>"
  from r have k: "coherent (access (site d))" "READ_SCANS \<in> effective (access (site d)) p u" by (simp_all add: readable_list_def)
  note known = permission_known [OF k(1) refl, of u p READ_SCANS]
  have db: "desk_db ?d = desk_db d" by (simp add: desk_db_def)
  obtain rows nxt where g: "getScans_rows env p n c (desk_db d) = (rows, nxt)" by fastforce
  note page = page_positions [OF g]
  have "readable_log (desk_rt env) (desk_db d)" using r by (simp add: readable_list_def)
  from attach_succeeds [OF this, of rows] obtain rows' t' where a: "attachFailureReasons (desk_rt env) rows (desk_db d) = (Inr rows', t')"
    and rows': "map (\<lambda>s. s\<lparr>s_failure := None\<rparr>) rows' = map (\<lambda>s. s\<lparr>s_failure := None\<rparr>) rows" and same: "same_list (desk_db d) t'" by blast
  let ?d' = "?d\<lparr>site := on_scans (\<lambda>_. t') (site ?d)\<rparr>"
  have db': "desk_db ?d' = t'" by (simp add: desk_db_def on_scans_def on_db_def)
  have gv: "given cur = (cur \<noteq> None)" using c by (auto simp: given_def split: option.splits)
  have perm: "permitted READ_SCANS p u d = (Inr True, ?d)"
    using known(1) k(2) by (simp add: permitted_def on_site_def on_access_def split_beta prod_eq_iff)
  let ?read = "\<lambda>before. bind_comp (reads (\<lambda>d. getScans_rows env p n before (desk_db d))) (\<lambda>(rows, next).
       bind_comp (on_tables (attachFailureReasons (desk_rt env) rows)) (\<lambda>rows. ret (rows, map_option (encodeScansCursor env) next)))"
  have go: "bind_comp (permitted READ_SCANS p u) f d = f True ?d" for f :: "bool \<Rightarrow> (desk, 'b) comp"
    using perm by (simp add: bind_comp_def)
  have step: "m d = (Inr x, d1) \<Longrightarrow> bind_comp m f d = f x d1" for m f x d1 and d :: desk
    by (simp add: bind_comp_def)
  have "getScans env p (Some u) \<lparr>pg_limit = raw, pg_cursor = cur, pg_active = None\<rparr> d =
      bind_comp (if given cur then bind_comp (of_res (decodeScansCursor env (the cur))) (\<lambda>c. ret (Some c)) else ret None) ?read ?d"
    using u n by (simp add: getScans_def bind_refuse_if signed_in_bind go given_def)
      (simp add: of_res_def bind_comp_def)
  also have "\<dots> = ?read c ?d"
    by (rule step) (use c gv in \<open>auto simp: of_res_def bind_comp_def ret_def split: option.splits\<close>)
  also have "\<dots> = (Inr (rows', map_option (encodeScansCursor env) nxt), ?d')"
    using a g db by (simp add: reads_def bind_comp_def on_tables_def ret_def desk_db_def)
  finally have "getScans env p (Some u) \<lparr>pg_limit = raw, pg_cursor = cur, pg_active = None\<rparr> d =
      (Inr (rows', map_option (encodeScansCursor env) nxt), ?d')" .
  moreover have "map (position env) rows' = map (position env) rows"
  proof -
    have "map (position env) xs = map (position env) (map (\<lambda>s. s\<lparr>s_failure := None\<rparr>) xs)" for xs by (simp add: position_def)
    with rows' show ?thesis by metis
  qed
  moreover have "readable_list env u p ?d'"
  proof -
    have "readable_log (desk_rt env) t'" using r same by (simp add: readable_list_def readable_log_def same_list_def)
    with r known k same_list_positions [OF same] effective_same [OF known(3)] show ?thesis
      by (simp add: readable_list_def desk_db_def on_scans_def on_db_def)
  qed
  ultimately show ?thesis using page(1,2) same_list_positions(1) [OF same] db' by auto
qed

section \<open>The history\<close>

definition page_after :: "desk_env \<Rightarrow> scans_cursor list \<Rightarrow> nat \<Rightarrow> string option" where
  "page_after env xs k = (if length xs \<le> k then None else Some (encodeScansCursor env (xs ! (k - 1))))"

lemma given_page_after:
  assumes "cursor_codec env" "\<forall>c \<in> set xs. proper_cursor c" "0 < k"
  shows "given (page_after env xs k) = (k < length xs)"
proof -
  have "proper_cursor (xs ! (k - 1))" if "k < length xs" using assms(2) that by simp
  with cursor_roundtrip(2) [OF assms(1)] show ?thesis by (auto simp: page_after_def given_def)
qed

text \<open>The page the client asks for once it has \<open>k\<close> rows, and the state that page leaves.\<close>

lemma next_page:
  assumes r: "readable_list env u p d" and u: "u \<noteq> []" "p \<noteq> []" and e: "cursor_codec env"
    and n: "parseScansLimit (if l = 0 then None else Some (show_nat l)) = Inr n" "0 < n"
    and k: "k = 0 \<or> k < length (positions env p (desk_db d))"
  shows "\<exists>rows d'. fetchScansPage env u p l (if k = 0 then None else page_after env (positions env p (desk_db d)) k) False d =
      (Inr (rows, page_after env (positions env p (desk_db d)) (k + n)), d') \<and>
    map (position env) rows = take n (drop k (positions env p (desk_db d))) \<and>
    positions env p (desk_db d') = positions env p (desk_db d) \<and> readable_list env u p d'"
proof -
  let ?xs = "positions env p (desk_db d)" and ?cur = "if k = 0 then None else page_after env (positions env p (desk_db d)) k"
  let ?c = "if k = 0 then None else Some (?xs ! (k - 1))"
  from r have proper: "\<forall>c \<in> set ?xs. proper_cursor c" and dist: "distinct (map s_id (scans (desk_db d)))" by (simp_all add: readable_list_def)
  have "proper_cursor (?xs ! (k - 1))" if "k \<noteq> 0" using proper k that by simp
  then have c: "case ?cur of None \<Rightarrow> ?c = None | Some t \<Rightarrow> given (Some t) \<and> (\<exists>x. ?c = Some x \<and> decodeScansCursor env t = Inr x)"
    using cursor_roundtrip [OF e] k by (auto simp: page_after_def)
  have rest: "after_cursor ?c ?xs = drop k ?xs"
    using after_row [OF descending [OF dist, of env p], of "k - 1"] k by (auto simp: after_cursor_def)
  from page_read [OF r u n(1) c] obtain rows d' where
    run: "getScans env p (Some u) \<lparr>pg_limit = (if l = 0 then None else Some (show_nat l)), pg_cursor = ?cur, pg_active = None\<rparr> d =
      (Inr (rows, map_option (encodeScansCursor env) (if length (drop k ?xs) \<le> n then None else Some (drop k ?xs ! (n - 1)))), d')"
    and rows: "map (position env) rows = take n (drop k ?xs)" "positions env p (desk_db d') = ?xs" "readable_list env u p d'"
    unfolding rest by blast
  have nxt: "map_option (encodeScansCursor env) (if length (drop k ?xs) \<le> n then None else Some (drop k ?xs ! (n - 1))) = page_after env ?xs (k + n)"
    using n(2) k by (auto simp: page_after_def simp del: split_paired_Ex)
  have "given (page_after env ?xs (k + n)) \<or> page_after env ?xs (k + n) = None"
    using given_page_after [OF e proper, of "k + n"] n(2) by (auto simp: page_after_def)
  moreover have "(if given ?cur then ?cur else None) = ?cur"
    using given_page_after [OF e proper, of k] k by (auto simp: given_def)
  ultimately have "fetchScansPage env u p l ?cur False d = (Inr (rows, page_after env ?xs (k + n)), d')"
    using run unfolding nxt by (auto simp: fetchScansPage_def bind_comp_def ret_def)
  with rows show ?thesis by blast
qed

lemma older_pages:
  assumes "readable_list env u p d" "u \<noteq> []" "p \<noteq> []" "cursor_codec env" "0 < k"
  shows "\<exists>rows d'. fetchOlderScans env u p (page_after env (positions env p (desk_db d)) k) pages d =
      (Inr (rows, k + SCANS_PAGE_SIZE * pages < length (positions env p (desk_db d))), d') \<and>
    map (position env) rows = take (SCANS_PAGE_SIZE * pages) (drop k (positions env p (desk_db d)))"
  using assms(1,5)
proof (induction pages arbitrary: d k)
  case 0
  then have "\<forall>c \<in> set (positions env p (desk_db d)). proper_cursor c" by (simp add: readable_list_def)
  with given_page_after [OF assms(4) this 0(2)] show ?case by (simp add: ret_def)
next
  case (Suc pages)
  let ?xs = "positions env p (desk_db d)"
  from Suc.prems have proper: "\<forall>c \<in> set ?xs. proper_cursor c" by (simp add: readable_list_def)
  note g = given_page_after [OF assms(4) proper Suc.prems(2)]
  show ?case
  proof (cases "k < length ?xs")
    case False
    with g show ?thesis by (simp add: ret_def)
  next
    case True
    have n: "parseScansLimit (if SCANS_PAGE_SIZE = 0 then None else Some (show_nat SCANS_PAGE_SIZE)) = Inr SCANS_PAGE_SIZE" "0 < SCANS_PAGE_SIZE"
      by code_simp+
    from next_page [OF Suc.prems(1) assms(2-4) n, of k] True Suc.prems(2) obtain rows d' where
      run: "fetchScansPage env u p SCANS_PAGE_SIZE (page_after env ?xs k) False d = (Inr (rows, page_after env ?xs (k + SCANS_PAGE_SIZE)), d')"
      and rows: "map (position env) rows = take SCANS_PAGE_SIZE (drop k ?xs)" "positions env p (desk_db d') = ?xs" "readable_list env u p d'"
      by auto
    from Suc.IH [OF rows(3), of "k + SCANS_PAGE_SIZE"] Suc.prems(2) obtain more d'' where
      more: "fetchOlderScans env u p (page_after env ?xs (k + SCANS_PAGE_SIZE)) pages d' =
        (Inr (more, k + SCANS_PAGE_SIZE + SCANS_PAGE_SIZE * pages < length ?xs), d'')"
      "map (position env) more = take (SCANS_PAGE_SIZE * pages) (drop (k + SCANS_PAGE_SIZE) ?xs)"
      by (auto simp: rows(2))
    have "fetchOlderScans env u p (page_after env ?xs k) (Suc pages) d =
        (Inr (rows @ more, k + SCANS_PAGE_SIZE * Suc pages < length ?xs), d'')"
      using run more(1) g True by (simp add: bind_comp_def ret_def add.assoc)
    moreover have "map (position env) (rows @ more) = take (SCANS_PAGE_SIZE * Suc pages) (drop k ?xs)"
      using rows(1) more(2) by (simp add: take_add add.commute)
    ultimately show ?thesis by blast
  qed
qed

end
