(* ===== verification/Scans_Writes.thy ===== *)
theory Scans_Writes
  imports Scans_Pages Isolation
begin

text \<open>
  What a user leaves alone of a scan that user may not write: \<open>unwritten\<close> relates the state before a
  history to every state in it, and each request keeps it.
\<close>

section \<open>The part of a scan\<close>

definition writable :: "rbac \<Rightarrow> string \<Rightarrow> string \<Rightarrow> string option \<Rightarrow> bool" where
  "writable A u p owner = (if p = [] then owner = Some u else WRITE_SCANS \<in> effective A p u)"

text \<open>The row of a scan but for the reason of a failure, which readers fill in.\<close>

definition plain_row :: "scans_db \<Rightarrow> string \<Rightarrow> scan_row option" where
  "plain_row t i = map_option (\<lambda>s. s\<lparr>s_failure := None\<rparr>) (getScan t i)"

definition unwritten :: "rbac \<Rightarrow> string \<Rightarrow> desk \<Rightarrow> desk \<Rightarrow> bool" where
  "unwritten A i d0 d =
     (coherent (access (site d)) \<and> tables (access (site d)) = tables A \<and>
      findings (desk_db d) = findings (desk_db d0) \<and> scan_events (desk_db d) = scan_events (desk_db d0) \<and>
      plain_row (desk_db d) i = plain_row (desk_db d0) i \<and> map_of (waf_reports d) i = map_of (waf_reports d0) i \<and>
      (\<forall>f \<in> set (findings (desk_db d0)). f_scan f = i \<longrightarrow> triage_of d (f_id f) = triage_of d0 (f_id f)))"

lemma unwritten_tables:
  assumes "unwritten A i d0 d" "findings t = findings (desk_db d)" "scan_events t = scan_events (desk_db d)" "plain_row t i = plain_row (desk_db d) i"
  shows "unwritten A i d0 (d\<lparr>site := on_scans (\<lambda>_. t) (site d)\<rparr>)"
  using assms by (simp add: unwritten_def desk_db_def on_scans_def on_db_def triage_of_def)

lemma unwritten_on_tables:
  assumes "\<And>t. findings (snd (m t)) = findings t \<and> scan_events (snd (m t)) = scan_events t \<and> plain_row (snd (m t)) i = plain_row t i"
  shows "keeps (unwritten A i d0) (on_tables m)"
  using assms unwritten_tables unfolding keeps_def on_tables_def by (simp add: split_beta)

text \<open>Recording why scans failed.\<close>

definition only_reasons :: "scans_db \<Rightarrow> scans_db \<Rightarrow> bool" where
  "only_reasons t0 t = (findings t = findings t0 \<and> scan_events t = scan_events t0 \<and> (\<forall>i. plain_row t i = plain_row t0 i))"

lemma only_reasons_keep:
  assumes "only_reasons t0 t"
  shows "only_reasons t0 (keep_reasons r c t)"
proof -
  let ?f = "\<lambda>s. if s_id s \<in> set c \<and> s_failure s = None then s\<lparr>s_failure := Some (case map_of r (s_id s) of None \<Rightarrow> UNKNOWN_FAILURE | Some r \<Rightarrow> r)\<rparr> else s"
  have "map_option (\<lambda>s. s\<lparr>s_failure := None\<rparr>) (find (\<lambda>s. s_id s = i) (map ?f xs)) = map_option (\<lambda>s. s\<lparr>s_failure := None\<rparr>) (find (\<lambda>s. s_id s = i) xs)" for i xs
    by (induction xs) auto
  then have "plain_row (t\<lparr>scans := map ?f (scans t)\<rparr>) i = plain_row t i" for i unfolding plain_row_def getScan_def by simp
  with assms show ?thesis by (simp add: only_reasons_def keep_reasons_def update_map)
qed

lemma only_reasons_search: "keeps (only_reasons t0) (search_errors rt chunks)"
proof (induction chunks)
  case (Cons c chunks)
  have b: "keeps (only_reasons t0) (bind_comp (search_errors rt chunks) (\<lambda>more. ret (x @ more)))" for x
    using Cons keeps_ret by (rule keeps_bind)
  have "only_reasons t0 (snd (search_errors rt (c # chunks) t))" if "only_reasons t0 t" for t
    using that keeps_snd [OF b only_reasons_keep [OF that]] by (auto simp: Let_def split: option.split)
  then show ?case by (simp add: keeps_def)
qed (simp add: keeps_ret)

lemma only_reasons_attach: "keeps (only_reasons t0) (attachFailureReasons rt rows)"
proof -
  have "keeps (only_reasons t0) (getFailureReasons rt ids)" for ids
  proof -
    have "keeps (only_reasons t0) (bind_comp (search_errors rt c) (\<lambda>found. ret (x @ found)))" for c x
      by (intro keeps_bind only_reasons_search keeps_ret)
    then show ?thesis by (simp add: keeps_def getFailureReasons_def Let_def)
  qed
  then show ?thesis unfolding attachFailureReasons_def Let_def by (intro keeps_rules)
qed

lemma unwritten_attach: "keeps (unwritten A i d0) (on_tables (attachFailureReasons rt rows))"
proof (rule unwritten_on_tables)
  fix t
  have "only_reasons t t" by (simp add: only_reasons_def)
  from keeps_snd [OF only_reasons_attach this]
  show "findings (snd (attachFailureReasons rt rows t)) = findings t \<and> scan_events (snd (attachFailureReasons rt rows t)) = scan_events t \<and>
    plain_row (snd (attachFailureReasons rt rows t)) i = plain_row t i" by (simp add: only_reasons_def)
qed

section \<open>Checks\<close>

lemma unwritten_permitted: "keeps (unwritten A i d0) (permitted perm p v)"
proof -
  have "unwritten A i d0 (snd (permitted perm p v d))" if "unwritten A i d0 d" for d
  proof -
    from that have "coherent (access (site d))" by (simp add: unwritten_def)
    from desk_permissions.outer.answer(2,3) [OF this, of perm p v] that show ?thesis
      by (simp add: permitted_def on_site_def on_access_def split_beta unwritten_def desk_db_def triage_of_def)
  qed
  then show ?thesis by (simp add: keeps_def)
qed

lemma unwritten_of_res: "keeps P (of_res r)"
  by (simp add: keeps_def of_res_def)

lemma unwritten_row_access: "keeps (unwritten A i d0) (row_access perm env p owner v)"
  unfolding row_access_def by (intro keeps_rules unwritten_permitted [unfolded permitted_def])

lemma unwritten_signed_in: "(\<And>v. keeps (unwritten A i d0) (f v)) \<Longrightarrow> keeps (unwritten A i d0) (if_signed_in env v f)"
  unfolding if_signed_in_def by (intro keeps_rules)

lemma keeps_reads_bind: "(\<And>d. P d \<Longrightarrow> P (snd (f (g d) d))) \<Longrightarrow> keeps P (bind_comp (reads g) f)"
  by (simp add: keeps_def bind_reads)

lemma keeps_found: "(\<And>s. keeps P (f s)) \<Longrightarrow> keeps P (bind_comp (scan_or_404 j) f)"
  unfolding scan_or_404_def by (intro keeps_rules)

lemma unwritten_row:
  assumes "unwritten A i d0 d" "getScan (desk_db d0) i = Some s0" "getScan (desk_db d) i = Some s"
  shows "s_project s = s_project s0 \<and> s_user s = s_user s0"
proof -
  from assms have "s\<lparr>s_failure := None\<rparr> = s0\<lparr>s_failure := None\<rparr>" by (simp add: unwritten_def plain_row_def)
  then have "s_project (s\<lparr>s_failure := None\<rparr>) = s_project (s0\<lparr>s_failure := None\<rparr>)" "s_user (s\<lparr>s_failure := None\<rparr>) = s_user (s0\<lparr>s_failure := None\<rparr>)"
    by metis+
  then show ?thesis by simp
qed

lemma not_permitted:
  assumes k: "unwritten A i d0 d" and n: "WRITE_SCANS \<notin> effective A p u"
  shows "unwritten A i d0 (snd (bind_comp (permitted WRITE_SCANS p u) (\<lambda>ok. if ok then f () else throw e) d))"
proof -
  from k have c: "coherent (access (site d))" "tables (access (site d)) = tables A" by (simp_all add: unwritten_def)
  with n effective_same [OF c(2)] desk_permissions.outer.behind_check [OF c(1), of WRITE_SCANS p u f e] keeps_snd [OF unwritten_permitted k]
  show ?thesis by simp
qed

lemma write_refused:
  assumes "desk_auth env" "u \<noteq> []" and k: "unwritten A i d0 d" and n: "\<not> writable A u p owner"
  shows "unwritten A i d0 (snd (bind_comp (row_access WRITE_SCANS env p owner (Some u)) f d))"
proof (cases "p = []")
  case True
  with n k show ?thesis by (simp add: writable_def row_access_bind [OF assms(1,2)] throw_def)
next
  case False
  with n not_permitted [OF k] show ?thesis by (simp add: writable_def row_access_bind(1) [OF assms(1,2)])
qed

lemma unwritten_checked_scan:
  assumes "desk_auth env" "u \<noteq> []" and s0: "getScan (desk_db d0) i = Some s0" and n: "\<not> writable A u (s_project s0) (s_user s0)"
    and g: "\<And>sc. j \<noteq> i \<Longrightarrow> keeps (unwritten A i d0) (g sc)"
  shows "keeps (unwritten A i d0) (bind_comp (scan_or_404 j) (\<lambda>sc. bind_comp (row_access WRITE_SCANS env (s_project sc) (s_user sc) (Some u)) (\<lambda>_. g sc)))"
proof (cases "j = i")
  case False
  with g show ?thesis by (intro keeps_found keeps_bind unwritten_row_access)
next
  case True
  show ?thesis unfolding True scan_or_404_def bind_assoc
  proof (rule keeps_reads_bind)
    fix d assume k: "unwritten A i d0 d"
    show "unwritten A i d0 (snd (bind_comp (case getScan (desk_db d) i of None \<Rightarrow> throw (Error ''Scan not found|404'') | Some s \<Rightarrow> ret s)
       (\<lambda>sc. bind_comp (row_access WRITE_SCANS env (s_project sc) (s_user sc) (Some u)) (\<lambda>_. g sc)) d))"
    proof (cases "getScan (desk_db d) i")
      case None
      with k show ?thesis by simp (simp add: throw_def)
    next
      case (Some s)
      from unwritten_row [OF k s0 Some] n have "\<not> writable A u (s_project s) (s_user s)" by simp
      from write_refused [OF assms(1,2) k this] Some show ?thesis by simp
    qed
  qed
qed

lemma unwritten_signed_scan:
  assumes "u \<noteq> []" and s0: "getScan (desk_db d0) i = Some s0" and n: "\<not> writable A u (s_project s0) (s_user s0)"
    and g: "\<And>sc. j \<noteq> i \<Longrightarrow> keeps (unwritten A i d0) (g sc)"
  shows "keeps (unwritten A i d0) (bind_comp (scan_or_404 j) (\<lambda>sc. bind_comp (if_signed_in env (Some u) (permitted WRITE_SCANS (s_project sc))) (\<lambda>_. g sc)))"
proof (cases "j = i")
  case False
  with g show ?thesis by (intro keeps_found keeps_bind unwritten_signed_in unwritten_permitted)
next
  case True
  show ?thesis unfolding True scan_or_404_def bind_assoc
  proof (rule keeps_reads_bind)
    fix d assume k: "unwritten A i d0 d"
    show "unwritten A i d0 (snd (bind_comp (case getScan (desk_db d) i of None \<Rightarrow> throw (Error ''Scan not found|404'') | Some s \<Rightarrow> ret s)
       (\<lambda>sc. bind_comp (if_signed_in env (Some u) (permitted WRITE_SCANS (s_project sc))) (\<lambda>_. g sc)) d))"
    proof (cases "getScan (desk_db d) i")
      case None
      with k show ?thesis by simp (simp add: throw_def)
    next
      case (Some s)
      have "WRITE_SCANS \<notin> effective A (s_project s) u"
        using unwritten_row [OF k s0 Some] n by (auto simp: writable_def effective_def isValidId_def split: if_splits)
      from not_permitted [OF k this] Some show ?thesis by (simp add: signed_in_bind [OF assms(1)])
    qed
  qed
qed

section \<open>Writes to other scans\<close>

lemma unwritten_updateScan: "j \<noteq> i \<Longrightarrow> keeps (unwritten A i d0) (on_tables (updateScan j st sm co))"
proof (rule unwritten_on_tables)
  fix t assume "j \<noteq> i"
  then have "getScan (snd (updateScan j st sm co t)) i = getScan t i"
    by (auto simp: updateScan_def Let_def split_beta intro!: getScan_update)
  moreover have "findings (snd (updateScan j st sm co t)) = findings t \<and> scan_events (snd (updateScan j st sm co t)) = scan_events t"
    by (simp add: updateScan_def Let_def update_map)
  ultimately show "findings (snd (updateScan j st sm co t)) = findings t \<and> scan_events (snd (updateScan j st sm co t)) = scan_events t \<and>
    plain_row (snd (updateScan j st sm co t)) i = plain_row t i" by (simp add: plain_row_def)
qed

lemma unwritten_waf: "j \<noteq> i \<Longrightarrow> keeps (unwritten A i d0) (writes (\<lambda>d. if scan_exists (desk_db d) j then d\<lparr>waf_reports := jset j report (waf_reports d)\<rparr> else d))"
  by (rule keeps_writes) (simp add: unwritten_def desk_db_def triage_of_def)

text \<open>Findings of other scans: the id of a finding is a key.\<close>

lemma unwritten_set_triage:
  assumes "unwritten A i d0 d" "distinct (map f_id (findings (desk_db d0)))" "x \<in> set (findings (desk_db d))" "f_scan x \<noteq> i"
  shows "unwritten A i d0 (set_triage (f_id x) cols d)"
proof -
  have "triage_of (set_triage (f_id x) cols d) (f_id y) = triage_of d (f_id y)" if "y \<in> set (findings (desk_db d0))" "f_scan y = i" for y
  proof -
    have "findings (desk_db d) = findings (desk_db d0)" using assms(1) by (simp add: unwritten_def)
    with assms(2-4) that have "f_id y \<noteq> f_id x" by (auto simp: distinct_map inj_on_def)
    then show ?thesis by (simp add: set_triage_def triage_of_def)
  qed
  with assms(1) show ?thesis by (simp add: unwritten_def) (simp add: set_triage_def desk_db_def)
qed

lemma unwritten_tell: "unwritten A i d0 d \<Longrightarrow> unwritten A i d0 (tell_triaged f d)"
proof -
  assume k: "unwritten A i d0 d"
  have "unwritten A i d0 (d\<lparr>site := on_scans (fire a b c) (site d)\<rparr>)" for a b c
    using k by (simp add: unwritten_def desk_db_def on_scans_def on_db_def triage_of_def fire_def plain_row_def getScan_def)
  with k show ?thesis by (simp add: tell_triaged_def split: option.split prod.split)
qed

lemma unwritten_updateFinding:
  assumes k: "unwritten A i d0 d" and dist: "distinct (map f_id (findings (desk_db d0)))"
    and x: "find (\<lambda>x. f_id x = f) (findings (desk_db d)) = Some x" "f_scan x \<noteq> i"
  shows "unwritten A i d0 (snd (updateFinding env f body d))"
proof -
  from find_Some [OF x(1)] have m: "x \<in> set (findings (desk_db d))" "f_id x = f" by auto
  have "unwritten A i d0 (set_triage f cols d)" for cols using unwritten_set_triage [OF k dist m(1) x(2), of cols] m(2) by simp
  with k show ?thesis unfolding updateFinding_def Let_def by (auto intro: unwritten_tell split: option.split)
qed

lemma details_of:
  "getFindingDetails f d = Some (v, sc) \<Longrightarrow> \<exists>x. find (\<lambda>x. f_id x = f) (findings (desk_db d)) = Some x \<and> fst v = x \<and> getScan (desk_db d) (f_scan x) = Some sc"
  by (auto simp: getFindingDetails_def mapFindingRow_def split: option.splits)

lemma same_part: "unwritten A i d0 d \<Longrightarrow> unwritten A i d0 d1 \<Longrightarrow> findings (desk_db d1) = findings (desk_db d)"
  by (simp add: unwritten_def)

lemma unwritten_updateFinding_as:
  assumes "desk_auth env" "u \<noteq> []" and s0: "getScan (desk_db d0) i = Some s0" and n: "\<not> writable A u (s_project s0) (s_user s0)"
    and dist: "distinct (map f_id (findings (desk_db d0)))"
  shows "keeps (unwritten A i d0) (updateFinding_as env f body (Some u))"
  unfolding updateFinding_as_def finding_or_404_def bind_assoc checkScanWriteAccess_def
proof (rule keeps_reads_bind)
  fix d assume k: "unwritten A i d0 d"
  let ?g = "\<lambda>(v, sc). bind_comp (row_access WRITE_SCANS env (s_project sc) (s_user sc) (Some u)) (\<lambda>_. updateFinding env f body)"
  show "unwritten A i d0 (snd (bind_comp (case getFindingDetails f d of None \<Rightarrow> throw (Error ''Finding not found|404'') | Some x \<Rightarrow> ret x) ?g d))"
  proof (cases "getFindingDetails f d")
    case None
    with k show ?thesis by simp (simp add: throw_def)
  next
    case (Some r)
    obtain v sc where r: "r = (v, sc)" by fastforce
    from details_of [OF Some [unfolded r]] obtain x where x: "find (\<lambda>x. f_id x = f) (findings (desk_db d)) = Some x"
      and sc: "getScan (desk_db d) (f_scan x) = Some sc" by blast
    have "unwritten A i d0 (snd (?g (v, sc) d))"
    proof (cases "f_scan x = i")
      case True
      from unwritten_row [OF k s0 sc [unfolded True]] n have "\<not> writable A u (s_project sc) (s_user sc)" by simp
      from write_refused [OF assms(1,2) k this] show ?thesis by simp
    next
      case False
      obtain a d1 where a: "row_access WRITE_SCANS env (s_project sc) (s_user sc) (Some u) d = (a, d1)" by fastforce
      from keepsD [OF unwritten_row_access k a] have k1: "unwritten A i d0 d1" .
      from unwritten_updateFinding [OF k1 dist, of f x] x False k1 same_part [OF k k1] a show ?thesis
        by (cases a) (simp_all add: bind_comp_def)
    qed
    with Some r show ?thesis by simp
  qed
qed

lemma unwritten_items:
  assumes "unwritten A i d0 d" "distinct (map f_id (findings (desk_db d0)))" "j \<noteq> i"
  shows "unwritten A i d0 (fold (\<lambda>(fid, cols) d. if list_ex (\<lambda>f. f_id f = fid \<and> f_scan f = j) (findings (desk_db d)) then set_triage fid cols d else d) items d)"
  using assms(1)
proof (induction items arbitrary: d)
  case (Cons it items)
  obtain fid cols where it: "it = (fid, cols)" by fastforce
  have "unwritten A i d0 (if list_ex (\<lambda>f. f_id f = fid \<and> f_scan f = j) (findings (desk_db d)) then set_triage fid cols d else d)"
    using unwritten_set_triage [OF Cons.prems assms(2)] assms(3) Cons.prems by (auto simp: list_ex_iff)
  from Cons.IH [OF this] it show ?case by simp
qed simp

lemma unwritten_batch:
  assumes "distinct (map f_id (findings (desk_db d0)))" "j \<noteq> i"
  shows "keeps (unwritten A i d0) (batchUpdateFindingsAI env j us)"
  unfolding batchUpdateFindingsAI_def
  by (intro keeps_rules unwritten_of_res keeps_writes unwritten_items [OF _ assms])

lemma unwritten_count: "keeps (unwritten A i d0) (count_analysis b c v)"
  by (auto simp: keeps_def count_analysis_def Let_def unwritten_def desk_db_def triage_of_def)

lemma unwritten_counted:
  assumes k: "unwritten A i d0 d" and "distinct (map f_id (findings (desk_db d0)))"
    and x: "find (\<lambda>x. f_id x = f) (findings (desk_db d)) = Some x" "f_scan x \<noteq> i"
  shows "unwritten A i d0 (snd (bind_comp (count_analysis hc kf w) (\<lambda>_. bind_comp (updateFinding env f body) (\<lambda>updated. ret (updated, y))) d))"
proof -
  obtain a d1 where a: "count_analysis hc kf w d = (a, d1)" by fastforce
  from keepsD [OF unwritten_count k a] have k1: "unwritten A i d0 d1" .
  have "unwritten A i d0 (snd (updateFinding env f body d1))"
    using unwritten_updateFinding [OF k1 assms(2), of f x] x same_part [OF k k1] by simp
  then have "unwritten A i d0 (snd (bind_comp (updateFinding env f body) (\<lambda>updated. ret (updated, y)) d1))"
    by (cases "updateFinding env f body d1") (auto simp: bind_comp_def ret_def split: sum.split)
  with k1 a show ?thesis by (cases a) (simp_all add: bind_comp_def)
qed

lemma unwritten_analyze:
  assumes dist: "distinct (map f_id (findings (desk_db d0)))" and "j \<noteq> i"
  shows "keeps (unwritten A i d0) (analyzeFindingWithAI env ai hc kf ip j f ctx (Some u))"
  unfolding analyzeFindingWithAI_def checkRowAccess_def
proof (rule keeps_found, rule keeps_bind, rule unwritten_row_access, rule keeps_reads_bind)
  fix sc d assume k: "unwritten A i d0 d"
  let ?g = "\<lambda>row. case row of None \<Rightarrow> throw (Error ''Finding not found|404'')
     | Some ((x, cols), _) \<Rightarrow> bind_comp (refuse_if (f_scan x \<noteq> j) ''Finding not found|404'') (\<lambda>_.
         bind_comp (count_analysis hc kf (if given (Some u) then the (Some u) else if given ip then the ip else ''anonymous'')) (\<lambda>_.
         let a = ai (x, cols) (s_target sc) ctx in
         bind_comp (updateFinding env f (analysis_fields a)) (\<lambda>updated. ret (updated, a))))"
  show "unwritten A i d0 (snd (?g (getFindingDetails f d) d))"
  proof (cases "getFindingDetails f d")
    case None
    with k show ?thesis by simp (simp add: throw_def)
  next
    case (Some r)
    obtain x cols s where r: "r = ((x, cols), s)" by (metis surj_pair)
    from details_of [OF Some [unfolded r]] have x: "find (\<lambda>x. f_id x = f) (findings (desk_db d)) = Some x" by simp
    have run: "?g (getFindingDetails f d) d = (if f_scan x \<noteq> j then (Inl (Error ''Finding not found|404''), d)
      else bind_comp (count_analysis hc kf (if given (Some u) then the (Some u) else if given ip then the ip else ''anonymous'')) (\<lambda>_.
         bind_comp (updateFinding env f (analysis_fields (ai (x, cols) (s_target sc) ctx))) (\<lambda>updated. ret (updated, ai (x, cols) (s_target sc) ctx))) d)"
      unfolding Some r option.case prod.case bind_refuse_if Let_def throw_def by (rule if_distribR)
    show ?thesis unfolding run using k assms(2) by (cases "f_scan x = j") (simp_all add: unwritten_counted [OF k dist x])
  qed
qed

section \<open>Requests\<close>

text \<open>
  A report is put with a grant of its own, and an analysis writes the triage of a finding for any
  reader of its scan; everything else asks for the right to write.
\<close>

fun asks_to_write :: "string \<Rightarrow> desk_request \<Rightarrow> bool" where
  "asks_to_write i (Upload_report j token has_body fails) = False"
| "asks_to_write i (Analyze_finding hc kf ip j f ctx) = (j \<noteq> i)"
| "asks_to_write i r = True"

lemma keeps_answers: "keeps P m \<Longrightarrow> keeps P (answers f m)"
  unfolding answers_def by (intro keeps_bind keeps_ret)

lemma keeps_pair: "(\<And>a b. keeps P (f a b)) \<Longrightarrow> keeps P (case p of (a, b) \<Rightarrow> f a b)"
  by (cases p) simp

lemma keeps_log: "keeps P m \<Longrightarrow> (\<And>x. keeps P (g x)) \<Longrightarrow> keeps P (case o1 of None \<Rightarrow> m | Some x \<Rightarrow> g x)"
  by (cases o1) simp_all

lemma unwritten_reading:
  "keeps (unwritten A i d0) (getScan_as env j v)" "keeps (unwritten A i d0) (getScans env p v q)" "keeps (unwritten A i d0) (getRunnerLogs_as env j v)"
  "keeps (unwritten A i d0) (getFindings_as env j v)" "keeps (unwritten A i d0) (getFindingDetails_as env f v)"
  unfolding getScan_as_def getScans_def getRunnerLogs_as_def getFindings_as_def getFindingDetails_as_def finding_or_404_def checkRowAccess_def
  by (intro keeps_found keeps_rules keeps_pair keeps_log unwritten_signed_in unwritten_permitted unwritten_attach unwritten_of_res unwritten_row_access)+

lemma unwritten_handle:
  assumes "desk_auth env" "u \<noteq> []" and s0: "getScan (desk_db d0) i = Some s0" and n: "\<not> writable A u (s_project s0) (s_user s0)"
    and dist: "distinct (map f_id (findings (desk_db d0)))" and r: "asks_to_write i r"
  shows "keeps (unwritten A i d0) (desk_handle env ai (Some u) r)"
proof (cases r)
  case (Update_scan j body)
  then show ?thesis
    by (simp add: updateScan_as_def) (intro keeps_answers unwritten_signed_scan [OF assms(2) s0 n] unwritten_updateScan)
next
  case (Upload_url j)
  then show ?thesis
    by (simp add: generateUploadUrl_def) (intro keeps_answers unwritten_signed_scan [OF assms(2) s0 n] keeps_rules)
next
  case (Update_finding f body)
  then show ?thesis by (simp, intro keeps_answers unwritten_updateFinding_as [OF assms(1,2) s0 n dist])
next
  case (Triage_findings j us)
  then show ?thesis
    by (simp add: batchUpdateFindingsAI_as_def checkScanWriteAccess_def)
      (intro keeps_answers unwritten_checked_scan [OF assms(1,2) s0 n] unwritten_batch [OF dist])
next
  case (Save_patches j report)
  then show ?thesis
    by (simp add: saveWAFPatchReport_as_def checkScanWriteAccess_def)
      (intro keeps_answers unwritten_checked_scan [OF assms(1,2) s0 n] unwritten_waf)
next
  case (Analyze_finding hc kf ip j f ctx)
  with r show ?thesis by (simp, intro keeps_answers unwritten_analyze [OF dist])
qed (use r in \<open>simp_all add: keeps_answers unwritten_reading\<close>)

end
