(* ===== verification/Desk_Claims.thy ===== *)
theory Desk_Claims
  imports Scans_History Scans_Writes Worker_Claims
begin

text \<open>What users are promised of scans, findings and reports, with runs on a small deployment.\<close>

section \<open>A deployment\<close>

definition parse_exp :: "string \<Rightarrow> int" where
  "parse_exp t = (if take 1 t = ''-'' then - int (dec_val (drop 1 t)) else int (dec_val t))"

lemma parse_exp_show: "parse_exp (show_int n) = n"
proof -
  have "take 1 (nat_digits m) \<noteq> ''-''" for m
  proof
    assume "take 1 (nat_digits m) = ''-''"
    then have "CHR ''-'' \<in> set (nat_digits m)" by (metis in_set_takeD list.set_intros(1))
    then have "is_digit (CHR ''-'')" by (rule nat_digits_is_digit)
    then show False by code_simp
  qed
  then show ?thesis by (simp add: parse_exp_def show_int_def dec_val_nat_digits)
qed

definition upload_grant :: "string \<Rightarrow> int \<Rightarrow> upload_claims" where
  "upload_grant i t = \<lparr>uc_purpose = Some ''upload'', uc_scan = Some i, uc_key = reportKeyForScan i, uc_exp = t\<rparr>"

definition demo_sign :: "string \<Rightarrow> upload_claims \<Rightarrow> string" where
  "demo_sign k c = show_int (uc_exp c) @ '':'' @ (case uc_scan c of None \<Rightarrow> [] | Some i \<Rightarrow> i)"

definition demo_verify :: "string \<Rightarrow> string \<Rightarrow> int \<Rightarrow> token_check" where
  "demo_verify k t time = (let e = parse_exp (takeWhile (\<lambda>c. c \<noteq> CHR '':'') t)
     in if e \<le> time then Token_expired else Verified (upload_grant (drop 1 (dropWhile (\<lambda>c. c \<noteq> CHR '':'') t)) e))"

definition pair_bytes :: "json \<Rightarrow> 8 word list" where
  "pair_bytes v = (case v of JArr [JStr a, JStr b] \<Rightarrow> [91, 34] @ map of_nat a @ [34, 44, 34] @ map of_nat b @ [34, 93] | _ \<Rightarrow> [])"

definition bytes_pair :: "8 word list \<Rightarrow> json option" where
  "bytes_pair bs = (let t = drop 2 bs; a = takeWhile (\<lambda>b. b \<noteq> 34) t; r = drop 3 (dropWhile (\<lambda>b. b \<noteq> 34) t)
     in Some (JArr [JStr (map unat a), JStr (map unat (takeWhile (\<lambda>b. b \<noteq> 34) r))]))"

definition desk_a_env :: desk_env where
  "desk_a_env = \<lparr>d_env = demo_worker_env\<lparr>obj_env := demo_env\<lparr>env.JWT_SECRET := Some ''k''\<rparr>\<rparr>,
     sign_upload = demo_sign, verify_upload = demo_verify, sql_time = (\<lambda>t. ''2026-01-01 00:00:'' @ show_int t),
     json_bytes = pair_bytes, bytes_json = bytes_pair, column_value = Some\<rparr>"

text \<open>Project \<open>p1\<close> with its scans, and a scan of \<open>cas\<close> outside of projects, whose state is given.\<close>

definition private_scan :: "string \<Rightarrow> scan_row" where
  "private_scan status = (demo_scan ''runp'' ''cas'' status)\<lparr>s_project := []\<rparr>"

definition desk_a :: "string \<Rightarrow> desk" where
  "desk_a status = \<lparr>site = new_worker ann_accounts demo [] (demo_tables\<lparr>scans := private_scan status # scans demo_tables\<rparr>) 1000000,
     triage = [], waf_reports = [], ai_counts = []\<rparr>"

definition no_analysis :: "finding_view \<Rightarrow> ustring \<Rightarrow> json option \<Rightarrow> analysis" where
  "no_analysis v t c = \<lparr>an_explanation = JNull, an_remediation = JNull, an_relevance = JNull, an_confidence = JNull, an_patch = JNull\<rparr>"

section \<open>Privacy\<close>

fun desk_answers :: "desk_env \<Rightarrow> (finding_view \<Rightarrow> ustring \<Rightarrow> json option \<Rightarrow> analysis) \<Rightarrow> string option \<Rightarrow> desk_request list \<Rightarrow>
    desk \<Rightarrow> (js_error + answer) list \<times> desk" where
  "desk_answers env ai u [] d = ([], d)"
| "desk_answers env ai u (r # rs) d =
     (let (a, d1) = desk_handle env ai u r d; (as, d2) = desk_answers env ai u rs d1 in (a # as, d2))"

text \<open>
  C2. What a user is told of scans depends on the scans that user may see only. Take two states of the
  whole system that differ in nothing the user may see: scans outside of projects that belong to
  others and scans of projects where the user holds neither scan permission may have any state,
  configuration, log, findings, triage and reports. With authentication on, every sequence of
  requests of that user, reading and writing, is answered the same in both, errors included, and
  leaves states that again differ in nothing the user may see.
\<close>

theorem scans_are_private:
  assumes "desk_auth env" "u \<noteq> []" "same_for (access (site d)) u d d'"
  shows "fst (desk_answers env ai (Some u) rs d) = fst (desk_answers env ai (Some u) rs d') \<and>
    same_for (access (site d)) u (snd (desk_answers env ai (Some u) rs d)) (snd (desk_answers env ai (Some u) rs d'))"
proof -
  have "fst (desk_answers env ai (Some u) rs x) = fst (desk_answers env ai (Some u) rs y) \<and>
      same_for A u (snd (desk_answers env ai (Some u) rs x)) (snd (desk_answers env ai (Some u) rs y))"
    if "same_for A u x y" for A x y
    using that
  proof (induction rs arbitrary: x y)
    case (Cons r rs)
    from agree_handle [OF assms(1,2), of A ai r] Cons.prems
    have e: "fst (desk_handle env ai (Some u) r x) = fst (desk_handle env ai (Some u) r y)"
      and s: "same_for A u (snd (desk_handle env ai (Some u) r x)) (snd (desk_handle env ai (Some u) r y))"
      unfolding runs_agree_def by blast+
    from Cons.IH [OF s] e show ?case by (simp add: split_beta)
  qed simp
  from this [OF assms(3)] show ?thesis .
qed

lemma desk_a_same: "same_for demo ''bob'' (desk_a ''running'') (desk_a s)"
proof -
  have hid: "\<not> visible demo ''bob'' [] (Some ''cas'')" by (simp add: visible_def)
  have "coherent demo" using demo_sound by (simp add: sound_def)
  then show ?thesis
    using hid by (simp add: same_for_def desk_a_def desk_db_def new_worker_def new_object_def like_tables_def like_scan_def
      visible_scan_def demo_tables_def private_scan_def demo_scan_def triage_of_def)
qed

text \<open>Bob asks for a scan of \<open>cas\<close> and for the log of his own: nothing tells him how \<open>cas\<close>'s scan fares.\<close>

theorem scans_are_private_witness:
  "fst (desk_answers desk_a_env no_analysis (Some ''bob'') [Get_scan ''runp'', Get_logs ''run2''] (desk_a ''running'')) =
   fst (desk_answers desk_a_env no_analysis (Some ''bob'') [Get_scan ''runp'', Get_logs ''run2''] (desk_a ''failed'')) \<and>
   fst (desk_answers desk_a_env no_analysis (Some ''bob'') [Get_scan ''runp'', Get_logs ''run2''] (desk_a ''failed'')) =
     [Inl (Error ''Forbidden|403''), Inr (Logs_answer [])]"
proof
  have a: "desk_auth desk_a_env" by code_simp
  have d: "access (site (desk_a ''running'')) = demo" by (simp add: desk_a_def new_worker_def)
  from scans_are_private [OF a, of "''bob''" "desk_a ''running''" "desk_a ''failed''" no_analysis "[Get_scan ''runp'', Get_logs ''run2'']"]
  show "fst (desk_answers desk_a_env no_analysis (Some ''bob'') [Get_scan ''runp'', Get_logs ''run2''] (desk_a ''running'')) =
   fst (desk_answers desk_a_env no_analysis (Some ''bob'') [Get_scan ''runp'', Get_logs ''run2''] (desk_a ''failed''))"
    using desk_a_same unfolding d by simp
qed code_simp

section \<open>Integrity\<close>


text \<open>Bob, an editor, writes his project's \<open>run1\<close>; the scan of \<open>cas\<close> outside of it he cannot.\<close>

definition bob_asks :: "desk_request list" where
  "bob_asks = [Update_scan ''run1'' \<lparr>sf_status = Some ''failed'', sf_summary = None, sf_completed = None\<rparr>,
     Update_scan ''runp'' \<lparr>sf_status = Some ''failed'', sf_summary = None, sf_completed = None\<rparr>, Save_patches ''runp'' JNull]"


section \<open>The history\<close>


text \<open>Ann reads the history of \<open>p1\<close>: three scans of the same second, by their ids.\<close>

lemma no_quote: "list_all P s \<Longrightarrow> \<not> P (CHR 0x22) \<Longrightarrow> 34 \<notin> set (units s)"
proof
  assume a: "list_all P s" "\<not> P (CHR 0x22)" "34 \<in> set (units s)"
  then obtain x where x: "x \<in> set s" "of_char x = (34 :: nat)" by (auto simp: units_def)
  then have "x = char_of (34 :: nat)" by (metis char_of_char)
  also have "\<dots> = CHR 0x22" by code_simp
  finally show False using a(1,2) x(1) by (simp add: list_all_iff)
qed

lemma desk_a_codec: "cursor_codec desk_a_env"
  unfolding cursor_codec_def
proof (intro allI impI)
  fix c assume c: "proper_cursor c"
  have char: "unat (word_of_nat (of_char x) :: 8 word) = of_char x" for x :: char
    by (simp add: unat_of_nat take_bit_nat_eq_self)
  then have of: "map unat (map of_nat (units s) :: 8 word list) = units s" for s by (simp add: units_def)
  have plain: "(34 :: 8 word) \<notin> set (map of_nat (units s))" if "34 \<notin> set (units s)" for s
  proof
    assume "(34 :: 8 word) \<in> set (map of_nat (units s))"
    then have "unat (34 :: 8 word) \<in> set (map unat (map of_nat (units s) :: 8 word list))" by force
    with that show False unfolding of by simp
  qed
  have tw: "takeWhile (\<lambda>b. b \<noteq> 34) (map of_nat (units s) @ 34 # r) = map of_nat (units s)"
    "dropWhile (\<lambda>b. b \<noteq> 34) (map of_nat (units s) @ 34 # r) = 34 # r"
    if "34 \<notin> set (units s)" for s and r :: "8 word list"
    using plain [OF that] by (subst takeWhile_append2 dropWhile_append2; auto)+
  have "\<not> created_char (CHR 0x22)" "\<not> id_char (CHR 0x22)" by code_simp+
  with c have q: "34 \<notin> set (units (fst c))" "34 \<notin> set (units (snd c))"
    by (auto simp: proper_cursor_def created_text_def isValidId_def dest: no_quote)
  show "bytes_json desk_a_env (json_bytes desk_a_env (cursor_json c)) = Some (cursor_json c) \<and>
      length (json_bytes desk_a_env (cursor_json c)) = length (fst c) + length (snd c) + 7"
    by (simp add: desk_a_env_def pair_bytes_def bytes_pair_def cursor_json_def tw [OF q(1)] tw [OF q(2)] Let_def)
       (simp add: units_def char)
qed

lemma desk_a_readable: "readable_list desk_a_env ''ann'' ''p1'' (desk_a s)"
proof -
  have "coherent (access (site (desk_a s)))" using demo_sound by (simp add: sound_def desk_a_def new_worker_def)
  moreover have "READ_SCANS \<in> effective (access (site (desk_a s))) ''p1'' ''ann''"
  proof -
    have "coherent demo" using demo_sound by (simp add: sound_def)
    moreover have "fst (checkPermission ''ann'' ''p1'' READ_SCANS demo) = Inr True" by code_simp
    ultimately have "READ_SCANS \<in> effective demo ''p1'' ''ann''" using permission_known(1) [of demo demo] by simp
    then show ?thesis by (simp add: desk_a_def new_worker_def)
  qed
  moreover have "distinct (map s_id (scans (desk_db (desk_a s))))"
    by (simp add: desk_a_def desk_db_def new_worker_def new_object_def demo_tables_def private_scan_def demo_scan_def)
  moreover have "\<forall>c \<in> set (positions desk_a_env ''p1'' (desk_db (desk_a s))). proper_cursor c"
  proof -
    have "list_all proper_cursor (map (position desk_a_env) (scans demo_tables))" by code_simp
    then show ?thesis
      by (auto simp: positions_sorted list_all_iff desk_a_def desk_db_def new_worker_def new_object_def private_scan_def)
  qed
  moreover have "readable_log (desk_rt desk_a_env) (desk_db (desk_a s))"
    by (simp add: readable_log_def desk_a_def desk_db_def new_worker_def new_object_def demo_tables_def)
  ultimately show ?thesis by (simp add: readable_list_def)
qed


section \<open>Reports\<close>

text \<open>
  What the code relies on of \<open>hono/jwt\<close>: a token is not empty, and it is read back by the same secret
  until its time, and refused after it.
\<close>

definition upload_tokens :: "desk_env \<Rightarrow> bool" where
  "upload_tokens env = (\<forall>k i t now_s. sign_upload env k (upload_grant i t) \<noteq> [] \<and>
     (now_s < t \<longrightarrow> verify_upload env k (sign_upload env k (upload_grant i t)) now_s = Verified (upload_grant i t)) \<and>
     (t \<le> now_s \<longrightarrow> verify_upload env k (sign_upload env k (upload_grant i t)) now_s = Token_expired))"

lemma permitted_run:
  "permitted perm p v d = (Inr b, d') \<longleftrightarrow> fst (checkPermission v p perm (access (site d))) = Inr b \<and>
     d' = d\<lparr>site := (site d)\<lparr>access := snd (checkPermission v p perm (access (site d)))\<rparr>\<rparr>"
  by (auto simp: permitted_def on_site_def on_access_def split_beta)

lemma signed_in_run: "v \<noteq> [] \<Longrightarrow> if_signed_in env (Some v) allowed d = (Inr (), e) \<longleftrightarrow> allowed v d = (Inr True, e)"
  by (auto simp: if_signed_in_def given_def run_simps)

lemma grant_given:
  assumes "generateUploadUrl env i u d = (Inr tok, d1)"
  shows "\<exists>s. getScan (desk_db d) i = Some s \<and> given (env.JWT_SECRET (obj_env (d_env env))) \<and>
    tok = sign_upload env (the (env.JWT_SECRET (obj_env (d_env env)))) (upload_grant i (worker_now (site d) + UPLOAD_SECONDS)) \<and>
    (desk_auth env \<longrightarrow> (\<exists>v. u = Some v \<and> v \<noteq> [] \<and> fst (checkPermission v (s_project s) WRITE_SCANS (access (site d))) = Inr True))"
proof -
  from assms obtain s e1 where s: "getScan (desk_db d) i = Some s"
    and e: "if_signed_in env u (permitted WRITE_SCANS (s_project s)) d = (Inr (), e1)"
    and k: "given (env.JWT_SECRET (obj_env (d_env env)))"
    and t: "tok = sign_upload env (the (env.JWT_SECRET (obj_env (d_env env)))) (upload_grant i (worker_now (site e1) + UPLOAD_SECONDS))"
    by (auto simp: generateUploadUrl_def scan_or_404_def run_simps upload_grant_def throw_def split: option.splits)
  have "worker_now (site e1) = worker_now (site d)"
    using e by (auto simp: if_signed_in_def run_simps permitted_run throw_def worker_now_def split: if_splits)
  moreover have "\<exists>v. u = Some v \<and> v \<noteq> [] \<and> fst (checkPermission v (s_project s) WRITE_SCANS (access (site d))) = Inr True" if "desk_auth env"
  proof -
    have g: "given u" using e that by (cases "given u") (auto simp: if_signed_in_def throw_def)
    then obtain v where v: "u = Some v" "v \<noteq> []" by (auto simp: given_def)
    from e have "permitted WRITE_SCANS (s_project s) v d = (Inr True, e1)" unfolding v(1) signed_in_run [OF v(2)] .
    then have "fst (checkPermission v (s_project s) WRITE_SCANS (access (site d))) = Inr True"
      by (rule permitted_run [THEN iffD1, THEN conjunct1])
    then show ?thesis by (intro exI conjI) (rule v(1), rule v(2))
  qed
  ultimately show ?thesis using s k t by (intro exI [of _ s]) (simp only: simp_thms, rule impI)
qed

lemma upload_answer:
  assumes "upload_tokens env" "given (env.JWT_SECRET (obj_env (d_env env)))"
  shows "uploadReport env j (Some (sign_upload env (the (env.JWT_SECRET (obj_env (d_env env)))) (upload_grant i t))) has_body fails e =
    (if t \<le> worker_now (site e) then (Inl (Error ''Upload token expired|401''), e)
     else if i \<noteq> j then (Inl (Error ''Token does not match this scan|403''), e)
     else if \<not> has_body then (Inl (Error ''Empty body|400''), e)
     else if fails then (Inl (Error ''Invalid upload token|403''), e)
     else (Inr (reportKeyForScan i), put_report i (reportKeyForScan i) e))"
proof -
  let ?k = "the (env.JWT_SECRET (obj_env (d_env env)))" and ?t = "sign_upload env (the (env.JWT_SECRET (obj_env (d_env env)))) (upload_grant i t)"
  from assms(1) have "?t \<noteq> []" and v: "verify_upload env ?k ?t (worker_now (site e)) =
      (if t \<le> worker_now (site e) then Token_expired else Verified (upload_grant i t))"
    unfolding upload_tokens_def by auto
  then have g: "given (Some ?t)" by (simp add: given_def)
  show ?thesis using g assms(2) by (simp add: uploadReport_def bind_refuse_if accept_upload_def v) (simp add: upload_grant_def)
qed

lemma put_report_only:
  "m \<noteq> i \<Longrightarrow> getScan (desk_db (put_report i k d)) m = getScan (desk_db d) m"
  "getScan (desk_db (put_report i k d)) i = map_option (\<lambda>s. s\<lparr>s_report := Some k\<rparr>) (getScan (desk_db d) i)"
  "map_of (r2 (object (site (put_report i k d)))) l = (if l = k then Some Broken else map_of (r2 (object (site d))) l)"
proof -
  let ?f = "\<lambda>s. if s_id s = i then s\<lparr>s_report := Some k\<rparr> else s"
  have t: "desk_db (put_report i k d) = desk_db d\<lparr>scans := map ?f (scans (desk_db d))\<rparr>"
    by (simp add: put_report_def desk_db_def on_scans_def on_db_def updateScanReportUrl_def update_map)
  have "find (\<lambda>s. s_id s = m) (map ?f xs) = map_option ?f (find (\<lambda>s. s_id s = m) xs)" for m xs by (induction xs) auto
  then have f: "getScan (desk_db (put_report i k d)) m = map_option ?f (getScan (desk_db d) m)" for m by (simp add: t getScan_def)
  show "m \<noteq> i \<Longrightarrow> getScan (desk_db (put_report i k d)) m = getScan (desk_db d) m"
    unfolding f by (cases "getScan (desk_db d) m") (auto dest: getScan_id)
  show "getScan (desk_db (put_report i k d)) i = map_option (\<lambda>s. s\<lparr>s_report := Some k\<rparr>) (getScan (desk_db d) i)"
    unfolding f by (cases "getScan (desk_db d) i") (auto dest: getScan_id)
  show "map_of (r2 (object (site (put_report i k d)))) l = (if l = k then Some Broken else map_of (r2 (object (site d))) l)"
    by (simp add: put_report_def on_scans_def on_db_def)
qed


lemma takeWhile_colon: "CHR '':'' \<notin> set a \<Longrightarrow> takeWhile (\<lambda>c. c \<noteq> CHR '':'') (a @ CHR '':'' # r) = a"
  "CHR '':'' \<notin> set a \<Longrightarrow> dropWhile (\<lambda>c. c \<noteq> CHR '':'') (a @ CHR '':'' # r) = CHR '':'' # r"
  by (induction a) auto

lemma desk_a_tokens: "upload_tokens desk_a_env"
proof -
  have "CHR '':'' \<notin> set (nat_digits m)" for m using nat_digits_is_digit [of "CHR '':''" m] by (auto simp: is_digit_def)
  then have "CHR '':'' \<notin> set (show_int n)" for n by (simp add: show_int_def)
  then show ?thesis
    by (simp add: upload_tokens_def desk_a_env_def demo_sign_def demo_verify_def upload_grant_def takeWhile_colon parse_exp_show Let_def)
qed


end
