(* ===== verification/Spec2Isabelle.thy ===== *)
theory Spec2Isabelle
  imports Rbac_Claims Dispatch_Claims Version_Order Auth_Claims Totp_Claims Worker_Claims Schedule_Claims Gateway_Claims
    Desk_Claims
begin

text \<open>
  Verification library of swazz: the edge service that owns the accounts, projects, permissions, scans
  and runner connections of the product. File names below are relative to \<open>src/packages/edge/src\<close>.

  \<^bold>\<open>The program and its model.\<close> swazz fuzzes web APIs. Its TypeScript half is a Cloudflare Worker with
  an SQL database (D1), an object store (R2), a cache (KV), a queue and one Durable Object, the
  coordinator, which holds the sockets of runners (the Go engine, the other half) and of users.
  A request passes the gate (\<open>index.ts\<close>, \<open>utils/auth.ts\<close>, \<open>utils/csrf.ts\<close>), a route and a service, which
  checks permissions with the RBAC repository and reads and writes tables. A scan is started by
  \<open>services/runners.ts\<close> or \<open>services/scans.ts\<close>: a row, a configuration in R2, a message in the queue. The
  queue's consumer hands it to the coordinator, which picks a runner the scan may run on, sends the
  job, and takes the runner's events, by way of a delivery tracker and a batching consumer, into the
  tables. What runs at the same time is an argument or a step of the model: coordinator requests
  interleave with a dispatch pass at each of its awaits, deliveries come in any order and again, and
  the Durable Object may lose its memory between any two events.

  Data are records and datatypes with the code's fields; a table is a list of rows and a statement a
  function on it; code that may throw is a computation \<open>('s, 'a) comp\<close> from \<open>Prelude\<close>, whose failures keep
  the state the code leaves; maps keep JavaScript's insertion order. Identifiers and e-mail addresses
  are HOL strings, JSON texts lists of UTF-16 code units (\<open>Json\<close>), bytes are words.

  \<^bold>\<open>Shared theories.\<close> \<open>Prelude\<close>: strings, numbers and maps of JavaScript, computations that throw, and the
  rules to run them (\<open>run_simps\<close>) and to show what they keep (\<open>keeps_rules\<close>). \<open>Json\<close>: documents.

  \<^bold>\<open>Roles and permissions.\<close> \<open>Rbac_Config\<close> is \<open>config/rbac.ts\<close>; \<open>Rbac_Repo\<close> is \<open>repositories/rbac.ts\<close>, every
  statement with both caches; \<open>Rbac_Service\<close> is \<open>services/rbac.ts\<close> and \<open>middleware/rbac.ts\<close>. The recursive SQL
  query over included roles is a walk with fuel 3, the depth the query itself stops at. \<open>Caller_Covers\<close> states the
  interface of the permission queries as the locale \<open>permission_source\<close> and proves the caller check in
  it; \<open>Rbac_Perms\<close> interprets it on the repository. \<open>Rbac_Writes\<close>, \<open>Rbac_Ops\<close> and \<open>Rbac_Safety\<close> show what each
  write, each service operation and each sequence of requests does; \<open>Rbac_Claims\<close> has the properties:
  no escalation, an owner is kept, only outranked members change, exact checks, invitations, and
  tables and caches that stay consistent.

  \<^bold>\<open>Signing in.\<close> \<open>Auth_Db\<close> and \<open>Auth_Service\<close> are \<open>repositories/auth.ts\<close>, \<open>services/auth.ts\<close> and the password part of
  \<open>utils/auth.ts\<close>: login with its limits, second factors, exchange codes, keys. \<open>Totp\<close> is \<open>utils/totp.ts\<close> with
  HMAC, PBKDF2 and AES as parameters. \<open>Auth_Claims\<close>: a session takes every proof, a code works once,
  guesses are limited. \<open>Totp_Claims\<close>: base32 as bits, and that an enrolled authenticator is accepted.

  \<^bold>\<open>Outgoing requests.\<close> \<open>Ssrf\<close> is \<open>utils/ssrf.ts\<close>, \<open>Ssrf_Claims\<close> its address checks against the networks of the
  RFCs and where a webhook can end up, DNS and redirects chosen by an adversary.

  \<^bold>\<open>Scans in the tables.\<close> \<open>Event_Ids\<close>, \<open>Runner_Messages\<close>, \<open>Scans_Db\<close> and \<open>Scans_Events\<close> are event numbering, texts
  shown to users, and the scan statements of \<open>repositories/scans.ts\<close>, its batch consumer included.
  \<open>Scans_Facts\<close>, \<open>Scans_Ended\<close>, \<open>Redelivery\<close> (with the locale \<open>event_log\<close>, what at-least-once delivery needs of
  a consumer) and \<open>Isolation\<close> are about one batch; \<open>Scan_Claims\<close> about histories of batches: an ended scan stays as it
  ended, redelivery is harmless, tenants do not mix. \<open>Scan_Config_Store\<close> is \<open>services/scanConfigStore.ts\<close>.

  \<^bold>\<open>The coordinator.\<close> \<open>Runner_Access\<close> (\<open>coordinator/runnerAccess.ts\<close>, \<open>utils.ts\<close>), \<open>Delivery\<close> (\<open>delivery.ts\<close>, promises as
  explicit chains), \<open>Coord_State\<close> (\<open>StateManager.ts\<close> and what the runtime holds), \<open>Queue_Service\<close>,
  \<open>Job_Handlers\<close>, \<open>Resume\<close>, \<open>Ws_Handler\<close>, \<open>Runner_Handlers\<close>, \<open>Watchdog\<close> and \<open>Request_Handlers\<close> are the files of the same
  names under \<open>coordinator\<close>; \<open>Coordinator\<close> is the object as a machine (\<open>Coordinator.ts\<close>) whose reachable states
  \<open>coord_reach\<close> are those of any sequence of requests, messages, closed sockets, alarms, losses of
  memory and table changes. \<open>Coord_Inv\<close> and \<open>Coord_Steps\<close> prove its invariant by rules that follow the
  handlers; \<open>Coord_Frames\<close> what they leave alone. \<open>Coord_Claims\<close>, \<open>Event_Claims\<close>, \<open>Lifecycle_Claims\<close>, \<open>Dispatch_Claims\<close>,
  \<open>Message_Claims\<close> and \<open>Version_Order\<close> hold the properties; \<open>Coord_Demo\<close> is the deployment their witnesses run on.

  \<^bold>\<open>The Worker.\<close> \<open>Runners_Service\<close> (\<open>services/runners.ts\<close>, \<open>repositories/runners.ts\<close>, the queue consumer of \<open>index.ts\<close>),
  \<open>Scheduler\<close> (\<open>utils/scheduler.ts\<close>) and \<open>Worker\<close>, the machine \<open>worker_reach\<close> of everything above together. It
  refines the coordinator's: every coordinator inside a reachable Worker is one \<open>coord_reach\<close> allows.
  \<open>Worker_Runners\<close>, \<open>Worker_Tickets\<close>, \<open>Worker_Queue\<close>, \<open>Worker_Claims\<close> and \<open>Schedule_Claims\<close> say who may connect, command and
  watch, that tickets open once, that queueing is all or nothing, that queued scans reach a runner,
  and what schedules mean.

  \<^bold>\<open>The gate and deletion.\<close> \<open>Gateway\<close> and \<open>Gateway_Keys\<close> are the middleware with its session cache,
  \<open>Scan_Deletion\<close> and \<open>Account_Deletion\<close> are \<open>repositories/scanDeletion.ts\<close>, \<open>repositories/cleanup.ts\<close> and \<open>utils/cleanup.ts\<close>.
  \<open>Gateway_Claims\<close>: who is admitted, when a revoked key dies. \<open>Deletion_Claims\<close>: what a deletion leaves, and
  that it ends.

  \<^bold>\<open>Users and their scans.\<close> \<open>Base64url\<close> is \<open>utils/base64url.ts\<close>, \<open>Scans_Service\<close> is \<open>services/scans.ts\<close> with the rest of
  \<open>repositories/scans.ts\<close>. \<open>Scans_Privacy\<close> relates two states that look alike to a user and shows every
  request keep them so, by rules that follow two runs side by side; \<open>Scans_Writes\<close> shows what requests
  leave alone; \<open>Scans_Pages\<close> and \<open>Scans_History\<close> are about the paged list and the web client that walks it
  (\<open>packages/web/src/services/scansService.ts\<close>). \<open>Desk_Claims\<close> holds the properties.

  \<^bold>\<open>Bounds and fuel.\<close> All loops are structural recursion or have a termination proof. Where the code
  limits a loop itself, its limit is the argument the recursion descends on: the walk over included roles (depth 3), redirects (the limit of
  \<open>utils/ssrf.ts\<close>), chunks of a purge (\<open>SCAN_CHILD_MAX_CHUNKS\<close>) and pages of the web client (\<open>maxPages\<close>).
  Integers of JavaScript are unbounded, sequence numbers are checked against \<open>MAX_SAFE_INTEGER\<close> as the
  code does; bytes, hashes and codes are words.

  \<^bold>\<open>Parameters.\<close> What the code calls and the repository does not contain is an argument: hashes, HMAC,
  PBKDF2 and AES of Web Crypto, tokens of \<open>hono/jwt\<close>, DNS over HTTPS and fetch, the URL parser,
  \<open>JSON.parse\<close> and \<open>JSON.stringify\<close> on texts, random ids, the text SQLite makes of times and of bound values,
  and the analysis an AI model writes. Which call fails is chosen by an argument as well. Hypotheses
  about them state documented behaviour only (a token is read back until its time, for example).

  \<^bold>\<open>Not modelled.\<close> The routes, which unpack arguments and format answers; CORS headers, audit entries and
  login history; registration, passkeys, OAuth callbacks and guest accounts; project settings and
  analytics; e-mails, webhooks' signatures and delivery; the rewriting of hosts and the cache of the
  specification parser; licenses; feedback and statistics. Outages of the session cache are left out of
  the gate, the branch of the consumer for a full database likewise. Account and scan deletion run in
  histories of their own, beside the machine of the Worker, and a Worker is one isolate: its in-memory
  caches are not replicated. The Go engine is any peer that sends messages. The web dashboard but for
  its history reader, the browser extension, documentation search, demo targets, deployment and tests
  are outside.
\<close>

end
